(* ===== verification/Prelude.thy ===== *)
theory Prelude
  imports Main
begin

text \<open>
  Shared vocabulary of the development: results with exceptions as values, the machine
  integers the sources compute with, the interface of the \<open>fc\<close> library, and the list and
  association-list operations every object index is built from.

  \<^item> \<open>result\<close>: a C++ function that may throw returns \<open>Inl e\<close> for the exception \<open>e\<close> and
    \<open>Inr v\<close> for a normal return. \<open>bnd\<close> sequences two such computations and \<open>ensure\<close> is
    \<open>FC_ASSERT\<close> / \<open>GRAPHENE_ASSERT\<close> in front of a continuation.
  \<^item> \<open>fc_lib\<close>: the operations of the \<open>fc\<close> library (a git submodule of the repository) the
    sources call. They are a parameter of every definition that uses them; the locale
    \<open>fc_safe\<close> states the documented laws the properties rely on.
\<close>

declare Let_def [simp]

section \<open>Results and exceptions\<close>

text \<open>
  The exception classes the modelled code can throw. \<open>FC_ASSERT\<close> throws
  \<open>fc::assert_exception\<close>, \<open>fc::safe\<close> throws on overflow, and \<open>GRAPHENE_ASSERT\<close> throws the
  class it names. The last three are not C++ exceptions: \<open>Division_by_zero\<close> stands for an integer
  division by zero, which traps, \<open>Undefined_behaviour\<close> for the use of an iterator that points to
  nothing or of an index outside of an array and for the overflow of a plain signed integer, and \<open>Does_not_return\<close> for a loop that runs forever.
\<close>

datatype error =
    Assert_exception
  | Fc_exception
  | Overflow_exception
  | Insufficient_fee
  | Transfer_from_account_not_whitelisted
  | Transfer_to_account_not_whitelisted
  | Transfer_restricted_transfer_asset
  | Override_transfer_not_permitted
  | Asset_reserve_invalid_on_mia
  | Liquidity_pool_exchange_unfillable_price
  | Unlinkable_block_exception
  | Invalid_committee_approval
  | Tx_missing_other_auth
  | Tx_missing_owner_auth
  | Tx_missing_active_auth
  | Tx_irrelevant_sig
  | Tx_duplicate_sig
  | Duplicate_transaction
  | Division_by_zero
  | Undefined_behaviour
  | Does_not_return

type_synonym 'a result = "error + 'a"

definition bnd :: "'a result \<Rightarrow> ('a \<Rightarrow> 'b result) \<Rightarrow> 'b result" where
  "bnd m k = (case m of Inl e \<Rightarrow> Inl e | Inr x \<Rightarrow> k x)"

definition ensure :: "error \<Rightarrow> bool \<Rightarrow> 'a result \<Rightarrow> 'a result" where
  "ensure e b k = (if b then k else Inl e)"

abbreviation FC_ASSERT :: "bool \<Rightarrow> 'a result \<Rightarrow> 'a result" where
  "FC_ASSERT b k \<equiv> ensure Assert_exception b k"

lemma bnd_Inr [simp]: "bnd (Inr x) k = k x"
  and bnd_Inl [simp]: "bnd (Inl e) k = Inl e"
  by (simp_all add: bnd_def)

lemma bnd_eq_Inr_iff [simp]: "bnd m k = Inr y \<longleftrightarrow> (\<exists>x. m = Inr x \<and> k x = Inr y)"
  by (cases m) (simp_all add: bnd_def)

lemma ensure_True [simp]: "ensure e True k = k"
  and ensure_False [simp]: "ensure e False k = Inl e"
  by (simp_all add: ensure_def)

lemma ensure_eq_Inr_iff [simp]: "ensure e b k = Inr y \<longleftrightarrow> b \<and> k = Inr y"
  by (simp add: ensure_def)

lemma bnd_cong [cong, fundef_cong]: "m = m' \<Longrightarrow> (\<And>x. m' = Inr x \<Longrightarrow> k x = k' x) \<Longrightarrow> bnd m k = bnd m' k'"
  by (cases m') (simp_all add: bnd_def)

text \<open>Congruences for evaluating a concrete run: the continuation is not looked at before the
  first computation has a value.\<close>

lemma bnd_weak_cong: "m = m' \<Longrightarrow> bnd m k = bnd m' k"
  by simp

lemma ensure_weak_cong: "b = b' \<Longrightarrow> ensure e b k = ensure e b' k"
  by simp

lemmas eval_congs = bnd_weak_cong ensure_weak_cong let_weak_cong

text \<open>A fold whose step may throw: the model of a range-based \<open>for\<close> loop with a body that can
  throw.\<close>

fun fold_res :: "('a \<Rightarrow> 's \<Rightarrow> 's result) \<Rightarrow> 'a list \<Rightarrow> 's \<Rightarrow> 's result" where
  "fold_res f [] s = Inr s"
| "fold_res f (x # xs) s = bnd (f x s) (fold_res f xs)"

lemma fold_res_append: "fold_res f (xs @ ys) s = bnd (fold_res f xs s) (fold_res f ys)"
proof (induction xs arbitrary: s)
  case (Cons x xs)
  then show ?case by (cases "f x s") simp_all
qed simp

text \<open>An invariant kept by every step of a throwing loop is kept by the loop.\<close>

lemma fold_res_invariant:
  assumes "\<And>x s s'. x \<in> set xs \<Longrightarrow> P s \<Longrightarrow> f x s = Inr s' \<Longrightarrow> P s'"
    and "P s" and "fold_res f xs s = Inr s'"
  shows "P s'"
  using assms
proof (induction xs arbitrary: s)
  case (Cons x xs)
  from Cons.prems(3) obtain t where t: "f x s = Inr t" "fold_res f xs t = Inr s'" by auto
  have "P t" by (rule Cons.prems(1)[OF _ Cons.prems(2) t(1)]) simp
  moreover have "\<And>y u u'. y \<in> set xs \<Longrightarrow> P u \<Longrightarrow> f y u = Inr u' \<Longrightarrow> P u'"
    by (rule Cons.prems(1)) simp_all
  ultimately show ?case using t(2) by (intro Cons.IH)
qed simp

section \<open>Machine integers\<close>

text \<open>
  \<open>int64_t\<close> values are \<open>int\<close>s in the range below; \<open>uint128_t\<close> values are \<open>int\<close>s taken modulo
  \<open>2 ^ 128\<close>, with the wrap-around of conversions and of every operation written out.
\<close>

definition in_int64 :: "int \<Rightarrow> bool" where
  "in_int64 x \<longleftrightarrow> - (2 ^ 63) \<le> x \<and> x < 2 ^ 63"

definition u128 :: "int \<Rightarrow> int" where
  "u128 x = x mod 2 ^ 128"

definition u128_mul :: "int \<Rightarrow> int \<Rightarrow> int" where
  "u128_mul x y = u128 (x * y)"

definition u128_add :: "int \<Rightarrow> int \<Rightarrow> int" where
  "u128_add x y = u128 (x + y)"

definition u128_sub :: "int \<Rightarrow> int \<Rightarrow> int" where
  "u128_sub x y = u128 (x - y)"

text \<open>\<open>static_cast<int64_t>\<close> and \<open>static_cast<uint64_t>\<close> of a wider value.\<close>

definition to_int64 :: "int \<Rightarrow> int" where
  "to_int64 x = (x + 2 ^ 63) mod 2 ^ 64 - 2 ^ 63"

named_theorems machine_simps \<open>machine integers that do not wrap\<close>

lemma u128_id [machine_simps]: "0 \<le> x \<Longrightarrow> x < 2 ^ 128 \<Longrightarrow> u128 x = x"
  by (simp add: u128_def)

lemma u128_nonneg [simp]: "0 \<le> u128 x"
  and u128_less [simp]: "u128 x < 2 ^ 128"
  by (simp_all add: u128_def)

lemma u128_mul_id [machine_simps]: "0 \<le> x * y \<Longrightarrow> x * y < 2 ^ 128 \<Longrightarrow> u128_mul x y = x * y"
  by (simp add: u128_mul_def u128_id)

lemma u128_add_id [machine_simps]: "0 \<le> x + y \<Longrightarrow> x + y < 2 ^ 128 \<Longrightarrow> u128_add x y = x + y"
  by (simp add: u128_add_def u128_id)

lemma u128_sub_id [machine_simps]: "y \<le> x \<Longrightarrow> x - y < 2 ^ 128 \<Longrightarrow> u128_sub x y = x - y"
  by (simp add: u128_sub_def u128_id)

lemma to_int64_id [machine_simps]: "in_int64 x \<Longrightarrow> to_int64 x = x"
  by (simp add: to_int64_def in_int64_def)

lemma in_int64_to_int64 [simp]: "in_int64 (to_int64 x)"
proof -
  have "(x + 2 ^ 63) mod 2 ^ 64 < (2::int) ^ 64" "0 \<le> (x + 2 ^ 63) mod (2::int) ^ 64"
    by simp_all
  then show ?thesis by (simp add: to_int64_def in_int64_def)
qed

lemma in_int64_zero [simp]: "in_int64 0"
  by (simp add: in_int64_def)

lemma in_int64_between: "in_int64 x \<Longrightarrow> 0 \<le> y \<Longrightarrow> y \<le> x \<Longrightarrow> in_int64 y"
  by (simp add: in_int64_def)

text \<open>Two non-negative \<open>int64_t\<close> values multiply without wrapping in 128 bits.\<close>

lemma int64_prod_bound:
  assumes "in_int64 x" "in_int64 y" "0 \<le> x" "0 \<le> y"
  shows "x * y < 2 ^ 126"
proof -
  have "x * y \<le> (2 ^ 63 - 1) * (2 ^ 63 - 1)"
    using assms by (intro mult_mono) (auto simp: in_int64_def)
  also have "\<dots> < (2::int) ^ 126" by simp
  finally show ?thesis .
qed

section \<open>The interface of the fc library\<close>

text \<open>
  \<open>fc\<close> is a git submodule: its functions are fields of a record that is passed to the code
  that calls them. \<open>safe_*\<close> are the operators of \<open>fc::safe<int64_t>\<close> (the type
  \<open>share_type\<close>), \<open>tps_add\<close> and \<open>tps_diff\<close> the arithmetic of \<open>fc::time_point_sec\<close> (seconds
  since the epoch in 32 bits; a difference is taken in seconds), and \<open>hash_*\<close> the digests an
  HTLC may be locked with.
\<close>

record fc_lib =
  safe_add :: "int \<Rightarrow> int \<Rightarrow> int result"
  safe_sub :: "int \<Rightarrow> int \<Rightarrow> int result"
  safe_mul :: "int \<Rightarrow> int \<Rightarrow> int result"
  safe_div :: "int \<Rightarrow> int \<Rightarrow> int result"
  safe_neg :: "int \<Rightarrow> int result"
  tps_add :: "nat \<Rightarrow> nat \<Rightarrow> nat"
  tps_diff :: "nat \<Rightarrow> nat \<Rightarrow> int"
  hash_ripemd160 :: "nat list \<Rightarrow> nat list"
  hash_sha1 :: "nat list \<Rightarrow> nat list"
  hash_sha256 :: "nat list \<Rightarrow> nat list"
  hash_hash160 :: "nat list \<Rightarrow> nat list"

definition tps_maximum :: nat where
  "tps_maximum = 2 ^ 32 - 1"

lemma less_tps_maximum [simp]: "numeral n < tps_maximum \<longleftrightarrow> (numeral n :: nat) < 4294967295"
  by (simp add: tps_maximum_def)

text \<open>
  The documented laws: a \<open>safe\<close> operation returns the exact result when it fits into
  \<open>int64_t\<close> and throws otherwise; adding seconds to a time that stays below \<open>2 ^ 32\<close> is
  plain addition; a difference of times is the difference of their seconds.
\<close>

locale fc_safe =
  fixes fc :: fc_lib
  assumes safe_add_iff [simp]: "safe_add fc x y = Inr z \<longleftrightarrow> z = x + y \<and> in_int64 (x + y)"
    and safe_sub_iff [simp]: "safe_sub fc x y = Inr z \<longleftrightarrow> z = x - y \<and> in_int64 (x - y)"
    and safe_mul_iff [simp]: "safe_mul fc x y = Inr z \<longleftrightarrow> z = x * y \<and> in_int64 (x * y)"
    and safe_div_exact [simp]: "in_int64 x \<Longrightarrow> 0 \<le> x \<Longrightarrow> 0 < y \<Longrightarrow> safe_div fc x y = Inr (x div y)"
    and safe_neg_iff [simp]: "safe_neg fc x = Inr z \<longleftrightarrow> z = - x \<and> in_int64 (- x)"
    and tps_add_exact: "s + n < 2 ^ 32 \<Longrightarrow> tps_add fc s n = s + n"
    and tps_diff_exact [simp]: "tps_diff fc s t = int s - int t"
begin

lemma safe_add_Inr: "in_int64 (x + y) \<Longrightarrow> safe_add fc x y = Inr (x + y)"
  and safe_sub_Inr: "in_int64 (x - y) \<Longrightarrow> safe_sub fc x y = Inr (x - y)"
  and safe_mul_Inr: "in_int64 (x * y) \<Longrightarrow> safe_mul fc x y = Inr (x * y)"
  and safe_neg_Inr: "in_int64 (- x) \<Longrightarrow> safe_neg fc x = Inr (- x)"
  by simp_all

lemma safe_add_throws: "\<not> in_int64 (x + y) \<Longrightarrow> \<exists>e. safe_add fc x y = Inl e"
  using safe_add_iff[of x y] by (cases "safe_add fc x y") auto

end

text \<open>A reference instance of the interface, used wherever a property is evaluated.\<close>

definition checked :: "int \<Rightarrow> int result" where
  "checked x = (if in_int64 x then Inr x else Inl Overflow_exception)"

definition fc_ref :: fc_lib where
  "fc_ref = \<lparr> safe_add = (\<lambda>x y. checked (x + y)), safe_sub = (\<lambda>x y. checked (x - y)),
     safe_mul = (\<lambda>x y. checked (x * y)),
     safe_div = (\<lambda>x y. if y = 0 then Inl Division_by_zero else checked (sgn x * sgn y * (\<bar>x\<bar> div \<bar>y\<bar>))), safe_neg = (\<lambda>x. checked (- x)),
     tps_add = (\<lambda>s n. (s + n) mod 2 ^ 32), tps_diff = (\<lambda>s t. int s - int t),
     hash_ripemd160 = (\<lambda>m. 1 # m), hash_sha1 = (\<lambda>m. 2 # m), hash_sha256 = (\<lambda>m. 3 # m),
     hash_hash160 = (\<lambda>m. 4 # m) \<rparr>"

interpretation fc_ref: fc_safe fc_ref
proof unfold_locales
  show "safe_div fc_ref x y = Inr (x div y)" if "in_int64 x" "0 \<le> x" "0 < y" for x y
  proof -
    have "0 \<le> x div y" "x div y \<le> x" using that zdiv_mono2[of x 1 y] by (simp_all add: pos_imp_zdiv_nonneg_iff)
    then have "in_int64 (x div y)" using in_int64_between[OF that(1)] by simp
    then show ?thesis using that by (cases "x = 0") (simp_all add: fc_ref_def checked_def)
  qed
qed (auto simp: fc_ref_def checked_def)

lemmas fc_ref_simps = fc_ref_def checked_def in_int64_def

section \<open>First-match list operations\<close>

text \<open>
  An object index is a list of objects in creation order; the sources look an object up,
  modify it in place or erase it. The three operations work on the first match.
\<close>

fun upd_first :: "('a \<Rightarrow> bool) \<Rightarrow> ('a \<Rightarrow> 'a) \<Rightarrow> 'a list \<Rightarrow> 'a list" where
  "upd_first P f [] = []"
| "upd_first P f (x # xs) = (if P x then f x # xs else x # upd_first P f xs)"

fun del_first :: "('a \<Rightarrow> bool) \<Rightarrow> 'a list \<Rightarrow> 'a list" where
  "del_first P [] = []"
| "del_first P (x # xs) = (if P x then xs else x # del_first P xs)"

definition lsum :: "('a \<Rightarrow> int) \<Rightarrow> 'a list \<Rightarrow> int" where
  "lsum f xs = sum_list (map f xs)"

lemma lsum_Nil [simp]: "lsum f [] = 0"
  and lsum_Cons [simp]: "lsum f (x # xs) = f x + lsum f xs"
  and lsum_append [simp]: "lsum f (xs @ ys) = lsum f xs + lsum f ys"
  by (simp_all add: lsum_def)

lemma lsum_upd_first:
  "find P xs = Some x \<Longrightarrow> lsum f (upd_first P g xs) = lsum f xs - f x + f (g x)"
  by (induction xs) (auto split: if_splits)

lemma upd_first_None: "find P xs = None \<Longrightarrow> upd_first P g xs = xs"
  by (induction xs) (auto split: if_splits)

lemma lsum_del_first: "find P xs = Some x \<Longrightarrow> lsum f (del_first P xs) = lsum f xs - f x"
  by (induction xs) (auto split: if_splits)

lemma find_SomeD: "find P xs = Some x \<Longrightarrow> x \<in> set xs \<and> P x"
  by (induction xs) (auto split: if_splits)

lemma find_append: "find P (xs @ ys) = (case find P xs of None \<Rightarrow> find P ys | Some x \<Rightarrow> Some x)"
  by (induction xs) auto

lemma set_upd_first: "find P xs = Some x \<Longrightarrow> set (upd_first P g xs) \<subseteq> insert (g x) (set xs)"
  by (induction xs) (auto split: if_splits)

lemma set_del_first: "set (del_first P xs) \<subseteq> set xs"
  by (induction xs) auto

lemma find_upd_first_same:
  "find P xs = Some x \<Longrightarrow> P (g x) \<Longrightarrow> find P (upd_first P g xs) = Some (g x)"
  by (induction xs) (auto split: if_splits)

lemma find_upd_first_other:
  assumes "\<And>x. P x \<Longrightarrow> \<not> Q x" and "\<And>x. P x \<Longrightarrow> \<not> Q (g x)"
  shows "find Q (upd_first P g xs) = find Q xs"
  using assms by (induction xs) auto

lemma lsum_cong: "(\<And>x. x \<in> set xs \<Longrightarrow> f x = g x) \<Longrightarrow> lsum f xs = lsum g xs"
  by (simp add: lsum_def cong: map_cong)

lemma lsum_nonneg: "(\<And>x. x \<in> set xs \<Longrightarrow> 0 \<le> f x) \<Longrightarrow> 0 \<le> lsum f xs"
  by (induction xs) auto

section \<open>Rounding\<close>

text \<open>The sources round an amount up by adding the divisor minus one before dividing.\<close>

definition ceil_div :: "int \<Rightarrow> int \<Rightarrow> int" where
  "ceil_div x d = (x + d - 1) div d"

lemma floor_bounds:
  assumes "0 < (d::int)"
  shows "(x div d) * d \<le> x" and "x < (x div d + 1) * d"
proof -
  have eq: "(x div d) * d = x - x mod d" by (simp add: minus_mod_eq_div_mult)
  have "0 \<le> x mod d" "x mod d < d" using assms by simp_all
  with eq show "(x div d) * d \<le> x" "x < (x div d + 1) * d"
    by (simp_all add: distrib_right)
qed

lemma ceil_div_bounds:
  assumes "0 < d"
  shows "x \<le> ceil_div x d * d" and "(ceil_div x d - 1) * d < x"
  using floor_bounds[OF assms, of "x + d - 1"] unfolding ceil_div_def
  by (simp_all add: algebra_simps)

lemma le_div_iff_mult_le: "0 < (d::int) \<Longrightarrow> n \<le> x div d \<longleftrightarrow> n * d \<le> x"
  using floor_bounds[of d x]
  by (metis add1_zle_eq linorder_not_less mult_less_cancel_right mult_right_mono nless_le
      order_le_less_trans order_less_imp_le)

lemma ceil_div_le_iff: "0 < d \<Longrightarrow> ceil_div x d \<le> n \<longleftrightarrow> x \<le> n * d"
proof -
  assume d: "0 < d"
  have "ceil_div x d \<le> n \<longleftrightarrow> \<not> (n + 1 \<le> (x + d - 1) div d)"
    unfolding ceil_div_def by linarith
  also have "\<dots> \<longleftrightarrow> \<not> ((n + 1) * d \<le> x + d - 1)"
    using d by (simp add: le_div_iff_mult_le)
  also have "\<dots> \<longleftrightarrow> x \<le> n * d" by (simp add: distrib_right) linarith
  finally show ?thesis .
qed

lemma ceil_div_nonneg: "0 < d \<Longrightarrow> 0 \<le> x \<Longrightarrow> 0 \<le> ceil_div x d"
  by (simp add: ceil_div_def pos_imp_zdiv_nonneg_iff)

end
