(* ===== verification/Asset.thy ===== *)
theory Asset
  imports Prelude
begin

text \<open>
  Amounts of an asset and prices: \<open>libraries/protocol/include/graphene/protocol/asset.hpp\<close>
  and \<open>libraries/protocol/asset.cpp\<close>. An operator that contains \<open>FC_ASSERT\<close> or
  \<open>fc::safe\<close> arithmetic returns a \<open>result\<close>. The scaling of a price by a ratio
  (\<open>price * ratio_type\<close>) computes with \<open>boost::rational\<close> and is not part of this theory.

  The lemmas give the exact meaning of the two multiplications (rounding down and rounding
  up), relate them by a Galois connection, and show that the comparison operators of prices
  form a strict total order up to the equality operator.
\<close>

section \<open>Data\<close>

type_synonym share_type = int
type_synonym asset_id_type = nat

record asset =
  amount :: share_type
  asset_id :: asset_id_type

abbreviation ASSET :: "share_type \<Rightarrow> asset_id_type \<Rightarrow> asset" where
  "ASSET x i \<equiv> \<lparr>amount = x, asset_id = i\<rparr>"

record price =
  base :: asset
  quote :: asset

definition GRAPHENE_MAX_SHARE_SUPPLY :: int where
  "GRAPHENE_MAX_SHARE_SUPPLY = 1000000000000000"

definition GRAPHENE_100_PERCENT :: int where
  "GRAPHENE_100_PERCENT = 10000"

definition GRAPHENE_COLLATERAL_RATIO_DENOM :: nat where
  "GRAPHENE_COLLATERAL_RATIO_DENOM = 1000"

definition GRAPHENE_MIN_COLLATERAL_RATIO :: nat where
  "GRAPHENE_MIN_COLLATERAL_RATIO = 1001"

definition GRAPHENE_MAX_COLLATERAL_RATIO :: nat where
  "GRAPHENE_MAX_COLLATERAL_RATIO = 32000"

section \<open>Arithmetic and comparison of assets\<close>

definition asset_add :: "fc_lib \<Rightarrow> asset \<Rightarrow> asset \<Rightarrow> asset result" where
  "asset_add fc a b =
     FC_ASSERT (asset_id a = asset_id b)
       (bnd (safe_add fc (amount a) (amount b)) (\<lambda>x. Inr (ASSET x (asset_id a))))"

definition asset_sub :: "fc_lib \<Rightarrow> asset \<Rightarrow> asset \<Rightarrow> asset result" where
  "asset_sub fc a b =
     FC_ASSERT (asset_id a = asset_id b)
       (bnd (safe_sub fc (amount a) (amount b)) (\<lambda>x. Inr (ASSET x (asset_id a))))"

definition asset_neg :: "fc_lib \<Rightarrow> asset \<Rightarrow> asset result" where
  "asset_neg fc a = bnd (safe_neg fc (amount a)) (\<lambda>x. Inr (ASSET x (asset_id a)))"

definition asset_less :: "asset \<Rightarrow> asset \<Rightarrow> bool result" where
  "asset_less a b = FC_ASSERT (asset_id a = asset_id b) (Inr (amount a < amount b))"

definition asset_le :: "asset \<Rightarrow> asset \<Rightarrow> bool result" where
  "asset_le a b = bnd (asset_less b a) (\<lambda>r. Inr (\<not> r))"

definition asset_ge :: "asset \<Rightarrow> asset \<Rightarrow> bool result" where
  "asset_ge a b = bnd (asset_less a b) (\<lambda>r. Inr (\<not> r))"

definition scaled_precision :: "nat \<Rightarrow> share_type result" where
  "scaled_precision precision = FC_ASSERT (precision < 19) (Inr (10 ^ precision))"

lemma asset_less_Inr [simp]:
  "asset_less a b = Inr r \<longleftrightarrow> asset_id a = asset_id b \<and> r = (amount a < amount b)"
  by (auto simp: asset_less_def)

lemma asset_le_Inr [simp]:
  "asset_le a b = Inr r \<longleftrightarrow> asset_id a = asset_id b \<and> r = (amount a \<le> amount b)"
  by (auto simp: asset_le_def)

lemma asset_ge_Inr [simp]:
  "asset_ge a b = Inr r \<longleftrightarrow> asset_id a = asset_id b \<and> r = (amount b \<le> amount a)"
  by (auto simp: asset_ge_def)

context fc_safe
begin

lemma asset_add_Inr [simp]:
  "asset_add fc a b = Inr c \<longleftrightarrow>
     asset_id a = asset_id b \<and> in_int64 (amount a + amount b) \<and> c = ASSET (amount a + amount b) (asset_id a)"
  by (auto simp: asset_add_def)

lemma asset_sub_Inr [simp]:
  "asset_sub fc a b = Inr c \<longleftrightarrow>
     asset_id a = asset_id b \<and> in_int64 (amount a - amount b) \<and> c = ASSET (amount a - amount b) (asset_id a)"
  by (auto simp: asset_sub_def)

lemma asset_neg_Inr [simp]:
  "asset_neg fc a = Inr c \<longleftrightarrow> in_int64 (- amount a) \<and> c = ASSET (- amount a) (asset_id a)"
  by (auto simp: asset_neg_def)

end

section \<open>Prices\<close>

definition price_div :: "asset \<Rightarrow> asset \<Rightarrow> price result" where
  "price_div b q = FC_ASSERT (asset_id b \<noteq> asset_id q) (Inr \<lparr>base = b, quote = q\<rparr>)"

definition price_max :: "asset_id_type \<Rightarrow> asset_id_type \<Rightarrow> price result" where
  "price_max b q = price_div (ASSET GRAPHENE_MAX_SHARE_SUPPLY b) (ASSET 1 q)"

definition price_min :: "asset_id_type \<Rightarrow> asset_id_type \<Rightarrow> price result" where
  "price_min b q = price_div (ASSET 1 b) (ASSET GRAPHENE_MAX_SHARE_SUPPLY q)"

definition price_inverse :: "price \<Rightarrow> price" where
  "price_inverse p = \<lparr>base = quote p, quote = base p\<rparr>"

definition price_is_null :: "price \<Rightarrow> bool" where
  "price_is_null p \<longleftrightarrow> asset_id (base p) = 0 \<and> asset_id (quote p) = 0"

definition price_validate :: "bool \<Rightarrow> price \<Rightarrow> unit result" where
  "price_validate check_upper_bound p =
     FC_ASSERT (0 < amount (base p))
    (FC_ASSERT (0 < amount (quote p))
    (FC_ASSERT (asset_id (base p) \<noteq> asset_id (quote p))
    (if check_upper_bound then
       FC_ASSERT (amount (base p) \<le> GRAPHENE_MAX_SHARE_SUPPLY)
      (FC_ASSERT (amount (quote p) \<le> GRAPHENE_MAX_SHARE_SUPPLY)
      (Inr ()))
     else Inr ())))"

definition price_eq :: "price \<Rightarrow> price \<Rightarrow> bool" where
  "price_eq a b =
     (if (asset_id (base a), asset_id (quote a)) \<noteq> (asset_id (base b), asset_id (quote b)) then False
      else
        let amult = u128_mul (u128 (amount (quote b))) (u128 (amount (base a)));
            bmult = u128_mul (u128 (amount (quote a))) (u128 (amount (base b)))
        in amult = bmult)"

definition price_less :: "price \<Rightarrow> price \<Rightarrow> bool" where
  "price_less a b =
     (if asset_id (base a) < asset_id (base b) then True
      else if asset_id (base b) < asset_id (base a) then False
      else if asset_id (quote a) < asset_id (quote b) then True
      else if asset_id (quote b) < asset_id (quote a) then False
      else
        let amult = u128_mul (u128 (amount (quote b))) (u128 (amount (base a)));
            bmult = u128_mul (u128 (amount (quote a))) (u128 (amount (base b)))
        in amult < bmult)"

text \<open>\<open>asset * price\<close>: multiply and round down.\<close>

definition asset_mul :: "asset \<Rightarrow> price \<Rightarrow> asset result" where
  "asset_mul a b =
     (if asset_id a = asset_id (base b) then
        FC_ASSERT (0 < amount (base b))
       (let result = u128_mul (u128 (amount a)) (u128 (amount (quote b))) div amount (base b)
        in FC_ASSERT (result \<le> GRAPHENE_MAX_SHARE_SUPPLY)
          (Inr (ASSET (to_int64 result) (asset_id (quote b)))))
      else if asset_id a = asset_id (quote b) then
        FC_ASSERT (0 < amount (quote b))
       (let result = u128_mul (u128 (amount a)) (u128 (amount (base b))) div amount (quote b)
        in FC_ASSERT (result \<le> GRAPHENE_MAX_SHARE_SUPPLY)
          (Inr (ASSET (to_int64 result) (asset_id (base b)))))
      else Inl Assert_exception)"

text \<open>\<open>asset::multiply_and_round_up\<close>.\<close>

definition multiply_and_round_up :: "asset \<Rightarrow> price \<Rightarrow> asset result" where
  "multiply_and_round_up a b =
     (if asset_id a = asset_id (base b) then
        FC_ASSERT (0 < amount (base b))
       (let result = u128_sub (u128_add (u128_mul (u128 (amount a)) (u128 (amount (quote b))))
                                        (amount (base b))) 1 div amount (base b)
        in FC_ASSERT (result \<le> GRAPHENE_MAX_SHARE_SUPPLY)
          (Inr (ASSET (to_int64 result) (asset_id (quote b)))))
      else if asset_id a = asset_id (quote b) then
        FC_ASSERT (0 < amount (quote b))
       (let result = u128_sub (u128_add (u128_mul (u128 (amount a)) (u128 (amount (base b))))
                                        (amount (quote b))) 1 div amount (quote b)
        in FC_ASSERT (result \<le> GRAPHENE_MAX_SHARE_SUPPLY)
          (Inr (ASSET (to_int64 result) (asset_id (base b)))))
      else Inl Assert_exception)"

section \<open>Price feeds\<close>

record price_feed =
  settlement_price :: price
  core_exchange_rate :: price
  maintenance_collateral_ratio :: nat
  maximum_short_squeeze_ratio :: nat

definition price_feed_validate :: "price_feed \<Rightarrow> unit result" where
  "price_feed_validate f =
     bnd (if \<not> price_is_null (settlement_price f) then price_validate False (settlement_price f)
          else Inr ()) (\<lambda>_.
     FC_ASSERT (GRAPHENE_MIN_COLLATERAL_RATIO \<le> maximum_short_squeeze_ratio f)
    (FC_ASSERT (maximum_short_squeeze_ratio f \<le> GRAPHENE_MAX_COLLATERAL_RATIO)
    (FC_ASSERT (GRAPHENE_MIN_COLLATERAL_RATIO \<le> maintenance_collateral_ratio f)
    (FC_ASSERT (maintenance_collateral_ratio f \<le> GRAPHENE_MAX_COLLATERAL_RATIO)
    (Inr ())))))"

definition price_feed_is_for :: "price_feed \<Rightarrow> asset_id_type \<Rightarrow> bool" where
  "price_feed_is_for f i =
     (if \<not> price_is_null (settlement_price f) then asset_id (base (settlement_price f)) = i
      else if \<not> price_is_null (core_exchange_rate f) then asset_id (base (core_exchange_rate f)) = i
      else True)"

text \<open>\<open>get_margin_call_price_numerator\<close>: the order ratio MSSR - MCFR in units of 1/1000, floored
  at 1000. The 16-bit subtraction is guarded, so natural subtraction is exact.\<close>

definition get_margin_call_price_numerator :: "price_feed \<Rightarrow> nat option \<Rightarrow> nat" where
  "get_margin_call_price_numerator f maybe_mcfr =
     (let mcfr = (case maybe_mcfr of Some m \<Rightarrow> m | None \<Rightarrow> 0);
          numerator = (if mcfr < maximum_short_squeeze_ratio f
                       then maximum_short_squeeze_ratio f - mcfr
                       else GRAPHENE_COLLATERAL_RATIO_DENOM)
      in if numerator < GRAPHENE_COLLATERAL_RATIO_DENOM then GRAPHENE_COLLATERAL_RATIO_DENOM
         else numerator)"

section \<open>Well-formed prices\<close>

text \<open>A price that passed \<open>validate\<close>, with amounts that are \<open>int64_t\<close> values.\<close>

definition wf_price :: "price \<Rightarrow> bool" where
  "wf_price p \<longleftrightarrow> price_validate False p = Inr () \<and> in_int64 (amount (base p)) \<and> in_int64 (amount (quote p))"

lemma wf_priceD:
  assumes "wf_price p"
  shows "0 < amount (base p)" "0 < amount (quote p)" "asset_id (base p) \<noteq> asset_id (quote p)"
    "in_int64 (amount (base p))" "in_int64 (amount (quote p))"
  using assms by (auto simp: wf_price_def price_validate_def)

lemma wf_price_inverse [simp]: "wf_price (price_inverse p) \<longleftrightarrow> wf_price p"
  by (auto simp: wf_price_def price_validate_def price_inverse_def)

lemma u128_mul_int64 [machine_simps]:
  assumes "in_int64 x" "in_int64 y" "0 \<le> x" "0 \<le> y"
  shows "u128_mul (u128 x) (u128 y) = x * y"
proof -
  have "u128 x = x" "u128 y = y" using assms by (simp_all add: u128_id in_int64_def)
  moreover have "x * y < 2 ^ 128" using int64_prod_bound[OF assms] by simp
  ultimately show ?thesis using assms by (simp add: u128_mul_id)
qed

lemma u128_round_up [machine_simps]:
  assumes "in_int64 x" "in_int64 y" "0 \<le> x" "0 \<le> y" "in_int64 d" "0 < d"
  shows "u128_sub (u128_add (x * y) d) 1 div d = ceil_div (x * y) d"
proof -
  have b: "x * y < 2 ^ 126" "0 \<le> x * y" using assms int64_prod_bound by simp_all
  have "d < 2 ^ 63" using assms by (simp add: in_int64_def)
  then have "u128_add (x * y) d = x * y + d" "u128_sub (x * y + d) 1 = x * y + d - 1"
    using b assms(6) by (simp_all add: u128_add_id u128_sub_id)
  then show ?thesis by (simp add: ceil_div_def)
qed

lemma price_less_same_pair:
  assumes "wf_price p" "wf_price q" "asset_id (base p) = asset_id (base q)"
    "asset_id (quote p) = asset_id (quote q)"
  shows "price_less p q \<longleftrightarrow> amount (base p) * amount (quote q) < amount (base q) * amount (quote p)"
  using assms wf_priceD[OF assms(1)] wf_priceD[OF assms(2)]
  by (simp add: price_less_def machine_simps mult.commute)

lemma price_eq_same_pair:
  assumes "wf_price p" "wf_price q"
  shows "price_eq p q \<longleftrightarrow> asset_id (base p) = asset_id (base q) \<and>
    asset_id (quote p) = asset_id (quote q) \<and>
    amount (base p) * amount (quote q) = amount (base q) * amount (quote p)"
  using assms wf_priceD[OF assms(1)] wf_priceD[OF assms(2)]
  by (auto simp: price_eq_def machine_simps mult.commute)

lemma cross_mult_less_trans:
  fixes a b c d e f :: int
  assumes "a * d < c * b" "c * f < e * d" "0 < b" "0 < d" "0 < f"
  shows "a * f < e * b"
proof -
  have "a * d * f < c * b * f" using assms by simp
  moreover have "c * f * b < e * d * b" using assms by simp
  ultimately have "d * (a * f) < d * (e * b)" by (simp add: algebra_simps)
  then show ?thesis using assms(4) by simp
qed

section \<open>Exact meaning of the multiplications\<close>

lemma asset_mul_base:
  assumes p: "wf_price p" and a: "asset_id a = asset_id (base p)" "0 \<le> amount a" "in_int64 (amount a)"
    and r: "asset_mul a p = Inr r"
  shows "r = ASSET (amount a * amount (quote p) div amount (base p)) (asset_id (quote p))"
    and "0 \<le> amount r" and "amount r \<le> GRAPHENE_MAX_SHARE_SUPPLY"
proof -
  note w = wf_priceD[OF p]
  let ?x = "amount a * amount (quote p) div amount (base p)"
  have x: "0 \<le> ?x" using w a by (simp add: pos_imp_zdiv_nonneg_iff)
  have "?x \<le> GRAPHENE_MAX_SHARE_SUPPLY" and eq: "r = ASSET (to_int64 ?x) (asset_id (quote p))"
    using r w a by (auto simp: asset_mul_def machine_simps)
  then show "r = ASSET ?x (asset_id (quote p))"
    using x by (simp add: to_int64_id in_int64_def GRAPHENE_MAX_SHARE_SUPPLY_def)
  then show "0 \<le> amount r" "amount r \<le> GRAPHENE_MAX_SHARE_SUPPLY"
    using x \<open>?x \<le> GRAPHENE_MAX_SHARE_SUPPLY\<close> by simp_all
qed

lemma multiply_and_round_up_base:
  assumes p: "wf_price p" and a: "asset_id a = asset_id (base p)" "0 \<le> amount a" "in_int64 (amount a)"
    and r: "multiply_and_round_up a p = Inr r"
  shows "r = ASSET (ceil_div (amount a * amount (quote p)) (amount (base p))) (asset_id (quote p))"
    and "0 \<le> amount r" and "amount r \<le> GRAPHENE_MAX_SHARE_SUPPLY"
proof -
  note w = wf_priceD[OF p]
  let ?x = "ceil_div (amount a * amount (quote p)) (amount (base p))"
  have x: "0 \<le> ?x" using w a by (intro ceil_div_nonneg) simp_all
  have "?x \<le> GRAPHENE_MAX_SHARE_SUPPLY" and eq: "r = ASSET (to_int64 ?x) (asset_id (quote p))"
    using r w a by (auto simp: multiply_and_round_up_def machine_simps)
  then show "r = ASSET ?x (asset_id (quote p))"
    using x by (simp add: to_int64_id in_int64_def GRAPHENE_MAX_SHARE_SUPPLY_def)
  then show "0 \<le> amount r" "amount r \<le> GRAPHENE_MAX_SHARE_SUPPLY"
    using x \<open>?x \<le> GRAPHENE_MAX_SHARE_SUPPLY\<close> by simp_all
qed

text \<open>The quote side of a price is the base side of its inverse.\<close>

lemma asset_mul_inverse:
  "wf_price p \<Longrightarrow> asset_mul a (price_inverse p) = asset_mul a p"
  by (auto simp: asset_mul_def price_inverse_def dest: wf_priceD)

lemma multiply_and_round_up_inverse:
  "wf_price p \<Longrightarrow> multiply_and_round_up a (price_inverse p) = multiply_and_round_up a p"
  by (auto simp: multiply_and_round_up_def price_inverse_def dest: wf_priceD)

lemma multiply_and_round_up_quote:
  assumes p: "wf_price p" and a: "asset_id a = asset_id (quote p)" "0 \<le> amount a" "in_int64 (amount a)"
    and r: "multiply_and_round_up a p = Inr r"
  shows "r = ASSET (ceil_div (amount a * amount (base p)) (amount (quote p))) (asset_id (base p))"
    and "0 \<le> amount r"
  using multiply_and_round_up_base[of "price_inverse p" a r] assms
  by (simp_all add: multiply_and_round_up_inverse) (simp_all add: price_inverse_def)

text \<open>
  C26: \<open>asset * price\<close> and \<open>multiply_and_round_up\<close> form a Galois connection. For a valid
  price, selling \<open>a\<close> of the base asset (rounding down) yields at least \<open>b\<close> of the quote asset
  exactly when \<open>a\<close> is at least what \<open>multiply_and_round_up\<close> asks for \<open>b\<close>. So rounding never
  favours the taker, and rounding up never asks for more than is needed.
\<close>

theorem mul_round_up_galois:
  assumes "wf_price p"
    and "asset_id a = asset_id (base p)" "0 \<le> amount a" "in_int64 (amount a)"
    and "asset_id b = asset_id (quote p)" "0 \<le> amount b" "in_int64 (amount b)"
    and "asset_mul a p = Inr x" and "multiply_and_round_up b p = Inr y"
  shows "amount b \<le> amount x \<longleftrightarrow> amount y \<le> amount a"
proof -
  note w = wf_priceD[OF assms(1)]
  have "amount x = amount a * amount (quote p) div amount (base p)"
    using asset_mul_base(1)[OF assms(1-4,8)] by simp
  then have "amount b \<le> amount x \<longleftrightarrow> amount b * amount (base p) \<le> amount a * amount (quote p)"
    using w by (simp add: le_div_iff_mult_le)
  moreover have "amount y = ceil_div (amount b * amount (base p)) (amount (quote p))"
    using multiply_and_round_up_quote(1)[OF assms(1,5-7,9)] by simp
  then have "amount y \<le> amount a \<longleftrightarrow> amount b * amount (base p) \<le> amount a * amount (quote p)"
    using w by (simp add: ceil_div_le_iff)
  ultimately show ?thesis by simp
qed

theorem mul_round_up_galois_witness:
  "wf_price \<lparr>base = ASSET 7 0, quote = ASSET 3 1\<rparr> \<and>
   asset_mul (ASSET 10 0) \<lparr>base = ASSET 7 0, quote = ASSET 3 1\<rparr> = Inr (ASSET 4 1) \<and>
   multiply_and_round_up (ASSET 4 1) \<lparr>base = ASSET 7 0, quote = ASSET 3 1\<rparr> = Inr (ASSET 10 0) \<and>
   (amount (ASSET 4 1) \<le> amount (ASSET 4 1) \<longleftrightarrow> amount (ASSET 10 0) \<le> amount (ASSET 10 0))"
proof -
  let ?p = "\<lparr>base = ASSET 7 0, quote = ASSET 3 1\<rparr>"
  have p: "wf_price ?p" by (simp add: wf_price_def price_validate_def in_int64_def)
  have x: "asset_mul (ASSET 10 0) ?p = Inr (ASSET 4 1)"
    by (simp add: asset_mul_def u128_mul_def u128_def GRAPHENE_MAX_SHARE_SUPPLY_def to_int64_def)
  have y: "multiply_and_round_up (ASSET 4 1) ?p = Inr (ASSET 10 0)"
    by (simp add: multiply_and_round_up_def u128_mul_def u128_add_def u128_sub_def u128_def
        GRAPHENE_MAX_SHARE_SUPPLY_def to_int64_def)
  have "amount (ASSET 4 1) \<le> amount (ASSET 4 1) \<longleftrightarrow> amount (ASSET 10 0) \<le> amount (ASSET 10 0)"
    by (rule mul_round_up_galois[OF p _ _ _ _ _ _ x y]) (simp_all add: in_int64_def)
  with p x y show ?thesis by blast
qed

lemma price_less_trans:
  assumes w: "wf_price p" "wf_price q" "wf_price r" and "price_less p q" "price_less q r"
  shows "price_less p r"
proof (cases "asset_id (base p) = asset_id (base q) \<and> asset_id (quote p) = asset_id (quote q)
            \<and> asset_id (base q) = asset_id (base r) \<and> asset_id (quote q) = asset_id (quote r)")
  case True
  then have "amount (base p) * amount (quote q) < amount (base q) * amount (quote p)"
    "amount (base q) * amount (quote r) < amount (base r) * amount (quote q)"
    using assms by (simp_all add: price_less_same_pair)
  then have "amount (base p) * amount (quote r) < amount (base r) * amount (quote p)"
    using cross_mult_less_trans wf_priceD(2) w by blast
  with True w show ?thesis by (simp add: price_less_same_pair)
next
  case False
  with assms(4,5) show ?thesis by (auto simp: price_less_def split: if_splits)
qed

text \<open>
  C27: the comparison of prices is a strict total order up to \<open>operator ==\<close> on valid prices:
  irreflexive, transitive (also across different asset pairs), and of two prices exactly one
  is smaller or they are equal. The 128-bit cross products never wrap.
\<close>

theorem price_less_strict_total_order:
  assumes "wf_price p" "wf_price q" "wf_price r"
  shows "\<not> price_less p p \<and> (price_less p q \<and> price_less q r \<longrightarrow> price_less p r) \<and>
    (price_less p q \<and> \<not> price_less q p \<and> \<not> price_eq p q \<or>
     price_less q p \<and> \<not> price_less p q \<and> \<not> price_eq p q \<or>
     price_eq p q \<and> \<not> price_less p q \<and> \<not> price_less q p)"
proof (intro conjI impI)
  show "\<not> price_less p p" using assms(1) by (simp add: price_less_same_pair)
  show "price_less p r" if "price_less p q \<and> price_less q r"
    using that assms price_less_trans by blast
  show "price_less p q \<and> \<not> price_less q p \<and> \<not> price_eq p q \<or>
     price_less q p \<and> \<not> price_less p q \<and> \<not> price_eq p q \<or>
     price_eq p q \<and> \<not> price_less p q \<and> \<not> price_less q p"
  proof (cases "asset_id (base p) = asset_id (base q) \<and> asset_id (quote p) = asset_id (quote q)")
    case True
    then show ?thesis using assms(1,2)
      by (auto simp: price_less_same_pair price_eq_same_pair mult.commute)
  next
    case False
    then show ?thesis by (auto simp: price_less_def price_eq_def)
  qed
qed

theorem price_less_strict_total_order_witness:
  "price_less \<lparr>base = ASSET 1 0, quote = ASSET 3 1\<rparr> \<lparr>base = ASSET 1 0, quote = ASSET 2 1\<rparr> \<and>
   price_less \<lparr>base = ASSET 1 0, quote = ASSET 2 1\<rparr> \<lparr>base = ASSET 1 0, quote = ASSET 5 2\<rparr> \<and>
   price_less \<lparr>base = ASSET 1 0, quote = ASSET 3 1\<rparr> \<lparr>base = ASSET 1 0, quote = ASSET 5 2\<rparr>"
proof -
  let ?p = "\<lparr>base = ASSET 1 0, quote = ASSET 3 1\<rparr>" and ?q = "\<lparr>base = ASSET 1 0, quote = ASSET 2 1\<rparr>"
    and ?r = "\<lparr>base = ASSET 1 0, quote = ASSET 5 2\<rparr>"
  have w: "wf_price ?p" "wf_price ?q" "wf_price ?r"
    by (simp_all add: wf_price_def price_validate_def in_int64_def)
  have "price_less ?p ?q" "price_less ?q ?r"
    by (simp_all add: price_less_def u128_mul_def u128_def)
  with price_less_strict_total_order[OF w] show ?thesis by blast
qed

text \<open>
  The numerator of the margin-call order ratio lies between 1.000 and the maximum short
  squeeze ratio for every valid feed and every margin call fee, so \<open>MSSR - MCFR\<close> never
  underflows and never falls below the floor.
\<close>

theorem margin_call_numerator_bounds:
  assumes "price_feed_validate f = Inr ()"
  shows "GRAPHENE_COLLATERAL_RATIO_DENOM \<le> get_margin_call_price_numerator f mcfr \<and>
    get_margin_call_price_numerator f mcfr \<le> maximum_short_squeeze_ratio f \<and>
    get_margin_call_price_numerator f mcfr < 2 ^ 16"
  using assms
  by (auto simp: price_feed_validate_def get_margin_call_price_numerator_def
      GRAPHENE_MIN_COLLATERAL_RATIO_def GRAPHENE_MAX_COLLATERAL_RATIO_def
      GRAPHENE_COLLATERAL_RATIO_DENOM_def split: option.splits)

definition sample_feed :: price_feed where
  "sample_feed = \<lparr>settlement_price = \<lparr>base = ASSET 5 1, quote = ASSET 1 0\<rparr>,
     core_exchange_rate = \<lparr>base = ASSET 5 1, quote = ASSET 1 0\<rparr>,
     maintenance_collateral_ratio = 1750, maximum_short_squeeze_ratio = 1100\<rparr>"

theorem margin_call_numerator_bounds_witness:
  "GRAPHENE_COLLATERAL_RATIO_DENOM \<le> get_margin_call_price_numerator sample_feed (Some 200) \<and>
    get_margin_call_price_numerator sample_feed (Some 200) \<le> 1100"
proof -
  have "price_feed_validate sample_feed = Inr ()"
    by (simp add: sample_feed_def price_feed_validate_def price_is_null_def price_validate_def
        GRAPHENE_MIN_COLLATERAL_RATIO_def GRAPHENE_MAX_COLLATERAL_RATIO_def cong: eval_congs)
  from margin_call_numerator_bounds[OF this, of "Some 200"] show ?thesis
    by (simp add: sample_feed_def)
qed

end
