(* ===== verification/Object_Store.thy ===== *)
theory Object_Store
  imports Prelude
begin

text \<open>
  One index of the object database as the chain code sees it
  (\<open>libraries/db/include/graphene/db/generic_index.hpp\<close>, \<open>index.hpp\<close>): the objects in the
  order of their ids and the next id. \<open>store_get\<close> is \<open>db.get(id)\<close> (throws when the object is
  missing), \<open>store_put\<close> is \<open>db.modify\<close>, \<open>store_del\<close> is \<open>db.remove\<close> and \<open>store_add\<close> is
  \<open>db.create\<close>. A modification whose lambda throws is modelled by computing the new value
  before \<open>store_put\<close>, because the exception leaves the whole operation, which is undone.

  The locale \<open>object_index\<close> is the contract of an index towards its clients; the store is
  its implementation.
\<close>

record 'v store =
  items :: "(nat \<times> 'v) list"
  next_id :: nat

definition store_find :: "'v store \<Rightarrow> nat \<Rightarrow> 'v option" where
  "store_find st i = map_option snd (find (\<lambda>p. fst p = i) (items st))"

definition store_get :: "'v store \<Rightarrow> nat \<Rightarrow> 'v result" where
  "store_get st i = (case store_find st i of None \<Rightarrow> Inl Assert_exception | Some v \<Rightarrow> Inr v)"

definition store_put :: "'v store \<Rightarrow> nat \<Rightarrow> 'v \<Rightarrow> 'v store" where
  "store_put st i v = st\<lparr>items := upd_first (\<lambda>p. fst p = i) (\<lambda>p. (fst p, v)) (items st)\<rparr>"

definition store_del :: "'v store \<Rightarrow> nat \<Rightarrow> 'v store" where
  "store_del st i = st\<lparr>items := del_first (\<lambda>p. fst p = i) (items st)\<rparr>"

definition store_add :: "'v store \<Rightarrow> 'v \<Rightarrow> 'v store" where
  "store_add st v = st\<lparr>items := items st @ [(next_id st, v)], next_id := Suc (next_id st)\<rparr>"

text \<open>Search by a property of the object, as the secondary orders of a multi-index do.\<close>

definition store_search :: "('v \<Rightarrow> bool) \<Rightarrow> 'v store \<Rightarrow> 'v option" where
  "store_search P st = map_option snd (find (\<lambda>p. P (snd p)) (items st))"

definition store_put_by :: "('v \<Rightarrow> bool) \<Rightarrow> 'v store \<Rightarrow> 'v \<Rightarrow> 'v store" where
  "store_put_by P st v = st\<lparr>items := upd_first (\<lambda>p. P (snd p)) (\<lambda>p. (fst p, v)) (items st)\<rparr>"

definition store_del_by :: "('v \<Rightarrow> bool) \<Rightarrow> 'v store \<Rightarrow> 'v store" where
  "store_del_by P st = st\<lparr>items := del_first (\<lambda>p. P (snd p)) (items st)\<rparr>"

text \<open>The beginning of a secondary order: the object with the least key, and among equal keys
  the one with the least id.\<close>

fun first_by :: "('a \<Rightarrow> 'k::linorder) \<Rightarrow> 'a list \<Rightarrow> 'a option" where
  "first_by f [] = None"
| "first_by f (x # xs) =
     (case first_by f xs of None \<Rightarrow> Some x | Some y \<Rightarrow> if f x \<le> f y then Some x else Some y)"

definition store_first :: "('v \<Rightarrow> 'k::linorder) \<Rightarrow> 'v store \<Rightarrow> (nat \<times> 'v) option" where
  "store_first key st = first_by (\<lambda>p. key (snd p)) (items st)"

definition store_sum :: "('v \<Rightarrow> int) \<Rightarrow> 'v store \<Rightarrow> int" where
  "store_sum f st = lsum (\<lambda>p. f (snd p)) (items st)"

definition store_all :: "('v \<Rightarrow> bool) \<Rightarrow> 'v store \<Rightarrow> bool" where
  "store_all P st = list_all (\<lambda>p. P (snd p)) (items st)"

definition store_wf :: "'v store \<Rightarrow> bool" where
  "store_wf st \<longleftrightarrow> sorted_wrt (<) (map fst (items st)) \<and> (\<forall>p \<in> set (items st). fst p < next_id st)"

section \<open>The beginning of an order\<close>

lemma first_by_None [simp]: "first_by f xs = None \<longleftrightarrow> xs = []"
  by (cases xs) (auto split: option.splits)

lemma first_by_Some:
  "first_by f xs = Some x \<Longrightarrow> x \<in> set xs \<and> (\<forall>y \<in> set xs. f x \<le> f y)"
  by (induction xs arbitrary: x) (force split: option.splits if_splits)+

lemma store_first_itemsD: "store_first key st = Some (i, v) \<Longrightarrow> (i, v) \<in> set (items st)"
  by (auto simp: store_first_def dest: first_by_Some)

lemma store_first_le:
  "store_first key st = Some (i, v) \<Longrightarrow> (j, w) \<in> set (items st) \<Longrightarrow> key v \<le> key w"
  by (auto simp: store_first_def dest!: first_by_Some)

lemma store_first_None [simp]: "store_first key st = None \<longleftrightarrow> items st = []"
  by (simp add: store_first_def)

lemma length_store_del:
  "(i, v) \<in> set (items st) \<Longrightarrow> length (items (store_del st i)) < length (items st)"
proof -
  have "(i, v) \<in> set xs \<Longrightarrow> length (del_first (\<lambda>p. fst p = i) xs) < length xs" for xs
    by (induction xs) auto
  then show "(i, v) \<in> set (items st) \<Longrightarrow> length (items (store_del st i)) < length (items st)"
    by (simp add: store_del_def)
qed

section \<open>Lookups and updates\<close>

text \<open>The loop that removes objects from the beginning of an order while they are due.\<close>

function purge :: "('v \<Rightarrow> 'k::linorder) \<Rightarrow> ('k \<Rightarrow> bool) \<Rightarrow> 'v store \<Rightarrow> 'v store" where
  "purge key due st =
    (case store_first key st of
       None \<Rightarrow> st
     | Some (i, v) \<Rightarrow> if due (key v) then purge key due (store_del st i) else st)"
  by pat_completeness auto
termination
  by (relation "measure (\<lambda>(_, _, st). length (items st))") (auto dest!: store_first_itemsD intro: length_store_del)

declare purge.simps [simp del]

lemma store_get_Inr [simp]: "store_get st i = Inr v \<longleftrightarrow> store_find st i = Some v"
  by (simp add: store_get_def split: option.split)

lemma find_map_None: "find P xs = None \<longleftrightarrow> (\<forall>x \<in> set xs. \<not> P x)"
  by (induction xs) auto

lemma store_find_put_other: "j \<noteq> i \<Longrightarrow> store_find (store_put st i v) j = store_find st j"
  using find_upd_first_other[of "\<lambda>p. fst p = i" "\<lambda>p. fst p = j" "\<lambda>p. (fst p, v)" "items st"]
  by (simp add: store_find_def store_put_def)

lemma store_find_put_same: "store_find st i = Some w \<Longrightarrow> store_find (store_put st i v) i = Some v"
proof -
  assume "store_find st i = Some w"
  then obtain p where p: "find (\<lambda>p. fst p = i) (items st) = Some p"
    by (auto simp: store_find_def)
  from find_upd_first_same[OF this, of "\<lambda>p. (fst p, v)"] find_SomeD[OF p] show ?thesis
    by (simp add: store_find_def store_put_def)
qed

lemma store_find_put: "store_find (store_put st i v) j =
  (if j = i \<and> store_find st i \<noteq> None then Some v else store_find st j)"
proof (cases "store_find st i")
  case None
  then have "find (\<lambda>p. fst p = i) (items st) = None" by (simp add: store_find_def)
  with None show ?thesis by (simp add: store_put_def upd_first_None)
qed (auto simp: store_find_put_other store_find_put_same)

lemma store_put_same: "store_find st i = Some v \<Longrightarrow> store_put st i v = st"
proof -
  have "map_option snd (find (\<lambda>p. fst p = i) xs) = Some v \<Longrightarrow> upd_first (\<lambda>p. fst p = i) (\<lambda>p. (fst p, v)) xs = xs" for xs
    by (induction xs) (auto split: if_splits)
  then show "store_find st i = Some v \<Longrightarrow> store_put st i v = st" by (simp add: store_find_def store_put_def)
qed

lemma store_find_add:
  assumes "store_wf st"
  shows "store_find (store_add st v) j = (if j = next_id st then Some v else store_find st j)"
proof -
  have "find (\<lambda>p. fst p = next_id st) (items st) = None"
    using assms by (auto simp: store_wf_def find_map_None)
  then show ?thesis by (auto simp: store_find_def store_add_def find_append split: option.split)
qed

lemma find_del_first_other: "j \<noteq> i \<Longrightarrow>
    find (\<lambda>p. fst p = j) (del_first (\<lambda>p. fst p = i) xs) = find (\<lambda>p. fst p = j) xs"
  by (induction xs) auto

lemma find_del_first_same: "distinct (map fst xs) \<Longrightarrow>
    find (\<lambda>p. fst p = i) (del_first (\<lambda>p. fst p = i) xs) = None"
  by (induction xs) (auto simp: find_map_None image_iff)

lemma sorted_wrt_less_distinct: "sorted_wrt (<) (xs :: nat list) \<Longrightarrow> distinct xs"
  by (simp add: strict_sorted_iff)

lemma store_find_del:
  assumes "store_wf st"
  shows "store_find (store_del st i) j = (if j = i then None else store_find st j)"
proof -
  have "distinct (map fst (items st))"
    using assms by (simp add: store_wf_def sorted_wrt_less_distinct)
  then show ?thesis
    by (simp add: store_find_def store_del_def find_del_first_other find_del_first_same)
qed

lemma map_fst_upd_first: "map fst (upd_first P (\<lambda>p. (fst p, v)) xs) = map fst xs"
  by (induction xs) auto

lemma fst_set_upd_first: "fst ` set (upd_first P (\<lambda>p. (fst p, v)) xs) = fst ` set xs"
  by (metis list.set_map map_fst_upd_first)

lemma store_wf_fst: "store_wf st \<longleftrightarrow> sorted_wrt (<) (map fst (items st)) \<and>
    (\<forall>i \<in> fst ` set (items st). i < next_id st)"
  by (simp add: store_wf_def)

lemma store_wf_put: "store_wf st \<Longrightarrow> store_wf (store_put st i v)"
  unfolding store_wf_fst store_put_def by (simp add: map_fst_upd_first fst_set_upd_first)

lemma sorted_del_first: "sorted_wrt (<) (map fst xs) \<Longrightarrow> sorted_wrt (<) (map fst (del_first P xs))"
proof (induction xs)
  case (Cons x xs)
  then show ?case by (auto dest: subsetD[OF set_del_first])
qed simp

lemma store_wf_del: "store_wf st \<Longrightarrow> store_wf (store_del st i)"
  by (auto simp: store_wf_def store_del_def sorted_del_first dest: subsetD[OF set_del_first])

lemma store_wf_add: "store_wf st \<Longrightarrow> store_wf (store_add st v)"
  by (auto simp: store_wf_def store_add_def sorted_wrt_append less_SucI)

lemma next_id_simps [simp]:
  "next_id (store_put st i v) = next_id st" "next_id (store_del st i) = next_id st"
  "next_id (store_add st v) = Suc (next_id st)"
  by (simp_all add: store_put_def store_del_def store_add_def)

section \<open>Sums and predicates over all objects\<close>

lemma store_sum_put:
  "store_find st i = Some v \<Longrightarrow> store_sum f (store_put st i w) = store_sum f st - f v + f w"
  by (auto simp: store_sum_def store_find_def store_put_def lsum_upd_first)

lemma store_sum_del: "store_find st i = Some v \<Longrightarrow> store_sum f (store_del st i) = store_sum f st - f v"
  by (auto simp: store_sum_def store_find_def store_del_def lsum_del_first)

lemma store_sum_add [simp]: "store_sum f (store_add st v) = store_sum f st + f v"
  by (simp add: store_sum_def store_add_def)

lemma store_sum_put_by:
  "store_search P st = Some v \<Longrightarrow> store_sum f (store_put_by P st w) = store_sum f st - f v + f w"
  by (auto simp: store_sum_def store_search_def store_put_by_def lsum_upd_first)

lemma store_sum_del_by:
  "store_search P st = Some v \<Longrightarrow> store_sum f (store_del_by P st) = store_sum f st - f v"
  by (auto simp: store_sum_def store_search_def store_del_by_def lsum_del_first)

lemma find_pair_SomeD: "map_option snd (find P xs) = Some v \<Longrightarrow> \<exists>i. (i, v) \<in> set xs \<and> P (i, v)"
  by (induction xs) (auto split: if_splits)

lemma store_find_itemsD: "store_find st i = Some v \<Longrightarrow> (i, v) \<in> set (items st)"
  unfolding store_find_def by (drule find_pair_SomeD) simp

lemma store_search_itemsD: "store_search P st = Some v \<Longrightarrow> P v \<and> (\<exists>i. (i, v) \<in> set (items st))"
  unfolding store_search_def by (drule find_pair_SomeD) auto

lemma store_searchD: "store_search P st = Some v \<Longrightarrow> P v"
  by (simp add: store_search_itemsD)

lemma store_all_find: "store_all P st \<Longrightarrow> store_find st i = Some v \<Longrightarrow> P v"
  by (force simp: store_all_def list_all_iff dest: store_find_itemsD)

lemma store_all_search: "store_all P st \<Longrightarrow> store_search Q st = Some v \<Longrightarrow> P v"
  by (force simp: store_all_def list_all_iff dest: store_search_itemsD)

lemma list_all_upd_first: "list_all P xs \<Longrightarrow> (\<And>x. P x \<Longrightarrow> P (f x)) \<Longrightarrow> list_all P (upd_first Q f xs)"
  by (induction xs) auto

lemma store_all_put: "store_all P st \<Longrightarrow> P v \<Longrightarrow> store_all P (store_put st i v)"
  by (simp add: store_all_def store_put_def list_all_upd_first)

lemma store_all_put_by: "store_all P st \<Longrightarrow> P v \<Longrightarrow> store_all P (store_put_by Q st v)"
  by (simp add: store_all_def store_put_by_def list_all_upd_first)

lemma list_all_del_first: "list_all P xs \<Longrightarrow> list_all P (del_first Q xs)"
  by (induction xs) auto

lemma store_all_del: "store_all P st \<Longrightarrow> store_all P (store_del st i)"
  by (simp add: store_all_def store_del_def list_all_del_first)

lemma store_all_del_by: "store_all P st \<Longrightarrow> store_all P (store_del_by Q st)"
  by (simp add: store_all_def store_del_by_def list_all_del_first)

lemma store_all_add: "store_all P (store_add st v) \<longleftrightarrow> store_all P st \<and> P v"
  by (simp add: store_all_def store_add_def)

lemmas store_sums = store_sum_put store_sum_del store_sum_put_by store_sum_del_by
lemma store_sum_ge:
  assumes "store_all (\<lambda>v. 0 \<le> f v) st" "store_find st i = Some v"
  shows "f v \<le> store_sum f st"
proof -
  have "0 \<le> store_sum f (store_del st i)"
    using store_all_del[OF assms(1), of i]
    by (auto simp: store_sum_def store_all_def list_all_iff intro!: lsum_nonneg)
  then show ?thesis using store_sum_del[OF assms(2), of f] by simp
qed

lemmas store_alls = store_all_put store_all_put_by store_all_del store_all_del_by store_all_add

section \<open>The contract of an index\<close>

locale object_index =
  fixes invar :: "'s \<Rightarrow> bool"
    and lookup :: "'s \<Rightarrow> nat \<Rightarrow> 'v option"
    and fresh :: "'s \<Rightarrow> nat"
    and put :: "'s \<Rightarrow> nat \<Rightarrow> 'v \<Rightarrow> 's"
    and del :: "'s \<Rightarrow> nat \<Rightarrow> 's"
    and add :: "'s \<Rightarrow> 'v \<Rightarrow> 's"
  assumes fresh_unused: "invar s \<Longrightarrow> fresh s \<le> i \<Longrightarrow> lookup s i = None"
    and lookup_put: "invar s \<Longrightarrow> lookup (put s i v) j =
      (if j = i \<and> lookup s i \<noteq> None then Some v else lookup s j)"
    and lookup_del: "invar s \<Longrightarrow> lookup (del s i) j = (if j = i then None else lookup s j)"
    and lookup_add: "invar s \<Longrightarrow> lookup (add s v) j = (if j = fresh s then Some v else lookup s j)"
    and fresh_put: "fresh (put s i v) = fresh s" and fresh_del: "fresh (del s i) = fresh s"
    and fresh_add: "fresh (add s v) = Suc (fresh s)"
    and invar_put: "invar s \<Longrightarrow> invar (put s i v)" and invar_del: "invar s \<Longrightarrow> invar (del s i)"
    and invar_add: "invar s \<Longrightarrow> invar (add s v)"
begin

text \<open>An id that was removed is never handed out again.\<close>

lemma create_after_remove:
  "invar s \<Longrightarrow> lookup s i = Some v \<Longrightarrow> lookup (add (del s i) w) i = None"
  using fresh_unused[of s i] by (auto simp: lookup_add invar_del lookup_del fresh_del)

lemma create_keeps: "invar s \<Longrightarrow> lookup s i = Some v \<Longrightarrow> lookup (add s w) i = Some v"
  using fresh_unused[of s i] by (auto simp: lookup_add)

end

interpretation store_index: object_index store_wf store_find next_id store_put store_del store_add
proof unfold_locales
  show "store_find s i = None" if "store_wf s" "next_id s \<le> i" for s i
    using that by (auto simp: store_find_def store_wf_def find_map_None)
qed (auto simp: store_find_put store_find_del store_find_add store_wf_put store_wf_del store_wf_add)

text \<open>
  An id of an index is never reused: after an object is removed, objects created later do
  not appear under its id, and every object that was not touched is still found unchanged.
\<close>

theorem index_ids_not_reused:
  assumes "store_wf st" "store_find st i = Some v" "j \<noteq> i" "store_find st j = Some w"
  shows "store_find (store_add (store_del st i) u) i = None \<and>
    store_find (store_add (store_del st i) u) j = Some w"
proof
  show "store_find (store_add (store_del st i) u) i = None"
    by (rule store_index.create_after_remove[OF assms(1,2)])
  have "store_find (store_del st i) j = Some w" using assms by (simp add: store_find_del)
  then show "store_find (store_add (store_del st i) u) j = Some w"
    by (rule store_index.create_keeps[OF store_index.invar_del[OF assms(1)]])
qed

theorem index_ids_not_reused_witness:
  "store_find (store_add (store_del \<lparr>items = [(0, ''a''), (1, ''b'')], next_id = 2\<rparr> 1) ''c'') 1 = None \<and>
   store_find (store_add (store_del \<lparr>items = [(0, ''a''), (1, ''b'')], next_id = 2\<rparr> 1) ''c'') 0 = Some ''a''"
  by (rule index_ids_not_reused) (simp_all add: store_wf_def store_find_def)

end
