(* ===== verification/Chain_Objects.thy ===== *)
theory Chain_Objects
  imports Asset Object_Store
begin

text \<open>
  The objects of the chain database (\<open>libraries/chain/include/graphene/chain/*_object.hpp\<close>) and
  the database itself as a record of indexes. A class becomes a record with the fields the
  modelled operations read or write; names, memos, URLs, voting data and authorities are left
  out. Fields whose names several classes share carry a prefix for their class. The id of an
  object is its key in its index, so a C++ reference \<open>const T&\<close> becomes an id and the value
  found under it. A \<open>flat_set\<close> is a list read through membership, a \<open>flat_map\<close> an
  association list, an \<open>optional\<close> an option, a \<open>time_point_sec\<close> the number of seconds.
\<close>

type_synonym account_id_type = nat
type_synonym time_point_sec = nat

section \<open>Assets\<close>

record asset_options =
  max_supply :: share_type
  market_fee_percent :: nat
  max_market_fee :: share_type
  issuer_permissions :: nat
  flags :: nat
  core_exchange_rate :: price
  whitelist_authorities :: "account_id_type list"
  blacklist_authorities :: "account_id_type list"
  whitelist_markets :: "asset_id_type list"
  blacklist_markets :: "asset_id_type list"
  reward_percent :: "nat option"
  whitelist_market_fee_sharing :: "account_id_type list option"
  ext_taker_fee_percent :: "nat option"

record asset_object =
  issuer :: account_id_type
  options :: asset_options
  dynamic_asset_data_id :: nat
  bitasset_data_id :: "nat option"
  for_liquidity_pool :: "nat option"

record asset_dynamic_data_object =
  current_supply :: share_type
  confidential_supply :: share_type
  accumulated_fees :: share_type
  accumulated_collateral_fees :: share_type
  fee_pool :: share_type

record asset_bitasset_data_object =
  short_backing_asset :: asset_id_type
  settlement_fund :: share_type
  individual_settlement_fund :: share_type

section \<open>Accounts\<close>

record account_object =
  membership_expiration_date :: time_point_sec
  registrar :: account_id_type
  referrer :: account_id_type
  lifetime_referrer :: account_id_type
  network_fee_percentage :: nat
  lifetime_referrer_fee_percentage :: nat
  referrer_rewards_percentage :: nat
  statistics :: nat
  whitelisting_accounts :: "account_id_type list"
  blacklisting_accounts :: "account_id_type list"
  cashback_vb :: "nat option"
  allowed_assets :: "asset_id_type list option"

record account_statistics_object =
  total_core_inactive :: share_type
  total_core_pob :: share_type
  total_core_pol :: share_type
  total_pob_value :: share_type
  total_pol_value :: share_type
  has_cashback_vb :: bool
  total_core_in_orders :: share_type
  lifetime_fees_paid :: share_type
  pending_fees :: share_type
  pending_vested_fees :: share_type

record account_balance_object =
  abo_owner :: account_id_type
  abo_asset_type :: asset_id_type
  abo_balance :: share_type
  maintenance_flag :: bool

section \<open>Vesting balances\<close>

record linear_vesting_policy =
  begin_timestamp :: time_point_sec
  vesting_cliff_seconds :: nat
  vesting_duration_seconds :: nat
  begin_balance :: share_type

record cdd_vesting_policy =
  vesting_seconds :: nat
  coin_seconds_earned :: int
  start_claim :: time_point_sec
  coin_seconds_earned_last_update :: time_point_sec

datatype vesting_policy =
    Linear_vesting linear_vesting_policy
  | Cdd_vesting cdd_vesting_policy
  | Instant_vesting

datatype vesting_balance_type =
  Vbt_unspecified | Vbt_cashback | Vbt_worker | Vbt_witness | Vbt_market_fee_sharing

record vesting_balance_object =
  vbo_owner :: account_id_type
  vbo_balance :: asset
  vbo_policy :: vesting_policy
  vbo_balance_type :: vesting_balance_type

section \<open>Pools, funds, offers and deals\<close>

record liquidity_pool_object =
  lpo_asset_a :: asset_id_type
  lpo_asset_b :: asset_id_type
  lpo_balance_a :: share_type
  lpo_balance_b :: share_type
  lpo_share_asset :: asset_id_type
  lpo_taker_fee_percent :: nat
  lpo_withdrawal_fee_percent :: nat
  lpo_virtual_value :: int

record samet_fund_object =
  sfo_owner_account :: account_id_type
  sfo_asset_type :: asset_id_type
  sfo_balance :: share_type
  sfo_fee_rate :: nat
  sfo_unpaid_amount :: share_type

record credit_offer_object =
  coo_owner_account :: account_id_type
  coo_asset_type :: asset_id_type
  coo_total_balance :: share_type
  coo_current_balance :: share_type
  coo_fee_rate :: nat
  coo_max_duration_seconds :: nat
  coo_min_deal_amount :: share_type
  coo_enabled :: bool
  coo_auto_disable_time :: time_point_sec
  coo_acceptable_collateral :: "(asset_id_type \<times> price) list"
  coo_acceptable_borrowers :: "(account_id_type \<times> share_type) list"

record credit_deal_object =
  cdo_borrower :: account_id_type
  cdo_offer_id :: nat
  cdo_offer_owner :: account_id_type
  cdo_debt_asset :: asset_id_type
  cdo_debt_amount :: share_type
  cdo_collateral_asset :: asset_id_type
  cdo_collateral_amount :: share_type
  cdo_fee_rate :: nat
  cdo_latest_repay_time :: time_point_sec
  cdo_auto_repay :: nat

record credit_deal_summary_object =
  cso_borrower :: account_id_type
  cso_offer_id :: nat
  cso_offer_owner :: account_id_type
  cso_debt_asset :: asset_id_type
  cso_total_debt_amount :: share_type

section \<open>Hash time locked contracts, tickets, withdrawal permissions\<close>

type_synonym bytes = "nat list"

datatype htlc_hash = Algo_ripemd160 bytes | Algo_sha1 bytes | Algo_sha256 bytes | Algo_hash160 bytes

record htlc_object =
  htlc_from :: account_id_type
  htlc_to :: account_id_type
  htlc_amount :: share_type
  htlc_asset_id :: asset_id_type
  htlc_preimage_hash :: htlc_hash
  htlc_preimage_size :: nat
  htlc_expiration :: time_point_sec

datatype ticket_type =
  Liquid | Lock_180_days | Lock_360_days | Lock_720_days | Lock_forever | Ticket_type_count

datatype ticket_status = Charging | Stable | Withdrawing

datatype ticket_version = Ticket_v1 | Ticket_v2

record ticket_object =
  tk_account :: account_id_type
  tk_target_type :: ticket_type
  tk_amount :: asset
  tk_current_type :: ticket_type
  tk_status :: ticket_status
  tk_value :: share_type
  tk_next_auto_update_time :: time_point_sec
  tk_next_type_downgrade_time :: time_point_sec

record withdraw_permission_object =
  withdraw_from_account :: account_id_type
  authorized_account :: account_id_type
  withdrawal_limit :: asset
  withdrawal_period_sec :: nat
  period_start_time :: time_point_sec
  wpo_expiration :: time_point_sec
  claimed_this_period :: share_type

record witness_object =
  witness_account :: account_id_type
  pay_vb :: "nat option"
  last_aslot :: nat
  signing_key :: nat
  total_missed :: int
  last_confirmed_block_num :: nat

text \<open>A limit order with the actions to take when it is filled, of which there is one kind.\<close>

record create_take_profit_order_action =
  tp_fee_asset_id :: asset_id_type
  tp_spread_percent :: nat
  tp_size_percent :: nat
  tp_expiration_seconds :: nat
  tp_repeat :: bool

datatype limit_order_auto_action = Create_take_profit_order create_take_profit_order_action

record limit_order_object =
  lo_expiration :: time_point_sec
  lo_seller :: account_id_type
  lo_for_sale :: share_type
  lo_sell_price :: price
  lo_filled_amount :: int
  lo_deferred_fee :: share_type
  lo_deferred_paid_fee :: asset
  lo_is_settled_debt :: bool
  lo_on_fill :: "limit_order_auto_action list"
  lo_take_profit_order_id :: "nat option"

section \<open>The database\<close>

record htlc_options =
  max_timeout_secs :: nat
  max_preimage_size :: nat

record chain_parameters =
  block_interval :: nat
  maintenance_skip_slots :: nat
  witness_pay_per_block :: share_type
  cashback_vesting_period_seconds :: nat
  cashback_vesting_threshold :: share_type
  witness_pay_vesting_seconds :: nat
  updatable_htlc_options :: "htlc_options option"
  market_fee_network_percent :: "nat option"

record database =
  head_block_time :: time_point_sec
  next_maintenance_time :: time_point_sec
  total_pob :: share_type
  total_inactive :: share_type
  witness_budget :: share_type
  parameters :: chain_parameters
  accounts :: "account_object store"
  account_stats :: "account_statistics_object store"
  account_balances :: "account_balance_object store"
  assets :: "asset_object store"
  asset_dyn_data :: "asset_dynamic_data_object store"
  bitassets :: "asset_bitasset_data_object store"
  vesting_balances :: "vesting_balance_object store"
  liquidity_pools :: "liquidity_pool_object store"
  samet_funds :: "samet_fund_object store"
  credit_offers :: "credit_offer_object store"
  credit_deals :: "credit_deal_object store"
  credit_deal_summaries :: "credit_deal_summary_object store"
  htlcs :: "htlc_object store"
  tickets :: "ticket_object store"
  limit_orders :: "limit_order_object store"
  withdraw_permissions :: "withdraw_permission_object store"
  witnesses :: "witness_object store"

section \<open>Constants\<close>

definition GRAPHENE_COMMITTEE_ACCOUNT :: account_id_type where "GRAPHENE_COMMITTEE_ACCOUNT = 0"
definition GRAPHENE_WITNESS_ACCOUNT :: account_id_type where "GRAPHENE_WITNESS_ACCOUNT = 1"
definition GRAPHENE_RELAXED_COMMITTEE_ACCOUNT :: account_id_type where
  "GRAPHENE_RELAXED_COMMITTEE_ACCOUNT = 2"
definition GRAPHENE_NULL_ACCOUNT :: account_id_type where "GRAPHENE_NULL_ACCOUNT = 3"
definition GRAPHENE_TEMP_ACCOUNT :: account_id_type where "GRAPHENE_TEMP_ACCOUNT = 4"

text \<open>The asset of fees, \<open>asset_id_type()\<close>.\<close>

definition CORE_ASSET :: asset_id_type where "CORE_ASSET = 0"

definition HARDFORK_BSIP_86_TIME :: nat where "HARDFORK_BSIP_86_TIME = 1596117300"
definition HARDFORK_1774_TIME :: nat where "HARDFORK_1774_TIME = 1596117300"
definition HARDFORK_CORE_1800_TIME :: nat where "HARDFORK_CORE_1800_TIME = 1596117300"
definition HARDFORK_CORE_BSIP64_TIME :: nat where "HARDFORK_CORE_BSIP64_TIME = 1596117300"
definition HARDFORK_CORE_2103_TIME :: nat where "HARDFORK_CORE_2103_TIME = 1596117300"
definition HARDFORK_CORE_2262_TIME :: nat where "HARDFORK_CORE_2262_TIME = 1601312520"
definition HARDFORK_LIQUIDITY_POOL_TIME :: nat where "HARDFORK_LIQUIDITY_POOL_TIME = 1601312520"
definition HARDFORK_CORE_973_TIME :: nat where "HARDFORK_CORE_973_TIME = 1641909720"
definition HARDFORK_CORE_2295_TIME :: nat where "HARDFORK_CORE_2295_TIME = 1641909720"
definition HARDFORK_CORE_2350_TIME :: nat where "HARDFORK_CORE_2350_TIME = 1641909720"
definition HARDFORK_CORE_2351_TIME :: nat where "HARDFORK_CORE_2351_TIME = 1641909720"
definition HARDFORK_CORE_2362_TIME :: nat where "HARDFORK_CORE_2362_TIME = 1641909720"
definition HARDFORK_CORE_2595_TIME :: nat where "HARDFORK_CORE_2595_TIME = 1700143200"
definition HARDFORK_CORE_2604_TIME :: nat where "HARDFORK_CORE_2604_TIME = 1700143200"

lemmas hardfork_times = HARDFORK_BSIP_86_TIME_def HARDFORK_1774_TIME_def HARDFORK_CORE_1800_TIME_def
  HARDFORK_CORE_BSIP64_TIME_def HARDFORK_CORE_2103_TIME_def HARDFORK_CORE_2262_TIME_def
  HARDFORK_LIQUIDITY_POOL_TIME_def HARDFORK_CORE_973_TIME_def HARDFORK_CORE_2295_TIME_def
  HARDFORK_CORE_2350_TIME_def HARDFORK_CORE_2351_TIME_def HARDFORK_CORE_2362_TIME_def
  HARDFORK_CORE_2595_TIME_def HARDFORK_CORE_2604_TIME_def

lemmas account_constants = GRAPHENE_COMMITTEE_ACCOUNT_def GRAPHENE_WITNESS_ACCOUNT_def
  GRAPHENE_RELAXED_COMMITTEE_ACCOUNT_def GRAPHENE_NULL_ACCOUNT_def GRAPHENE_TEMP_ACCOUNT_def
  CORE_ASSET_def

section \<open>A small database\<close>

text \<open>A concrete database on which properties are evaluated: account 7 holds 50 of the core asset,
  asset 1 is issued by account 7, and there is one more asset, 2.\<close>

definition sample_options :: asset_options where
  "sample_options = \<lparr>max_supply = 1000, market_fee_percent = 0, max_market_fee = 1000,
     issuer_permissions = 0, flags = 0,
     core_exchange_rate = \<lparr>base = ASSET 1 0, quote = ASSET 1 1\<rparr>,
     whitelist_authorities = [], blacklist_authorities = [], whitelist_markets = [],
     blacklist_markets = [], reward_percent = None, whitelist_market_fee_sharing = None,
     ext_taker_fee_percent = None\<rparr>"

definition sample_asset :: "nat \<Rightarrow> asset_object" where
  "sample_asset i = \<lparr>issuer = 7, options = sample_options, dynamic_asset_data_id = i,
     bitasset_data_id = None, for_liquidity_pool = None\<rparr>"

definition sample_dyn :: "int \<Rightarrow> asset_dynamic_data_object" where
  "sample_dyn s = \<lparr>current_supply = s, confidential_supply = 0, accumulated_fees = 0,
     accumulated_collateral_fees = 0, fee_pool = 0\<rparr>"

definition sample_account :: "nat \<Rightarrow> account_object" where
  "sample_account st = \<lparr>membership_expiration_date = 0, registrar = 7, referrer = 7,
     lifetime_referrer = 7, network_fee_percentage = 2000, lifetime_referrer_fee_percentage = 3000,
     referrer_rewards_percentage = 0, statistics = st, whitelisting_accounts = [],
     blacklisting_accounts = [], cashback_vb = None, allowed_assets = None\<rparr>"

definition sample_stats :: account_statistics_object where
  "sample_stats = \<lparr>total_core_inactive = 0, total_core_pob = 0, total_core_pol = 0,
     total_pob_value = 0, total_pol_value = 0, has_cashback_vb = False, total_core_in_orders = 0, lifetime_fees_paid = 0,
     pending_fees = 0, pending_vested_fees = 0\<rparr>"

definition empty_store :: "'v store" where
  "empty_store = \<lparr>items = [], next_id = 0\<rparr>"

definition sample_db :: "time_point_sec \<Rightarrow> database" where
  "sample_db t = \<lparr>head_block_time = t, next_maintenance_time = t,
     total_pob = 0, total_inactive = 0, witness_budget = 0,
     parameters = \<lparr>block_interval = 5, maintenance_skip_slots = 3, witness_pay_per_block = 2, cashback_vesting_period_seconds = 100, cashback_vesting_threshold = 10,
       witness_pay_vesting_seconds = 100,
       updatable_htlc_options = Some \<lparr>max_timeout_secs = 1000, max_preimage_size = 100\<rparr>,
       market_fee_network_percent = None\<rparr>,
     accounts = \<lparr>items = [(7, sample_account 0), (8, sample_account 1)], next_id = 9\<rparr>,
     account_stats = \<lparr>items = [(0, sample_stats), (1, sample_stats)], next_id = 2\<rparr>,
     account_balances = \<lparr>items = [(0, \<lparr>abo_owner = 7, abo_asset_type = 0, abo_balance = 50,
       maintenance_flag = False\<rparr>), (1, \<lparr>abo_owner = 8, abo_asset_type = 1, abo_balance = 40,
       maintenance_flag = False\<rparr>)], next_id = 2\<rparr>,
     assets = \<lparr>items = [(0, sample_asset 0), (1, sample_asset 1), (2, sample_asset 2)], next_id = 3\<rparr>,
     asset_dyn_data = \<lparr>items = [(0, sample_dyn 50), (1, sample_dyn 40), (2, sample_dyn 0)], next_id = 3\<rparr>,
     bitassets = empty_store, vesting_balances = empty_store, liquidity_pools = empty_store,
     samet_funds = empty_store, credit_offers = empty_store, credit_deals = empty_store,
     credit_deal_summaries = empty_store, htlcs = empty_store, tickets = empty_store, limit_orders = empty_store,
     withdraw_permissions = empty_store, witnesses = empty_store\<rparr>"

lemmas sample_defs = sample_db_def empty_store_def sample_stats_def sample_account_def sample_dyn_def
  sample_asset_def sample_options_def

end
