(* ===== verification/Chain_State.thy ===== *)
theory Chain_State
  imports Chain_Objects "HOL-Library.Word"
begin

text \<open>
  Operations of \<open>database\<close> every evaluator uses: asset flags and authorization
  (\<open>asset_object.hpp\<close>, \<open>is_authorized_asset.hpp\<close>, \<open>is_authorized_asset.cpp\<close>) and account
  balances (\<open>db_balance.cpp\<close>, \<open>account_object.cpp\<close>). The second half defines how much of an
  asset the database holds, following the accounting of \<open>verify_asset_supplies\<close> in
  \<open>tests/common/database_fixture.cpp\<close>; every evaluator is measured against it.
\<close>

unbundle bit_operations_syntax

section \<open>Flags and authorization\<close>

definition charge_market_fee :: nat where "charge_market_fee = 1"
definition white_list :: nat where "white_list = 2"
definition override_authority :: nat where "override_authority = 4"
definition transfer_restricted :: nat where "transfer_restricted = 8"
definition disable_new_supply :: nat where "disable_new_supply = 1024"

lemmas flag_defs = charge_market_fee_def white_list_def override_authority_def
  transfer_restricted_def disable_new_supply_def

definition is_market_issued :: "asset_object \<Rightarrow> bool" where
  "is_market_issued ao \<longleftrightarrow> bitasset_data_id ao \<noteq> None"

definition is_liquidity_pool_share_asset :: "asset_object \<Rightarrow> bool" where
  "is_liquidity_pool_share_asset ao \<longleftrightarrow> for_liquidity_pool ao \<noteq> None"

definition charges_market_fees :: "asset_object \<Rightarrow> bool" where
  "charges_market_fees ao \<longleftrightarrow> flags (options ao) AND charge_market_fee \<noteq> 0"

definition is_transfer_restricted :: "asset_object \<Rightarrow> bool" where
  "is_transfer_restricted ao \<longleftrightarrow> flags (options ao) AND transfer_restricted \<noteq> 0"

definition can_override :: "asset_object \<Rightarrow> bool" where
  "can_override ao \<longleftrightarrow> flags (options ao) AND override_authority \<noteq> 0"

definition can_create_new_supply :: "asset_object \<Rightarrow> bool" where
  "can_create_new_supply ao \<longleftrightarrow> flags (options ao) AND disable_new_supply = 0"

definition is_authorized_asset_slow ::
    "database \<Rightarrow> account_id_type \<Rightarrow> account_object \<Rightarrow> asset_id_type \<Rightarrow> asset_object \<Rightarrow> bool" where
  "is_authorized_asset_slow d acct_id acct aid asset_obj =
     (if HARDFORK_BSIP_86_TIME \<le> head_block_time d \<and> acct_id = GRAPHENE_COMMITTEE_ACCOUNT then True
      else if (case allowed_assets acct of None \<Rightarrow> False | Some as \<Rightarrow> aid \<notin> set as) then False
      else if list_ex (\<lambda>id. id \<in> set (blacklist_authorities (options asset_obj))) (blacklisting_accounts acct)
      then False
      else if whitelist_authorities (options asset_obj) = [] then True
      else list_ex (\<lambda>id. id \<in> set (whitelist_authorities (options asset_obj))) (whitelisting_accounts acct))"

definition is_authorized_asset ::
    "database \<Rightarrow> account_id_type \<Rightarrow> account_object \<Rightarrow> asset_id_type \<Rightarrow> asset_object \<Rightarrow> bool" where
  "is_authorized_asset d acct_id acct aid asset_obj =
     (let fast_check = flags (options asset_obj) AND white_list = 0 \<and> allowed_assets acct = None
      in if fast_check then True else is_authorized_asset_slow d acct_id acct aid asset_obj)"

text \<open>Authorization by ids: the pattern \<open>is_authorized_asset( d, account_id(d), asset_id(d) )\<close>,
  whose lookups throw when an object does not exist.\<close>

definition authorized :: "database \<Rightarrow> account_id_type \<Rightarrow> asset_id_type \<Rightarrow> bool result" where
  "authorized d acct_id aid =
     bnd (store_get (accounts d) acct_id) (\<lambda>acct.
     bnd (store_get (assets d) aid) (\<lambda>ao.
     Inr (is_authorized_asset d acct_id acct aid ao)))"

section \<open>Account balances\<close>

definition abo_key :: "account_id_type \<Rightarrow> asset_id_type \<Rightarrow> account_balance_object \<Rightarrow> bool" where
  "abo_key owner aid b \<longleftrightarrow> abo_owner b = owner \<and> abo_asset_type b = aid"

definition get_account_balance ::
    "database \<Rightarrow> account_id_type \<Rightarrow> asset_id_type \<Rightarrow> account_balance_object option" where
  "get_account_balance d owner aid = store_search (abo_key owner aid) (account_balances d)"

definition get_balance :: "database \<Rightarrow> account_id_type \<Rightarrow> asset_id_type \<Rightarrow> asset" where
  "get_balance d owner aid =
     (case get_account_balance d owner aid of
        None \<Rightarrow> ASSET 0 aid
      | Some abo \<Rightarrow> ASSET (abo_balance abo) (abo_asset_type abo))"

definition abo_adjust_balance :: "fc_lib \<Rightarrow> asset \<Rightarrow> account_balance_object \<Rightarrow> account_balance_object result" where
  "abo_adjust_balance fc delta b =
     bnd (safe_add fc (abo_balance b) (amount delta)) (\<lambda>x.
     Inr (b\<lparr>abo_balance := x,
            maintenance_flag := (if abo_asset_type b = CORE_ASSET then True else maintenance_flag b)\<rparr>))"

definition adjust_balance :: "fc_lib \<Rightarrow> account_id_type \<Rightarrow> asset \<Rightarrow> database \<Rightarrow> database result" where
  "adjust_balance fc account delta d =
     (if amount delta = 0 then Inr d
      else case get_account_balance d account (asset_id delta) of
        None \<Rightarrow>
          FC_ASSERT (0 < amount delta)
          (Inr (d\<lparr>account_balances := store_add (account_balances d)
             \<lparr>abo_owner = account, abo_asset_type = asset_id delta, abo_balance = amount delta,
              maintenance_flag = (asset_id delta = CORE_ASSET)\<rparr>\<rparr>))
      | Some abo \<Rightarrow>
          bnd (if amount delta < 0
               then bnd (asset_neg fc delta) (\<lambda>nd.
                    bnd (asset_ge (ASSET (abo_balance abo) (abo_asset_type abo)) nd) (\<lambda>ok.
                    FC_ASSERT ok (Inr ())))
               else Inr ()) (\<lambda>_.
          bnd (abo_adjust_balance fc delta abo) (\<lambda>abo'.
          Inr (d\<lparr>account_balances :=
                 store_put_by (abo_key account (asset_id delta)) (account_balances d) abo'\<rparr>))))"

section \<open>What the database holds of an asset\<close>

definition balances_total :: "account_balance_object store \<Rightarrow> asset_id_type \<Rightarrow> int" where
  "balances_total bs a = store_sum (\<lambda>b. if abo_asset_type b = a then abo_balance b else 0) bs"

definition pending_total :: "account_statistics_object store \<Rightarrow> asset_id_type \<Rightarrow> int" where
  "pending_total ss a =
     (if a = CORE_ASSET then store_sum (\<lambda>s. pending_fees s + pending_vested_fees s) ss else 0)"

definition dyn_part :: "asset_bitasset_data_object store \<Rightarrow> asset_id_type \<Rightarrow> nat \<Rightarrow> asset_object \<Rightarrow>
    asset_dynamic_data_object \<Rightarrow> int" where
  "dyn_part bits a i ao dd =
     (if i = a then accumulated_fees dd + confidential_supply dd else 0) +
     (if a = CORE_ASSET then fee_pool dd else 0) +
     (case bitasset_data_id ao of None \<Rightarrow> 0 | Some k \<Rightarrow>
        (case store_find bits k of None \<Rightarrow> 0 | Some bad \<Rightarrow>
           if short_backing_asset bad = a
           then settlement_fund bad + individual_settlement_fund bad + accumulated_collateral_fees dd
           else 0))"

definition asset_part :: "asset_dynamic_data_object store \<Rightarrow> asset_bitasset_data_object store \<Rightarrow>
    asset_id_type \<Rightarrow> nat \<times> asset_object \<Rightarrow> int" where
  "asset_part dyns bits a p =
     (case store_find dyns (dynamic_asset_data_id (snd p)) of
        None \<Rightarrow> 0
      | Some dd \<Rightarrow> dyn_part bits a (fst p) (snd p) dd)"

definition asset_held :: "asset_object store \<Rightarrow> asset_dynamic_data_object store \<Rightarrow>
    asset_bitasset_data_object store \<Rightarrow> asset_id_type \<Rightarrow> int" where
  "asset_held as dyns bits a = lsum (asset_part dyns bits a) (items as)"

definition asset_supply :: "asset_object store \<Rightarrow> asset_dynamic_data_object store \<Rightarrow> asset_id_type \<Rightarrow> int" where
  "asset_supply as dyns a =
     (case store_find as a of None \<Rightarrow> 0 | Some ao \<Rightarrow>
        (case store_find dyns (dynamic_asset_data_id ao) of None \<Rightarrow> 0 | Some dd \<Rightarrow> current_supply dd))"

definition vesting_total :: "vesting_balance_object store \<Rightarrow> asset_id_type \<Rightarrow> int" where
  "vesting_total vs a =
     store_sum (\<lambda>v. if asset_id (vbo_balance v) = a then amount (vbo_balance v) else 0) vs"

definition pools_total :: "liquidity_pool_object store \<Rightarrow> asset_id_type \<Rightarrow> int" where
  "pools_total ps a =
     store_sum (\<lambda>p. (if lpo_asset_a p = a then lpo_balance_a p else 0) +
                    (if lpo_asset_b p = a then lpo_balance_b p else 0)) ps"

definition funds_total :: "samet_fund_object store \<Rightarrow> asset_id_type \<Rightarrow> int" where
  "funds_total fs a =
     store_sum (\<lambda>f. if sfo_asset_type f = a then sfo_balance f - sfo_unpaid_amount f else 0) fs"

definition offers_total :: "credit_offer_object store \<Rightarrow> asset_id_type \<Rightarrow> int" where
  "offers_total os a = store_sum (\<lambda>p. if coo_asset_type p = a then coo_current_balance p else 0) os"

definition deals_total :: "credit_deal_object store \<Rightarrow> asset_id_type \<Rightarrow> int" where
  "deals_total ds a =
     store_sum (\<lambda>p. if cdo_collateral_asset p = a then cdo_collateral_amount p else 0) ds"

definition htlcs_total :: "htlc_object store \<Rightarrow> asset_id_type \<Rightarrow> int" where
  "htlcs_total hs a = store_sum (\<lambda>h. if htlc_asset_id h = a then htlc_amount h else 0) hs"

definition tickets_total :: "ticket_object store \<Rightarrow> asset_id_type \<Rightarrow> int" where
  "tickets_total ts a =
     store_sum (\<lambda>t. if asset_id (tk_amount t) = a then amount (tk_amount t) else 0) ts"

text \<open>An order holds what it has for sale, the fee in the core asset that is paid when it is filled, and the
  fee it was created with if that was paid in another asset. An order for settled debt, which stands for a part of
  an individual settlement fund and not for a holding of its own, is counted like the others; no modelled step
  creates one.\<close>

definition order_part :: "limit_order_object \<Rightarrow> asset_id_type \<Rightarrow> int" where
  "order_part o' a =
     (if asset_id (base (lo_sell_price o')) = a then lo_for_sale o' else 0) +
     (if a = CORE_ASSET then lo_deferred_fee o' else 0) +
     (if asset_id (lo_deferred_paid_fee o') = a then amount (lo_deferred_paid_fee o') else 0)"

definition orders_total :: "limit_order_object store \<Rightarrow> asset_id_type \<Rightarrow> int" where
  "orders_total os a = store_sum (\<lambda>o'. order_part o' a) os"

definition budget_total :: "share_type \<Rightarrow> asset_id_type \<Rightarrow> int" where
  "budget_total b a = (if a = CORE_ASSET then b else 0)"

definition total_balances :: "database \<Rightarrow> asset_id_type \<Rightarrow> int" where
  "total_balances d a =
     balances_total (account_balances d) a + pending_total (account_stats d) a +
     asset_held (assets d) (asset_dyn_data d) (bitassets d) a + vesting_total (vesting_balances d) a +
     pools_total (liquidity_pools d) a + funds_total (samet_funds d) a +
     offers_total (credit_offers d) a + deals_total (credit_deals d) a +
     htlcs_total (htlcs d) a + tickets_total (tickets d) a +
     orders_total (limit_orders d) a + budget_total (witness_budget d) a"

text \<open>The amount of an asset that is held somewhere and not accounted for by its supply; an
  operation that neither creates nor destroys value keeps it.\<close>

definition supply_gap :: "database \<Rightarrow> asset_id_type \<Rightarrow> int" where
  "supply_gap d a = total_balances d a - asset_supply (assets d) (asset_dyn_data d) a"

lemmas gap_defs = supply_gap_def total_balances_def

text \<open>Every asset has its own dynamic data object.\<close>

definition wf_assets :: "asset_object store \<Rightarrow> bool" where
  "wf_assets as \<longleftrightarrow> store_wf as \<and> distinct (map (\<lambda>p. dynamic_asset_data_id (snd p)) (items as))"

text \<open>No account balance is negative.\<close>

definition balances_nonneg :: "database \<Rightarrow> bool" where
  "balances_nonneg d \<longleftrightarrow> store_all (\<lambda>b. 0 \<le> abo_balance b) (account_balances d)"

section \<open>Lemmas on balances\<close>

lemma store_search_add: "store_search P (store_add st v) =
  (case store_search P st of None \<Rightarrow> (if P v then Some v else None) | Some w \<Rightarrow> Some w)"
  by (simp add: store_search_def store_add_def find_append split: option.split)

lemma store_search_put_by_same:
  assumes "store_search P st = Some w" "P v"
  shows "store_search P (store_put_by P st v) = Some v"
proof -
  from assms(1) obtain p where p: "find (\<lambda>p. P (snd p)) (items st) = Some p"
    by (auto simp: store_search_def)
  from find_upd_first_same[OF p, of "\<lambda>p. (fst p, v)"] assms(2) show ?thesis
    by (simp add: store_search_def store_put_by_def)
qed

lemma store_search_put_by_other:
  assumes "\<And>x. Q x \<Longrightarrow> \<not> P x" "Q v"
  shows "store_search P (store_put_by Q st v) = store_search P st"
proof -
  have "find (\<lambda>p. P (snd p)) (upd_first (\<lambda>p. Q (snd p)) (\<lambda>p. (fst p, v)) (items st)) =
      find (\<lambda>p. P (snd p)) (items st)"
    by (rule find_upd_first_other) (use assms in auto)
  then show ?thesis by (simp add: store_search_def store_put_by_def)
qed

lemma abo_key_other: "\<not> (o1 = o2 \<and> a1 = a2) \<Longrightarrow> abo_key o1 a1 x \<Longrightarrow> \<not> abo_key o2 a2 x"
  by (auto simp: abo_key_def)

lemma asset_id_get_balance [simp]: "asset_id (get_balance d owner a) = a"
  by (auto simp: get_balance_def get_account_balance_def abo_key_def dest: store_searchD split: option.split)

text \<open>Whatever the arithmetic does, an adjustment touches account balances only.\<close>

lemma adjust_balance_only:
  assumes "adjust_balance fc account delta d = Inr d'"
  shows "\<exists>bs. d' = d\<lparr>account_balances := bs\<rparr>"
proof (cases "d' = d")
  case True
  then show ?thesis by (intro exI[of _ "account_balances d"]) simp
next
  case False
  then show ?thesis using assms by (auto simp: adjust_balance_def split: option.splits if_splits)
qed

context fc_safe
begin

lemma abo_adjust_balance_Inr [simp]: "abo_adjust_balance fc delta b = Inr b' \<longleftrightarrow>
    in_int64 (abo_balance b + amount delta) \<and>
    b' = b\<lparr>abo_balance := abo_balance b + amount delta,
           maintenance_flag := (if abo_asset_type b = CORE_ASSET then True else maintenance_flag b)\<rparr>"
  by (auto simp: abo_adjust_balance_def)

text \<open>The three ways in which an adjustment succeeds.\<close>

lemma adjust_balance_cases:
  assumes "adjust_balance fc account delta d = Inr d'"
  obtains (zero) "amount delta = 0" "d' = d"
  | (fresh) v where "0 < amount delta" "get_account_balance d account (asset_id delta) = None"
      "d' = d\<lparr>account_balances := store_add (account_balances d) v\<rparr>"
      "abo_owner v = account" "abo_asset_type v = asset_id delta" "abo_balance v = amount delta"
  | (present) b b' where "get_account_balance d account (asset_id delta) = Some b"
      "abo_key account (asset_id delta) b" "abo_key account (asset_id delta) b'"
      "abo_balance b' = abo_balance b + amount delta" "in_int64 (abo_balance b')"
      "amount delta < 0 \<longrightarrow> 0 \<le> abo_balance b'"
      "d' = d\<lparr>account_balances := store_put_by (abo_key account (asset_id delta)) (account_balances d) b'\<rparr>"
proof -
  consider "amount delta = 0" | "amount delta \<noteq> 0" "get_account_balance d account (asset_id delta) = None"
    | b where "amount delta \<noteq> 0" "get_account_balance d account (asset_id delta) = Some b" by blast
  then show thesis
  proof cases
    case 1
    then show ?thesis using assms zero by (simp add: adjust_balance_def)
  next
    case 2
    then show ?thesis using assms by (intro fresh) (auto simp: adjust_balance_def)
  next
    case 3
    then have key: "abo_key account (asset_id delta) b"
      by (auto simp: get_account_balance_def dest: store_searchD)
    show ?thesis
      by (rule present[OF 3(2) key, where b' = "b\<lparr>abo_balance := abo_balance b + amount delta,
           maintenance_flag := (if abo_asset_type b = CORE_ASSET then True else maintenance_flag b)\<rparr>"])
        (use assms 3 key in \<open>auto simp: adjust_balance_def abo_key_def split: if_splits\<close>)
  qed
qed

lemma adjust_balance_total:
  assumes "adjust_balance fc account delta d = Inr d'"
  shows "balances_total (account_balances d') a =
    balances_total (account_balances d) a + (if asset_id delta = a then amount delta else 0)"
  using assms
proof (cases rule: adjust_balance_cases)
  case (present b b')
  then show ?thesis
    by (auto simp: balances_total_def get_account_balance_def abo_key_def store_sum_put_by)
qed (simp_all add: balances_total_def)

text \<open>An adjustment only touches the index of account balances.\<close>

lemma adjust_balance_frame:
  assumes "adjust_balance fc account delta d = Inr d'"
  obtains bs where "d' = d\<lparr>account_balances := bs\<rparr>"
    "\<And>a. balances_total bs a =
      balances_total (account_balances d) a + (if asset_id delta = a then amount delta else 0)"
proof -
  from assms obtain bs where bs: "d' = d\<lparr>account_balances := bs\<rparr>"
    by (cases rule: adjust_balance_cases) (auto intro: that[of "account_balances d"] that)
  with adjust_balance_total[OF assms] show thesis by (intro that[OF bs]) simp
qed

lemma adjust_balance_fields:
  assumes "adjust_balance fc account delta d = Inr d'"
  shows "head_block_time d' = head_block_time d" "parameters d' = parameters d" "accounts d' = accounts d"
    "account_stats d' = account_stats d" "assets d' = assets d" "asset_dyn_data d' = asset_dyn_data d"
    "bitassets d' = bitassets d" "vesting_balances d' = vesting_balances d"
    "liquidity_pools d' = liquidity_pools d" "samet_funds d' = samet_funds d"
    "credit_offers d' = credit_offers d" "credit_deals d' = credit_deals d"
    "credit_deal_summaries d' = credit_deal_summaries d" "htlcs d' = htlcs d" "tickets d' = tickets d"
    "withdraw_permissions d' = withdraw_permissions d"
  using assms by (rule adjust_balance_frame, simp)+

lemma adjust_balance_get:
  assumes "adjust_balance fc account delta d = Inr d'"
  shows "amount (get_balance d' owner a) = amount (get_balance d owner a) +
    (if owner = account \<and> a = asset_id delta then amount delta else 0)"
  using assms
proof (cases rule: adjust_balance_cases)
  case (fresh v)
  then show ?thesis
    by (auto simp: get_balance_def get_account_balance_def store_search_add abo_key_def split: option.split)
next
  case (present b b')
  show ?thesis
  proof (cases "owner = account \<and> a = asset_id delta")
    case True
    with present show ?thesis
      by (simp add: get_balance_def get_account_balance_def store_search_put_by_same)
  next
    case False
    then have other: "\<And>x. abo_key account (asset_id delta) x \<Longrightarrow> \<not> abo_key owner a x"
      by (auto simp: abo_key_def)
    from store_search_put_by_other[of "abo_key account (asset_id delta)" "abo_key owner a" b',
      OF other present(3)] False present(7)
    show ?thesis by (auto simp: get_balance_def get_account_balance_def)
  qed
qed simp

lemma adjust_balance_nonneg:
  assumes "adjust_balance fc account delta d = Inr d'" "balances_nonneg d"
  shows "balances_nonneg d'"
  using assms(1)
proof (cases rule: adjust_balance_cases)
  case (present b b')
  have "0 \<le> abo_balance b"
    using store_all_search[of "\<lambda>b. 0 \<le> abo_balance b"] assms(2) present(1)
    by (auto simp: balances_nonneg_def get_account_balance_def)
  then have "0 \<le> abo_balance b'" using present(4,6) by (cases "amount delta < 0") auto
  then show ?thesis using assms(2) present(7) by (simp add: balances_nonneg_def store_all_put_by)
qed (use assms(2) in \<open>auto simp: balances_nonneg_def store_alls\<close>)

lemma adjust_balance_gap:
  assumes "adjust_balance fc account delta d = Inr d'"
  shows "supply_gap d' a = supply_gap d a + (if asset_id delta = a then amount delta else 0)"
  using assms by (rule adjust_balance_frame) (simp add: gap_defs)

lemma adjust_balance_succeeds_iff:
  assumes "in_int64 (amount delta)" "- (2 ^ 63) < amount delta" "balances_nonneg d"
  shows "(\<exists>d'. adjust_balance fc account delta d = Inr d') \<longleftrightarrow>
    amount delta = 0 \<or> (0 \<le> amount (get_balance d account (asset_id delta)) + amount delta \<and>
      in_int64 (amount (get_balance d account (asset_id delta)) + amount delta))"
proof (cases "get_account_balance d account (asset_id delta)")
  case None
  then show ?thesis using assms(1) by (auto simp: adjust_balance_def get_balance_def)
next
  case (Some b)
  then have key: "abo_key account (asset_id delta) b"
    by (auto simp: get_account_balance_def dest: store_searchD)
  have pos: "0 \<le> abo_balance b"
    using assms(3) Some store_all_search[of "\<lambda>b. 0 \<le> abo_balance b"]
    by (auto simp: balances_nonneg_def get_account_balance_def)
  have neg: "in_int64 (- amount delta)" using assms(1,2) by (simp add: in_int64_def)
  show ?thesis using Some key neg pos
    by (cases "amount delta < 0") (auto simp: adjust_balance_def get_balance_def abo_key_def)
qed

end

section \<open>The ledger contract\<close>

text \<open>What a client of the account balances relies on: an adjustment that succeeds changes one
  balance by exactly the given amount, and balances stay non-negative.\<close>

locale ledger =
  fixes bal :: "'s \<Rightarrow> account_id_type \<Rightarrow> asset_id_type \<Rightarrow> int"
    and total :: "'s \<Rightarrow> asset_id_type \<Rightarrow> int"
    and ok :: "'s \<Rightarrow> bool"
    and adjust :: "account_id_type \<Rightarrow> asset \<Rightarrow> 's \<Rightarrow> 's result"
  assumes adjust_bal: "adjust x delta s = Inr s' \<Longrightarrow>
      bal s' y a = bal s y a + (if y = x \<and> a = asset_id delta then amount delta else 0)"
    and adjust_total: "adjust x delta s = Inr s' \<Longrightarrow>
      total s' a = total s a + (if asset_id delta = a then amount delta else 0)"
    and adjust_ok: "adjust x delta s = Inr s' \<Longrightarrow> ok s \<Longrightarrow> ok s'"
    and ok_bal: "ok s \<Longrightarrow> 0 \<le> bal s x a"
begin

lemma debit_covered: "ok s \<Longrightarrow> adjust x (ASSET (- n) a) s = Inr s' \<Longrightarrow> n \<le> bal s x a"
  using adjust_bal[of x "ASSET (- n) a" s s' x a] ok_bal[of s' x a] adjust_ok by fastforce

lemma move_total:
  "adjust x (ASSET (- n) a) s = Inr s1 \<Longrightarrow> adjust y (ASSET n a) s1 = Inr s2 \<Longrightarrow> total s2 b = total s b"
  by (simp add: adjust_total)

lemma move_bal:
  "adjust x (ASSET (- n) a) s = Inr s1 \<Longrightarrow> adjust y (ASSET n a) s1 = Inr s2 \<Longrightarrow>
   bal s2 z b = bal s z b - (if z = x \<and> b = a then n else 0) + (if z = y \<and> b = a then n else 0)"
  by (simp add: adjust_bal)

lemma move_ok:
  "adjust x (ASSET (- n) a) s = Inr s1 \<Longrightarrow> adjust y (ASSET n a) s1 = Inr s2 \<Longrightarrow> ok s \<Longrightarrow> ok s2"
  by (blast intro: adjust_ok)

end

lemma get_balance_nonneg: "balances_nonneg d \<Longrightarrow> 0 \<le> amount (get_balance d owner a)"
  by (auto simp: get_balance_def balances_nonneg_def get_account_balance_def
      dest: store_all_search split: option.split)

sublocale fc_safe \<subseteq> ledger "\<lambda>d owner a. amount (get_balance d owner a)"
    "\<lambda>d a. balances_total (account_balances d) a" balances_nonneg "adjust_balance fc"
  by unfold_locales (simp_all add: adjust_balance_get adjust_balance_total adjust_balance_nonneg
      get_balance_nonneg)

section \<open>Changes of the dynamic data of an asset\<close>

lemma lsum_update_one:
  assumes "distinct (map key xs)" "x \<in> set xs" "\<And>y. y \<in> set xs \<Longrightarrow> key y \<noteq> key x \<Longrightarrow> g y = f y"
  shows "lsum g xs = lsum f xs - f x + g x"
  using assms
proof (induction xs)
  case (Cons z zs)
  show ?case
  proof (cases "z = x")
    case True
    have "lsum g zs = lsum f zs"
      by (rule lsum_cong, rule Cons.prems(3)) (use Cons.prems(1) True in \<open>auto simp: image_iff\<close>)
    with True show ?thesis by simp
  next
    case False
    with Cons.prems have x: "x \<in> set zs" by simp
    with Cons.prems(1) have "key z \<noteq> key x" by (auto simp: image_iff)
    then have "g z = f z" using Cons.prems(3)[of z] by simp
    with Cons.IH[OF _ x] Cons.prems(1,3) show ?thesis by simp
  qed
qed simp

text \<open>Replacing the dynamic data of one asset changes what is held through it and nothing else.\<close>

lemma asset_held_put:
  assumes "wf_assets as" "store_find as i = Some ao"
    and "store_find dyns (dynamic_asset_data_id ao) = Some dd"
  shows "asset_held as (store_put dyns (dynamic_asset_data_id ao) dd') bits a =
    asset_held as dyns bits a - dyn_part bits a i ao dd + dyn_part bits a i ao dd'"
proof -
  have mem: "(i, ao) \<in> set (items as)" using assms(2) by (rule store_find_itemsD)
  have "lsum (asset_part (store_put dyns (dynamic_asset_data_id ao) dd') bits a) (items as) =
      lsum (asset_part dyns bits a) (items as) - asset_part dyns bits a (i, ao) +
      asset_part (store_put dyns (dynamic_asset_data_id ao) dd') bits a (i, ao)"
    by (rule lsum_update_one[where key = "\<lambda>p. dynamic_asset_data_id (snd p)"])
      (use assms(1) mem in \<open>auto simp: wf_assets_def asset_part_def store_find_put_other\<close>)
  then show ?thesis
    using assms(3) by (simp add: asset_held_def asset_part_def store_find_put_same[OF assms(3)])
qed

lemma wf_assets_dyn_inj:
  assumes "wf_assets as" "store_find as i = Some ao" "store_find as j = Some bo"
    and "dynamic_asset_data_id ao = dynamic_asset_data_id bo"
  shows "i = j"
proof -
  have "(i, ao) \<in> set (items as)" "(j, bo) \<in> set (items as)"
    using assms(2,3) by (simp_all add: store_find_itemsD)
  moreover have "inj_on (\<lambda>p. dynamic_asset_data_id (snd p)) (set (items as))"
    using assms(1) by (simp add: wf_assets_def distinct_map)
  ultimately have "(i, ao) = (j, bo)" using assms(4) inj_onD by fastforce
  then show ?thesis by simp
qed

lemma asset_supply_put:
  assumes "wf_assets as" "store_find as i = Some ao"
    and "store_find dyns (dynamic_asset_data_id ao) = Some dd"
  shows "asset_supply as (store_put dyns (dynamic_asset_data_id ao) dd') a =
    asset_supply as dyns a + (if a = i then current_supply dd' - current_supply dd else 0)"
proof (cases "a = i")
  case True
  then show ?thesis using assms by (simp add: asset_supply_def store_find_put_same)
next
  case False
  then have "dynamic_asset_data_id bo \<noteq> dynamic_asset_data_id ao" if "store_find as a = Some bo" for bo
    using wf_assets_dyn_inj[OF assms(1) that assms(2)] by auto
  then show ?thesis using False
    by (auto simp: asset_supply_def store_find_put_other split: option.split)
qed

lemmas dyn_puts = asset_held_put asset_supply_put dyn_part_def

text \<open>Only the link to the liquidity pool of an asset object is ever changed by the modelled
  operations; nothing held depends on it.\<close>

lemma lsum_upd_first_same: "(\<And>x. P x \<Longrightarrow> f (g x) = f x) \<Longrightarrow> lsum f (upd_first P g xs) = lsum f xs"
  by (induction xs) auto

lemma map_upd_first_same: "(\<And>x. P x \<Longrightarrow> x \<in> set xs \<Longrightarrow> f (g x) = f x) \<Longrightarrow> map f (upd_first P g xs) = map f xs"
  by (induction xs) auto

lemma store_wf_inj: "store_wf st \<Longrightarrow> inj_on fst (set (items st))"
  using sorted_wrt_less_distinct[of "map fst (items st)"] by (simp add: store_wf_def distinct_map)

lemma store_wf_unique:
  assumes "store_wf st" "(i, v) \<in> set (items st)" "store_find st i = Some w"
  shows "v = w"
  using inj_onD[OF store_wf_inj[OF assms(1)], of "(i, v)" "(i, w)"] assms(2)
    store_find_itemsD[OF assms(3)] by simp

lemma store_wf_find: "store_wf st \<Longrightarrow> (i, v) \<in> set (items st) \<Longrightarrow> store_find st i = Some v"
proof -
  assume wf: "store_wf st" and mem: "(i, v) \<in> set (items st)"
  then have "find (\<lambda>p. fst p = i) (items st) \<noteq> None" by (auto simp: find_None_iff)
  then obtain w where w: "store_find st i = Some w" by (auto simp: store_find_def)
  with store_wf_unique[OF wf mem] show ?thesis by simp
qed

text \<open>Purging removes exactly the objects that are due.\<close>

lemma purge_spec:
  fixes key :: "'v \<Rightarrow> 'k::linorder"
  assumes "\<And>x y. x \<le> y \<Longrightarrow> due y \<Longrightarrow> due x" "store_wf st"
  shows "store_wf (purge key due st) \<and>
    (\<forall>i v. store_find (purge key due st) i = Some v \<longleftrightarrow> store_find st i = Some v \<and> \<not> due (key v))"
  using assms(2)
proof (induction "length (items st)" arbitrary: st rule: less_induct)
  case less
  show ?case
  proof (cases "store_first key st")
    case None
    then show ?thesis using less.prems
      by (simp add: purge.simps[of key due st] store_find_def del: store_first_None)
        (simp add: store_first_None[THEN iffD1])
  next
    case (Some q)
    then obtain i v where first: "store_first key st = Some (i, v)" by (cases q) simp
    note mem = store_first_itemsD[OF first]
    show ?thesis
    proof (cases "due (key v)")
      case True
      then have eq: "purge key due st = purge key due (store_del st i)"
        using first by (simp add: purge.simps[of key due st])
      from store_wf_find[OF less.prems mem] less.hyps[OF length_store_del[OF mem] store_wf_del[OF less.prems]] True
      show ?thesis unfolding eq by (auto simp: store_find_del[OF less.prems])
    next
      case False
      then have "purge key due st = st" using first by (simp add: purge.simps[of key due st])
      moreover have "\<not> due (key w)" if "store_find st j = Some w" for j w
        using store_first_le[OF first store_find_itemsD[OF that]] False assms(1) by auto
      ultimately show ?thesis using less.prems by auto
    qed
  qed
qed

lemma asset_part_cong: "dynamic_asset_data_id ao' = dynamic_asset_data_id ao \<Longrightarrow>
    bitasset_data_id ao' = bitasset_data_id ao \<Longrightarrow>
    asset_part dyns bits a (i, ao') = asset_part dyns bits a (i, ao)"
  by (simp add: asset_part_def dyn_part_def split: option.split)

lemma map_upd_first_store:
  assumes "store_wf st" "store_find st i = Some v" "f (i, v') = f (i, v)"
  shows "map f (items (store_put st i v')) = map f (items st)"
proof -
  have "f (fst p, v') = f p" if "fst p = i" "p \<in> set (items st)" for p
    using that store_wf_unique[OF assms(1) _ assms(2)] assms(3) by (cases p) auto
  then have "map f (upd_first (\<lambda>p. fst p = i) (\<lambda>p. (fst p, v')) (items st)) = map f (items st)"
    by (intro map_upd_first_same)
  then show ?thesis by (simp add: store_put_def)
qed

lemma asset_link_put:
  assumes "wf_assets as" "store_find as i = Some ao"
    and "dynamic_asset_data_id ao' = dynamic_asset_data_id ao"
    and "bitasset_data_id ao' = bitasset_data_id ao"
  shows "wf_assets (store_put as i ao')"
    and "asset_held (store_put as i ao') dyns bits a = asset_held as dyns bits a"
    and "asset_supply (store_put as i ao') dyns a = asset_supply as dyns a"
proof -
  have wf: "store_wf as" using assms(1) by (simp add: wf_assets_def)
  show "wf_assets (store_put as i ao')"
    using assms(1) map_upd_first_store[OF wf assms(2), of "\<lambda>p. dynamic_asset_data_id (snd p)" ao']
    by (simp add: wf_assets_def store_wf_put assms(3))
  show "asset_held (store_put as i ao') dyns bits a = asset_held as dyns bits a"
    using map_upd_first_store[OF wf assms(2), of "asset_part dyns bits a" ao']
      asset_part_cong[OF assms(3,4)] by (simp add: asset_held_def lsum_def)
  show "asset_supply (store_put as i ao') dyns a = asset_supply as dyns a"
    using assms(2,3) by (cases "a = i")
      (simp_all add: asset_supply_def store_find_put_same store_find_put_other)
qed

section \<open>Correctness of balance adjustments\<close>

text \<open>
  C23: \<open>database::adjust_balance\<close> succeeds exactly when the amount is zero or the resulting balance is
  non-negative and fits into a share amount (an overdraft throws), and when it succeeds it changes
  the balance of the given account in the given asset by exactly the given amount, leaves every
  other balance as it was, and keeps all balances non-negative.
\<close>

theorem adjust_balance_correct:
  assumes "fc_safe fc" "balances_nonneg d" "in_int64 (amount delta)" "- (2 ^ 63) < amount delta"
  shows "((\<exists>d'. adjust_balance fc account delta d = Inr d') \<longleftrightarrow>
      amount delta = 0 \<or> (0 \<le> amount (get_balance d account (asset_id delta)) + amount delta \<and>
        in_int64 (amount (get_balance d account (asset_id delta)) + amount delta))) \<and>
    (\<forall>d'. adjust_balance fc account delta d = Inr d' \<longrightarrow>
      balances_nonneg d' \<and>
      (\<forall>owner a. amount (get_balance d' owner a) = amount (get_balance d owner a) +
        (if owner = account \<and> a = asset_id delta then amount delta else 0)))"
  using fc_safe.adjust_balance_succeeds_iff[OF assms(1,3,4,2)]
    fc_safe.adjust_balance_get[OF assms(1)] fc_safe.adjust_balance_nonneg[OF assms(1) _ assms(2)]
  by blast

theorem adjust_balance_correct_witness:
  "(\<exists>d'. adjust_balance fc_ref 7 (ASSET (- 30) 0) (sample_db 100) = Inr d') \<and>
   \<not> (\<exists>d'. adjust_balance fc_ref 7 (ASSET (- 60) 0) (sample_db 100) = Inr d')"
proof -
  have ok: "balances_nonneg (sample_db 100)"
    by (simp add: balances_nonneg_def sample_db_def store_all_def)
  have bal: "amount (get_balance (sample_db 100) 7 0) = 50"
    by (simp add: get_balance_def get_account_balance_def sample_db_def store_search_def abo_key_def)
  show ?thesis
    using adjust_balance_correct[OF fc_ref.fc_safe_axioms ok, of "ASSET (- 30) 0" 7]
      adjust_balance_correct[OF fc_ref.fc_safe_axioms ok, of "ASSET (- 60) 0" 7]
    by (simp add: bal in_int64_def)
qed

end
