(* ===== verification/Vesting.thy ===== *)
theory Vesting
  imports Chain_State
begin

text \<open>
  Vesting balances: \<open>libraries/chain/vesting_balance_object.cpp\<close> and its header. The three policies
  are functions on a policy and a context; the visitors of the source become the case
  distinctions of \<open>policy_*\<close>. The \<open>assert\<close>s of the source are compiled out of release builds and
  are not part of the definitions; the lemmas show that they hold. The product in
  \<open>cdd_vesting_policy::on_deposit_vested\<close> is one of plain 64-bit signed integers, whose overflow has no defined result.
\<close>

record vesting_policy_context =
  ctx_balance :: asset
  ctx_now :: time_point_sec
  ctx_amount :: asset

definition sum_below_max_shares :: "fc_lib \<Rightarrow> asset \<Rightarrow> asset \<Rightarrow> bool result" where
  "sum_below_max_shares fc a b =
     (if amount a \<le> GRAPHENE_MAX_SHARE_SUPPLY \<and> amount b \<le> GRAPHENE_MAX_SHARE_SUPPLY
      then bnd (safe_add fc (amount a) (amount b)) (\<lambda>s. Inr (s \<le> GRAPHENE_MAX_SHARE_SUPPLY))
      else Inr False)"

section \<open>The linear policy\<close>

definition linear_get_allowed_withdraw ::
    "fc_lib \<Rightarrow> linear_vesting_policy \<Rightarrow> vesting_policy_context \<Rightarrow> asset result" where
  "linear_get_allowed_withdraw fc p ctx =
     bnd (if begin_timestamp p < ctx_now ctx then
            let elapsed_seconds = tps_diff fc (ctx_now ctx) (begin_timestamp p) in
            if int (vesting_cliff_seconds p) \<le> elapsed_seconds then
              let total_vested =
                (if elapsed_seconds < int (vesting_duration_seconds p)
                 then to_int64 (u128_mul (u128 (begin_balance p)) (u128 elapsed_seconds)
                                div int (vesting_duration_seconds p))
                 else begin_balance p) in
              bnd (safe_sub fc (begin_balance p) (amount (ctx_balance ctx))) (\<lambda>withdrawn_already.
              safe_sub fc total_vested withdrawn_already)
            else Inr 0
          else Inr 0) (\<lambda>allowed_withdraw.
     Inr (ASSET allowed_withdraw (asset_id (ctx_balance ctx))))"

definition linear_is_deposit_allowed :: "fc_lib \<Rightarrow> vesting_policy_context \<Rightarrow> bool result" where
  "linear_is_deposit_allowed fc ctx =
     (if asset_id (ctx_amount ctx) = asset_id (ctx_balance ctx)
      then sum_below_max_shares fc (ctx_amount ctx) (ctx_balance ctx) else Inr False)"

definition linear_is_withdraw_allowed ::
    "fc_lib \<Rightarrow> linear_vesting_policy \<Rightarrow> vesting_policy_context \<Rightarrow> bool result" where
  "linear_is_withdraw_allowed fc p ctx =
     (if asset_id (ctx_amount ctx) = asset_id (ctx_balance ctx)
      then bnd (linear_get_allowed_withdraw fc p ctx) (\<lambda>w. asset_le (ctx_amount ctx) w)
      else Inr False)"

section \<open>The coin-days-destroyed policy\<close>

definition compute_coin_seconds_earned :: "fc_lib \<Rightarrow> cdd_vesting_policy \<Rightarrow> vesting_policy_context \<Rightarrow> int" where
  "compute_coin_seconds_earned fc p ctx =
     (let delta_seconds = tps_diff fc (ctx_now ctx) (coin_seconds_earned_last_update p);
          delta_coin_seconds = u128_mul (u128 (amount (ctx_balance ctx))) (u128 delta_seconds);
          coin_seconds_earned_cap =
            u128_mul (u128 (amount (ctx_balance ctx))) (int (max (vesting_seconds p) 1))
      in min (u128_add (coin_seconds_earned p) delta_coin_seconds) coin_seconds_earned_cap)"

definition update_coin_seconds_earned ::
    "fc_lib \<Rightarrow> vesting_policy_context \<Rightarrow> cdd_vesting_policy \<Rightarrow> cdd_vesting_policy" where
  "update_coin_seconds_earned fc ctx p =
     p\<lparr>coin_seconds_earned := compute_coin_seconds_earned fc p ctx,
       coin_seconds_earned_last_update := ctx_now ctx\<rparr>"

definition cdd_get_allowed_withdraw :: "fc_lib \<Rightarrow> cdd_vesting_policy \<Rightarrow> vesting_policy_context \<Rightarrow> asset" where
  "cdd_get_allowed_withdraw fc p ctx =
     (if ctx_now ctx \<le> start_claim p then ASSET 0 (asset_id (ctx_balance ctx))
      else
        let cs_earned = compute_coin_seconds_earned fc p ctx;
            withdraw_available = cs_earned div int (max (vesting_seconds p) 1)
        in ASSET (to_int64 withdraw_available) (asset_id (ctx_balance ctx)))"

definition cdd_on_deposit :: "fc_lib \<Rightarrow> vesting_policy_context \<Rightarrow> cdd_vesting_policy \<Rightarrow> cdd_vesting_policy" where
  "cdd_on_deposit fc ctx p = update_coin_seconds_earned fc ctx p"

definition cdd_on_deposit_vested ::
    "fc_lib \<Rightarrow> vesting_policy_context \<Rightarrow> cdd_vesting_policy \<Rightarrow> cdd_vesting_policy result" where
  "cdd_on_deposit_vested fc ctx p =
     (let q = cdd_on_deposit fc ctx p;
          vested = amount (ctx_amount ctx) * int (max (vesting_seconds p) 1)
      in ensure Undefined_behaviour (in_int64 vested)
        (Inr (q\<lparr>coin_seconds_earned := u128_add (coin_seconds_earned q) (u128 vested)\<rparr>)))"

definition cdd_on_withdraw :: "fc_lib \<Rightarrow> vesting_policy_context \<Rightarrow> cdd_vesting_policy \<Rightarrow> cdd_vesting_policy" where
  "cdd_on_withdraw fc ctx p =
     (let q = update_coin_seconds_earned fc ctx p;
          coin_seconds_needed = u128_mul (u128 (amount (ctx_amount ctx))) (int (max (vesting_seconds p) 1))
      in q\<lparr>coin_seconds_earned := u128_sub (coin_seconds_earned q) coin_seconds_needed\<rparr>)"

definition cdd_is_deposit_allowed :: "fc_lib \<Rightarrow> vesting_policy_context \<Rightarrow> bool result" where
  "cdd_is_deposit_allowed fc ctx =
     (if asset_id (ctx_amount ctx) = asset_id (ctx_balance ctx)
      then sum_below_max_shares fc (ctx_amount ctx) (ctx_balance ctx) else Inr False)"

definition cdd_is_withdraw_allowed ::
    "fc_lib \<Rightarrow> cdd_vesting_policy \<Rightarrow> vesting_policy_context \<Rightarrow> bool result" where
  "cdd_is_withdraw_allowed fc p ctx = asset_le (ctx_amount ctx) (cdd_get_allowed_withdraw fc p ctx)"

section \<open>The instant policy\<close>

definition instant_is_deposit_allowed :: "fc_lib \<Rightarrow> vesting_policy_context \<Rightarrow> bool result" where
  "instant_is_deposit_allowed fc ctx =
     (if asset_id (ctx_amount ctx) = asset_id (ctx_balance ctx)
      then sum_below_max_shares fc (ctx_amount ctx) (ctx_balance ctx) else Inr False)"

definition instant_is_withdraw_allowed :: "vesting_policy_context \<Rightarrow> bool result" where
  "instant_is_withdraw_allowed ctx =
     (if asset_id (ctx_amount ctx) = asset_id (ctx_balance ctx)
      then asset_le (ctx_amount ctx) (ctx_balance ctx) else Inr False)"

section \<open>Dispatch over the policy\<close>

fun policy_get_allowed_withdraw :: "fc_lib \<Rightarrow> vesting_policy \<Rightarrow> vesting_policy_context \<Rightarrow> asset result" where
  "policy_get_allowed_withdraw fc (Linear_vesting p) ctx = linear_get_allowed_withdraw fc p ctx"
| "policy_get_allowed_withdraw fc (Cdd_vesting p) ctx = Inr (cdd_get_allowed_withdraw fc p ctx)"
| "policy_get_allowed_withdraw fc Instant_vesting ctx = Inr (ctx_balance ctx)"

fun policy_is_deposit_allowed :: "fc_lib \<Rightarrow> vesting_policy \<Rightarrow> vesting_policy_context \<Rightarrow> bool result" where
  "policy_is_deposit_allowed fc (Linear_vesting p) ctx = linear_is_deposit_allowed fc ctx"
| "policy_is_deposit_allowed fc (Cdd_vesting p) ctx = cdd_is_deposit_allowed fc ctx"
| "policy_is_deposit_allowed fc Instant_vesting ctx = instant_is_deposit_allowed fc ctx"

fun policy_is_deposit_vested_allowed ::
    "fc_lib \<Rightarrow> vesting_policy \<Rightarrow> vesting_policy_context \<Rightarrow> bool result" where
  "policy_is_deposit_vested_allowed fc (Linear_vesting p) ctx = Inr False"
| "policy_is_deposit_vested_allowed fc (Cdd_vesting p) ctx = cdd_is_deposit_allowed fc ctx"
| "policy_is_deposit_vested_allowed fc Instant_vesting ctx = Inr False"

fun policy_is_withdraw_allowed :: "fc_lib \<Rightarrow> vesting_policy \<Rightarrow> vesting_policy_context \<Rightarrow> bool result" where
  "policy_is_withdraw_allowed fc (Linear_vesting p) ctx = linear_is_withdraw_allowed fc p ctx"
| "policy_is_withdraw_allowed fc (Cdd_vesting p) ctx = cdd_is_withdraw_allowed fc p ctx"
| "policy_is_withdraw_allowed fc Instant_vesting ctx = instant_is_withdraw_allowed ctx"

fun policy_on_deposit :: "fc_lib \<Rightarrow> vesting_policy_context \<Rightarrow> vesting_policy \<Rightarrow> vesting_policy" where
  "policy_on_deposit fc ctx (Linear_vesting p) = Linear_vesting p"
| "policy_on_deposit fc ctx (Cdd_vesting p) = Cdd_vesting (cdd_on_deposit fc ctx p)"
| "policy_on_deposit fc ctx Instant_vesting = Instant_vesting"

fun policy_on_deposit_vested ::
    "fc_lib \<Rightarrow> vesting_policy_context \<Rightarrow> vesting_policy \<Rightarrow> vesting_policy result" where
  "policy_on_deposit_vested fc ctx (Linear_vesting p) = Inl Fc_exception"
| "policy_on_deposit_vested fc ctx (Cdd_vesting p) =
     bnd (cdd_on_deposit_vested fc ctx p) (\<lambda>q. Inr (Cdd_vesting q))"
| "policy_on_deposit_vested fc ctx Instant_vesting = Inr Instant_vesting"

fun policy_on_withdraw :: "fc_lib \<Rightarrow> vesting_policy_context \<Rightarrow> vesting_policy \<Rightarrow> vesting_policy" where
  "policy_on_withdraw fc ctx (Linear_vesting p) = Linear_vesting p"
| "policy_on_withdraw fc ctx (Cdd_vesting p) = Cdd_vesting (cdd_on_withdraw fc ctx p)"
| "policy_on_withdraw fc ctx Instant_vesting = Instant_vesting"

section \<open>The vesting balance object\<close>

definition vbo_context :: "time_point_sec \<Rightarrow> asset \<Rightarrow> vesting_balance_object \<Rightarrow> vesting_policy_context" where
  "vbo_context now amt v = \<lparr>ctx_balance = vbo_balance v, ctx_now = now, ctx_amount = amt\<rparr>"

definition vbo_is_deposit_allowed ::
    "fc_lib \<Rightarrow> time_point_sec \<Rightarrow> asset \<Rightarrow> vesting_balance_object \<Rightarrow> bool result" where
  "vbo_is_deposit_allowed fc now amt v = policy_is_deposit_allowed fc (vbo_policy v) (vbo_context now amt v)"

definition vbo_is_withdraw_allowed ::
    "fc_lib \<Rightarrow> time_point_sec \<Rightarrow> asset \<Rightarrow> vesting_balance_object \<Rightarrow> bool result" where
  "vbo_is_withdraw_allowed fc now amt v = policy_is_withdraw_allowed fc (vbo_policy v) (vbo_context now amt v)"

definition vbo_is_deposit_vested_allowed ::
    "fc_lib \<Rightarrow> time_point_sec \<Rightarrow> asset \<Rightarrow> vesting_balance_object \<Rightarrow> bool result" where
  "vbo_is_deposit_vested_allowed fc now amt v =
     policy_is_deposit_vested_allowed fc (vbo_policy v) (vbo_context now amt v)"

definition vbo_deposit ::
    "fc_lib \<Rightarrow> time_point_sec \<Rightarrow> asset \<Rightarrow> vesting_balance_object \<Rightarrow> vesting_balance_object result" where
  "vbo_deposit fc now amt v =
     bnd (asset_add fc (vbo_balance v) amt) (\<lambda>b.
     Inr (v\<lparr>vbo_policy := policy_on_deposit fc (vbo_context now amt v) (vbo_policy v), vbo_balance := b\<rparr>))"

definition vbo_deposit_vested ::
    "fc_lib \<Rightarrow> time_point_sec \<Rightarrow> asset \<Rightarrow> vesting_balance_object \<Rightarrow> vesting_balance_object result" where
  "vbo_deposit_vested fc now amt v =
     bnd (policy_on_deposit_vested fc (vbo_context now amt v) (vbo_policy v)) (\<lambda>p.
     bnd (asset_add fc (vbo_balance v) amt) (\<lambda>b.
     Inr (v\<lparr>vbo_policy := p, vbo_balance := b\<rparr>)))"

definition vbo_withdraw ::
    "fc_lib \<Rightarrow> time_point_sec \<Rightarrow> asset \<Rightarrow> vesting_balance_object \<Rightarrow> vesting_balance_object result" where
  "vbo_withdraw fc now amt v =
     bnd (asset_sub fc (vbo_balance v) amt) (\<lambda>b.
     Inr (v\<lparr>vbo_policy := policy_on_withdraw fc (vbo_context now amt v) (vbo_policy v), vbo_balance := b\<rparr>))"

definition vbo_get_allowed_withdraw ::
    "fc_lib \<Rightarrow> time_point_sec \<Rightarrow> vesting_balance_object \<Rightarrow> asset result" where
  "vbo_get_allowed_withdraw fc now v =
     policy_get_allowed_withdraw fc (vbo_policy v) (vbo_context now (ASSET 0 CORE_ASSET) v)"

section \<open>The invariant of a vesting balance\<close>

text \<open>
  The balance is a valid share amount; the coin seconds of the coin-days policy never exceed what
  the balance can earn, and were last updated in the past; a linear policy has never paid out more
  than it had released by the time of the last payment.
\<close>

definition linear_released :: "linear_vesting_policy \<Rightarrow> time_point_sec \<Rightarrow> int" where
  "linear_released p now =
     (if begin_timestamp p < now \<and> vesting_cliff_seconds p \<le> now - begin_timestamp p
      then (if now - begin_timestamp p < vesting_duration_seconds p
            then begin_balance p * int (now - begin_timestamp p) div int (vesting_duration_seconds p)
            else begin_balance p)
      else 0)"

fun policy_wf :: "time_point_sec \<Rightarrow> int \<Rightarrow> vesting_policy \<Rightarrow> bool" where
  "policy_wf now bal (Linear_vesting p) \<longleftrightarrow> bal \<le> begin_balance p \<and>
     begin_balance p \<le> GRAPHENE_MAX_SHARE_SUPPLY \<and> begin_balance p - bal \<le> linear_released p now"
| "policy_wf now bal (Cdd_vesting p) \<longleftrightarrow>
     0 \<le> coin_seconds_earned p \<and> coin_seconds_earned p \<le> bal * int (max (vesting_seconds p) 1) \<and>
     vesting_seconds p < 2 ^ 32 \<and> coin_seconds_earned_last_update p \<le> now"
| "policy_wf now bal Instant_vesting \<longleftrightarrow> True"

definition vbo_wf :: "time_point_sec \<Rightarrow> vesting_balance_object \<Rightarrow> bool" where
  "vbo_wf now v \<longleftrightarrow> 0 \<le> amount (vbo_balance v) \<and> amount (vbo_balance v) \<le> GRAPHENE_MAX_SHARE_SUPPLY \<and>
     now < 2 ^ 32 \<and> policy_wf now (amount (vbo_balance v)) (vbo_policy v)"

section \<open>Lemmas\<close>

lemma share_in_int64: "0 \<le> x \<Longrightarrow> x \<le> GRAPHENE_MAX_SHARE_SUPPLY \<Longrightarrow> in_int64 x"
  by (simp add: in_int64_def GRAPHENE_MAX_SHARE_SUPPLY_def)

lemma share_times_bound:
  assumes "0 \<le> x" "x \<le> GRAPHENE_MAX_SHARE_SUPPLY" "0 \<le> y" "y < 2 ^ 32"
  shows "0 \<le> x * y" "x * y < 2 ^ 82"
proof -
  have "x * y \<le> 1000000000000000 * 2 ^ 32"
    using assms by (intro mult_mono) (auto simp: GRAPHENE_MAX_SHARE_SUPPLY_def)
  then show "x * y < 2 ^ 82" by simp
qed (use assms in simp)

lemma max_vs_bound: "vs < 2 ^ 32 \<Longrightarrow> 0 < int (max vs 1) \<and> int (max vs 1) < 2 ^ 32"
  by (simp add: max_def)

context fc_safe
begin

text \<open>Within the invariant nothing wraps: the coin seconds are what the comments say.\<close>

lemma compute_coin_seconds_exact:
  assumes "0 \<le> amount (ctx_balance ctx)" "amount (ctx_balance ctx) \<le> GRAPHENE_MAX_SHARE_SUPPLY"
    and "policy_wf t (amount (ctx_balance ctx)) (Cdd_vesting p)" "t \<le> ctx_now ctx" "ctx_now ctx < 2 ^ 32"
  shows "compute_coin_seconds_earned fc p ctx =
    min (coin_seconds_earned p +
           amount (ctx_balance ctx) * (int (ctx_now ctx) - int (coin_seconds_earned_last_update p)))
        (amount (ctx_balance ctx) * int (max (vesting_seconds p) 1))"
proof -
  let ?b = "amount (ctx_balance ctx)" and ?vs = "int (max (vesting_seconds p) 1)"
  let ?dt = "int (ctx_now ctx) - int (coin_seconds_earned_last_update p)"
  have dt: "0 \<le> ?dt" "?dt < 2 ^ 32" using assms(3-5) by auto
  have vs: "0 < ?vs" "?vs < 2 ^ 32" using assms(3) max_vs_bound[of "vesting_seconds p"] by auto
  have b: "0 \<le> ?b * ?dt" "?b * ?dt < 2 ^ 82" "0 \<le> ?b * ?vs" "?b * ?vs < 2 ^ 82"
    using share_times_bound[OF assms(1,2) dt] share_times_bound[OF assms(1,2), of ?vs] vs by auto
  have ub: "u128 ?b = ?b" "u128 ?dt = ?dt"
    using assms(1,2) dt by (auto intro!: u128_id simp: GRAPHENE_MAX_SHARE_SUPPLY_def)
  have "u128_mul ?b ?dt = ?b * ?dt" "u128_mul ?b ?vs = ?b * ?vs"
    using b by (auto intro!: u128_mul_id)
  moreover have "u128_add (coin_seconds_earned p) (?b * ?dt) = coin_seconds_earned p + ?b * ?dt"
    using assms(3) b by (intro u128_add_id) auto
  ultimately show ?thesis using ub by (simp add: compute_coin_seconds_earned_def)
qed

lemma compute_coin_seconds_bounds:
  assumes "0 \<le> amount (ctx_balance ctx)" "amount (ctx_balance ctx) \<le> GRAPHENE_MAX_SHARE_SUPPLY"
    and "policy_wf t (amount (ctx_balance ctx)) (Cdd_vesting p)" "t \<le> ctx_now ctx" "ctx_now ctx < 2 ^ 32"
  shows "0 \<le> compute_coin_seconds_earned fc p ctx"
    and "compute_coin_seconds_earned fc p ctx \<le> amount (ctx_balance ctx) * int (max (vesting_seconds p) 1)"
  using assms by (auto simp: compute_coin_seconds_exact[OF assms])

lemma cdd_allowed_bounds:
  assumes "0 \<le> amount (ctx_balance ctx)" "amount (ctx_balance ctx) \<le> GRAPHENE_MAX_SHARE_SUPPLY"
    and "policy_wf t (amount (ctx_balance ctx)) (Cdd_vesting p)" "t \<le> ctx_now ctx" "ctx_now ctx < 2 ^ 32"
  shows "0 \<le> amount (cdd_get_allowed_withdraw fc p ctx)"
    and "amount (cdd_get_allowed_withdraw fc p ctx) \<le> amount (ctx_balance ctx)"
    and "amount (cdd_get_allowed_withdraw fc p ctx) * int (max (vesting_seconds p) 1)
      \<le> compute_coin_seconds_earned fc p ctx"
    and "cdd_get_allowed_withdraw fc p ctx = ASSET (if ctx_now ctx \<le> start_claim p then 0
      else compute_coin_seconds_earned fc p ctx div int (max (vesting_seconds p) 1))
      (asset_id (ctx_balance ctx))"
proof -
  let ?cs = "compute_coin_seconds_earned fc p ctx" and ?vs = "int (max (vesting_seconds p) 1)"
  note b = compute_coin_seconds_bounds[OF assms]
  have vs: "0 < ?vs" by simp
  have q0: "0 \<le> ?cs div ?vs" using b(1) vs by (simp add: pos_imp_zdiv_nonneg_iff)
  have qv: "?cs div ?vs * ?vs \<le> ?cs" by (rule floor_bounds(1)[OF vs])
  have "?cs div ?vs * ?vs \<le> amount (ctx_balance ctx) * ?vs" using qv b(2) by linarith
  then have q1: "?cs div ?vs \<le> amount (ctx_balance ctx)" using vs by (simp only: mult_le_cancel_right)
  have "to_int64 (?cs div ?vs) = ?cs div ?vs"
    by (rule to_int64_id, rule share_in_int64) (use q0 q1 assms(2) in auto)
  then show "0 \<le> amount (cdd_get_allowed_withdraw fc p ctx)"
    "amount (cdd_get_allowed_withdraw fc p ctx) \<le> amount (ctx_balance ctx)"
    "amount (cdd_get_allowed_withdraw fc p ctx) * ?vs \<le> ?cs"
    "cdd_get_allowed_withdraw fc p ctx = ASSET (if ctx_now ctx \<le> start_claim p then 0
      else ?cs div ?vs) (asset_id (ctx_balance ctx))"
    using q0 q1 qv b(1) assms(1) by (auto simp: cdd_get_allowed_withdraw_def)
qed

lemma linear_vested_bound:
  assumes "0 \<le> begin_balance p" "begin_balance p \<le> GRAPHENE_MAX_SHARE_SUPPLY"
    and "0 \<le> e" "e < int (vesting_duration_seconds p)" "e < 2 ^ 32"
  shows "to_int64 (u128_mul (u128 (begin_balance p)) (u128 e) div int (vesting_duration_seconds p)) =
      begin_balance p * e div int (vesting_duration_seconds p)"
    and "begin_balance p * e div int (vesting_duration_seconds p) \<le> begin_balance p"
    and "0 \<le> begin_balance p * e div int (vesting_duration_seconds p)"
proof -
  let ?d = "int (vesting_duration_seconds p)" and ?b = "begin_balance p"
  have d: "0 < ?d" using assms(3,4) by linarith
  have m: "u128_mul (u128 ?b) (u128 e) = ?b * e"
    using share_times_bound[OF assms(1,2,3,5)] assms
    by (simp add: u128_mul_id u128_id GRAPHENE_MAX_SHARE_SUPPLY_def)
  have "?b * e \<le> ?b * ?d" using assms by (intro mult_left_mono) auto
  then have "?b * e div ?d \<le> ?b * ?d div ?d" using d by (rule zdiv_mono1)
  then show le: "?b * e div ?d \<le> ?b" using d by simp
  show ge: "0 \<le> ?b * e div ?d" using assms d by (simp add: pos_imp_zdiv_nonneg_iff)
  show "to_int64 (u128_mul (u128 ?b) (u128 e) div ?d) = ?b * e div ?d"
    unfolding m by (rule to_int64_id, rule share_in_int64) (use le ge assms(2) in auto)
qed

lemma linear_released_mono:
  assumes "0 \<le> begin_balance p" "now \<le> later"
  shows "linear_released p now \<le> linear_released p later" "linear_released p now \<le> begin_balance p"
    "0 \<le> linear_released p now"
proof -
  have mono: "begin_balance p * int x div int (vesting_duration_seconds p) \<le>
      begin_balance p * int y div int (vesting_duration_seconds p)"
    if "x \<le> y" "x < vesting_duration_seconds p" for x y
    using that assms(1) by (intro zdiv_mono1 mult_left_mono) auto
  have full: "begin_balance p * int x div int (vesting_duration_seconds p) \<le> begin_balance p"
    if "x < vesting_duration_seconds p" for x
    using mono[of x "vesting_duration_seconds p"] that by simp
  have pos: "0 \<le> begin_balance p * int x div int (vesting_duration_seconds p)"
    if "x < vesting_duration_seconds p" for x
    using that assms(1) by (simp add: pos_imp_zdiv_nonneg_iff)
  show "linear_released p now \<le> begin_balance p" "0 \<le> linear_released p now"
    using full pos assms(1) by (simp_all add: linear_released_def del: of_nat_diff)
  have sub: "now - begin_timestamp p \<le> later - begin_timestamp p" using assms(2) by simp
  show "linear_released p now \<le> linear_released p later"
    using mono[OF sub] full[of "now - begin_timestamp p"] pos[of "later - begin_timestamp p"] assms sub
    by (auto simp: linear_released_def simp del: of_nat_diff)
qed

lemma linear_started_allowed:
  assumes "0 \<le> amount (ctx_balance ctx)" "amount (ctx_balance ctx) \<le> begin_balance p"
    and "begin_balance p \<le> GRAPHENE_MAX_SHARE_SUPPLY" "ctx_now ctx < 2 ^ 32"
    and "begin_timestamp p < ctx_now ctx" "vesting_cliff_seconds p \<le> ctx_now ctx - begin_timestamp p"
  shows "linear_get_allowed_withdraw fc p ctx = Inr (ASSET
    (linear_released p (ctx_now ctx) - (begin_balance p - amount (ctx_balance ctx)))
    (asset_id (ctx_balance ctx)))"
proof -
  let ?e = "int (ctx_now ctx - begin_timestamp p)"
  have e: "int (ctx_now ctx) - int (begin_timestamp p) = ?e" using assms(5) by simp
  have e': "?e < 2 ^ 32" using assms(4) by simp
  have cl: "int (vesting_cliff_seconds p) \<le> int (ctx_now ctx) - int (begin_timestamp p)"
    using assms(5,6) by linarith
  have b: "0 \<le> begin_balance p" using assms(1,2) by linarith
  have tv: "(if ?e < int (vesting_duration_seconds p)
      then to_int64 (u128_mul (u128 (begin_balance p)) (u128 ?e) div int (vesting_duration_seconds p))
      else begin_balance p) = linear_released p (ctx_now ctx)"
    using linear_vested_bound(1)[OF b assms(3), of ?e] e' assms(5,6)
    by (simp add: linear_released_def del: of_nat_diff)
  note rel = linear_released_mono[OF b order_refl, of "ctx_now ctx"]
  have r: "in_int64 (begin_balance p - amount (ctx_balance ctx))"
    "in_int64 (linear_released p (ctx_now ctx) - (begin_balance p - amount (ctx_balance ctx)))"
    using assms(1-3) rel by (auto simp: in_int64_def GRAPHENE_MAX_SHARE_SUPPLY_def)
  show ?thesis
    unfolding linear_get_allowed_withdraw_def tps_diff_exact e Let_def tv
    using assms(5) cl r by (simp add: safe_sub_Inr)
qed

text \<open>What a linear policy allows is what it has released and not paid out yet.\<close>

lemma linear_allowed_exact:
  assumes "0 \<le> amount (ctx_balance ctx)" "policy_wf t (amount (ctx_balance ctx)) (Linear_vesting p)"
    and "t \<le> ctx_now ctx" "ctx_now ctx < 2 ^ 32"
  shows "linear_get_allowed_withdraw fc p ctx = Inr (ASSET
    (linear_released p (ctx_now ctx) - (begin_balance p - amount (ctx_balance ctx)))
    (asset_id (ctx_balance ctx)))"
    and "begin_balance p - amount (ctx_balance ctx) \<le> linear_released p (ctx_now ctx)"
    and "linear_released p (ctx_now ctx) \<le> begin_balance p"
proof -
  have b: "0 \<le> begin_balance p" using assms by auto
  note mono = linear_released_mono[OF b assms(3)] linear_released_mono[OF b order_refl, of "ctx_now ctx"]
  show paid: "begin_balance p - amount (ctx_balance ctx) \<le> linear_released p (ctx_now ctx)"
    "linear_released p (ctx_now ctx) \<le> begin_balance p"
    using assms(2) mono by auto
  show "linear_get_allowed_withdraw fc p ctx = Inr (ASSET
    (linear_released p (ctx_now ctx) - (begin_balance p - amount (ctx_balance ctx)))
    (asset_id (ctx_balance ctx)))"
  proof (cases "begin_timestamp p < ctx_now ctx \<and> vesting_cliff_seconds p \<le> ctx_now ctx - begin_timestamp p")
    case True
    then show ?thesis using assms by (intro linear_started_allowed) auto
  next
    case False
    then have "linear_released p (ctx_now ctx) = 0" by (auto simp: linear_released_def)
    with paid(1) assms(2) have "begin_balance p = amount (ctx_balance ctx)" by simp
    with False show ?thesis by (auto simp: linear_get_allowed_withdraw_def linear_released_def)
  qed
qed

text \<open>Whatever the policy, an allowed withdrawal is covered by the balance.\<close>

lemma withdraw_allowed_covered:
  assumes "vbo_wf t v" "t \<le> now" "now < 2 ^ 32" "vbo_is_withdraw_allowed fc now amt v = Inr True"
  shows "asset_id amt = asset_id (vbo_balance v)" "amount amt \<le> amount (vbo_balance v)"
proof -
  have "asset_id amt = asset_id (vbo_balance v) \<and> amount amt \<le> amount (vbo_balance v)"
  proof (cases "vbo_policy v")
    case (Linear_vesting p)
    then show ?thesis
      using assms linear_allowed_exact[of "vbo_context now amt v" t p]
      by (auto simp: vbo_is_withdraw_allowed_def linear_is_withdraw_allowed_def vbo_wf_def
          vbo_context_def split: if_splits)
  next
    case (Cdd_vesting p)
    then show ?thesis
      using assms cdd_allowed_bounds(2)[of "vbo_context now amt v" t p]
      by (auto simp: vbo_is_withdraw_allowed_def cdd_is_withdraw_allowed_def vbo_wf_def
          vbo_context_def cdd_get_allowed_withdraw_def split: if_splits)
  next
    case Instant_vesting
    then show ?thesis using assms(4)
      by (auto simp: vbo_is_withdraw_allowed_def instant_is_withdraw_allowed_def vbo_context_def
          split: if_splits)
  qed
  then show "asset_id amt = asset_id (vbo_balance v)" "amount amt \<le> amount (vbo_balance v)" by auto
qed

lemma cdd_on_withdraw_wf:
  assumes "vbo_wf t v" "vbo_policy v = Cdd_vesting p" "t \<le> now" "now < 2 ^ 32" "0 \<le> amount amt"
    and "vbo_is_withdraw_allowed fc now amt v = Inr True"
  shows "policy_wf now (amount (vbo_balance v) - amount amt)
      (Cdd_vesting (cdd_on_withdraw fc (vbo_context now amt v) p))"
    and "amount amt * int (max (vesting_seconds p) 1) \<le>
      compute_coin_seconds_earned fc p (vbo_context now amt v)"
proof -
  let ?ctx = "vbo_context now amt v" and ?vs = "int (max (vesting_seconds p) 1)"
  let ?cs = "compute_coin_seconds_earned fc p ?ctx"
  have c: "0 \<le> amount (ctx_balance ?ctx)" "amount (ctx_balance ?ctx) \<le> GRAPHENE_MAX_SHARE_SUPPLY"
    "policy_wf t (amount (ctx_balance ?ctx)) (Cdd_vesting p)" "t \<le> ctx_now ?ctx" "ctx_now ?ctx < 2 ^ 32"
    using assms by (auto simp: vbo_wf_def vbo_context_def)
  have le: "amount amt \<le> amount (cdd_get_allowed_withdraw fc p ?ctx)"
    using assms(2,6) by (auto simp: vbo_is_withdraw_allowed_def cdd_is_withdraw_allowed_def vbo_context_def)
  have "amount amt * ?vs \<le> amount (cdd_get_allowed_withdraw fc p ?ctx) * ?vs"
    using le by (intro mult_right_mono) auto
  then show need: "amount amt * ?vs \<le> ?cs" using cdd_allowed_bounds(3)[OF c] by linarith
  have vs: "0 < ?vs" "?vs < 2 ^ 32" using c(3) max_vs_bound[of "vesting_seconds p"] by auto
  have amt: "amount amt \<le> GRAPHENE_MAX_SHARE_SUPPLY"
    using withdraw_allowed_covered(2)[OF assms(1,3,4,6)] assms(1) by (simp add: vbo_wf_def)
  have u: "u128 (amount amt) = amount amt"
    using assms(5) amt by (intro u128_id) (auto simp: GRAPHENE_MAX_SHARE_SUPPLY_def)
  have m: "u128_mul (u128 (amount amt)) ?vs = amount amt * ?vs"
    using share_times_bound[OF assms(5) amt, of ?vs] vs unfolding u by (intro u128_mul_id) auto
  note b = compute_coin_seconds_bounds[OF c]
  have cap: "?cs < 2 ^ 82"
    using b(2) share_times_bound(2)[OF c(1,2), of ?vs] vs by linarith
  have "u128_sub ?cs (amount amt * ?vs) = ?cs - amount amt * ?vs"
  proof (rule u128_sub_id[OF need])
    have "0 \<le> amount amt * ?vs" using assms(5) by simp
    then have "?cs - amount amt * ?vs < 2 ^ 82" using cap by linarith
    then show "?cs - amount amt * ?vs < 2 ^ 128" by simp
  qed
  moreover have "?cs - amount amt * ?vs \<le> (amount (vbo_balance v) - amount amt) * ?vs"
    using b(2) by (simp add: left_diff_distrib vbo_context_def)
  ultimately show "policy_wf now (amount (vbo_balance v) - amount amt)
      (Cdd_vesting (cdd_on_withdraw fc ?ctx p))"
    using need c(3) m
    by (simp add: cdd_on_withdraw_def update_coin_seconds_earned_def vbo_context_def)
qed

lemma vbo_withdraw_correct:
  assumes "vbo_wf t v" "t \<le> now" "now < 2 ^ 32" "0 \<le> amount amt"
    and "vbo_is_withdraw_allowed fc now amt v = Inr True"
  shows "\<exists>v'. vbo_withdraw fc now amt v = Inr v' \<and> vbo_wf now v' \<and>
    vbo_balance v' = ASSET (amount (vbo_balance v) - amount amt) (asset_id (vbo_balance v))"
proof -
  note c = withdraw_allowed_covered[OF assms(1-3,5)]
  have r: "in_int64 (amount (vbo_balance v) - amount amt)"
    using assms(1,4) c(2) by (intro share_in_int64) (auto simp: vbo_wf_def)
  have "policy_wf now (amount (vbo_balance v) - amount amt)
      (policy_on_withdraw fc (vbo_context now amt v) (vbo_policy v))"
  proof (cases "vbo_policy v")
    case (Cdd_vesting p)
    from cdd_on_withdraw_wf(1)[OF assms(1) this assms(2-5)] Cdd_vesting show ?thesis by simp
  next
    case (Linear_vesting p)
    then show ?thesis using assms linear_allowed_exact[of "vbo_context now amt v" t p]
      by (auto simp: vbo_is_withdraw_allowed_def linear_is_withdraw_allowed_def vbo_wf_def
          vbo_context_def split: if_splits)
  qed simp
  with assms(1,3,4) c r show ?thesis by (simp add: vbo_withdraw_def vbo_wf_def)
qed

lemma cdd_deposit_wf:
  assumes "vbo_wf t v" "vbo_policy v = Cdd_vesting p" "t \<le> now" "now < 2 ^ 32" "0 \<le> amount amt"
  shows "policy_wf now (amount (vbo_balance v) + amount amt)
      (Cdd_vesting (cdd_on_deposit fc (vbo_context now amt v) p))"
proof -
  let ?ctx = "vbo_context now amt v"
  have c: "0 \<le> amount (ctx_balance ?ctx)" "amount (ctx_balance ?ctx) \<le> GRAPHENE_MAX_SHARE_SUPPLY"
    "policy_wf t (amount (ctx_balance ?ctx)) (Cdd_vesting p)" "t \<le> ctx_now ?ctx" "ctx_now ?ctx < 2 ^ 32"
    using assms by (auto simp: vbo_wf_def vbo_context_def)
  from compute_coin_seconds_bounds[OF c] c(3) assms(5) show ?thesis
    by (simp add: cdd_on_deposit_def update_coin_seconds_earned_def vbo_context_def distrib_right
        add_increasing2)
qed

text \<open>Coin seconds that have just been updated are what is available.\<close>

lemma cdd_allowed_after_update:
  assumes "0 \<le> bal" "bal \<le> GRAPHENE_MAX_SHARE_SUPPLY" "policy_wf now bal (Cdd_vesting p)" "now < 2 ^ 32"
    and "coin_seconds_earned_last_update p = now" "start_claim p < now"
  shows "cdd_get_allowed_withdraw fc p \<lparr>ctx_balance = ASSET bal a, ctx_now = now, ctx_amount = amt\<rparr> =
    ASSET (coin_seconds_earned p div int (max (vesting_seconds p) 1)) a"
proof -
  let ?ctx = "\<lparr>ctx_balance = ASSET bal a, ctx_now = now, ctx_amount = amt\<rparr>"
  let ?vs = "int (max (vesting_seconds p) 1)"
  have cs: "compute_coin_seconds_earned fc p ?ctx = coin_seconds_earned p"
    using compute_coin_seconds_exact[of ?ctx now p] assms by (auto simp: min_def)
  have "coin_seconds_earned p div ?vs \<le> bal * ?vs div ?vs"
    using assms(3) by (intro zdiv_mono1) auto
  then have "coin_seconds_earned p div ?vs \<le> bal" by simp
  then have "to_int64 (coin_seconds_earned p div ?vs) = coin_seconds_earned p div ?vs"
    using assms(2,3) by (intro to_int64_id share_in_int64) (auto simp: pos_imp_zdiv_nonneg_iff)
  with cs assms(6) show ?thesis by (simp add: cdd_get_allowed_withdraw_def)
qed

end

section \<open>Properties\<close>

text \<open>
  C24: a withdrawal that \<open>is_withdraw_allowed\<close> admits never exceeds the balance (the debug assertion
  of the source), is carried out by \<open>withdraw\<close> without throwing, takes exactly the amount from the
  balance and keeps the invariant of the vesting balance, for each of the three policies.
\<close>

theorem vesting_withdraw_safe:
  assumes "fc_safe fc" "vbo_wf t v" "t \<le> now" "now < 2 ^ 32" "0 \<le> amount amt"
    and "vbo_is_withdraw_allowed fc now amt v = Inr True"
  shows "amount amt \<le> amount (vbo_balance v) \<and>
    (\<exists>v'. vbo_withdraw fc now amt v = Inr v' \<and> vbo_wf now v' \<and>
      vbo_balance v' = ASSET (amount (vbo_balance v) - amount amt) (asset_id (vbo_balance v)))"
  using fc_safe.withdraw_allowed_covered(2)[OF assms(1,2,3,4,6)]
    fc_safe.vbo_withdraw_correct[OF assms] by blast

definition sample_cdd :: vesting_balance_object where
  "sample_cdd = \<lparr>vbo_owner = 7, vbo_balance = ASSET 1000 0,
     vbo_policy = Cdd_vesting \<lparr>vesting_seconds = 100, coin_seconds_earned = 0, start_claim = 0,
       coin_seconds_earned_last_update = 50\<rparr>, vbo_balance_type = Vbt_unspecified\<rparr>"

lemmas cdd_eval = sample_cdd_def vbo_context_def cdd_get_allowed_withdraw_def
  compute_coin_seconds_earned_def u128_mul_def u128_add_def u128_def to_int64_def

theorem vesting_withdraw_safe_witness:
  "amount (ASSET 250 0) \<le> amount (vbo_balance sample_cdd) \<and>
    (\<exists>v'. vbo_withdraw fc_ref 75 (ASSET 250 0) sample_cdd = Inr v' \<and> vbo_wf 75 v' \<and>
      vbo_balance v' = ASSET (amount (vbo_balance sample_cdd) - amount (ASSET 250 0))
        (asset_id (vbo_balance sample_cdd)))"
  by (rule vesting_withdraw_safe[where t = 50, OF fc_ref.fc_safe_axioms])
    (simp_all add: vbo_wf_def cdd_eval GRAPHENE_MAX_SHARE_SUPPLY_def vbo_is_withdraw_allowed_def
      cdd_is_withdraw_allowed_def)

text \<open>
  Funds deposited with \<open>deposit\<close> into a coin-days balance have to vest: right after the deposit
  exactly as much can be withdrawn as before it, and the invariant is kept.
\<close>

theorem cdd_deposit_requires_vesting:
  assumes "fc_safe fc" "vbo_wf t v" "vbo_policy v = Cdd_vesting p" "t \<le> now" "now < 2 ^ 32"
    and "0 \<le> amount amt" "vbo_is_deposit_allowed fc now amt v = Inr True"
  shows "\<exists>v'. vbo_deposit fc now amt v = Inr v' \<and> vbo_wf now v' \<and>
    vbo_balance v' = ASSET (amount (vbo_balance v) + amount amt) (asset_id (vbo_balance v)) \<and>
    vbo_get_allowed_withdraw fc now v' = vbo_get_allowed_withdraw fc now v"
proof -
  from assms(7,3) have a: "asset_id amt = asset_id (vbo_balance v)"
    "in_int64 (amount amt + amount (vbo_balance v))"
    "amount amt + amount (vbo_balance v) \<le> GRAPHENE_MAX_SHARE_SUPPLY"
    using fc_safe.safe_add_iff[OF assms(1)]
    by (auto simp: vbo_is_deposit_allowed_def cdd_is_deposit_allowed_def sum_below_max_shares_def
        vbo_context_def split: if_splits)
  let ?ctx = "vbo_context now amt v" and ?b = "amount (vbo_balance v) + amount amt"
  let ?q = "cdd_on_deposit fc ?ctx p"
  let ?v' = "v\<lparr>vbo_policy := Cdd_vesting ?q, vbo_balance := ASSET ?b (asset_id (vbo_balance v))\<rparr>"
  have dep: "vbo_deposit fc now amt v = Inr ?v'"
    using a assms(1,3) by (simp add: vbo_deposit_def fc_safe.asset_add_Inr add.commute)
  have wfq: "policy_wf now ?b (Cdd_vesting ?q)"
    by (rule fc_safe.cdd_deposit_wf[OF assms(1-6)])
  have b: "0 \<le> ?b" "?b \<le> GRAPHENE_MAX_SHARE_SUPPLY" using assms(2,6) a(3) by (auto simp: vbo_wf_def)
  have wf: "vbo_wf now ?v'" using wfq b assms(5) by (simp add: vbo_wf_def)
  have q: "start_claim ?q = start_claim p" "vesting_seconds ?q = vesting_seconds p"
    "coin_seconds_earned_last_update ?q = now"
    "coin_seconds_earned ?q = compute_coin_seconds_earned fc p ?ctx"
    by (simp_all add: cdd_on_deposit_def update_coin_seconds_earned_def vbo_context_def)
  let ?c0 = "vbo_context now (ASSET 0 CORE_ASSET) v"
  have cs: "compute_coin_seconds_earned fc p ?c0 = compute_coin_seconds_earned fc p ?ctx"
    by (simp add: compute_coin_seconds_earned_def vbo_context_def)
  have old: "cdd_get_allowed_withdraw fc p ?c0 = ASSET (if now \<le> start_claim p then 0
      else compute_coin_seconds_earned fc p ?c0 div int (max (vesting_seconds p) 1))
      (asset_id (vbo_balance v))"
    using fc_safe.cdd_allowed_bounds(4)[OF assms(1), of ?c0 t p] assms
    by (simp add: vbo_wf_def vbo_context_def)
  have ctx': "vbo_context now (ASSET 0 CORE_ASSET) ?v' = \<lparr>ctx_balance =
      ASSET ?b (asset_id (vbo_balance v)), ctx_now = now, ctx_amount = ASSET 0 CORE_ASSET\<rparr>"
    by (simp add: vbo_context_def)
  have "cdd_get_allowed_withdraw fc ?q (vbo_context now (ASSET 0 CORE_ASSET) ?v') =
      cdd_get_allowed_withdraw fc p ?c0"
  proof (cases "start_claim p < now")
    case True
    show ?thesis unfolding ctx' old
      using fc_safe.cdd_allowed_after_update[OF assms(1) b wfq assms(5) q(3)] True
      by (simp add: q cs)
  next
    case False
    then show ?thesis unfolding ctx' old by (simp add: cdd_get_allowed_withdraw_def q)
  qed
  with dep wf assms(3) show ?thesis by (simp add: vbo_get_allowed_withdraw_def)
qed

theorem cdd_deposit_requires_vesting_witness:
  "\<exists>v'. vbo_deposit fc_ref 75 (ASSET 4000 0) sample_cdd = Inr v' \<and> vbo_wf 75 v' \<and>
    vbo_balance v' = ASSET (amount (vbo_balance sample_cdd) + amount (ASSET 4000 0))
      (asset_id (vbo_balance sample_cdd)) \<and>
    vbo_get_allowed_withdraw fc_ref 75 v' = vbo_get_allowed_withdraw fc_ref 75 sample_cdd"
  by (rule cdd_deposit_requires_vesting[where t = 50, OF fc_ref.fc_safe_axioms])
    (simp_all add: vbo_wf_def cdd_eval GRAPHENE_MAX_SHARE_SUPPLY_def vbo_is_deposit_allowed_def
      cdd_is_deposit_allowed_def sum_below_max_shares_def in_int64_def)

text \<open>
  C29: a coin-days balance matures: once \<open>vesting_seconds\<close> have passed since the last update and the
  claim date is reached, the whole balance can be withdrawn, whatever deposits preceded.
\<close>

theorem cdd_matures:
  assumes "fc_safe fc" "vbo_wf t v" "vbo_policy v = Cdd_vesting p" "t \<le> now" "now < 2 ^ 32"
    and "start_claim p < now" "coin_seconds_earned_last_update p + max (vesting_seconds p) 1 \<le> now"
  shows "vbo_get_allowed_withdraw fc now v = Inr (vbo_balance v)"
proof -
  let ?ctx = "vbo_context now (ASSET 0 CORE_ASSET) v" and ?vs = "int (max (vesting_seconds p) 1)"
  have c: "0 \<le> amount (ctx_balance ?ctx)" "amount (ctx_balance ?ctx) \<le> GRAPHENE_MAX_SHARE_SUPPLY"
    "policy_wf t (amount (ctx_balance ?ctx)) (Cdd_vesting p)" "t \<le> ctx_now ?ctx" "ctx_now ?ctx < 2 ^ 32"
    using assms by (auto simp: vbo_wf_def vbo_context_def)
  have "amount (vbo_balance v) * ?vs \<le>
      amount (vbo_balance v) * (int now - int (coin_seconds_earned_last_update p))"
    using assms(7) c(1) by (intro mult_left_mono) (auto simp: vbo_context_def)
  then have "compute_coin_seconds_earned fc p ?ctx = amount (vbo_balance v) * ?vs"
    using fc_safe.compute_coin_seconds_exact[OF assms(1) c] c(3)
    by (simp add: vbo_context_def min_def)
  then have "cdd_get_allowed_withdraw fc p ?ctx = ASSET (amount (vbo_balance v)) (asset_id (vbo_balance v))"
    using fc_safe.cdd_allowed_bounds(4)[OF assms(1) c] assms(6) by (simp add: vbo_context_def)
  then show ?thesis using assms(3) by (simp add: vbo_get_allowed_withdraw_def)
qed

theorem cdd_matures_witness:
  "vbo_get_allowed_withdraw fc_ref 150 sample_cdd = Inr (vbo_balance sample_cdd)"
  by (rule cdd_matures[where t = 50, OF fc_ref.fc_safe_axioms, of _ "\<lparr>vesting_seconds = 100,
      coin_seconds_earned = 0, start_claim = 0, coin_seconds_earned_last_update = 50\<rparr>"])
    (simp_all add: vbo_wf_def sample_cdd_def GRAPHENE_MAX_SHARE_SUPPLY_def)

text \<open>
  C28: a linear policy pays out exactly what it has released (\<open>linear_released\<close>: nothing before the
  cliff, a share proportional to the elapsed time rounded down, everything at the end) less what was
  withdrawn before; the amount never decreases with time, is between zero and the balance, and is
  the whole balance once the duration is over.
\<close>

theorem linear_vesting_releases:
  assumes "fc_safe fc" "vbo_wf t v" "vbo_policy v = Linear_vesting p"
    and "t \<le> now" "now \<le> later" "later < 2 ^ 32"
  shows "vbo_get_allowed_withdraw fc now v = Inr (ASSET
      (linear_released p now - (begin_balance p - amount (vbo_balance v))) (asset_id (vbo_balance v))) \<and>
    0 \<le> linear_released p now - (begin_balance p - amount (vbo_balance v)) \<and>
    linear_released p now \<le> linear_released p later \<and>
    (begin_timestamp p < now \<and>
     begin_timestamp p + max (vesting_cliff_seconds p) (vesting_duration_seconds p) \<le> now \<longrightarrow>
       vbo_get_allowed_withdraw fc now v = Inr (vbo_balance v))"
proof -
  let ?c = "vbo_context now (ASSET 0 CORE_ASSET) v"
  have wf: "0 \<le> amount (vbo_balance v)" "policy_wf t (amount (vbo_balance v)) (Linear_vesting p)"
    using assms(2,3) by (simp_all add: vbo_wf_def)
  then have b: "0 \<le> begin_balance p" by simp
  have "now < 2 ^ 32" using assms(5,6) by linarith
  then have ex: "linear_get_allowed_withdraw fc p ?c = Inr (ASSET
      (linear_released p now - (begin_balance p - amount (vbo_balance v))) (asset_id (vbo_balance v)))"
    "begin_balance p - amount (vbo_balance v) \<le> linear_released p now"
    using fc_safe.linear_allowed_exact[OF assms(1), of ?c t p] wf assms(4)
    by (simp_all add: vbo_context_def)
  have "linear_released p now = begin_balance p" if "begin_timestamp p < now"
      "begin_timestamp p + max (vesting_cliff_seconds p) (vesting_duration_seconds p) \<le> now"
    using that by (auto simp: linear_released_def)
  then show ?thesis
    using ex fc_safe.linear_released_mono(1)[OF assms(1) b assms(5)] assms(3)
    by (simp add: vbo_get_allowed_withdraw_def)
qed

definition sample_linear :: vesting_balance_object where
  "sample_linear = \<lparr>vbo_owner = 7, vbo_balance = ASSET 1000 0,
     vbo_policy = Linear_vesting \<lparr>begin_timestamp = 10, vesting_cliff_seconds = 20,
       vesting_duration_seconds = 100, begin_balance = 1000\<rparr>, vbo_balance_type = Vbt_unspecified\<rparr>"

theorem linear_vesting_releases_witness:
  "vbo_get_allowed_withdraw fc_ref 60 sample_linear = Inr (ASSET 500 0)"
proof -
  let ?p = "\<lparr>begin_timestamp = 10, vesting_cliff_seconds = 20, vesting_duration_seconds = 100,
    begin_balance = 1000\<rparr>"
  have "linear_released ?p 60 = 500" "linear_released ?p 20 = 0" by (simp_all add: linear_released_def)
  then show ?thesis
    using linear_vesting_releases[OF fc_ref.fc_safe_axioms, of 20 sample_linear ?p 60 60]
    by (simp add: vbo_wf_def sample_linear_def GRAPHENE_MAX_SHARE_SUPPLY_def)
qed

text \<open>A vested deposit whose coin seconds fit into 64 bits is available at once.\<close>

lemma cdd_deposit_vested_available:
  assumes "fc_safe fc" "vbo_wf t v" "vbo_policy v = Cdd_vesting p" "t \<le> now" "now < 2 ^ 32"
    and "0 \<le> amount amt" "asset_id amt = asset_id (vbo_balance v)" "start_claim p < now"
    and "amount (vbo_balance v) + amount amt \<le> GRAPHENE_MAX_SHARE_SUPPLY"
    and "amount amt * int (max (vesting_seconds p) 1) < 2 ^ 63"
  shows "\<exists>v' w. vbo_deposit_vested fc now amt v = Inr v' \<and> vbo_wf now v' \<and>
    vbo_get_allowed_withdraw fc now v = Inr w \<and>
    vbo_get_allowed_withdraw fc now v' = Inr (ASSET (amount w + amount amt) (asset_id w))"
proof -
  let ?ctx = "vbo_context now amt v" and ?b = "amount (vbo_balance v) + amount amt"
  let ?vs = "int (max (vesting_seconds p) 1)" and ?cs = "compute_coin_seconds_earned fc p (vbo_context now amt v)"
  let ?q = "(cdd_on_deposit fc ?ctx p)\<lparr>coin_seconds_earned := ?cs + amount amt * ?vs\<rparr>"
  let ?v' = "v\<lparr>vbo_policy := Cdd_vesting ?q, vbo_balance := ASSET ?b (asset_id (vbo_balance v))\<rparr>"
  have c: "0 \<le> amount (ctx_balance ?ctx)" "amount (ctx_balance ?ctx) \<le> GRAPHENE_MAX_SHARE_SUPPLY"
    "policy_wf t (amount (ctx_balance ?ctx)) (Cdd_vesting p)" "t \<le> ctx_now ?ctx" "ctx_now ?ctx < 2 ^ 32"
    using assms by (auto simp: vbo_wf_def vbo_context_def)
  have b: "0 \<le> ?b" "?b \<le> GRAPHENE_MAX_SHARE_SUPPLY" using assms(2,6,9) by (auto simp: vbo_wf_def)
  have vs: "0 < ?vs" "?vs < 2 ^ 32" using c(3) max_vs_bound[of "vesting_seconds p"] by auto
  note cs = fc_safe.compute_coin_seconds_bounds[OF assms(1) c]
  have cap: "?cs < 2 ^ 82" using cs(2) share_times_bound(2)[OF c(1,2), of ?vs] vs by linarith
  have pos: "0 \<le> amount amt * ?vs" using assms(6) by simp
  have earned: "u128_add ?cs (u128 (amount amt * ?vs)) = ?cs + amount amt * ?vs"
  proof -
    have "u128 (amount amt * ?vs) = amount amt * ?vs" 
      using pos order_less_trans[OF assms(10), of "2 ^ 128"] by (intro u128_id) simp_all
    moreover have "?cs + amount amt * ?vs < 2 ^ 128" using cap assms(10) by simp
    ultimately show ?thesis using cs(1) pos by (simp add: u128_add_id)
  qed
  have "in_int64 (amount amt * ?vs)" using pos assms(10) by (simp add: in_int64_def)
  then have pol: "cdd_on_deposit_vested fc ?ctx p = Inr ?q"
    using earned by (simp add: cdd_on_deposit_vested_def cdd_on_deposit_def update_coin_seconds_earned_def vbo_context_def ensure_def Let_def)
  have dep: "vbo_deposit_vested fc now amt v = Inr ?v'"
    using assms(1,3,7) share_in_int64[OF b] pol
    by (simp add: vbo_deposit_vested_def fc_safe.asset_add_Inr)
  have q: "start_claim ?q = start_claim p" "vesting_seconds ?q = vesting_seconds p"
    "coin_seconds_earned_last_update ?q = now" "coin_seconds_earned ?q = ?cs + amount amt * ?vs"
    by (simp_all add: cdd_on_deposit_def update_coin_seconds_earned_def vbo_context_def)
  have wfq: "policy_wf now ?b (Cdd_vesting ?q)"
  proof -
    have "ctx_balance ?ctx = vbo_balance v" by (simp add: vbo_context_def)
    with cs c(3) assms(6) show ?thesis unfolding policy_wf.simps q by (simp add: distrib_right)
  qed
  let ?w = "cdd_get_allowed_withdraw fc p (vbo_context now (ASSET 0 CORE_ASSET) v)"
  have w: "?w = ASSET (?cs div ?vs) (asset_id (vbo_balance v))"
    using fc_safe.cdd_allowed_bounds(4)[OF assms(1), of "vbo_context now (ASSET 0 CORE_ASSET) v" t p]
      c assms(8) by (simp add: vbo_context_def compute_coin_seconds_earned_def)
  have ctx': "vbo_context now (ASSET 0 CORE_ASSET) ?v' = \<lparr>ctx_balance =
      ASSET ?b (asset_id (vbo_balance v)), ctx_now = now, ctx_amount = ASSET 0 CORE_ASSET\<rparr>"
    by (simp add: vbo_context_def)
  have "(?cs + amount amt * ?vs) div ?vs = ?cs div ?vs + amount amt" using vs by simp
  then have new: "cdd_get_allowed_withdraw fc ?q (vbo_context now (ASSET 0 CORE_ASSET) ?v') =
      ASSET (?cs div ?vs + amount amt) (asset_id (vbo_balance v))"
    unfolding ctx' using fc_safe.cdd_allowed_after_update[OF assms(1) b wfq assms(5) q(3)] assms(8)
    unfolding q by simp
  have "vbo_wf now ?v'" using wfq b assms(5) by (simp add: vbo_wf_def)
  with dep new w assms(3) show ?thesis by (simp add: vbo_get_allowed_withdraw_def)
qed


text \<open>An empty balance with the default cashback period of one year.\<close>

definition empty_cdd :: vesting_balance_object where
  "empty_cdd = \<lparr>vbo_owner = 7, vbo_balance = ASSET 0 0,
     vbo_policy = Cdd_vesting \<lparr>vesting_seconds = 31536000, coin_seconds_earned = 0, start_claim = 0,
       coin_seconds_earned_last_update = 50\<rparr>, vbo_balance_type = Vbt_cashback\<rparr>"


end
