(* ===== verification/Ticket_Object.thy ===== *)
theory Ticket_Object
  imports Chain_Objects
begin

text \<open>
  Tickets: amounts of the core asset locked for voting power. The methods of \<open>ticket_object\<close>
  (\<open>libraries/chain/ticket_object.cpp\<close>, \<open>ticket_object.hpp\<close>) as functions on the object, the consistency of
  one ticket (\<open>ticket_ok\<close>), the number of automatic updates it can still have (\<open>ticket_rank\<close>) and the books
  that the account statistics and the dynamic global properties keep about all tickets
  (\<open>ticket_books\<close>). The sentinel \<open>TICKET_STATUS_COUNT\<close> is no status of an object and left out.
\<close>

section \<open>The order of the types\<close>

text \<open>\<open>static_cast<uint8_t>\<close> of a type and back; a number that is no enumerator is refused.\<close>

fun ticket_type_index :: "ticket_type \<Rightarrow> nat" where
  "ticket_type_index Liquid = 0"
| "ticket_type_index Lock_180_days = 1"
| "ticket_type_index Lock_360_days = 2"
| "ticket_type_index Lock_720_days = 3"
| "ticket_type_index Lock_forever = 4"
| "ticket_type_index Ticket_type_count = 5"

definition ticket_type_cast :: "int \<Rightarrow> ticket_type result" where
  "ticket_type_cast n =
     (if n = 0 then Inr Liquid else if n = 1 then Inr Lock_180_days else if n = 2 then Inr Lock_360_days
      else if n = 3 then Inr Lock_720_days else if n = 4 then Inr Lock_forever
      else if n = 5 then Inr Ticket_type_count else Inl Undefined_behaviour)"

lemma ticket_type_index_inj: "ticket_type_index x = ticket_type_index y \<Longrightarrow> x = y"
  by (cases x; cases y) simp_all

instantiation ticket_type :: linorder
begin

definition less_eq_ticket_type :: "ticket_type \<Rightarrow> ticket_type \<Rightarrow> bool" where
  "x \<le> y \<longleftrightarrow> ticket_type_index x \<le> ticket_type_index y"

definition less_ticket_type :: "ticket_type \<Rightarrow> ticket_type \<Rightarrow> bool" where
  "x < y \<longleftrightarrow> ticket_type_index x < ticket_type_index y"

instance
  by standard (auto simp: less_eq_ticket_type_def less_ticket_type_def dest: ticket_type_index_inj)

end

lemmas ticket_type_ord = less_eq_ticket_type_def less_ticket_type_def

lemma ticket_type_cast_Inr: "ticket_type_cast n = Inr t \<longleftrightarrow> n = int (ticket_type_index t)"
  by (cases t) (auto simp: ticket_type_cast_def)

section \<open>Constants\<close>

definition lock_forever_update_steps :: int where "lock_forever_update_steps = 4"
definition seconds_per_lock_forever_update_step :: nat where "seconds_per_lock_forever_update_step = 180 * 86400"
definition seconds_per_charging_step :: nat where "seconds_per_charging_step = 15 * 86400"
definition seconds_to_cancel_charging :: nat where "seconds_to_cancel_charging = 7 * 86400"

text \<open>Both functions index an array; an index past its end is undefined behaviour.\<close>

fun seconds_to_downgrade :: "ticket_type \<Rightarrow> nat result" where
  "seconds_to_downgrade Liquid = Inr (180 * 86400)"
| "seconds_to_downgrade Lock_180_days = Inr (180 * 86400)"
| "seconds_to_downgrade Lock_360_days = Inr (360 * 86400)"
| "seconds_to_downgrade _ = Inl Undefined_behaviour"

fun value_multiplier :: "ticket_type \<Rightarrow> ticket_version \<Rightarrow> int" where
  "value_multiplier Liquid Ticket_v1 = 1"
| "value_multiplier Liquid Ticket_v2 = 0"
| "value_multiplier Lock_180_days _ = 2"
| "value_multiplier Lock_360_days _ = 4"
| "value_multiplier Lock_720_days _ = 8"
| "value_multiplier Lock_forever _ = 8"
| "value_multiplier Ticket_type_count _ = 0"

section \<open>Methods\<close>

definition update_value :: "fc_lib \<Rightarrow> ticket_version \<Rightarrow> ticket_object \<Rightarrow> ticket_object result" where
  "update_value fc version t =
     (if tk_current_type t \<noteq> Lock_forever then
        bnd (safe_mul fc (amount (tk_amount t)) (value_multiplier (tk_current_type t) version)) (\<lambda>v.
        Inr (t\<lparr>tk_value := v\<rparr>))
      else Inr t)"

text \<open>The value of a new object is zero until \<open>update_value\<close> sets it.\<close>

definition init_new :: "fc_lib \<Rightarrow> time_point_sec \<Rightarrow> account_id_type \<Rightarrow> ticket_type \<Rightarrow> asset \<Rightarrow> ticket_version \<Rightarrow>
    ticket_object result" where
  "init_new fc now new_account new_target_type new_amount version =
     update_value fc version
       \<lparr>tk_account = new_account, tk_target_type = new_target_type, tk_amount = new_amount,
        tk_current_type = Liquid, tk_status = Charging, tk_value = 0,
        tk_next_auto_update_time = tps_add fc now seconds_per_charging_step,
        tk_next_type_downgrade_time = tps_maximum\<rparr>"

definition update_target_type :: "fc_lib \<Rightarrow> time_point_sec \<Rightarrow> ticket_type \<Rightarrow> ticket_version \<Rightarrow> ticket_object \<Rightarrow>
    ticket_object result" where
  "update_target_type fc now new_target_type version t =
     bnd (if tk_current_type t < new_target_type then
            Inr (if tk_status t \<noteq> Charging
                 then t\<lparr>tk_status := Charging,
                        tk_next_auto_update_time := tps_add fc now seconds_per_charging_step\<rparr>
                 else t)
          else
            bnd (if tk_next_type_downgrade_time t = tps_maximum then
                   if tk_current_type t = new_target_type
                   then Inr (t\<lparr>tk_next_type_downgrade_time := tps_add fc now seconds_to_cancel_charging\<rparr>)
                   else bnd (ticket_type_cast (int (ticket_type_index (tk_current_type t)) - 1)) (\<lambda>ct.
                        bnd (seconds_to_downgrade ct) (\<lambda>secs.
                        Inr (t\<lparr>tk_current_type := ct, tk_next_type_downgrade_time := tps_add fc now secs\<rparr>)))
                 else Inr t) (\<lambda>t1.
            Inr (t1\<lparr>tk_status := Withdrawing, tk_next_auto_update_time := tk_next_type_downgrade_time t1\<rparr>))) (\<lambda>t2.
     update_value fc version (t2\<lparr>tk_target_type := new_target_type\<rparr>))"

definition init_split :: "fc_lib \<Rightarrow> time_point_sec \<Rightarrow> ticket_object \<Rightarrow> ticket_type \<Rightarrow> asset \<Rightarrow> ticket_version \<Rightarrow>
    ticket_object result" where
  "init_split fc now old_ticket new_target_type new_amount version =
     update_target_type fc now new_target_type version
       \<lparr>tk_account = tk_account old_ticket, tk_target_type = tk_target_type old_ticket, tk_amount = new_amount,
        tk_current_type = tk_current_type old_ticket, tk_status = tk_status old_ticket, tk_value = 0,
        tk_next_auto_update_time = tk_next_auto_update_time old_ticket,
        tk_next_type_downgrade_time = tk_next_type_downgrade_time old_ticket\<rparr>"

definition adjust_amount :: "fc_lib \<Rightarrow> asset \<Rightarrow> ticket_version \<Rightarrow> ticket_object \<Rightarrow> ticket_object result" where
  "adjust_amount fc delta_amount version t =
     bnd (asset_add fc (tk_amount t) delta_amount) (\<lambda>a. update_value fc version (t\<lparr>tk_amount := a\<rparr>))"

text \<open>The two halves of \<open>auto_update\<close>.\<close>

definition auto_update_charging :: "fc_lib \<Rightarrow> ticket_version \<Rightarrow> ticket_object \<Rightarrow> ticket_object result" where
  "auto_update_charging fc version t =
     bnd (ticket_type_cast (int (ticket_type_index (tk_current_type t)) + 1)) (\<lambda>ct.
     let t1 = t\<lparr>tk_current_type := ct, tk_next_type_downgrade_time := tps_maximum\<rparr> in
     if ct < tk_target_type t1 then
       Inr (t1\<lparr>tk_next_auto_update_time := tps_add fc (tk_next_auto_update_time t1) seconds_per_charging_step\<rparr>)
     else if ct \<noteq> Lock_forever then
       Inr (t1\<lparr>tk_status := Stable, tk_next_auto_update_time := tps_maximum\<rparr>)
     else
       bnd (safe_mul fc (amount (tk_amount t1)) (value_multiplier ct version)) (\<lambda>v.
       Inr (t1\<lparr>tk_status := Withdrawing,
               tk_next_auto_update_time :=
                 tps_add fc (tk_next_auto_update_time t1) seconds_per_lock_forever_update_step,
               tk_value := v\<rparr>)))"

definition auto_update_withdrawing :: "fc_lib \<Rightarrow> ticket_version \<Rightarrow> ticket_object \<Rightarrow> ticket_object result" where
  "auto_update_withdrawing fc version t =
     (if tk_current_type t = Lock_forever then
        bnd (safe_mul fc (amount (tk_amount t)) (value_multiplier (tk_current_type t) version)) (\<lambda>full.
        bnd (safe_div fc full lock_forever_update_steps) (\<lambda>q.
        let delta_value = (if q \<le> 0 then 1 else q) in
        if tk_value t \<le> delta_value then
          Inr (t\<lparr>tk_value := 0, tk_status := Stable, tk_next_auto_update_time := tps_maximum\<rparr>)
        else
          bnd (safe_sub fc (tk_value t) delta_value) (\<lambda>v.
          Inr (t\<lparr>tk_value := v, tk_next_auto_update_time :=
                 tps_add fc (tk_next_auto_update_time t) seconds_per_lock_forever_update_step\<rparr>))))
      else if tk_current_type t = tk_target_type t then
        Inr (t\<lparr>tk_status := Stable, tk_next_type_downgrade_time := tps_maximum,
               tk_next_auto_update_time := tps_maximum\<rparr>)
      else
        bnd (ticket_type_cast (int (ticket_type_index (tk_current_type t)) - 1)) (\<lambda>ct.
        bnd (seconds_to_downgrade ct) (\<lambda>secs.
        let next = tps_add fc (tk_next_type_downgrade_time t) secs
        in Inr (t\<lparr>tk_current_type := ct, tk_next_type_downgrade_time := next, tk_next_auto_update_time := next\<rparr>))))"

definition auto_update :: "fc_lib \<Rightarrow> ticket_version \<Rightarrow> ticket_object \<Rightarrow> ticket_object result" where
  "auto_update fc version t =
     bnd (if tk_status t = Charging then auto_update_charging fc version t
          else auto_update_withdrawing fc version t) (update_value fc version)"

section \<open>Consistent tickets\<close>

text \<open>
  A ticket is charging towards a higher type, withdrawing towards a lower one or at rest until the end of
  time. Its value is the amount times the multiplier of its type; a ticket locked forever loses a quarter of
  its value in every step until it is worth nothing and at rest.
\<close>

definition ticket_shape :: "ticket_object \<Rightarrow> bool" where
  "ticket_shape t \<longleftrightarrow>
     0 < amount (tk_amount t) \<and> asset_id (tk_amount t) = CORE_ASSET \<and>
     tk_target_type t \<le> Lock_forever \<and> tk_current_type t \<le> Lock_forever \<and>
     (case tk_status t of
        Charging \<Rightarrow> tk_current_type t < tk_target_type t
      | Stable \<Rightarrow> tk_next_auto_update_time t = tps_maximum \<and> tk_current_type t \<noteq> Liquid
      | Withdrawing \<Rightarrow> tk_target_type t \<le> tk_current_type t)"

definition ticket_ok :: "ticket_version \<Rightarrow> ticket_object \<Rightarrow> bool" where
  "ticket_ok version t \<longleftrightarrow> ticket_shape t \<and>
     (if tk_current_type t = Lock_forever
      then (\<exists>k \<in> {0..4}. tk_value t = 2 * k * amount (tk_amount t)) \<and> (tk_value t = 0 \<longleftrightarrow> tk_status t = Stable)
      else tk_value t = amount (tk_amount t) * value_multiplier (tk_current_type t) version)"

definition ticket_rank :: "ticket_object \<Rightarrow> nat" where
  "ticket_rank t =
     (case tk_status t of
        Stable \<Rightarrow> 0
      | Charging \<Rightarrow> 10 - ticket_type_index (tk_current_type t)
      | Withdrawing \<Rightarrow> if tk_current_type t = Lock_forever then nat (tk_value t div (2 * amount (tk_amount t)))
                     else 1 + ticket_type_index (tk_current_type t))"

text \<open>What a ticket contributes to the statistics of its account.\<close>

datatype stake_kind = Core_inactive | Core_pob | Core_pol | Pob_value | Pol_value

fun ticket_stake :: "ticket_object \<Rightarrow> stake_kind \<Rightarrow> int" where
  "ticket_stake t Core_inactive = (if tk_current_type t = Lock_forever \<and> tk_value t = 0 then amount (tk_amount t) else 0)"
| "ticket_stake t Core_pob = (if tk_current_type t = Lock_forever \<and> tk_value t \<noteq> 0 then amount (tk_amount t) else 0)"
| "ticket_stake t Core_pol = (if tk_current_type t = Lock_forever then 0 else amount (tk_amount t))"
| "ticket_stake t Pob_value = (if tk_current_type t = Lock_forever then tk_value t else 0)"
| "ticket_stake t Pol_value = (if tk_current_type t = Lock_forever then 0 else tk_value t)"

fun stats_stake :: "account_statistics_object \<Rightarrow> stake_kind \<Rightarrow> int" where
  "stats_stake s Core_inactive = total_core_inactive s"
| "stats_stake s Core_pob = total_core_pob s"
| "stats_stake s Core_pol = total_core_pol s"
| "stats_stake s Pob_value = total_pob_value s"
| "stats_stake s Pol_value = total_pol_value s"

text \<open>
  The books: the statistics of every account hold the sums over its tickets, and the dynamic global
  properties the sums over all tickets. The id of the statistics of an account is the id of the account, and
  every account that has a ticket has statistics.
\<close>

definition stake_sums :: "ticket_object store \<Rightarrow> account_statistics_object store \<Rightarrow> int \<Rightarrow> int \<Rightarrow> bool" where
  "stake_sums ts ss pob inactive \<longleftrightarrow>
     (\<forall>i s k. store_find ss i = Some s \<longrightarrow>
        stats_stake s k = store_sum (\<lambda>t. if tk_account t = i then ticket_stake t k else 0) ts) \<and>
     pob = store_sum (\<lambda>t. ticket_stake t Core_pob) ts \<and>
     inactive = store_sum (\<lambda>t. ticket_stake t Core_inactive) ts"

definition ticket_fits :: "ticket_version \<Rightarrow> account_statistics_object store \<Rightarrow> ticket_object \<Rightarrow> bool" where
  "ticket_fits version ss t \<longleftrightarrow> ticket_ok version t \<and> store_find ss (tk_account t) \<noteq> None"

definition ticket_books :: "ticket_version \<Rightarrow> ticket_object store \<Rightarrow> account_statistics_object store \<Rightarrow>
    int \<Rightarrow> int \<Rightarrow> bool" where
  "ticket_books version ts ss pob inactive \<longleftrightarrow>
     store_wf ts \<and> store_all (ticket_fits version ss) ts \<and> stake_sums ts ss pob inactive"

definition HARDFORK_CORE_2262_PASSED :: "time_point_sec \<Rightarrow> bool" where
  "HARDFORK_CORE_2262_PASSED next_maint_time \<longleftrightarrow> HARDFORK_CORE_2262_TIME < next_maint_time"

definition ticket_version_at :: "time_point_sec \<Rightarrow> ticket_version" where
  "ticket_version_at maint_time = (if HARDFORK_CORE_2262_PASSED maint_time then Ticket_v2 else Ticket_v1)"

section \<open>What the methods do\<close>

lemma value_multiplier_nonneg [simp]: "0 \<le> value_multiplier ct version"
  by (cases ct; cases version) simp_all

lemma ticket_type_le_forever: "ct \<le> Lock_forever \<longleftrightarrow> ct \<noteq> Ticket_type_count"
  by (cases ct) (simp_all add: ticket_type_ord)

lemma ticket_type_pred:
  assumes "ticket_type_cast (int (ticket_type_index c) - 1) = Inr x" "target \<le> c" "c \<noteq> target"
  shows "target \<le> x" "x < c"
proof -
  have "ticket_type_index c \<noteq> ticket_type_index target" using assms(3) ticket_type_index_inj by blast
  then show "target \<le> x" "x < c" using assms(1,2) unfolding ticket_type_cast_Inr ticket_type_ord by linarith+
qed

lemma ticket_type_succ:
  assumes "ticket_type_cast (int (ticket_type_index c) + 1) = Inr x" "c < target"
  shows "x \<le> target" "ticket_type_index x = Suc (ticket_type_index c)"
  using assms by (auto simp: ticket_type_cast_Inr ticket_type_ord)

context fc_safe
begin

lemma update_value_Inr:
  "update_value fc version t = Inr t' \<longleftrightarrow>
    (if tk_current_type t = Lock_forever then t' = t
     else t' = t\<lparr>tk_value := amount (tk_amount t) * value_multiplier (tk_current_type t) version\<rparr> \<and>
       in_int64 (amount (tk_amount t) * value_multiplier (tk_current_type t) version))"
  by (auto simp: update_value_def)

text \<open>A new ticket is consistent, and belongs to the account with the amount it was created with.\<close>

lemma init_new_ok:
  assumes "init_new fc now owner target amt version = Inr t"
    and "0 < amount amt" "asset_id amt = CORE_ASSET" "target \<noteq> Liquid" "target \<le> Lock_forever"
  shows "ticket_ok version t \<and> tk_account t = owner \<and> tk_amount t = amt \<and> tk_current_type t = Liquid \<and>
    tk_target_type t = target"
  using assms by (cases target) (auto simp: init_new_def update_value_Inr ticket_ok_def ticket_shape_def ticket_type_ord)

text \<open>A new target keeps the ticket of its account with its amount, and it is not locked forever yet.\<close>

lemma update_target_type_ok:
  assumes "update_target_type fc now target version t = Inr t'"
    and "ticket_shape t" "tk_current_type t \<noteq> Lock_forever" "target \<le> Lock_forever"
  shows "ticket_ok version t' \<and> tk_account t' = tk_account t \<and> tk_amount t' = tk_amount t \<and>
    tk_current_type t' \<noteq> Lock_forever \<and> tk_target_type t' = target"
proof (cases "tk_current_type t < target")
  case True
  then show ?thesis using assms
    by (auto simp: update_target_type_def update_value_Inr ticket_ok_def ticket_shape_def split: if_splits)
next
  case False
  from False assms(1) obtain t1 where
    t1: "(if tk_next_type_downgrade_time t = tps_maximum then
            if tk_current_type t = target
            then Inr (t\<lparr>tk_next_type_downgrade_time := tps_add fc now seconds_to_cancel_charging\<rparr>)
            else bnd (ticket_type_cast (int (ticket_type_index (tk_current_type t)) - 1)) (\<lambda>ct.
                 bnd (seconds_to_downgrade ct) (\<lambda>secs.
                 Inr (t\<lparr>tk_current_type := ct, tk_next_type_downgrade_time := tps_add fc now secs\<rparr>)))
          else Inr t) = Inr t1"
    and t': "update_value fc version (t1\<lparr>tk_status := Withdrawing,
        tk_next_auto_update_time := tk_next_type_downgrade_time t1, tk_target_type := target\<rparr>) = Inr t'"
    by (auto simp: update_target_type_def)
  have "target \<le> tk_current_type t" using False by simp
  then have "tk_account t1 = tk_account t \<and> tk_amount t1 = tk_amount t \<and> tk_current_type t1 \<noteq> Lock_forever \<and>
      tk_current_type t1 \<le> Lock_forever \<and> target \<le> tk_current_type t1"
    using t1 assms(2,3) by (auto simp: ticket_shape_def dest: ticket_type_pred split: if_splits)
  then show ?thesis using t' assms(2,4) by (auto simp: update_value_Inr ticket_ok_def ticket_shape_def)
qed

lemma init_split_ok:
  assumes "init_split fc now t target amt version = Inr t'"
    and "ticket_shape t" "tk_current_type t \<noteq> Lock_forever" "target \<le> Lock_forever"
    and "0 < amount amt" "asset_id amt = CORE_ASSET"
  shows "ticket_ok version t' \<and> tk_account t' = tk_account t \<and> tk_amount t' = amt \<and>
    tk_current_type t' \<noteq> Lock_forever \<and> tk_target_type t' = target"
proof -
  let ?t = "\<lparr>tk_account = tk_account t, tk_target_type = tk_target_type t, tk_amount = amt,
        tk_current_type = tk_current_type t, tk_status = tk_status t, tk_value = 0,
        tk_next_auto_update_time = tk_next_auto_update_time t,
        tk_next_type_downgrade_time = tk_next_type_downgrade_time t\<rparr>"
  have "ticket_shape ?t" using assms(2,5,6) by (cases "tk_status t") (simp_all add: ticket_shape_def)
  from update_target_type_ok[OF assms(1)[unfolded init_split_def] this] assms(3,4) show ?thesis by simp
qed

lemma adjust_amount_ok:
  assumes "adjust_amount fc delta version t = Inr t'"
    and "ticket_ok version t" "tk_current_type t \<noteq> Lock_forever" "0 < amount (tk_amount t) + amount delta"
  shows "ticket_ok version t' \<and> tk_account t' = tk_account t \<and>
    tk_amount t' = ASSET (amount (tk_amount t) + amount delta) CORE_ASSET \<and> tk_current_type t' = tk_current_type t"
  using assms by (cases "tk_status t")
    (auto simp: adjust_amount_def asset_add_def update_value_Inr ticket_ok_def ticket_shape_def)

text \<open>
  An automatic update keeps the ticket of its account with its amount; a consistent ticket that is not at
  rest stays consistent and comes closer to its rest.
\<close>

lemma auto_update_charging_ok:
  assumes "auto_update_charging fc version t = Inr t1" "update_value fc version t1 = Inr t'"
    and "ticket_ok version t" "tk_status t = Charging"
  shows "ticket_ok version t' \<and> ticket_rank t' < ticket_rank t \<and> tk_account t' = tk_account t \<and> tk_amount t' = tk_amount t"
proof -
  from assms(1) obtain ct where ct: "ticket_type_cast (int (ticket_type_index (tk_current_type t)) + 1) = Inr ct"
    by (auto simp: auto_update_charging_def)
  note shape = assms(3)[unfolded ticket_ok_def, THEN conjunct1, unfolded ticket_shape_def assms(4) ticket_status.case]
  then have up: "ct \<le> tk_target_type t" "ticket_type_index ct = Suc (ticket_type_index (tk_current_type t))"
    using ticket_type_succ[OF ct, of "tk_target_type t"] by simp_all
  have "ct \<le> Lock_forever" using up(1) shape by (meson order_trans)
  then have ct_le: "ticket_type_index ct \<le> 4" by (simp add: ticket_type_ord)
  consider (charge) "ct < tk_target_type t" | (rest) "ct = tk_target_type t" "ct \<noteq> Lock_forever"
    | (forever) "ct = tk_target_type t" "ct = Lock_forever" using up(1) by fastforce
  then show ?thesis
  proof cases
    case charge
    then have "ct \<noteq> Lock_forever" using shape by auto
    then show ?thesis using assms ct charge shape up(2) ct_le \<open>ct \<le> Lock_forever\<close>
      by (auto simp: auto_update_charging_def update_value_Inr ticket_ok_def ticket_shape_def ticket_rank_def)
  next
    case rest
    then show ?thesis using assms ct shape up(2) ct_le
      by (auto simp: auto_update_charging_def update_value_Inr ticket_ok_def ticket_shape_def ticket_rank_def)
  next
    case forever
    then show ?thesis using assms ct shape up(2)
      by (auto simp: auto_update_charging_def update_value_Inr ticket_ok_def ticket_shape_def ticket_rank_def
          intro!: bexI[of _ 4])
  qed
qed

lemma auto_update_withdrawing_ok:
  assumes "auto_update_withdrawing fc version t = Inr t1" "update_value fc version t1 = Inr t'"
    and "ticket_ok version t" "tk_status t = Withdrawing" "tk_current_type t \<noteq> Liquid"
  shows "ticket_ok version t' \<and> ticket_rank t' < ticket_rank t \<and> tk_account t' = tk_account t \<and> tk_amount t' = tk_amount t"
proof (cases "tk_current_type t = Lock_forever")
  case True
  let ?a = "amount (tk_amount t)"
  from assms(3,4) True obtain k where k: "tk_value t = 2 * k * ?a" "0 < k" "k \<le> 4" and a: "0 < ?a"
    by (auto simp: ticket_ok_def ticket_shape_def less_le)
  have div: "2 * k * ?a div (2 * ?a) = k" "?a * 8 div 4 = 2 * ?a" "2 * (k - 1) * ?a div (2 * ?a) = k - 1"
    using a by simp_all
  have le: "2 * k * ?a \<le> 2 * ?a \<longleftrightarrow> k = 1" using k a by (auto simp: mult_le_cancel_right)
  show ?thesis
  proof (cases "k = 1")
    case True
    then show ?thesis using assms k a div \<open>tk_current_type t = Lock_forever\<close>
      by (auto simp: auto_update_withdrawing_def lock_forever_update_steps_def update_value_Inr ticket_ok_def
          ticket_shape_def ticket_rank_def)
  next
    case False
    have "2 * k * ?a - 2 * ?a = 2 * (k - 1) * ?a" by (simp add: algebra_simps)
    then show ?thesis using assms k a div le False \<open>tk_current_type t = Lock_forever\<close>
      by (auto simp: auto_update_withdrawing_def lock_forever_update_steps_def update_value_Inr ticket_ok_def
          ticket_shape_def ticket_rank_def intro!: bexI[of _ "k - 1"])
  qed
next
  case False
  note shape = assms(3)[unfolded ticket_ok_def, THEN conjunct1, unfolded ticket_shape_def assms(4) ticket_status.case]
  show ?thesis
  proof (cases "tk_current_type t = tk_target_type t")
    case True
    then show ?thesis using assms shape False
      by (auto simp: auto_update_withdrawing_def update_value_Inr ticket_ok_def ticket_shape_def ticket_rank_def)
  next
    case down: False
    from assms(1) False down obtain ct secs where
      ct: "ticket_type_cast (int (ticket_type_index (tk_current_type t)) - 1) = Inr ct"
      and t1: "t1 = t\<lparr>tk_current_type := ct, tk_next_type_downgrade_time := tps_add fc (tk_next_type_downgrade_time t) secs,
        tk_next_auto_update_time := tps_add fc (tk_next_type_downgrade_time t) secs\<rparr>"
      by (auto simp: auto_update_withdrawing_def)
    have ord: "tk_target_type t \<le> ct" "ct < tk_current_type t" using ticket_type_pred[OF ct _ down] shape by simp_all
    then have "ct \<noteq> Lock_forever" "ct \<le> Lock_forever" using shape by auto
    then show ?thesis using assms(2-4) shape ord False
      by (auto simp: t1 update_value_Inr ticket_ok_def ticket_shape_def ticket_rank_def less_ticket_type_def)
  qed
qed

lemma auto_update_ok:
  assumes "auto_update fc version t = Inr t'" "ticket_ok version t" "tk_status t \<noteq> Stable"
    and "\<not> (tk_status t = Withdrawing \<and> tk_current_type t = Liquid)"
  shows "ticket_ok version t' \<and> ticket_rank t' < ticket_rank t \<and> tk_account t' = tk_account t \<and> tk_amount t' = tk_amount t"
  using assms auto_update_charging_ok[of version t _ t'] auto_update_withdrawing_ok[of version t _ t']
  by (cases "tk_status t") (auto simp: auto_update_def)

end

section \<open>Keeping the books\<close>

text \<open>The statistics may change in everything else.\<close>

lemma stake_sums_stats:
  assumes "stake_sums ts ss p q" "store_find ss i = Some s" "\<And>k. stats_stake s' k = stats_stake s k"
  shows "stake_sums ts (store_put ss i s') p q"
  using assms unfolding stake_sums_def by (simp add: store_find_put)

lemma ticket_books_stats:
  assumes "store_find ss i = Some s" "\<And>k. stats_stake s' k = stats_stake s k"
  shows "ticket_books version ts ss p q \<Longrightarrow> ticket_books version ts (store_put ss i s') p q"
proof -
  assume b: "ticket_books version ts ss p q"
  have "ticket_fits version (store_put ss i s') = ticket_fits version ss"
    by (intro ext) (auto simp: ticket_fits_def store_find_put)
  then show ?thesis using b stake_sums_stats[OF _ assms] by (simp add: ticket_books_def)
qed

lemma stats_stake_other [simp]:
  "stats_stake (s\<lparr>pending_fees := x\<rparr>) = stats_stake s" "stats_stake (s\<lparr>pending_vested_fees := x\<rparr>) = stats_stake s"
  "stats_stake (s\<lparr>lifetime_fees_paid := x\<rparr>) = stats_stake s" "stats_stake (s\<lparr>has_cashback_vb := b\<rparr>) = stats_stake s"
proof -
  have "stats_stake (s\<lparr>pending_fees := x\<rparr>) k = stats_stake s k" "stats_stake (s\<lparr>pending_vested_fees := x\<rparr>) k = stats_stake s k"
    "stats_stake (s\<lparr>lifetime_fees_paid := x\<rparr>) k = stats_stake s k" "stats_stake (s\<lparr>has_cashback_vb := b\<rparr>) k = stats_stake s k"
    for k by (cases k; simp)+
  then show "stats_stake (s\<lparr>pending_fees := x\<rparr>) = stats_stake s" "stats_stake (s\<lparr>pending_vested_fees := x\<rparr>) = stats_stake s"
    "stats_stake (s\<lparr>lifetime_fees_paid := x\<rparr>) = stats_stake s" "stats_stake (s\<lparr>has_cashback_vb := b\<rparr>) = stats_stake s"
    by blast+
qed

lemma ticket_books_no_tickets [simp]:
  assumes "list_all (\<lambda>p. total_core_inactive (snd p) = 0 \<and> total_core_pob (snd p) = 0 \<and> total_core_pol (snd p) = 0 \<and>
    total_pob_value (snd p) = 0 \<and> total_pol_value (snd p) = 0) (items ss)"
  shows "ticket_books version \<lparr>items = [], next_id = n\<rparr> ss 0 0"
proof -
  have "stats_stake s k = 0" if "store_find ss i = Some s" for i s k
    using assms store_find_itemsD[OF that] by (cases k) (auto simp: list_all_iff)
  then show ?thesis by (simp add: ticket_books_def stake_sums_def store_wf_def store_all_def store_sum_def)
qed

text \<open>A ticket and the statistics of its account change together: a ticket that is replaced, added or
  removed.\<close>

lemma stake_sums_change:
  assumes "stake_sums ts ss p q" "store_find ss acc = Some s"
    and "\<And>f. store_sum f ts' = store_sum f ts + lsum f new - lsum f old"
    and "\<forall>t \<in> set new \<union> set old. tk_account t = acc"
    and "\<And>k. stats_stake s' k = stats_stake s k + lsum (\<lambda>t. ticket_stake t k) new - lsum (\<lambda>t. ticket_stake t k) old"
    and "p' = p + lsum (\<lambda>t. ticket_stake t Core_pob) new - lsum (\<lambda>t. ticket_stake t Core_pob) old"
    and "q' = q + lsum (\<lambda>t. ticket_stake t Core_inactive) new - lsum (\<lambda>t. ticket_stake t Core_inactive) old"
  shows "stake_sums ts' (store_put ss acc s') p' q'"
proof -
  have part: "lsum (\<lambda>t. if tk_account t = i then ticket_stake t k else 0) xs =
      (if i = acc then lsum (\<lambda>t. ticket_stake t k) xs else 0)" if "\<forall>t \<in> set xs. tk_account t = acc" for i k xs
    using that by (induction xs) auto
  have on: "\<forall>t \<in> set new. tk_account t = acc" "\<forall>t \<in> set old. tk_account t = acc" using assms(4) by blast+
  show ?thesis
    using assms(1,2,5-7) unfolding stake_sums_def
    by (auto simp: assms(3) part[OF on(1)] part[OF on(2)] store_find_put split: if_splits)
qed

end
