(* ===== verification/Fees.thy ===== *)
theory Fees
  imports Vesting Ticket_Object
begin

text \<open>
  Where fees go: deposits into vesting balances (\<open>libraries/chain/db_balance.cpp\<close>), the split of
  accumulated operation fees (\<open>account_object.cpp\<close>), and the part of every evaluator that prepares,
  converts and pays the fee of an operation (\<open>evaluator.hpp\<close>, \<open>evaluator.cpp\<close>).

  The function \<open>run_operation\<close> is \<open>generic_evaluator::start_evaluate\<close> with the steps of
  \<open>evaluator<T>::evaluate\<close> and \<open>evaluator<T>::apply\<close>; \<open>do_evaluate\<close> and \<open>do_apply\<close> of the concrete
  evaluator are its arguments, and the fee that the fee schedule requires is an argument too
  (\<open>None\<close> when the check is skipped). The members \<open>do_evaluate\<close> sets are its result. The values
  operations return to the caller (\<open>operation_result\<close>) are not modelled. Formatting of
  exception messages is not modelled: an exception is its class.

  The lemmas show how each step moves value; the locale \<open>conserving_evaluator\<close> states what an
  evaluator has to keep so that the whole operation, fee included, conserves every asset.
\<close>

section \<open>Modifying one object\<close>

definition modify_dyn :: "nat \<Rightarrow> (asset_dynamic_data_object \<Rightarrow> asset_dynamic_data_object result) \<Rightarrow>
    database \<Rightarrow> database result" where
  "modify_dyn k f d =
     bnd (store_get (asset_dyn_data d) k) (\<lambda>dd.
     bnd (f dd) (\<lambda>dd'.
     Inr (d\<lparr>asset_dyn_data := store_put (asset_dyn_data d) k dd'\<rparr>)))"

definition modify_stats :: "nat \<Rightarrow> (account_statistics_object \<Rightarrow> account_statistics_object result) \<Rightarrow>
    database \<Rightarrow> database result" where
  "modify_stats k f d =
     bnd (store_get (account_stats d) k) (\<lambda>s.
     bnd (f s) (\<lambda>s'.
     Inr (d\<lparr>account_stats := store_put (account_stats d) k s'\<rparr>)))"

text \<open>The pattern \<open>adjust_balance( account, -amount )\<close>.\<close>

definition debit :: "fc_lib \<Rightarrow> account_id_type \<Rightarrow> asset \<Rightarrow> database \<Rightarrow> database result" where
  "debit fc account a d = bnd (asset_neg fc a) (\<lambda>na. adjust_balance fc account na d)"

text \<open>\<open>get_core_dynamic_data()\<close> is the object with the first id.\<close>

definition CORE_DYN :: nat where "CORE_DYN = 0"

section \<open>Deposits into vesting balances\<close>

definition vbo_mfs_key :: "account_id_type \<Rightarrow> asset_id_type \<Rightarrow> vesting_balance_object \<Rightarrow> bool" where
  "vbo_mfs_key account aid v \<longleftrightarrow>
     vbo_balance_type v = Vbt_market_fee_sharing \<and> aid = asset_id (vbo_balance v) \<and> account = vbo_owner v"

definition get_market_fee_vesting_balance :: "database \<Rightarrow> account_id_type \<Rightarrow> asset_id_type \<Rightarrow> asset" where
  "get_market_fee_vesting_balance d account aid =
     (case store_search (vbo_mfs_key account aid) (vesting_balances d) of
        None \<Rightarrow> ASSET 0 aid | Some v \<Rightarrow> vbo_balance v)"

definition deposit_market_fee_vesting_balance ::
    "fc_lib \<Rightarrow> account_id_type \<Rightarrow> asset \<Rightarrow> database \<Rightarrow> database result" where
  "deposit_market_fee_vesting_balance fc account delta d =
     FC_ASSERT (0 \<le> amount delta)
     (if amount delta = 0 then Inr d
      else case store_search (vbo_mfs_key account (asset_id delta)) (vesting_balances d) of
        None \<Rightarrow>
          Inr (d\<lparr>vesting_balances := store_add (vesting_balances d)
            \<lparr>vbo_owner = account, vbo_balance = delta, vbo_policy = Instant_vesting,
             vbo_balance_type = Vbt_market_fee_sharing\<rparr>\<rparr>)
      | Some vbo \<Rightarrow>
          bnd (vbo_deposit_vested fc (head_block_time d) delta vbo) (\<lambda>vbo'.
          Inr (d\<lparr>vesting_balances := store_put_by (vbo_mfs_key account (asset_id delta))
                   (vesting_balances d) vbo'\<rparr>)))"

definition deposit_lazy_vesting ::
    "fc_lib \<Rightarrow> nat option \<Rightarrow> share_type \<Rightarrow> nat \<Rightarrow> vesting_balance_type \<Rightarrow> account_id_type \<Rightarrow> bool \<Rightarrow>
     database \<Rightarrow> (nat option \<times> database) result" where
  "deposit_lazy_vesting fc ovbid amt req_vesting_seconds btype req_owner require_vesting d =
     (if amt = 0 then Inr (None, d)
      else
        let now = head_block_time d;
            coin_seconds = (if require_vesting then 0 else amt * int req_vesting_seconds);
            create = ensure Undefined_behaviour (in_int64 coin_seconds) (Inr (Some (next_id (vesting_balances d)),
              d\<lparr>vesting_balances := store_add (vesting_balances d)
                \<lparr>vbo_owner = req_owner, vbo_balance = ASSET amt CORE_ASSET,
                 vbo_policy = Cdd_vesting \<lparr>vesting_seconds = req_vesting_seconds,
                   coin_seconds_earned = u128 coin_seconds,
                   start_claim = 0, coin_seconds_earned_last_update = now\<rparr>,
                 vbo_balance_type = btype\<rparr>\<rparr>))
        in case ovbid of
          None \<Rightarrow> create
        | Some vbid \<Rightarrow>
            bnd (store_get (vesting_balances d) vbid) (\<lambda>vbo.
            if vbo_owner vbo = req_owner \<and>
               (case vbo_policy vbo of
                  Cdd_vesting p \<Rightarrow> vesting_seconds p = req_vesting_seconds | _ \<Rightarrow> False)
            then
              bnd (if require_vesting then vbo_deposit fc now (ASSET amt CORE_ASSET) vbo
                   else vbo_deposit_vested fc now (ASSET amt CORE_ASSET) vbo) (\<lambda>vbo'.
              Inr (None, d\<lparr>vesting_balances := store_put (vesting_balances d) vbid vbo'\<rparr>))
            else create))"

definition is_reserved_account :: "account_id_type \<Rightarrow> bool" where
  "is_reserved_account acct_id \<longleftrightarrow>
     acct_id = GRAPHENE_COMMITTEE_ACCOUNT \<or> acct_id = GRAPHENE_WITNESS_ACCOUNT \<or>
     acct_id = GRAPHENE_RELAXED_COMMITTEE_ACCOUNT \<or> acct_id = GRAPHENE_NULL_ACCOUNT \<or>
     acct_id = GRAPHENE_TEMP_ACCOUNT"

definition deposit_cashback ::
    "fc_lib \<Rightarrow> account_id_type \<Rightarrow> share_type \<Rightarrow> bool \<Rightarrow> database \<Rightarrow> database result" where
  "deposit_cashback fc acct_id amt require_vesting d =
     bnd (store_get (accounts d) acct_id) (\<lambda>acct.
     if amt = 0 then Inr d
     else if is_reserved_account acct_id then
       modify_dyn CORE_DYN (\<lambda>dd.
         bnd (safe_sub fc (current_supply dd) amt) (\<lambda>x. Inr (dd\<lparr>current_supply := x\<rparr>))) d
     else
       bnd (deposit_lazy_vesting fc (cashback_vb acct) amt
              (cashback_vesting_period_seconds (parameters d)) Vbt_cashback acct_id require_vesting d)
       (\<lambda>(new_vbid, d1).
         case new_vbid of
           None \<Rightarrow> Inr d1
         | Some vbid \<Rightarrow>
             modify_stats (statistics acct) (\<lambda>s. Inr (s\<lparr>has_cashback_vb := True\<rparr>))
               (d1\<lparr>accounts := store_put (accounts d1) acct_id (acct\<lparr>cashback_vb := Some vbid\<rparr>)\<rparr>)))"

definition deposit_witness_pay :: "fc_lib \<Rightarrow> nat \<Rightarrow> share_type \<Rightarrow> database \<Rightarrow> database result" where
  "deposit_witness_pay fc wit_id amt d =
     bnd (store_get (witnesses d) wit_id) (\<lambda>wit.
     if amt = 0 then Inr d
     else
       bnd (deposit_lazy_vesting fc (pay_vb wit) amt
              (witness_pay_vesting_seconds (parameters d)) Vbt_witness (witness_account wit) True d)
       (\<lambda>(new_vbid, d1).
         case new_vbid of
           None \<Rightarrow> Inr d1
         | Some vbid \<Rightarrow>
             Inr (d1\<lparr>witnesses := store_put (witnesses d1) wit_id (wit\<lparr>pay_vb := Some vbid\<rparr>)\<rparr>)))"

section \<open>Accumulated operation fees\<close>

definition cut_fee :: "share_type \<Rightarrow> nat \<Rightarrow> share_type" where
  "cut_fee a p =
     (if a = 0 \<or> p = 0 then 0
      else if int p = GRAPHENE_100_PERCENT then a
      else to_int64 (u128_mul (u128 a) (int p) div GRAPHENE_100_PERCENT))"

definition stats_pay_fee :: "fc_lib \<Rightarrow> share_type \<Rightarrow> share_type \<Rightarrow> account_statistics_object \<Rightarrow>
    account_statistics_object result" where
  "stats_pay_fee fc core_fee threshold s =
     (if threshold < core_fee
      then bnd (safe_add fc (pending_fees s) core_fee) (\<lambda>x. Inr (s\<lparr>pending_fees := x\<rparr>))
      else bnd (safe_add fc (pending_vested_fees s) core_fee) (\<lambda>x. Inr (s\<lparr>pending_vested_fees := x\<rparr>)))"

definition is_basic_account :: "time_point_sec \<Rightarrow> account_object \<Rightarrow> bool" where
  "is_basic_account now a \<longleftrightarrow> membership_expiration_date a < now"

text \<open>The lambda \<open>pay_out_fees\<close> of \<open>account_statistics_object::process_fees\<close>, in two parts: the
  split of the fee for an account, and the check of the referrer in front of it.\<close>

definition split_fees ::
    "fc_lib \<Rightarrow> account_object \<Rightarrow> share_type \<Rightarrow> bool \<Rightarrow> database \<Rightarrow> database result" where
  "split_fees fc account core_fee_total require_vesting d =
    (let network_cut = cut_fee core_fee_total (network_fee_percentage account);
         lifetime_cut = cut_fee core_fee_total (lifetime_referrer_fee_percentage account)
     in
     bnd (safe_sub fc core_fee_total network_cut) (\<lambda>r1.
     bnd (safe_sub fc r1 lifetime_cut) (\<lambda>referral.
     bnd (modify_dyn CORE_DYN (\<lambda>dd.
            bnd (safe_add fc (accumulated_fees dd) network_cut) (\<lambda>x. Inr (dd\<lparr>accumulated_fees := x\<rparr>))) d) (\<lambda>d1.
     let referrer_cut = cut_fee referral (referrer_rewards_percentage account)
     in
     bnd (safe_sub fc referral referrer_cut) (\<lambda>registrar_cut.
     bnd (deposit_cashback fc (lifetime_referrer account) lifetime_cut require_vesting d1) (\<lambda>d2.
     bnd (deposit_cashback fc (referrer account) referrer_cut require_vesting d2) (\<lambda>d3.
     deposit_cashback fc (registrar account) registrar_cut require_vesting d3)))))))"

definition pay_out_fees ::
    "fc_lib \<Rightarrow> account_id_type \<Rightarrow> share_type \<Rightarrow> bool \<Rightarrow> database \<Rightarrow> database result" where
  "pay_out_fees fc account_id core_fee_total require_vesting d =
     bnd (store_get (accounts d) account_id) (\<lambda>account.
     bnd (store_get (accounts d) (referrer account)) (\<lambda>ref.
     if is_basic_account (head_block_time d) ref then
       let account' = account\<lparr>referrer := lifetime_referrer account\<rparr>
       in split_fees fc account' core_fee_total require_vesting
            (d\<lparr>accounts := store_put (accounts d) account_id account'\<rparr>)
     else split_fees fc account core_fee_total require_vesting d))"

definition process_fees :: "fc_lib \<Rightarrow> account_id_type \<Rightarrow> nat \<Rightarrow> database \<Rightarrow> database result" where
  "process_fees fc account_id stats_id d =
     bnd (store_get (account_stats d) stats_id) (\<lambda>s.
     if 0 < pending_fees s \<or> 0 < pending_vested_fees s then
       bnd (pay_out_fees fc account_id (pending_fees s) True d) (\<lambda>d.
       bnd (pay_out_fees fc account_id (pending_vested_fees s) False d) (\<lambda>d.
       modify_stats stats_id (\<lambda>s.
         bnd (safe_add fc (pending_fees s) (pending_vested_fees s)) (\<lambda>p.
         bnd (safe_add fc (lifetime_fees_paid s) p) (\<lambda>x.
         Inr (s\<lparr>lifetime_fees_paid := x, pending_fees := 0, pending_vested_fees := 0\<rparr>)))) d))
     else Inr d)"

section \<open>The fee of an operation\<close>

text \<open>The members of \<open>generic_evaluator\<close> that \<open>prepare_fee\<close> sets; pointers are ids.\<close>

record fee_state =
  fee_from_account :: asset
  core_fee_paid :: share_type
  fee_paying_account :: account_id_type
  fee_paying_account_statistics :: nat
  fee_asset :: asset_id_type
  fee_asset_dyn_data :: nat

definition prepare_fee :: "account_id_type \<Rightarrow> asset \<Rightarrow> database \<Rightarrow> fee_state result" where
  "prepare_fee account_id fee d =
     FC_ASSERT (0 \<le> amount fee)
    (bnd (store_get (accounts d) account_id) (\<lambda>acct.
     bnd (store_get (account_stats d) (statistics acct)) (\<lambda>_.
     bnd (store_get (assets d) (asset_id fee)) (\<lambda>ao.
     bnd (store_get (asset_dyn_data d) (dynamic_asset_data_id ao)) (\<lambda>dd.
     FC_ASSERT (is_authorized_asset d account_id acct (asset_id fee) ao)
    (bnd (if asset_id fee = CORE_ASSET then Inr (amount fee)
          else
            bnd (asset_mul fee (core_exchange_rate (options ao))) (\<lambda>fee_from_pool.
            FC_ASSERT (asset_id fee_from_pool = CORE_ASSET)
           (FC_ASSERT (amount fee_from_pool \<le> fee_pool dd)
           (Inr (amount fee_from_pool))))) (\<lambda>core_fee.
     Inr \<lparr>fee_from_account = fee, core_fee_paid = core_fee, fee_paying_account = account_id,
          fee_paying_account_statistics = statistics acct, fee_asset = asset_id fee,
          fee_asset_dyn_data = dynamic_asset_data_id ao\<rparr>)))))))"

definition convert_fee :: "fc_lib \<Rightarrow> fee_state \<Rightarrow> database \<Rightarrow> database result" where
  "convert_fee fc fs d =
     (if fee_asset fs \<noteq> CORE_ASSET then
        modify_dyn (fee_asset_dyn_data fs) (\<lambda>dd.
          bnd (safe_add fc (accumulated_fees dd) (amount (fee_from_account fs))) (\<lambda>x.
          bnd (safe_sub fc (fee_pool dd) (core_fee_paid fs)) (\<lambda>y.
          Inr (dd\<lparr>accumulated_fees := x, fee_pool := y\<rparr>)))) d
      else Inr d)"

definition pay_fee :: "fc_lib \<Rightarrow> fee_state \<Rightarrow> database \<Rightarrow> database result" where
  "pay_fee fc fs d =
     modify_stats (fee_paying_account_statistics fs)
       (stats_pay_fee fc (core_fee_paid fs) (cashback_vesting_threshold (parameters d))) d"

section \<open>Evaluating and applying an operation\<close>

definition evaluator_evaluate :: "share_type option \<Rightarrow> account_id_type \<Rightarrow> asset \<Rightarrow>
    (fee_state \<Rightarrow> database \<Rightarrow> 'e result) \<Rightarrow> database \<Rightarrow> (fee_state \<times> 'e) result" where
  "evaluator_evaluate required_fee fee_payer fee do_evaluate d =
     bnd (prepare_fee fee_payer fee d) (\<lambda>fs.
     bnd (case required_fee of None \<Rightarrow> Inr () | Some req \<Rightarrow>
            ensure Insufficient_fee (req \<le> core_fee_paid fs) (Inr ())) (\<lambda>_.
     bnd (do_evaluate fs d) (\<lambda>ev.
     Inr (fs, ev))))"

definition evaluator_apply :: "fc_lib \<Rightarrow> account_id_type \<Rightarrow>
    ('e \<Rightarrow> fee_state \<Rightarrow> database \<Rightarrow> database result) \<Rightarrow> fee_state \<Rightarrow> 'e \<Rightarrow> database \<Rightarrow> database result" where
  "evaluator_apply fc fee_payer do_apply fs ev d =
     bnd (convert_fee fc fs d) (\<lambda>d.
     bnd (pay_fee fc fs d) (\<lambda>d.
     bnd (do_apply ev fs d) (\<lambda>d.
     debit fc fee_payer (fee_from_account fs) d)))"

definition run_operation :: "fc_lib \<Rightarrow> share_type option \<Rightarrow> account_id_type \<Rightarrow> asset \<Rightarrow>
    (fee_state \<Rightarrow> database \<Rightarrow> 'e result) \<Rightarrow> ('e \<Rightarrow> fee_state \<Rightarrow> database \<Rightarrow> database result) \<Rightarrow>
    database \<Rightarrow> database result" where
  "run_operation fc required_fee fee_payer fee do_evaluate do_apply d =
     bnd (evaluator_evaluate required_fee fee_payer fee do_evaluate d) (\<lambda>(fs, ev).
     evaluator_apply fc fee_payer do_apply fs ev d)"

section \<open>Well-formed databases\<close>

text \<open>The balances of a pool are non-negative 64-bit numbers, both zero or both positive, and the
  stored virtual value is their product.\<close>

definition pool_int64 :: "liquidity_pool_object \<Rightarrow> bool" where
  "pool_int64 p \<longleftrightarrow> in_int64 (lpo_balance_a p) \<and> in_int64 (lpo_balance_b p)"

definition pool_ok :: "liquidity_pool_object \<Rightarrow> bool" where
  "pool_ok p \<longleftrightarrow> pool_int64 p \<and> 0 \<le> lpo_balance_a p \<and> 0 \<le> lpo_balance_b p \<and>
     (lpo_balance_a p = 0 \<longleftrightarrow> lpo_balance_b p = 0) \<and>
     lpo_virtual_value p = lpo_balance_a p * lpo_balance_b p"

text \<open>No more is lent out of a fund than it has; the unused part of a credit offer is between zero and
  its total; a credit deal has an open debt and a collateral.\<close>

definition fund_ok :: "samet_fund_object \<Rightarrow> bool" where
  "fund_ok f \<longleftrightarrow> 0 \<le> sfo_unpaid_amount f \<and> sfo_unpaid_amount f \<le> sfo_balance f \<and> in_int64 (sfo_balance f)"

definition offer_ok :: "credit_offer_object \<Rightarrow> bool" where
  "offer_ok p \<longleftrightarrow> 0 \<le> coo_current_balance p \<and> coo_current_balance p \<le> coo_total_balance p \<and>
     in_int64 (coo_total_balance p)"

definition deal_ok :: "credit_deal_object \<Rightarrow> bool" where
  "deal_ok c \<longleftrightarrow> 0 < cdo_debt_amount c \<and> in_int64 (cdo_debt_amount c) \<and>
     0 < cdo_collateral_amount c \<and> in_int64 (cdo_collateral_amount c)"

text \<open>The books of the credit offers: what is lent out of an offer is what its deals owe, a deal belongs to
  an existing offer, and the summary of a borrower with an offer, of which there is one at most, is
  what the borrower owes to the offer.\<close>

definition offer_debt :: "credit_deal_object store \<Rightarrow> nat \<Rightarrow> int" where
  "offer_debt ds k = store_sum (\<lambda>c. if cdo_offer_id c = k then cdo_debt_amount c else 0) ds"

definition borrower_debt :: "credit_deal_object store \<Rightarrow> nat \<Rightarrow> account_id_type \<Rightarrow> int" where
  "borrower_debt ds k b =
     store_sum (\<lambda>c. if cdo_offer_id c = k \<and> cdo_borrower c = b then cdo_debt_amount c else 0) ds"

definition summary_debt :: "credit_deal_summary_object store \<Rightarrow> nat \<Rightarrow> account_id_type \<Rightarrow> int" where
  "summary_debt ss k b =
     store_sum (\<lambda>s. if cso_offer_id s = k \<and> cso_borrower s = b then cso_total_debt_amount s else 0) ss"

definition deal_linked :: "credit_offer_object store \<Rightarrow> credit_deal_object \<Rightarrow> bool" where
  "deal_linked os c \<longleftrightarrow> (case store_find os (cdo_offer_id c) of None \<Rightarrow> False
     | Some p \<Rightarrow> cdo_debt_asset c = coo_asset_type p \<and> cdo_offer_owner c = coo_owner_account p)"

definition credit_books :: "credit_offer_object store \<Rightarrow> credit_deal_object store \<Rightarrow>
    credit_deal_summary_object store \<Rightarrow> bool" where
  "credit_books os ds ss \<longleftrightarrow> store_wf os \<and> store_wf ds \<and>
     (\<forall>k p. store_find os k = Some p \<longrightarrow> coo_total_balance p - coo_current_balance p = offer_debt ds k) \<and>
     store_all (deal_linked os) ds \<and>
     (\<forall>k b. summary_debt ss k b = borrower_debt ds k b) \<and>
     distinct (map (\<lambda>p. (cso_offer_id (snd p), cso_borrower (snd p))) (items ss))"

lemma credit_books_empty [simp]:
  "credit_books \<lparr>items = [], next_id = i\<rparr> \<lparr>items = [], next_id = j\<rparr> \<lparr>items = [], next_id = k\<rparr>"
  by (simp add: credit_books_def store_wf_def store_find_def store_all_def summary_debt_def borrower_debt_def
      store_sum_def)

definition objects_ok :: "database \<Rightarrow> bool" where
  "objects_ok d \<longleftrightarrow> store_all pool_ok (liquidity_pools d) \<and> store_all fund_ok (samet_funds d) \<and>
     store_all offer_ok (credit_offers d) \<and> store_all deal_ok (credit_deals d) \<and>
     credit_books (credit_offers d) (credit_deals d) (credit_deal_summaries d) \<and>
     store_wf (htlcs d) \<and>
     ticket_books (ticket_version_at (next_maintenance_time d)) (tickets d) (account_stats d) (total_pob d) (total_inactive d)"

text \<open>Every asset has its own dynamic data, the core asset owns the first, the maximum market
  fee of an asset is not negative (\<open>asset_options::validate\<close>), the objects that hold value are
  consistent, and the last representable second, which stands for \<open>never\<close>, is not reached.\<close>

definition wf_db :: "database \<Rightarrow> bool" where
  "wf_db d \<longleftrightarrow> wf_assets (assets d) \<and>
     (case store_find (assets d) CORE_ASSET of None \<Rightarrow> False
      | Some ao \<Rightarrow> dynamic_asset_data_id ao = CORE_DYN) \<and>
     store_all (\<lambda>ao. 0 \<le> max_market_fee (options ao)) (assets d) \<and>
     objects_ok d \<and> head_block_time d < tps_maximum"

lemmas wf_defs = wf_db_def objects_ok_def

section \<open>Steps that move value\<close>

text \<open>
  \<open>gap_step d d' f\<close>: a step from \<open>d\<close> to \<open>d'\<close> keeps the database well-formed, the time of the head block and
  all balances non-negative, and leaves \<open>f a\<close> more of asset \<open>a\<close> in the database than its supply accounts for.
\<close>

definition amt_at :: "asset_id_type \<Rightarrow> int \<Rightarrow> asset_id_type \<Rightarrow> int" where
  "amt_at i x = (\<lambda>a. if a = i then x else 0)"

definition gap_step :: "database \<Rightarrow> database \<Rightarrow> (asset_id_type \<Rightarrow> int) \<Rightarrow> bool" where
  "gap_step d d' f \<longleftrightarrow> (wf_db d \<longrightarrow> wf_db d' \<and> head_block_time d' = head_block_time d \<and>
     (\<forall>a. supply_gap d' a = supply_gap d a + f a) \<and>
     (balances_nonneg d \<longrightarrow> balances_nonneg d'))"

abbreviation conserves :: "database \<Rightarrow> database \<Rightarrow> bool" where
  "conserves d d' \<equiv> gap_step d d' (\<lambda>_. 0)"

lemma gap_step_wf: "(wf_db d \<Longrightarrow> gap_step d d' f) \<Longrightarrow> gap_step d d' f"
  by (simp add: gap_step_def)

lemma gap_step_refl [simp]: "conserves d d"
  by (simp add: gap_step_def)

lemma gap_step_trans: "gap_step d d1 f \<Longrightarrow> gap_step d1 d2 g \<Longrightarrow> gap_step d d2 (\<lambda>a. f a + g a)"
  by (auto simp: gap_step_def)

lemma gap_step_then: "gap_step d d1 f \<Longrightarrow> gap_step d1 d2 g \<Longrightarrow> (\<And>a. f a + g a = h a) \<Longrightarrow> gap_step d d2 h"
  using gap_step_trans[of d d1 f d2 g] by simp

lemma conserves_trans: "conserves d d1 \<Longrightarrow> conserves d1 d2 \<Longrightarrow> conserves d d2"
  using gap_step_trans[of d d1 "\<lambda>_. 0" d2 "\<lambda>_. 0"] by simp

lemma amt_at_simps [simp]: "amt_at i x i = x" "a \<noteq> i \<Longrightarrow> amt_at i x a = 0" "amt_at i 0 a = 0"
  by (simp_all add: amt_at_def)

lemma amt_at_zero [simp]: "amt_at i 0 = (\<lambda>_. 0)"
  by (simp add: amt_at_def)

lemma amt_at_neg: "amt_at i (- x) a = - amt_at i x a"
  by (simp add: amt_at_def)

text \<open>Steps in a single index.\<close>

lemma gap_step_other [intro]:
  "conserves d (d\<lparr>accounts := x1\<rparr>)" "conserves d (d\<lparr>witnesses := x2\<rparr>)"
  "conserves d (d\<lparr>withdraw_permissions := x4\<rparr>)"
  by (simp_all add: gap_step_def gap_defs wf_defs balances_nonneg_def)

lemma gap_step_stats:
  assumes "store_find (account_stats d) k = Some s" "stats_stake s' = stats_stake s"
  shows "gap_step d (d\<lparr>account_stats := store_put (account_stats d) k s'\<rparr>)
    (amt_at CORE_ASSET (pending_fees s' + pending_vested_fees s' - pending_fees s - pending_vested_fees s))"
  using assms ticket_books_stats[OF assms(1), of s']
  by (auto simp: gap_step_def gap_defs wf_defs balances_nonneg_def pending_total_def store_sum_put amt_at_def)

lemma gap_step_vesting_put:
  assumes "store_find (vesting_balances d) k = Some v" "asset_id (vbo_balance v') = asset_id (vbo_balance v)"
  shows "gap_step d (d\<lparr>vesting_balances := store_put (vesting_balances d) k v'\<rparr>)
    (amt_at (asset_id (vbo_balance v)) (amount (vbo_balance v') - amount (vbo_balance v)))"
  using assms by (auto simp: gap_step_def gap_defs wf_defs balances_nonneg_def vesting_total_def
      store_sum_put amt_at_def)

lemma gap_step_vesting_put_by:
  assumes "store_search P (vesting_balances d) = Some v" "asset_id (vbo_balance v') = asset_id (vbo_balance v)"
  shows "gap_step d (d\<lparr>vesting_balances := store_put_by P (vesting_balances d) v'\<rparr>)
    (amt_at (asset_id (vbo_balance v)) (amount (vbo_balance v') - amount (vbo_balance v)))"
  using assms by (auto simp: gap_step_def gap_defs wf_defs balances_nonneg_def vesting_total_def
      store_sum_put_by amt_at_def)

lemma gap_step_vesting_add:
  "gap_step d (d\<lparr>vesting_balances := store_add (vesting_balances d) v\<rparr>)
    (amt_at (asset_id (vbo_balance v)) (amount (vbo_balance v)))"
  by (auto simp: gap_step_def gap_defs wf_defs balances_nonneg_def vesting_total_def amt_at_def)

lemma gap_step_dyn:
  assumes "store_find (assets d) i = Some ao" "store_find (asset_dyn_data d) (dynamic_asset_data_id ao) = Some dd"
    and "confidential_supply dd' = confidential_supply dd"
    and "accumulated_collateral_fees dd' = accumulated_collateral_fees dd"
  shows "gap_step d (d\<lparr>asset_dyn_data := store_put (asset_dyn_data d) (dynamic_asset_data_id ao) dd'\<rparr>)
    (\<lambda>a. amt_at i (accumulated_fees dd' - accumulated_fees dd - current_supply dd' + current_supply dd) a +
         amt_at CORE_ASSET (fee_pool dd' - fee_pool dd) a)"
proof -
  have "dyn_part (bitassets d) a i ao dd' - dyn_part (bitassets d) a i ao dd =
      amt_at i (accumulated_fees dd' - accumulated_fees dd) a + amt_at CORE_ASSET (fee_pool dd' - fee_pool dd) a"
    for a using assms(3,4) by (simp add: dyn_part_def amt_at_def split: option.split)
  then have part: "dyn_part (bitassets d) a i ao dd' = dyn_part (bitassets d) a i ao dd +
      (amt_at i (accumulated_fees dd' - accumulated_fees dd) a + amt_at CORE_ASSET (fee_pool dd' - fee_pool dd) a)"
    for a by (metis add_diff_cancel_left' diff_add_cancel add.commute)
  show ?thesis
    unfolding gap_step_def
  proof (intro conjI impI allI)
    assume wf: "wf_db d"
    show "wf_db (d\<lparr>asset_dyn_data := store_put (asset_dyn_data d) (dynamic_asset_data_id ao) dd'\<rparr>)"
      using wf by (simp add: wf_defs)
    have wfa: "wf_assets (assets d)" using wf by (simp add: wf_defs)
    show "supply_gap (d\<lparr>asset_dyn_data := store_put (asset_dyn_data d) (dynamic_asset_data_id ao) dd'\<rparr>) a =
      supply_gap d a + (amt_at i (accumulated_fees dd' - accumulated_fees dd - current_supply dd' + current_supply dd) a +
         amt_at CORE_ASSET (fee_pool dd' - fee_pool dd) a)" for a
      by (simp add: gap_defs asset_held_put[OF wfa assms(1,2)] asset_supply_put[OF wfa assms(1,2)] part amt_at_def)
  qed (simp_all add: balances_nonneg_def)
qed

text \<open>\<open>modify_dyn\<close> and \<open>modify_stats\<close> in the vocabulary of steps.\<close>

lemma modify_dynE:
  assumes "modify_dyn k f d = Inr d'"
  obtains dd dd' where "store_find (asset_dyn_data d) k = Some dd" "f dd = Inr dd'"
    "d' = d\<lparr>asset_dyn_data := store_put (asset_dyn_data d) k dd'\<rparr>"
  using assms by (auto simp: modify_dyn_def)

lemma modify_statsE:
  assumes "modify_stats k f d = Inr d'"
  obtains s s' where "store_find (account_stats d) k = Some s" "f s = Inr s'"
    "d' = d\<lparr>account_stats := store_put (account_stats d) k s'\<rparr>"
  using assms by (auto simp: modify_stats_def)

lemma modify_stats_step:
  assumes "modify_stats k f d = Inr d'"
    and "\<And>s s'. f s = Inr s' \<Longrightarrow> stats_stake s' = stats_stake s \<and>
      pending_fees s' + pending_vested_fees s' = pending_fees s + pending_vested_fees s + x"
  shows "gap_step d d' (amt_at CORE_ASSET x)"
proof -
  from assms(1) obtain s s' where s: "store_find (account_stats d) k = Some s" "f s = Inr s'"
    "d' = d\<lparr>account_stats := store_put (account_stats d) k s'\<rparr>" by (rule modify_statsE)
  have "pending_fees s' + pending_vested_fees s' - pending_fees s - pending_vested_fees s = x"
    using assms(2)[OF s(2)] by simp
  with gap_step_stats[OF s(1), of s'] s(3) assms(2)[OF s(2)] show ?thesis by simp
qed

lemma modify_stats_conserves:
  assumes "modify_stats k f d = Inr d'"
    and "\<And>s s'. f s = Inr s' \<Longrightarrow> stats_stake s' = stats_stake s \<and>
      pending_fees s' + pending_vested_fees s' = pending_fees s + pending_vested_fees s"
  shows "conserves d d'"
  using modify_stats_step[OF assms(1), of 0] assms(2) by (simp add: amt_at_def)

lemma modify_asset_dyn_step:
  assumes "modify_dyn (dynamic_asset_data_id ao) f d = Inr d'" "store_find (assets d) i = Some ao"
    and "\<And>dd dd'. f dd = Inr dd' \<Longrightarrow> confidential_supply dd' = confidential_supply dd \<and>
      fee_pool dd' = fee_pool dd \<and> accumulated_collateral_fees dd' = accumulated_collateral_fees dd \<and>
      accumulated_fees dd' - current_supply dd' = accumulated_fees dd - current_supply dd + x"
  shows "gap_step d d' (amt_at i x)"
proof -
  from assms(1) obtain dd dd' where dd: "store_find (asset_dyn_data d) (dynamic_asset_data_id ao) = Some dd"
    "f dd = Inr dd'" "d' = d\<lparr>asset_dyn_data := store_put (asset_dyn_data d) (dynamic_asset_data_id ao) dd'\<rparr>"
    by (rule modify_dynE)
  note f = assms(3)[OF dd(2)]
  then have "x = accumulated_fees dd' - accumulated_fees dd - current_supply dd' + current_supply dd" by simp
  with gap_step_dyn[OF assms(2) dd(1), of dd'] f dd(3) show ?thesis by simp
qed

lemma wf_db_core: "wf_db d \<Longrightarrow> \<exists>ao. store_find (assets d) CORE_ASSET = Some ao \<and> dynamic_asset_data_id ao = CORE_DYN"
  by (auto simp: wf_defs split: option.splits)

text \<open>A change of an asset object that keeps its links and options.\<close>

lemma gap_step_asset_link:
  assumes "store_find (assets d) i = Some ao" "dynamic_asset_data_id ao' = dynamic_asset_data_id ao"
    and "bitasset_data_id ao' = bitasset_data_id ao" "options ao' = options ao"
  shows "conserves d (d\<lparr>assets := store_put (assets d) i ao'\<rparr>)"
proof (cases "wf_db d")
  case True
  then have wf: "wf_assets (assets d)" "objects_ok d"
    "store_all (\<lambda>ao. 0 \<le> max_market_fee (options ao)) (assets d)" "head_block_time d < tps_maximum"
    by (simp_all add: wf_defs)
  have opt: "0 \<le> max_market_fee (options ao')" using store_all_find[OF wf(3) assms(1)] assms(4) by simp
  from wf_db_core[OF True] obtain co where co: "store_find (assets d) CORE_ASSET = Some co"
    "dynamic_asset_data_id co = CORE_DYN" by auto
  note put = asset_link_put[OF wf(1) assms(1-3)]
  have "wf_db (d\<lparr>assets := store_put (assets d) i ao'\<rparr>)"
    using put(1) co assms(1,2) wf(2,4) store_all_put[OF wf(3), of ao' i] opt
    by (cases "i = CORE_ASSET") (auto simp: wf_defs store_find_put_same store_find_put_other)
  then show ?thesis using put(2,3) by (simp add: gap_step_def gap_defs balances_nonneg_def)
qed (simp add: gap_step_def balances_nonneg_def)

lemma gap_step_core_dyn:
  assumes "store_find (asset_dyn_data d) CORE_DYN = Some dd"
    and "confidential_supply dd' = confidential_supply dd" "fee_pool dd' = fee_pool dd"
    and "accumulated_collateral_fees dd' = accumulated_collateral_fees dd"
  shows "gap_step d (d\<lparr>asset_dyn_data := store_put (asset_dyn_data d) CORE_DYN dd'\<rparr>)
    (amt_at CORE_ASSET (accumulated_fees dd' - accumulated_fees dd - current_supply dd' + current_supply dd))"
proof (cases "wf_db d")
  case True
  from wf_db_core[OF this] obtain ao
    where ao: "store_find (assets d) CORE_ASSET = Some ao" "dynamic_asset_data_id ao = CORE_DYN" by auto
  from gap_step_dyn[OF ao(1), of dd dd'] show ?thesis using ao(2) assms by simp
qed (simp add: gap_step_def balances_nonneg_def)

definition same_pending :: "database \<Rightarrow> database \<Rightarrow> bool" where
  "same_pending d d' \<longleftrightarrow> (\<forall>k. map_option (\<lambda>s. (pending_fees s, pending_vested_fees s)) (store_find (account_stats d') k) =
     map_option (\<lambda>s. (pending_fees s, pending_vested_fees s)) (store_find (account_stats d) k))"

lemma same_pending_trans: "same_pending d d1 \<Longrightarrow> same_pending d1 d2 \<Longrightarrow> same_pending d d2"
  by (simp add: same_pending_def)

context fc_safe
begin

lemma gap_step_adjust:
  assumes "adjust_balance fc account delta d = Inr d'"
  shows "gap_step d d' (amt_at (asset_id delta) (amount delta))"
proof -
  from assms have "wf_db d' = wf_db d" by (rule adjust_balance_frame) (simp add: wf_defs)
  then show ?thesis using adjust_balance_gap[OF assms] adjust_balance_nonneg[OF assms] adjust_balance_fields(1)[OF assms]
    by (auto simp: gap_step_def amt_at_def)
qed

lemma debit_iff [simp]: "debit fc account a d = Inr d' \<longleftrightarrow>
    in_int64 (- amount a) \<and> adjust_balance fc account (ASSET (- amount a) (asset_id a)) d = Inr d'"
  by (auto simp: debit_def)

lemma gap_step_debit: "debit fc account a d = Inr d' \<Longrightarrow> gap_step d d' (amt_at (asset_id a) (- amount a))"
  by (auto dest: gap_step_adjust)

lemma debit_credit_conserves:
  assumes "debit fc x a d = Inr d1" "adjust_balance fc y a d1 = Inr d2"
  shows "conserves d d2"
  by (rule gap_step_then[OF gap_step_debit[OF assms(1)] gap_step_adjust[OF assms(2)]]) (simp add: amt_at_neg)

lemma vbo_deposit_balance:
  "vbo_deposit fc now amt v = Inr v' \<Longrightarrow> asset_id amt = asset_id (vbo_balance v) \<and>
     vbo_balance v' = ASSET (amount (vbo_balance v) + amount amt) (asset_id (vbo_balance v))"
  "vbo_deposit_vested fc now amt v = Inr v' \<Longrightarrow> asset_id amt = asset_id (vbo_balance v) \<and>
     vbo_balance v' = ASSET (amount (vbo_balance v) + amount amt) (asset_id (vbo_balance v))"
  "vbo_withdraw fc now amt v = Inr v' \<Longrightarrow> asset_id amt = asset_id (vbo_balance v) \<and>
     vbo_balance v' = ASSET (amount (vbo_balance v) - amount amt) (asset_id (vbo_balance v))"
  by (auto simp: vbo_deposit_def vbo_deposit_vested_def vbo_withdraw_def)

lemma gap_step_deposit_mfs:
  assumes "deposit_market_fee_vesting_balance fc account delta d = Inr d'"
  shows "gap_step d d' (amt_at (asset_id delta) (amount delta))"
proof (cases "amount delta = 0")
  case True
  then show ?thesis using assms
    by (simp add: deposit_market_fee_vesting_balance_def gap_step_def amt_at_def)
next
  case nz: False
  show ?thesis
  proof (cases "store_search (vbo_mfs_key account (asset_id delta)) (vesting_balances d)")
    case None
    let ?v = "\<lparr>vbo_owner = account, vbo_balance = delta, vbo_policy = Instant_vesting,
      vbo_balance_type = Vbt_market_fee_sharing\<rparr>"
    from None assms nz have "d' = d\<lparr>vesting_balances := store_add (vesting_balances d) ?v\<rparr>"
      by (simp add: deposit_market_fee_vesting_balance_def)
    with gap_step_vesting_add[of d ?v] show ?thesis by simp
  next
    case (Some v)
    with assms nz obtain v' where v': "vbo_deposit_vested fc (head_block_time d) delta v = Inr v'"
        "d' = d\<lparr>vesting_balances := store_put_by (vbo_mfs_key account (asset_id delta)) (vesting_balances d) v'\<rparr>"
      by (auto simp: deposit_market_fee_vesting_balance_def)
    with gap_step_vesting_put_by[OF Some, of v'] vbo_deposit_balance(2)[OF v'(1)] show ?thesis by simp
  qed
qed

lemma deposit_mfs_frame:
  assumes "deposit_market_fee_vesting_balance fc account delta d = Inr d'"
  obtains vs where "d' = d\<lparr>vesting_balances := vs\<rparr>"
  using assms by (auto simp: deposit_market_fee_vesting_balance_def split: if_splits option.splits
      intro: that[of "vesting_balances d"] that)

text \<open>The two ways in which a lazy deposit is made: into a new balance or into the given one.\<close>

lemma deposit_lazy_cases:
  assumes "deposit_lazy_vesting fc ovbid amt vs btype req_owner require_vesting d = Inr (vb, d')" "amt \<noteq> 0"
  obtains (create) v where "d' = d\<lparr>vesting_balances := store_add (vesting_balances d) v\<rparr>"
      "vbo_balance v = ASSET amt CORE_ASSET"
  | (present) k v v' where "store_find (vesting_balances d) k = Some v"
      "vbo_balance v' = ASSET (amount (vbo_balance v) + amt) CORE_ASSET"
      "asset_id (vbo_balance v) = CORE_ASSET"
      "d' = d\<lparr>vesting_balances := store_put (vesting_balances d) k v'\<rparr>"
proof (cases ovbid)
  case None
  then show thesis using assms by (intro create) (auto simp: deposit_lazy_vesting_def)
next
  case (Some k)
  with assms obtain v where v: "store_find (vesting_balances d) k = Some v"
    by (auto simp: deposit_lazy_vesting_def)
  show thesis
  proof (cases "vbo_owner v = req_owner \<and> (case vbo_policy v of
                  Cdd_vesting p \<Rightarrow> vesting_seconds p = vs | _ \<Rightarrow> False)")
    case True
    with assms Some v obtain v' where dep: "(if require_vesting
          then vbo_deposit fc (head_block_time d) (ASSET amt CORE_ASSET) v
          else vbo_deposit_vested fc (head_block_time d) (ASSET amt CORE_ASSET) v) = Inr v'"
        "d' = d\<lparr>vesting_balances := store_put (vesting_balances d) k v'\<rparr>"
      by (auto simp: deposit_lazy_vesting_def)
    have "asset_id (vbo_balance v) = CORE_ASSET \<and>
        vbo_balance v' = ASSET (amount (vbo_balance v) + amt) CORE_ASSET"
      using dep(1) vbo_deposit_balance(1,2)[of "head_block_time d" "ASSET amt CORE_ASSET" v v']
      by (cases require_vesting) auto
    then show thesis using v dep(2) by (intro present) auto
  next
    case False
    then show thesis using assms Some v by (intro create) (auto simp: deposit_lazy_vesting_def)
  qed
qed

lemma gap_step_deposit_lazy:
  assumes "deposit_lazy_vesting fc ovbid amt vs btype req_owner require_vesting d = Inr (vb, d')"
  shows "gap_step d d' (amt_at CORE_ASSET amt)"
proof (cases "amt = 0")
  case True
  then show ?thesis using assms by (simp add: deposit_lazy_vesting_def gap_step_def amt_at_def)
next
  case False
  from assms False show ?thesis
  proof (cases rule: deposit_lazy_cases)
    case (create v)
    then show ?thesis using gap_step_vesting_add[of d v] by simp
  next
    case (present k v v')
    with gap_step_vesting_put[OF present(1), of v'] show ?thesis by simp
  qed
qed

lemma gap_step_deposit_cashback:
  assumes "deposit_cashback fc acct_id amt require_vesting d = Inr d'"
  shows "gap_step d d' (amt_at CORE_ASSET amt)"
proof -
  from assms obtain acct where acct: "store_find (accounts d) acct_id = Some acct"
    by (auto simp: deposit_cashback_def)
  show ?thesis
  proof (cases "amt = 0")
    case True
    then show ?thesis using assms acct by (simp add: deposit_cashback_def gap_step_def amt_at_def)
  next
    case nz: False
    show ?thesis
    proof (cases "is_reserved_account acct_id")
      case True
      with assms nz acct have "modify_dyn CORE_DYN (\<lambda>dd.
         bnd (safe_sub fc (current_supply dd) amt) (\<lambda>x. Inr (dd\<lparr>current_supply := x\<rparr>))) d = Inr d'"
        by (simp add: deposit_cashback_def)
      then show ?thesis
      proof (rule modify_dynE)
        fix dd dd' assume "store_find (asset_dyn_data d) CORE_DYN = Some dd"
          "bnd (safe_sub fc (current_supply dd) amt) (\<lambda>x. Inr (dd\<lparr>current_supply := x\<rparr>)) = Inr dd'"
          "d' = d\<lparr>asset_dyn_data := store_put (asset_dyn_data d) CORE_DYN dd'\<rparr>"
        then show ?thesis using gap_step_core_dyn[of d dd dd'] by auto
      qed
    next
      case False
      with assms nz acct obtain vb d1 where lazy: "deposit_lazy_vesting fc (cashback_vb acct) amt
          (cashback_vesting_period_seconds (parameters d)) Vbt_cashback acct_id require_vesting d = Inr (vb, d1)"
        and d': "(case vb of None \<Rightarrow> Inr d1 | Some vbid \<Rightarrow>
             modify_stats (statistics acct) (\<lambda>s. Inr (s\<lparr>has_cashback_vb := True\<rparr>))
               (d1\<lparr>accounts := store_put (accounts d1) acct_id (acct\<lparr>cashback_vb := Some vbid\<rparr>)\<rparr>)) = Inr d'"
        by (auto simp: deposit_cashback_def)
      have "conserves d1 d'"
      proof (cases vb)
        case None
        then show ?thesis using d' by simp
      next
        case (Some vbid)
        let ?d2 = "d1\<lparr>accounts := store_put (accounts d1) acct_id (acct\<lparr>cashback_vb := Some vbid\<rparr>)\<rparr>"
        from Some d' have "modify_stats (statistics acct) (\<lambda>s. Inr (s\<lparr>has_cashback_vb := True\<rparr>)) ?d2 = Inr d'"
          by simp
        then have "conserves ?d2 d'"
          by (rule modify_stats_conserves) auto
        with gap_step_other(1) show ?thesis by (rule conserves_trans)
      qed
      from gap_step_then[OF gap_step_deposit_lazy[OF lazy] this] show ?thesis by simp
    qed
  qed
qed

lemma modify_core_step:
  assumes "modify_dyn CORE_DYN f d = Inr d'"
    and "\<And>dd dd'. f dd = Inr dd' \<Longrightarrow> confidential_supply dd' = confidential_supply dd \<and>
      fee_pool dd' = fee_pool dd \<and> accumulated_collateral_fees dd' = accumulated_collateral_fees dd \<and>
      accumulated_fees dd' - current_supply dd' = accumulated_fees dd - current_supply dd + x"
  shows "gap_step d d' (amt_at CORE_ASSET x)"
proof -
  from assms(1) obtain dd dd' where dd: "store_find (asset_dyn_data d) CORE_DYN = Some dd" "f dd = Inr dd'"
    "d' = d\<lparr>asset_dyn_data := store_put (asset_dyn_data d) CORE_DYN dd'\<rparr>" by (rule modify_dynE)
  note f = assms(2)[OF dd(2)]
  then have x: "x = accumulated_fees dd' - accumulated_fees dd - current_supply dd' + current_supply dd"
    by simp
  show ?thesis unfolding x dd(3) by (rule gap_step_core_dyn) (use dd(1) f in auto)
qed

lemma gap_step_split_fees:
  assumes "split_fees fc account ft require_vesting d = Inr d'"
  shows "gap_step d d' (amt_at CORE_ASSET ft)"
proof -
  let ?n = "cut_fee ft (network_fee_percentage account)"
  let ?l = "cut_fee ft (lifetime_referrer_fee_percentage account)"
  let ?r = "cut_fee (ft - ?n - ?l) (referrer_rewards_percentage account)"
  from assms obtain d1 d2 d3 where steps:
    "modify_dyn CORE_DYN (\<lambda>dd. bnd (safe_add fc (accumulated_fees dd) ?n)
       (\<lambda>x. Inr (dd\<lparr>accumulated_fees := x\<rparr>))) d = Inr d1"
    "deposit_cashback fc (lifetime_referrer account) ?l require_vesting d1 = Inr d2"
    "deposit_cashback fc (referrer account) ?r require_vesting d2 = Inr d3"
    "deposit_cashback fc (registrar account) (ft - ?n - ?l - ?r) require_vesting d3 = Inr d'"
    by (auto simp: split_fees_def)
  have "gap_step d d1 (amt_at CORE_ASSET ?n)" using steps(1) by (rule modify_core_step) auto
  note c = this and cb = steps(2-4)[THEN gap_step_deposit_cashback]
  show ?thesis
    by (rule gap_step_then[OF gap_step_trans[OF gap_step_trans[OF c cb(1)] cb(2)] cb(3)])
      (simp add: amt_at_def)
qed

lemma gap_step_pay_out_fees:
  assumes "pay_out_fees fc account_id ft require_vesting d = Inr d'"
  shows "gap_step d d' (amt_at CORE_ASSET ft)"
proof -
  from assms obtain account ref where acc: "store_find (accounts d) account_id = Some account"
    "store_find (accounts d) (referrer account) = Some ref"
    by (auto simp: pay_out_fees_def)
  show ?thesis
  proof (cases "is_basic_account (head_block_time d) ref")
    case True
    with assms acc show ?thesis
      by (intro gap_step_then[OF gap_step_other(1) gap_step_split_fees]) (auto simp: pay_out_fees_def)
  next
    case False
    with assms acc show ?thesis by (intro gap_step_split_fees) (auto simp: pay_out_fees_def)
  qed
qed

text \<open>Paying fees out does not touch the pending fees of any account.\<close>

lemma same_pending_cashback:
  assumes "deposit_cashback fc acct_id amt require_vesting d = Inr d'"
  shows "same_pending d d'"
  using assms
  by (auto simp: deposit_cashback_def same_pending_def modify_dyn_def modify_stats_def store_find_put
      deposit_lazy_vesting_def split: if_splits option.splits vesting_policy.splits)

lemma same_pending_pay_out:
  assumes "pay_out_fees fc account_id ft require_vesting d = Inr d'"
  shows "same_pending d d'"
proof -
  have dyn: "same_pending d (d\<lparr>accounts := x\<rparr>)" "same_pending d (d\<lparr>asset_dyn_data := y\<rparr>)" for d x y
    by (simp_all add: same_pending_def)
  have "same_pending d d'" if "split_fees fc account ft require_vesting d = Inr d'" for account d
    using that same_pending_cashback dyn(2)
    by (auto simp: split_fees_def modify_dyn_def) (blast intro: same_pending_trans)+
  with assms dyn(1) show ?thesis
    by (auto simp: pay_out_fees_def split: if_splits) (blast intro: same_pending_trans)+
qed

lemma process_fees_step:
  assumes "process_fees fc account_id stats_id d = Inr d'"
  shows "conserves d d'"
    and "store_find (account_stats d) stats_id = Some s \<Longrightarrow> 0 < pending_fees s \<or> 0 < pending_vested_fees s \<Longrightarrow>
      \<exists>s'. store_find (account_stats d') stats_id = Some s' \<and> pending_fees s' = 0 \<and> pending_vested_fees s' = 0"
proof -
  from assms obtain s0 where s0: "store_find (account_stats d) stats_id = Some s0"
    by (auto simp: process_fees_def)
  let ?f = "\<lambda>s. bnd (safe_add fc (pending_fees s) (pending_vested_fees s)) (\<lambda>p.
         bnd (safe_add fc (lifetime_fees_paid s) p) (\<lambda>x.
         Inr (s\<lparr>lifetime_fees_paid := x, pending_fees := 0, pending_vested_fees := 0\<rparr>)))"
  have "conserves d d' \<and> (0 < pending_fees s0 \<or> 0 < pending_vested_fees s0 \<longrightarrow>
      (\<exists>s'. store_find (account_stats d') stats_id = Some s' \<and> pending_fees s' = 0 \<and> pending_vested_fees s' = 0))"
  proof (cases "0 < pending_fees s0 \<or> 0 < pending_vested_fees s0")
    case True
    with assms s0 obtain d1 d2 where
      d1: "pay_out_fees fc account_id (pending_fees s0) True d = Inr d1" and
      d2: "pay_out_fees fc account_id (pending_vested_fees s0) False d1 = Inr d2" and
      d3: "modify_stats stats_id ?f d2 = Inr d'"
      by (auto simp: process_fees_def)
    from d3 obtain s s' where s: "store_find (account_stats d2) stats_id = Some s" "?f s = Inr s'"
      "d' = d2\<lparr>account_stats := store_put (account_stats d2) stats_id s'\<rparr>" by (rule modify_statsE)
    have keep: "same_pending d d2"
      using same_pending_trans[OF same_pending_pay_out[OF d1] same_pending_pay_out[OF d2]] .
    have pend: "pending_fees s = pending_fees s0" "pending_vested_fees s = pending_vested_fees s0"
      using keep[unfolded same_pending_def, rule_format, of stats_id] s(1) s0 by simp_all
    have zero: "pending_fees s' = 0" "pending_vested_fees s' = 0" "stats_stake s' = stats_stake s" using s(2) by auto
    have d3': "gap_step d2 d' (amt_at CORE_ASSET (- pending_fees s0 - pending_vested_fees s0))"
      using gap_step_stats[OF s(1), of s'] s(3) pend zero by simp
    have "conserves d d'"
      by (rule gap_step_then[OF gap_step_trans[OF gap_step_pay_out_fees[OF d1]
            gap_step_pay_out_fees[OF d2]] d3']) (simp add: amt_at_def)
    then show ?thesis using s(1,3) zero by (auto simp: store_find_put_same)
  next
    case False
    then have "d' = d" using assms s0 by (simp add: process_fees_def)
    then show ?thesis using False by simp
  qed
  then show "conserves d d'"
    "store_find (account_stats d) stats_id = Some s \<Longrightarrow> 0 < pending_fees s \<or> 0 < pending_vested_fees s \<Longrightarrow>
      \<exists>s'. store_find (account_stats d') stats_id = Some s' \<and> pending_fees s' = 0 \<and> pending_vested_fees s' = 0"
    using s0 by auto
qed

end

lemma cut_fee_exact:
  assumes "0 \<le> a" "a \<le> GRAPHENE_MAX_SHARE_SUPPLY" "int p \<le> GRAPHENE_100_PERCENT"
  shows "cut_fee a p = a * int p div GRAPHENE_100_PERCENT"
    and "0 \<le> cut_fee a p" "cut_fee a p * GRAPHENE_100_PERCENT \<le> a * int p"
proof -
  have m: "0 \<le> a * int p" "a * int p < 2 ^ 82"
    using share_times_bound[OF assms(1,2), of "int p"] assms(3) by (auto simp: GRAPHENE_100_PERCENT_def)
  have u: "u128_mul (u128 a) (int p) = a * int p"
    using m assms(1,2) by (simp add: u128_mul_id u128_id GRAPHENE_MAX_SHARE_SUPPLY_def)
  have ge: "0 \<le> a * int p div GRAPHENE_100_PERCENT"
    using m(1) by (simp add: pos_imp_zdiv_nonneg_iff GRAPHENE_100_PERCENT_def)
  have mul: "a * int p div GRAPHENE_100_PERCENT * GRAPHENE_100_PERCENT \<le> a * int p"
    by (rule floor_bounds(1)) (simp add: GRAPHENE_100_PERCENT_def)
  have "a * int p \<le> a * GRAPHENE_100_PERCENT" using assms by (intro mult_left_mono) auto
  then have le: "a * int p div GRAPHENE_100_PERCENT \<le> a"
    using zdiv_mono1[of "a * int p" "a * GRAPHENE_100_PERCENT" GRAPHENE_100_PERCENT]
    by (simp add: GRAPHENE_100_PERCENT_def)
  have "to_int64 (a * int p div GRAPHENE_100_PERCENT) = a * int p div GRAPHENE_100_PERCENT"
    by (rule to_int64_id, rule share_in_int64) (use le ge assms(2) in auto)
  then show ex: "cut_fee a p = a * int p div GRAPHENE_100_PERCENT"
    unfolding cut_fee_def u by (auto simp: GRAPHENE_100_PERCENT_def)
  show "0 \<le> cut_fee a p" "cut_fee a p * GRAPHENE_100_PERCENT \<le> a * int p"
    using ge mul unfolding ex by auto
qed

section \<open>The part of an operation before and after its evaluator\<close>

text \<open>What converting and paying the fee may have changed when \<open>do_apply\<close> starts: account statistics
  and the fees collected by assets, but no supply and no other index.\<close>

definition fee_frame :: "database \<Rightarrow> database \<Rightarrow> bool" where
  "fee_frame d0 d \<longleftrightarrow>
     d0\<lparr>account_stats := account_stats d, asset_dyn_data := asset_dyn_data d\<rparr> = d \<and>
     (\<forall>k. map_option current_supply (store_find (asset_dyn_data d) k) =
          map_option current_supply (store_find (asset_dyn_data d0) k))"

lemma fee_frameE:
  assumes "fee_frame d0 d"
  obtains ss dyns where "d = d0\<lparr>account_stats := ss, asset_dyn_data := dyns\<rparr>"
  using assms unfolding fee_frame_def by metis

lemma fee_frame_fields:
  assumes "fee_frame d0 d"
  shows "head_block_time d = head_block_time d0" "next_maintenance_time d = next_maintenance_time d0"
    "parameters d = parameters d0" "accounts d = accounts d0" "account_balances d = account_balances d0"
    "assets d = assets d0" "bitassets d = bitassets d0" "vesting_balances d = vesting_balances d0"
    "liquidity_pools d = liquidity_pools d0" "samet_funds d = samet_funds d0"
    "credit_offers d = credit_offers d0" "credit_deals d = credit_deals d0"
    "credit_deal_summaries d = credit_deal_summaries d0" "htlcs d = htlcs d0" "tickets d = tickets d0"
    "withdraw_permissions d = withdraw_permissions d0" "witnesses d = witnesses d0"
  using assms by (auto elim!: fee_frameE)

lemma fee_frame_supply:
  assumes "fee_frame d0 d" "store_find (asset_dyn_data d) k = Some dd"
  shows "\<exists>dd0. store_find (asset_dyn_data d0) k = Some dd0 \<and> current_supply dd0 = current_supply dd"
  using assms unfolding fee_frame_def
  by (metis (no_types, lifting) map_option_eq_Some option.map(2))

lemma fee_frame_balance: "fee_frame d0 d \<Longrightarrow> get_balance d = get_balance d0"
  by (intro ext) (simp add: get_balance_def get_account_balance_def fee_frame_fields)

lemma prepare_feeD:
  assumes "prepare_fee account_id fee d = Inr fs"
  shows "fee_from_account fs = fee" "fee_paying_account fs = account_id" "fee_asset fs = asset_id fee"
    "0 \<le> amount fee" "asset_id fee = CORE_ASSET \<Longrightarrow> core_fee_paid fs = amount fee"
    "\<exists>ao. store_find (assets d) (asset_id fee) = Some ao \<and> fee_asset_dyn_data fs = dynamic_asset_data_id ao"
  using assms by (auto simp: prepare_fee_def split: if_splits)

context fc_safe
begin

lemma convert_fee_step:
  assumes "prepare_fee account_id fee d = Inr fs" "convert_fee fc fs d = Inr d'"
  shows "gap_step d d' (\<lambda>a. amt_at (asset_id fee) (amount fee) a - amt_at CORE_ASSET (core_fee_paid fs) a)"
    and "fee_frame d d'"
proof -
  note pf = prepare_feeD[OF assms(1)]
  have "gap_step d d' (\<lambda>a. amt_at (asset_id fee) (amount fee) a - amt_at CORE_ASSET (core_fee_paid fs) a) \<and>
    fee_frame d d'"
  proof (cases "asset_id fee = CORE_ASSET")
    case True
    then have "d' = d" using assms(2) pf(3) by (simp add: convert_fee_def)
    then show ?thesis using True pf(5) by (simp add: amt_at_def gap_step_def fee_frame_def)
  next
    case False
    from pf(6) obtain ao where ao: "store_find (assets d) (asset_id fee) = Some ao"
      "fee_asset_dyn_data fs = dynamic_asset_data_id ao" by blast
    from False assms(2) pf(3) ao(2) have "modify_dyn (dynamic_asset_data_id ao) (\<lambda>dd.
          bnd (safe_add fc (accumulated_fees dd) (amount (fee_from_account fs))) (\<lambda>x.
          bnd (safe_sub fc (fee_pool dd) (core_fee_paid fs)) (\<lambda>y.
          Inr (dd\<lparr>accumulated_fees := x, fee_pool := y\<rparr>)))) d = Inr d'"
      by (simp add: convert_fee_def)
    then obtain dd where dd: "store_find (asset_dyn_data d) (dynamic_asset_data_id ao) = Some dd"
      "d' = d\<lparr>asset_dyn_data := store_put (asset_dyn_data d) (dynamic_asset_data_id ao)
        (dd\<lparr>accumulated_fees := accumulated_fees dd + amount fee, fee_pool := fee_pool dd - core_fee_paid fs\<rparr>)\<rparr>"
      using pf(1) by (auto elim!: modify_dynE)
    let ?dd' = "dd\<lparr>accumulated_fees := accumulated_fees dd + amount fee, fee_pool := fee_pool dd - core_fee_paid fs\<rparr>"
    have "gap_step d d' (\<lambda>a. amt_at (asset_id fee) (amount fee) a + amt_at CORE_ASSET (- core_fee_paid fs) a)"
      using gap_step_dyn[OF ao(1) dd(1), of ?dd'] dd(2) by simp
    moreover have "fee_frame d d'" using dd by (simp add: fee_frame_def store_find_put)
    ultimately show ?thesis by (simp add: amt_at_neg)
  qed
  then show "gap_step d d' (\<lambda>a. amt_at (asset_id fee) (amount fee) a - amt_at CORE_ASSET (core_fee_paid fs) a)"
    "fee_frame d d'" by auto
qed

lemma pay_fee_step:
  assumes "pay_fee fc fs d = Inr d'"
  shows "gap_step d d' (amt_at CORE_ASSET (core_fee_paid fs))" and "fee_frame d d'"
proof -
  show "gap_step d d' (amt_at CORE_ASSET (core_fee_paid fs))"
    using assms unfolding pay_fee_def
    by (rule modify_stats_step) (auto simp: stats_pay_fee_def split: if_splits)
  show "fee_frame d d'" using assms by (auto simp: pay_fee_def fee_frame_def elim!: modify_statsE)
qed

lemma fee_frame_trans: "fee_frame d d1 \<Longrightarrow> fee_frame d1 d2 \<Longrightarrow> fee_frame d d2"
proof -
  assume a: "fee_frame d d1" and b: "fee_frame d1 d2"
  from a obtain ss dyns where d1: "d1 = d\<lparr>account_stats := ss, asset_dyn_data := dyns\<rparr>" by (rule fee_frameE)
  from b have "d1\<lparr>account_stats := account_stats d2, asset_dyn_data := asset_dyn_data d2\<rparr> = d2"
    by (simp add: fee_frame_def)
  with a b d1 show ?thesis by (simp add: fee_frame_def)
qed

end

text \<open>
  What an evaluator has to guarantee: for an operation that passed its validation, applied to the state its evaluation saw, up to the changes
  the fee makes, it conserves every asset. Then the whole operation conserves every asset.
\<close>

locale conserving_evaluator = fc_safe fc for fc :: fc_lib +
  fixes fee_payer :: "'op \<Rightarrow> account_id_type" and fee_of :: "'op \<Rightarrow> asset"
    and validate :: "'op \<Rightarrow> unit result"
    and do_evaluate :: "'op \<Rightarrow> fee_state \<Rightarrow> database \<Rightarrow> 'e result"
    and do_apply :: "'op \<Rightarrow> 'e \<Rightarrow> fee_state \<Rightarrow> database \<Rightarrow> database result"
  assumes apply_conserves: "validate op = Inr () \<Longrightarrow> do_evaluate op fs d0 = Inr ev \<Longrightarrow> fee_frame d0 d \<Longrightarrow>
    do_apply op ev fs d = Inr d' \<Longrightarrow> conserves d d'"
begin

text \<open>The steps of an operation that succeeds.\<close>

lemma operation_steps:
  assumes "run_operation fc required_fee (fee_payer op) (fee_of op) (do_evaluate op) (do_apply op) d = Inr d'"
  obtains fs ev d1 d2 where "prepare_fee (fee_payer op) (fee_of op) d = Inr fs"
    "do_evaluate op fs d = Inr ev" "fee_frame d d1" "do_apply op ev fs d1 = Inr d2"
    "adjust_balance fc (fee_payer op) (ASSET (- amount (fee_of op)) (asset_id (fee_of op))) d2 = Inr d'"
proof -
  from assms obtain fs ev d0 d1 d2 where fs: "prepare_fee (fee_payer op) (fee_of op) d = Inr fs"
    and ev: "do_evaluate op fs d = Inr ev"
    and d0: "convert_fee fc fs d = Inr d0" and d1: "pay_fee fc fs d0 = Inr d1"
    and d2: "do_apply op ev fs d1 = Inr d2"
    and d': "debit fc (fee_payer op) (fee_from_account fs) d2 = Inr d'"
    by (auto simp: run_operation_def evaluator_evaluate_def evaluator_apply_def simp del: debit_iff)
  have "fee_frame d d1"
    by (rule fee_frame_trans[OF convert_fee_step(2)[OF fs d0] pay_fee_step(2)[OF d1]])
  with fs ev d2 d' prepare_feeD[OF fs] show thesis by (intro that) auto
qed

lemma operation_conserves:
  assumes "validate op = Inr ()"
    and "run_operation fc required_fee (fee_payer op) (fee_of op) (do_evaluate op) (do_apply op) d = Inr d'"
  shows "conserves d d'"
proof -
  from assms(2) obtain fs ev d1 d2 d3 where fs: "prepare_fee (fee_payer op) (fee_of op) d = Inr fs"
    and ev: "do_evaluate op fs d = Inr ev"
    and d1: "convert_fee fc fs d = Inr d1" and d2: "pay_fee fc fs d1 = Inr d2"
    and d3: "do_apply op ev fs d2 = Inr d3"
    and d': "debit fc (fee_payer op) (fee_from_account fs) d3 = Inr d'"
    by (auto simp: run_operation_def evaluator_evaluate_def evaluator_apply_def simp del: debit_iff)
  note cf = convert_fee_step[OF fs d1] and pf = pay_fee_step[OF d2]
  have "conserves d2 d3" by (rule apply_conserves[OF assms(1) ev fee_frame_trans[OF cf(2) pf(2)] d3])
  from gap_step_trans[OF gap_step_trans[OF gap_step_trans[OF cf(1) pf(1)] this] gap_step_debit[OF d']]
  show ?thesis using prepare_feeD[OF fs] by (simp add: amt_at_neg)
qed

end

text \<open>The definitions a concrete run of an operation unfolds.\<close>

lemmas run_eval = run_operation_def evaluator_evaluate_def evaluator_apply_def prepare_fee_def
  convert_fee_def pay_fee_def stats_pay_fee_def debit_def asset_neg_def adjust_balance_def
  get_account_balance_def abo_adjust_balance_def abo_key_def get_balance_def is_authorized_asset_def
  modify_dyn_def modify_stats_def account_constants flag_defs hardfork_times CORE_DYN_def
  asset_ge_def asset_le_def asset_less_def store_search_def store_get_def store_find_def store_put_def
  store_add_def store_del_def store_put_by_def store_del_by_def

section \<open>Properties\<close>

text \<open>
  \<open>account_statistics_object::process_fees\<close> conserves every asset: the pending fees of the
  account leave its statistics, and exactly the same amount of the core asset arrives in the network's
  accumulated fees and the cashback balances, or is taken out of the supply for reserved accounts;
  afterwards the account has no pending fees. No account balance becomes negative.
\<close>

theorem process_fees_conserves:
  assumes "fc_safe fc" "wf_db d" "balances_nonneg d" "process_fees fc account_id stats_id d = Inr d'"
    and "store_find (account_stats d) stats_id = Some s" "0 < pending_fees s \<or> 0 < pending_vested_fees s"
  shows "wf_db d' \<and> balances_nonneg d' \<and> (\<forall>a. supply_gap d' a = supply_gap d a) \<and>
    (\<exists>s'. store_find (account_stats d') stats_id = Some s' \<and> pending_fees s' = 0 \<and> pending_vested_fees s' = 0)"
  using fc_safe.process_fees_step[OF assms(1,4)] assms(2,3,5,6) by (simp add: gap_step_def)

definition pending_db :: database where
  "pending_db = (sample_db 100)\<lparr>account_stats :=
     \<lparr>items = [(0, sample_stats\<lparr>pending_fees := 101, pending_vested_fees := 9\<rparr>), (1, sample_stats)],
      next_id = 2\<rparr>\<rparr>"

definition pending_db_after :: database where
  "pending_db_after = projr (process_fees fc_ref 7 0 pending_db)"

lemmas fees_eval = process_fees_def pay_out_fees_def split_fees_def deposit_cashback_def
  deposit_lazy_vesting_def modify_dyn_def modify_stats_def cut_fee_def is_basic_account_def
  is_reserved_account_def account_constants CORE_DYN_def GRAPHENE_100_PERCENT_def vbo_deposit_def
  vbo_deposit_vested_def asset_add_def cdd_on_deposit_def cdd_on_deposit_vested_def
  update_coin_seconds_earned_def store_get_def store_find_def store_put_def store_add_def

theorem process_fees_conserves_witness:
  "supply_gap pending_db_after 0 = supply_gap pending_db 0"
proof -
  have run: "process_fees fc_ref 7 0 pending_db = Inr pending_db_after"
  proof -
    have "\<not> isl (process_fees fc_ref 7 0 pending_db)"
      by (simp add: pending_db_def sample_defs fees_eval cdd_eval fc_ref_simps cong: eval_congs)
    then show ?thesis by (simp add: pending_db_after_def)
  qed
  have wf: "wf_db pending_db" "balances_nonneg pending_db"
    by (simp_all add: pending_db_def sample_defs wf_defs wf_assets_def store_wf_def store_find_def
        store_all_def CORE_ASSET_def CORE_DYN_def balances_nonneg_def store_all_def)
  have st: "store_find (account_stats pending_db) 0 = Some (sample_stats\<lparr>pending_fees := 101, pending_vested_fees := 9\<rparr>)"
    by (simp add: pending_db_def store_find_def)
  show ?thesis
    using process_fees_conserves[OF fc_ref.fc_safe_axioms wf run st] by simp
qed

text \<open>
  The split of a fee between the network, the lifetime referrer, the referrer and the registrar is
  exact: for percentages that do not exceed 100 percent in total, no share is negative, the two cuts
  fit into the fee, and the four shares add up to the fee (the assertions of \<open>pay_out_fees\<close>).
\<close>

theorem fee_split_exact:
  assumes "0 \<le> f" "f \<le> GRAPHENE_MAX_SHARE_SUPPLY" "int n + int l \<le> GRAPHENE_100_PERCENT"
    and "int r \<le> GRAPHENE_100_PERCENT"
  shows "0 \<le> cut_fee f n \<and> 0 \<le> cut_fee f l \<and> cut_fee f n + cut_fee f l \<le> f \<and>
    0 \<le> cut_fee (f - cut_fee f n - cut_fee f l) r \<and>
    cut_fee (f - cut_fee f n - cut_fee f l) r \<le> f - cut_fee f n - cut_fee f l"
proof -
  have n: "int n \<le> GRAPHENE_100_PERCENT" and l: "int l \<le> GRAPHENE_100_PERCENT" using assms(3) by simp_all
  note en = cut_fee_exact[OF assms(1,2) n] and el = cut_fee_exact[OF assms(1,2) l]
  have "(cut_fee f n + cut_fee f l) * GRAPHENE_100_PERCENT \<le> f * (int n + int l)"
    using en(3) el(3) by (simp add: distrib_left distrib_right)
  also have "\<dots> \<le> f * GRAPHENE_100_PERCENT" using assms by (intro mult_left_mono) auto
  finally have sum: "cut_fee f n + cut_fee f l \<le> f" by (simp add: GRAPHENE_100_PERCENT_def)
  let ?ref = "f - cut_fee f n - cut_fee f l"
  have ref: "0 \<le> ?ref" "?ref \<le> GRAPHENE_MAX_SHARE_SUPPLY" using sum en(2) el(2) assms(2) by linarith+
  note er = cut_fee_exact[OF ref assms(4)]
  have "?ref * int r \<le> ?ref * GRAPHENE_100_PERCENT" using ref assms(4) by (intro mult_left_mono) auto
  with er(3) have "cut_fee ?ref r * GRAPHENE_100_PERCENT \<le> ?ref * GRAPHENE_100_PERCENT" by linarith
  then have "cut_fee ?ref r \<le> ?ref" by (simp add: GRAPHENE_100_PERCENT_def)
  with en(2) el(2) sum er(2) show ?thesis by simp
qed

theorem fee_split_exact_witness:
  "0 \<le> cut_fee 101 2000 \<and> 0 \<le> cut_fee 101 3000 \<and> cut_fee 101 2000 + cut_fee 101 3000 \<le> 101 \<and>
    0 \<le> cut_fee (101 - cut_fee 101 2000 - cut_fee 101 3000) 500 \<and>
    cut_fee (101 - cut_fee 101 2000 - cut_fee 101 3000) 500 \<le> 101 - cut_fee 101 2000 - cut_fee 101 3000"
  by (rule fee_split_exact) (simp_all add: GRAPHENE_MAX_SHARE_SUPPLY_def GRAPHENE_100_PERCENT_def)

end
