(* ===== verification/Market_Fees.thy ===== *)
theory Market_Fees
  imports Fees
begin

text \<open>
  Market fees: \<open>calculate_percent\<close>, \<open>calculate_market_fee\<close>, \<open>pay_market_fees\<close> and
  \<open>pay_force_settle_fees\<close> of \<open>libraries/chain/db_market.cpp\<close>, and \<open>asset_object::accumulate_fee\<close>.
  A trade pays a fee to the issuer of the received asset; part of it is shared with the network
  (the committee account) and with the registrar and referrer of the seller.
\<close>

definition calculate_percent :: "share_type \<Rightarrow> nat \<Rightarrow> share_type result" where
  "calculate_percent value percent =
     (let a = u128_mul (u128 value) (int percent) div GRAPHENE_100_PERCENT
      in FC_ASSERT (a \<le> GRAPHENE_MAX_SHARE_SUPPLY) (Inr (to_int64 a)))"

definition calculate_market_fee ::
    "asset_id_type \<Rightarrow> asset_object \<Rightarrow> asset \<Rightarrow> bool \<Rightarrow> asset result" where
  "calculate_market_fee trade_asset_id trade_asset trade_amount is_maker =
     (if \<not> charges_market_fees trade_asset then Inr (ASSET 0 trade_asset_id)
      else if is_maker \<and> market_fee_percent (options trade_asset) = 0 then Inr (ASSET 0 trade_asset_id)
      else if \<not> is_maker \<and> ext_taker_fee_percent (options trade_asset) = Some 0
      then Inr (ASSET 0 trade_asset_id)
      else
        let fee_percent =
          (if is_maker then market_fee_percent (options trade_asset)
           else case ext_taker_fee_percent (options trade_asset) of
             Some p \<Rightarrow> p | None \<Rightarrow> market_fee_percent (options trade_asset))
        in
        bnd (calculate_percent (amount trade_amount) fee_percent) (\<lambda>value.
        Inr (ASSET (if max_market_fee (options trade_asset) < value
                    then max_market_fee (options trade_asset) else value) trade_asset_id)))"

definition get_market_fee_network_percent :: "chain_parameters \<Rightarrow> nat" where
  "get_market_fee_network_percent p =
     (case market_fee_network_percent p of None \<Rightarrow> 0 | Some x \<Rightarrow> x)"

text \<open>The share of the network: what is left for the issuer, and the new state.\<close>

definition share_with_network ::
    "fc_lib \<Rightarrow> asset_id_type \<Rightarrow> asset \<Rightarrow> database \<Rightarrow> (asset \<times> database) result" where
  "share_with_network fc recv_asset_id issuer_fees d =
     (if 0 < amount issuer_fees then
        let network_percent = get_market_fee_network_percent (parameters d) in
        if 0 < network_percent then
          bnd (calculate_percent (amount issuer_fees) network_percent) (\<lambda>network_fees_amt.
          FC_ASSERT (network_fees_amt \<le> amount issuer_fees)
         (if 0 < network_fees_amt then
            bnd (deposit_market_fee_vesting_balance fc GRAPHENE_COMMITTEE_ACCOUNT
                   (ASSET network_fees_amt recv_asset_id) d) (\<lambda>d.
            bnd (asset_sub fc issuer_fees (ASSET network_fees_amt recv_asset_id)) (\<lambda>rest.
            Inr (rest, d)))
          else Inr (issuer_fees, d)))
        else Inr (issuer_fees, d)
      else Inr (issuer_fees, d))"

definition is_rewards_allowed :: "asset_object \<Rightarrow> account_object option \<Rightarrow> bool" where
  "is_rewards_allowed recv_asset seller =
     (case seller of
        None \<Rightarrow> False
      | Some s \<Rightarrow>
          (case whitelist_market_fee_sharing (options recv_asset) of
             None \<Rightarrow> True
           | Some wl \<Rightarrow> wl = [] \<or> registrar s \<in> set wl))"

text \<open>The part of the reward that goes to the referrer, deposited; what is left is the registrar's.\<close>

definition pay_referrer_reward ::
    "fc_lib \<Rightarrow> account_object \<Rightarrow> account_id_type \<Rightarrow> account_id_type \<Rightarrow> asset_id_type \<Rightarrow> asset_object \<Rightarrow>
     asset \<Rightarrow> database \<Rightarrow> (asset \<times> database) result" where
  "pay_referrer_reward fc seller registrar_id referrer_id recv_asset_id recv_asset reward d =
     (if referrer_id \<noteq> registrar_id then
        bnd (calculate_percent (amount reward) (referrer_rewards_percentage seller)) (\<lambda>referrer_rewards_value.
        if 0 < referrer_rewards_value then
          bnd (store_get (accounts d) referrer_id) (\<lambda>ref.
          if is_authorized_asset d referrer_id ref recv_asset_id recv_asset then
            FC_ASSERT (referrer_rewards_value \<le> amount reward)
           (bnd (asset_sub fc reward (ASSET referrer_rewards_value recv_asset_id)) (\<lambda>registrar_reward.
            bnd (deposit_market_fee_vesting_balance fc referrer_id
                   (ASSET referrer_rewards_value recv_asset_id) d) (\<lambda>d.
            Inr (registrar_reward, d))))
          else Inr (reward, d))
        else Inr (reward, d))
      else Inr (reward, d))"

text \<open>The two rewards, with the redirection of the temporary account.\<close>

definition redirect_temp_account :: "time_point_sec \<Rightarrow> account_id_type \<Rightarrow> account_id_type" where
  "redirect_temp_account now acct =
     (if HARDFORK_CORE_1800_TIME \<le> now \<and> acct = GRAPHENE_TEMP_ACCOUNT
      then GRAPHENE_COMMITTEE_ACCOUNT else acct)"

definition distribute_reward ::
    "fc_lib \<Rightarrow> account_object \<Rightarrow> asset_id_type \<Rightarrow> asset_object \<Rightarrow> asset \<Rightarrow> database \<Rightarrow> database result" where
  "distribute_reward fc seller recv_asset_id recv_asset reward d =
     (let registrar_id = redirect_temp_account (head_block_time d) (registrar seller);
          referrer_id = redirect_temp_account (head_block_time d) (referrer seller)
      in
      bnd (pay_referrer_reward fc seller registrar_id referrer_id recv_asset_id recv_asset reward d)
      (\<lambda>(registrar_reward, d).
      if 0 < amount registrar_reward
      then deposit_market_fee_vesting_balance fc registrar_id registrar_reward d
      else Inr d))"

text \<open>The rewards of the seller's registrar and referrer: the amount rewarded, and the new state.\<close>

definition pay_rewards ::
    "fc_lib \<Rightarrow> account_object option \<Rightarrow> asset_id_type \<Rightarrow> asset_object \<Rightarrow> asset \<Rightarrow> database \<Rightarrow>
     (asset \<times> database) result" where
  "pay_rewards fc seller_opt recv_asset_id recv_asset issuer_fees d =
     (case seller_opt of
        None \<Rightarrow> Inr (ASSET 0 recv_asset_id, d)
      | Some seller \<Rightarrow>
        if \<not> is_rewards_allowed recv_asset seller_opt then Inr (ASSET 0 recv_asset_id, d)
        else case reward_percent (options recv_asset) of
          None \<Rightarrow> Inr (ASSET 0 recv_asset_id, d)
        | Some rp \<Rightarrow>
          if rp = 0 then Inr (ASSET 0 recv_asset_id, d)
          else
            bnd (calculate_percent (amount issuer_fees) rp) (\<lambda>reward_value.
            if \<not> 0 < reward_value then Inr (ASSET 0 recv_asset_id, d)
            else
              bnd (store_get (accounts d) (registrar seller)) (\<lambda>reg.
              if \<not> is_authorized_asset d (registrar seller) reg recv_asset_id recv_asset
              then Inr (ASSET 0 recv_asset_id, d)
              else
                let reward = ASSET reward_value recv_asset_id in
                bnd (if head_block_time d < HARDFORK_1774_TIME
                     then bnd (asset_less reward issuer_fees) (\<lambda>b. FC_ASSERT b (Inr ()))
                     else bnd (asset_le reward issuer_fees) (\<lambda>b. FC_ASSERT b (Inr ()))) (\<lambda>_.
                bnd (distribute_reward fc seller recv_asset_id recv_asset reward d) (\<lambda>d.
                Inr (reward, d))))))"

definition pay_market_fees ::
    "fc_lib \<Rightarrow> account_object option \<Rightarrow> asset_id_type \<Rightarrow> asset_object \<Rightarrow> asset \<Rightarrow> bool \<Rightarrow> asset option \<Rightarrow>
     database \<Rightarrow> (asset \<times> database) result" where
  "pay_market_fees fc seller recv_asset_id recv_asset receives is_maker calculated_market_fees d =
     bnd (case calculated_market_fees of
            Some f \<Rightarrow> Inr f
          | None \<Rightarrow> calculate_market_fee recv_asset_id recv_asset receives is_maker) (\<lambda>market_fees.
     bnd (asset_le market_fees receives) (\<lambda>ok.
     FC_ASSERT ok
    (bnd (share_with_network fc recv_asset_id market_fees d) (\<lambda>(issuer_fees, d).
     if 0 < amount issuer_fees then
       bnd (pay_rewards fc seller recv_asset_id recv_asset issuer_fees d) (\<lambda>(reward, d).
       bnd (if amount reward < amount issuer_fees then
              modify_dyn (dynamic_asset_data_id recv_asset) (\<lambda>dd.
                bnd (safe_sub fc (amount issuer_fees) (amount reward)) (\<lambda>rest.
                bnd (safe_add fc (accumulated_fees dd) rest) (\<lambda>x.
                Inr (dd\<lparr>accumulated_fees := x\<rparr>)))) d
            else Inr d) (\<lambda>d.
       Inr (market_fees, d)))
     else Inr (market_fees, d)))))"

definition accumulate_fee ::
    "fc_lib \<Rightarrow> asset_id_type \<Rightarrow> asset_object \<Rightarrow> asset \<Rightarrow> database \<Rightarrow> database result" where
  "accumulate_fee fc aid ao fee d =
     (if amount fee = 0 then Inr d
      else
        FC_ASSERT (0 \<le> amount fee)
       (if asset_id fee = aid then
          modify_dyn (dynamic_asset_data_id ao) (\<lambda>dd.
            bnd (safe_add fc (accumulated_fees dd) (amount fee)) (\<lambda>x.
            Inr (dd\<lparr>accumulated_fees := x\<rparr>))) d
        else
          case bitasset_data_id ao of
            None \<Rightarrow> Inl Assert_exception
          | Some k \<Rightarrow>
              bnd (store_get (bitassets d) k) (\<lambda>bad.
              FC_ASSERT (asset_id fee = short_backing_asset bad)
             (modify_dyn (dynamic_asset_data_id ao) (\<lambda>dd.
                bnd (safe_add fc (accumulated_collateral_fees dd) (amount fee)) (\<lambda>x.
                Inr (dd\<lparr>accumulated_collateral_fees := x\<rparr>))) d))))"

text \<open>\<open>force_settle_fee_percent\<close> of the extensions of the collecting asset is an argument.\<close>

definition pay_force_settle_fees ::
    "fc_lib \<Rightarrow> asset_id_type \<Rightarrow> asset_object \<Rightarrow> nat option \<Rightarrow> asset \<Rightarrow> database \<Rightarrow> (asset \<times> database) result" where
  "pay_force_settle_fees fc aid collecting_asset force_settle_fee_percent collat_receives d =
     FC_ASSERT (aid \<noteq> asset_id collat_receives)
    (FC_ASSERT (is_market_issued collecting_asset)
    (case force_settle_fee_percent of
       None \<Rightarrow> Inr (ASSET 0 (asset_id collat_receives), d)
     | Some p \<Rightarrow>
         if p = 0 then Inr (ASSET 0 (asset_id collat_receives), d)
         else
           bnd (calculate_percent (amount collat_receives) p) (\<lambda>value.
           let settle_fee = ASSET value (asset_id collat_receives) in
           bnd (if 0 < value then accumulate_fee fc aid collecting_asset settle_fee d else Inr d) (\<lambda>d.
           Inr (settle_fee, d)))))"

section \<open>Lemmas\<close>

lemma calculate_percent_exact:
  assumes "0 \<le> v" "in_int64 v" "percent < 2 ^ 16"
  shows "calculate_percent v percent = FC_ASSERT (v * int percent div GRAPHENE_100_PERCENT \<le> GRAPHENE_MAX_SHARE_SUPPLY)
    (Inr (v * int percent div GRAPHENE_100_PERCENT))"
proof -
  have "in_int64 (int percent)" using assms(3) by (simp add: in_int64_def)
  then have m: "v * int percent < 2 ^ 126" using assms by (intro int64_prod_bound) auto
  have u: "u128_mul (u128 v) (int percent) = v * int percent"
    using m assms by (simp add: u128_mul_id u128_id in_int64_def)
  have "0 \<le> v * int percent div GRAPHENE_100_PERCENT"
    using assms by (simp add: pos_imp_zdiv_nonneg_iff GRAPHENE_100_PERCENT_def)
  then have "to_int64 (v * int percent div GRAPHENE_100_PERCENT) = v * int percent div GRAPHENE_100_PERCENT"
    if "v * int percent div GRAPHENE_100_PERCENT \<le> GRAPHENE_MAX_SHARE_SUPPLY"
    using that by (intro to_int64_id share_in_int64)
  then show ?thesis by (simp add: calculate_percent_def u ensure_def)
qed

text \<open>The market fee is a fee of the traded asset between zero and the traded amount, for percentages
  up to 100 percent.\<close>

lemma calculate_market_fee_asset:
  "calculate_market_fee i ao amt maker = Inr f \<Longrightarrow> asset_id f = i"
  by (auto simp: calculate_market_fee_def split: if_splits)

text \<open>The steps of paying a market fee.\<close>

lemma pay_market_fees_parts:
  assumes "pay_market_fees fc seller i ao receives maker (Some fee) d = Inr (f, d')"
  shows "\<exists>rest d1. share_with_network fc i fee d = Inr (rest, d1) \<and> f = fee \<and> amount fee \<le> amount receives \<and>
    (0 < amount rest \<longrightarrow> (\<exists>reward d2. pay_rewards fc seller i ao rest d1 = Inr (reward, d2) \<and>
       (if amount reward < amount rest then
              modify_dyn (dynamic_asset_data_id ao) (\<lambda>dd.
                bnd (safe_sub fc (amount rest) (amount reward)) (\<lambda>x.
                bnd (safe_add fc (accumulated_fees dd) x) (\<lambda>x.
                Inr (dd\<lparr>accumulated_fees := x\<rparr>)))) d2
            else Inr d2) = Inr d')) \<and>
    (\<not> 0 < amount rest \<longrightarrow> d' = d1)"
  using assms by (auto simp: pay_market_fees_def split: if_splits)

text \<open>Sharing fees moves value into vesting balances and touches nothing else.\<close>

definition vesting_frame :: "database \<Rightarrow> database \<Rightarrow> bool" where
  "vesting_frame d d' \<longleftrightarrow> d' = d\<lparr>vesting_balances := vesting_balances d'\<rparr>"

context fc_safe
begin

lemma vesting_frame_deposit:
  "deposit_market_fee_vesting_balance fc account delta d = Inr d' \<Longrightarrow> vesting_frame d d'"
  by (erule deposit_mfs_frame) (simp add: vesting_frame_def)

lemma vesting_frame_refl [simp]: "vesting_frame d d"
  by (simp add: vesting_frame_def)

lemma vesting_frame_trans: "vesting_frame d d1 \<Longrightarrow> vesting_frame d1 d2 \<Longrightarrow> vesting_frame d d2"
proof -
  assume a: "vesting_frame d d1" and b: "vesting_frame d1 d2"
  have "d2 = d\<lparr>vesting_balances := vesting_balances d1\<rparr>\<lparr>vesting_balances := vesting_balances d2\<rparr>"
    using b unfolding vesting_frame_def a[unfolded vesting_frame_def, symmetric] .
  then show "vesting_frame d d2" by (simp add: vesting_frame_def)
qed

lemma vesting_frame_assets: "vesting_frame d d' \<Longrightarrow> assets d' = assets d"
  unfolding vesting_frame_def by (drule arg_cong[of _ _ assets]) simp

lemma share_with_network_step:
  assumes "share_with_network fc i fees d = Inr (rest, d')" "asset_id fees = i"
  shows "gap_step d d' (amt_at i (amount fees - amount rest))" "vesting_frame d d'" "asset_id rest = i"
  using assms
  by (auto simp: share_with_network_def split: if_splits dest: gap_step_deposit_mfs vesting_frame_deposit)

lemma pay_referrer_reward_step:
  assumes "pay_referrer_reward fc seller g f i ao reward d = Inr (rest, d')" "asset_id reward = i" "0 \<le> amount reward"
  shows "gap_step d d' (amt_at i (amount reward - amount rest))" "vesting_frame d d'" "asset_id rest = i"
    "0 \<le> amount rest"
  using assms
  by (auto simp: pay_referrer_reward_def split: if_splits dest: gap_step_deposit_mfs vesting_frame_deposit)

lemma distribute_reward_step:
  assumes "distribute_reward fc seller i ao reward d = Inr d'" "asset_id reward = i" "0 \<le> amount reward"
  shows "gap_step d d' (amt_at i (amount reward))" "vesting_frame d d'"
proof -
  from assms(1) obtain rest d1 g f where
    r1: "pay_referrer_reward fc seller g f i ao reward d = Inr (rest, d1)" and
    r2: "(if 0 < amount rest then deposit_market_fee_vesting_balance fc g rest d1 else Inr d1) = Inr d'"
    by (auto simp: distribute_reward_def)
  note r = pay_referrer_reward_step[OF r1 assms(2,3)]
  have "gap_step d d' (amt_at i (amount reward)) \<and> vesting_frame d d'"
  proof (cases "0 < amount rest")
    case True
    with r2 have dep: "deposit_market_fee_vesting_balance fc g rest d1 = Inr d'" by simp
    have "gap_step d d' (amt_at i (amount reward))"
      by (rule gap_step_then[OF r(1) gap_step_deposit_mfs[OF dep]]) (simp add: r(3) amt_at_def)
    then show ?thesis using vesting_frame_trans[OF r(2) vesting_frame_deposit[OF dep]] by simp
  next
    case False
    with r2 r show ?thesis by simp
  qed
  then show "gap_step d d' (amt_at i (amount reward))" "vesting_frame d d'" by auto
qed

lemma pay_rewards_step:
  assumes "pay_rewards fc seller i ao fees d = Inr (reward, d')" "asset_id fees = i" "0 \<le> amount fees"
  shows "gap_step d d' (amt_at i (amount reward))" "vesting_frame d d'" "amount reward \<le> amount fees"
  using assms
  by (auto simp: pay_rewards_def split: if_splits option.splits dest: distribute_reward_step)

text \<open>The whole market fee stays in the database: what is collected is what the fee says.\<close>

lemma pay_market_fees_step:
  assumes "pay_market_fees fc seller i ao receives maker (Some fee) d = Inr (f, d')"
    and "store_find (assets d) i = Some ao" "asset_id fee = i" "0 \<le> amount fee"
  shows "gap_step d d' (amt_at i (amount fee))" "f = fee" "amount fee \<le> amount receives"
proof -
  from pay_market_fees_parts[OF assms(1)] obtain rest d1 where
    net: "share_with_network fc i fee d = Inr (rest, d1)" and fee: "f = fee" "amount fee \<le> amount receives"
    and pos: "0 < amount rest \<longrightarrow> (\<exists>reward d2. pay_rewards fc seller i ao rest d1 = Inr (reward, d2) \<and>
       (if amount reward < amount rest then
              modify_dyn (dynamic_asset_data_id ao) (\<lambda>dd.
                bnd (safe_sub fc (amount rest) (amount reward)) (\<lambda>x.
                bnd (safe_add fc (accumulated_fees dd) x) (\<lambda>x.
                Inr (dd\<lparr>accumulated_fees := x\<rparr>)))) d2
            else Inr d2) = Inr d')"
    and neg: "\<not> 0 < amount rest \<longrightarrow> d' = d1"
    by blast
  show "f = fee" "amount fee \<le> amount receives" by (rule fee)+
  note n = share_with_network_step[OF net assms(3)]
  show "gap_step d d' (amt_at i (amount fee))"
  proof (cases "0 < amount rest")
    case True
    then obtain reward d2 where rw: "pay_rewards fc seller i ao rest d1 = Inr (reward, d2)"
      and fin: "(if amount reward < amount rest then
              modify_dyn (dynamic_asset_data_id ao) (\<lambda>dd.
                bnd (safe_sub fc (amount rest) (amount reward)) (\<lambda>x.
                bnd (safe_add fc (accumulated_fees dd) x) (\<lambda>x.
                Inr (dd\<lparr>accumulated_fees := x\<rparr>)))) d2
            else Inr d2) = Inr d'" using pos by blast
    note r = pay_rewards_step[OF rw n(3)]
    have ao: "store_find (assets d2) i = Some ao"
      using assms(2) vesting_frame_assets[OF n(2)] vesting_frame_assets[OF r(2)] True by simp
    have last: "gap_step d2 d' (amt_at i (amount rest - amount reward))"
    proof (cases "amount reward < amount rest")
      case True
      with fin have "modify_dyn (dynamic_asset_data_id ao) (\<lambda>dd.
                bnd (safe_sub fc (amount rest) (amount reward)) (\<lambda>x.
                bnd (safe_add fc (accumulated_fees dd) x) (\<lambda>x.
                Inr (dd\<lparr>accumulated_fees := x\<rparr>)))) d2 = Inr d'" by simp
      then show ?thesis
        by (rule modify_asset_dyn_step[OF _ ao]) auto
    next
      case False
      then show ?thesis using fin r(3) True by simp
    qed
    show ?thesis
      by (rule gap_step_then[OF gap_step_trans[OF n(1) r(1)] last]) (use True in \<open>auto simp: amt_at_def\<close>)
  next
    case False
    have "amount rest = 0 \<or> rest = fee"
      using net False by (auto simp: share_with_network_def split: if_splits)
    then show ?thesis using n(1) neg False assms(4) by auto
  qed
qed

text \<open>Market fees touch vesting balances and the dynamic data of assets only.\<close>

lemma pay_market_fees_frame:
  assumes "pay_market_fees fc seller i ao receives maker (Some fee) d = Inr (f, d')" "asset_id fee = i"
  shows "\<exists>vs dyns. d' = d\<lparr>vesting_balances := vs, asset_dyn_data := dyns\<rparr>"
proof -
  have vf: "\<exists>vs. d2 = d1\<lparr>vesting_balances := vs\<rparr>" if "vesting_frame d1 d2" for d1 d2
    using that unfolding vesting_frame_def by blast
  from pay_market_fees_parts[OF assms(1)] obtain rest d1 where
    net: "share_with_network fc i fee d = Inr (rest, d1)"
    and pos: "0 < amount rest \<longrightarrow> (\<exists>reward d2. pay_rewards fc seller i ao rest d1 = Inr (reward, d2) \<and>
       (if amount reward < amount rest then
              modify_dyn (dynamic_asset_data_id ao) (\<lambda>dd.
                bnd (safe_sub fc (amount rest) (amount reward)) (\<lambda>x.
                bnd (safe_add fc (accumulated_fees dd) x) (\<lambda>x.
                Inr (dd\<lparr>accumulated_fees := x\<rparr>)))) d2
            else Inr d2) = Inr d')"
    and neg: "\<not> 0 < amount rest \<longrightarrow> d' = d1"
    by blast
  note n = share_with_network_step[OF net assms(2)]
  from vf[OF n(2)] obtain vs where d1: "d1 = d\<lparr>vesting_balances := vs\<rparr>" by blast
  show ?thesis
  proof (cases "0 < amount rest")
    case True
    from pos True obtain reward d2 where rw: "pay_rewards fc seller i ao rest d1 = Inr (reward, d2)"
      and "\<exists>g. (if amount reward < amount rest then modify_dyn (dynamic_asset_data_id ao) g d2 else Inr d2) = Inr d'"
      by blast
    then have fin: "d' = d2 \<or> (\<exists>g. modify_dyn (dynamic_asset_data_id ao) g d2 = Inr d')"
      by (cases "amount reward < amount rest") auto
    from vf[OF pay_rewards_step(2)[OF rw n(3)]] True obtain vs2 where "d2 = d1\<lparr>vesting_balances := vs2\<rparr>" by auto
    with d1 have d2: "d2 = d\<lparr>vesting_balances := vs2\<rparr>" by simp
    from fin show ?thesis
    proof
      assume "d' = d2"
      with d2 show ?thesis by (intro exI[of _ vs2] exI[of _ "asset_dyn_data d"]) simp
    qed (use d2 in \<open>auto elim!: modify_dynE\<close>)
  next
    case False
    with neg d1 show ?thesis by (intro exI[of _ vs] exI[of _ "asset_dyn_data d"]) simp
  qed
qed

lemma pay_market_fees_fields:
  assumes "pay_market_fees fc seller i ao receives maker (Some fee) d = Inr (f, d')" "asset_id fee = i"
  shows "assets d' = assets d" "liquidity_pools d' = liquidity_pools d" "accounts d' = accounts d"
    "account_balances d' = account_balances d"
  using pay_market_fees_frame[OF assms] by auto

end

section \<open>Properties\<close>

definition market_fee_percent_for :: "asset_object \<Rightarrow> bool \<Rightarrow> nat" where
  "market_fee_percent_for ao is_maker =
     (if \<not> charges_market_fees ao then 0
      else if is_maker then market_fee_percent (options ao)
      else case ext_taker_fee_percent (options ao) of None \<Rightarrow> market_fee_percent (options ao) | Some p \<Rightarrow> p)"

lemma percent_of_share:
  assumes "0 \<le> v" "v \<le> GRAPHENE_MAX_SHARE_SUPPLY" "int p \<le> GRAPHENE_100_PERCENT"
  shows "calculate_percent v p = Inr (v * int p div GRAPHENE_100_PERCENT)"
    "0 \<le> v * int p div GRAPHENE_100_PERCENT" "v * int p div GRAPHENE_100_PERCENT \<le> v"
proof -
  have "v * int p \<le> v * GRAPHENE_100_PERCENT" using assms by (intro mult_left_mono) auto
  then show le: "v * int p div GRAPHENE_100_PERCENT \<le> v"
    using zdiv_mono1[of "v * int p" "v * GRAPHENE_100_PERCENT" GRAPHENE_100_PERCENT]
    by (simp add: GRAPHENE_100_PERCENT_def)
  show "0 \<le> v * int p div GRAPHENE_100_PERCENT"
    using assms by (simp add: pos_imp_zdiv_nonneg_iff GRAPHENE_100_PERCENT_def)
  show "calculate_percent v p = Inr (v * int p div GRAPHENE_100_PERCENT)"
    using calculate_percent_exact[of v p] share_in_int64[OF assms(1,2)] assms le
    by (simp add: GRAPHENE_100_PERCENT_def)
qed

text \<open>
  \<open>calculate_market_fee\<close> charges the percentage that applies to the side of the trade (the taker
  percentage when there is one, the maker percentage otherwise, nothing when the asset charges no
  market fees), rounded down and capped at the maximum market fee, so the fee is never
  negative and never exceeds the traded amount, and the calculation never throws.
\<close>

theorem market_fee_exact:
  assumes "0 \<le> amount t" "amount t \<le> GRAPHENE_MAX_SHARE_SUPPLY" "0 \<le> max_market_fee (options ao)"
    and "int (market_fee_percent_for ao is_maker) \<le> GRAPHENE_100_PERCENT"
  shows "calculate_market_fee i ao t is_maker = Inr (ASSET
      (min (max_market_fee (options ao))
        (amount t * int (market_fee_percent_for ao is_maker) div GRAPHENE_100_PERCENT)) i) \<and>
    0 \<le> amount t * int (market_fee_percent_for ao is_maker) div GRAPHENE_100_PERCENT \<and>
    amount t * int (market_fee_percent_for ao is_maker) div GRAPHENE_100_PERCENT \<le> amount t"
proof -
  note p = percent_of_share[OF assms(1,2,4)]
  show ?thesis
  proof (cases "market_fee_percent_for ao is_maker = 0")
    case True
    then show ?thesis using assms percent_of_share[OF assms(1,2), of 0]
      by (auto simp: calculate_market_fee_def market_fee_percent_for_def GRAPHENE_100_PERCENT_def
          split: if_splits option.splits intro!: exI[of _ 0])
  next
    case False
    then have "calculate_market_fee i ao t is_maker =
        bnd (calculate_percent (amount t) (market_fee_percent_for ao is_maker)) (\<lambda>value.
        Inr (ASSET (if max_market_fee (options ao) < value then max_market_fee (options ao) else value) i))"
      by (auto simp: calculate_market_fee_def market_fee_percent_for_def split: if_splits option.splits)
    with p show ?thesis by (auto simp: min_def)
  qed
qed

theorem market_fee_exact_witness:
  "calculate_market_fee 1 ((sample_asset 1)\<lparr>options := sample_options\<lparr>flags := 1, market_fee_percent := 30,
      max_market_fee := 1000\<rparr>\<rparr>) (ASSET 100000 1) True = Inr (ASSET 300 1)"
  using market_fee_exact[of "ASSET 100000 1" "(sample_asset 1)\<lparr>options := sample_options\<lparr>flags := 1,
      market_fee_percent := 30, max_market_fee := 1000\<rparr>\<rparr>" True 1]
  by (simp add: market_fee_percent_for_def charges_market_fees_def sample_defs flag_defs
      GRAPHENE_MAX_SHARE_SUPPLY_def GRAPHENE_100_PERCENT_def)

section \<open>Who receives the market fee\<close>

text \<open>
  The shares of a market fee, in plain arithmetic. The network takes its percentage of the fee. Of the rest,
  the reward percentage of the asset goes to the registrar and the referrer of the seller, when there is a
  seller, the registrar is admitted to the sharing and is authorized for the asset. The referrer
  takes its percentage of the reward, when it is another account than the registrar and is authorized for the asset;
  the registrar takes the rest of the reward, the issuer the rest of the fee. The temporary account gives its
  rewards to the committee account.
\<close>

definition percent_of :: "nat \<Rightarrow> int \<Rightarrow> int" where
  "percent_of p x = x * int p div GRAPHENE_100_PERCENT"

definition authorized_for :: "database \<Rightarrow> asset_id_type \<Rightarrow> asset_object \<Rightarrow> account_id_type \<Rightarrow> bool" where
  "authorized_for d i ao x \<longleftrightarrow> (\<exists>acct. store_find (accounts d) x = Some acct \<and> is_authorized_asset d x acct i ao)"

definition reward_account :: "database \<Rightarrow> account_id_type \<Rightarrow> account_id_type" where
  "reward_account d x = (if x = GRAPHENE_TEMP_ACCOUNT \<and> HARDFORK_CORE_1800_TIME \<le> head_block_time d then GRAPHENE_COMMITTEE_ACCOUNT else x)"

definition network_share :: "database \<Rightarrow> int \<Rightarrow> int" where
  "network_share d fee = (case market_fee_network_percent (parameters d) of None \<Rightarrow> 0 | Some p \<Rightarrow> percent_of p fee)"

definition reward_share :: "database \<Rightarrow> account_object option \<Rightarrow> asset_id_type \<Rightarrow> asset_object \<Rightarrow> int \<Rightarrow> int" where
  "reward_share d seller i ao rest =
     (case (seller, reward_percent (options ao)) of
        (Some s, Some p) \<Rightarrow>
          if (\<forall>wl. whitelist_market_fee_sharing (options ao) = Some wl \<longrightarrow> wl = [] \<or> registrar s \<in> set wl) \<and>
             authorized_for d i ao (registrar s)
          then percent_of p rest else 0
      | _ \<Rightarrow> 0)"

definition referrer_share :: "database \<Rightarrow> account_object \<Rightarrow> asset_id_type \<Rightarrow> asset_object \<Rightarrow> int \<Rightarrow> int" where
  "referrer_share d s i ao reward =
     (if reward_account d (referrer s) \<noteq> reward_account d (registrar s) \<and> authorized_for d i ao (reward_account d (referrer s))
      then percent_of (referrer_rewards_percentage s) reward else 0)"

text \<open>What an account receives of a fee, and what is left for the issuer.\<close>

definition market_fee_share ::
    "database \<Rightarrow> account_object option \<Rightarrow> asset_id_type \<Rightarrow> asset_object \<Rightarrow> int \<Rightarrow> account_id_type \<Rightarrow> int" where
  "market_fee_share d seller i ao fee x =
     (let reward = reward_share d seller i ao (fee - network_share d fee) in
      (if x = GRAPHENE_COMMITTEE_ACCOUNT then network_share d fee else 0) +
      (case seller of None \<Rightarrow> 0
       | Some s \<Rightarrow>
           (if x = reward_account d (referrer s) then referrer_share d s i ao reward else 0) +
           (if x = reward_account d (registrar s) then reward - referrer_share d s i ao reward else 0)))"

definition issuer_share :: "database \<Rightarrow> account_object option \<Rightarrow> asset_id_type \<Rightarrow> asset_object \<Rightarrow> int \<Rightarrow> int" where
  "issuer_share d seller i ao fee =
     fee - network_share d fee - reward_share d seller i ao (fee - network_share d fee)"

text \<open>The percentages are \<open>uint16_t\<close>.\<close>

definition percents_ok :: "database \<Rightarrow> account_object option \<Rightarrow> asset_object \<Rightarrow> bool" where
  "percents_ok d seller ao \<longleftrightarrow> (\<forall>p. market_fee_network_percent (parameters d) = Some p \<longrightarrow> p < 2 ^ 16) \<and>
     (\<forall>p. reward_percent (options ao) = Some p \<longrightarrow> p < 2 ^ 16) \<and>
     (\<forall>s. seller = Some s \<longrightarrow> referrer_rewards_percentage s < 2 ^ 16)"

lemma calculate_percent_of:
  "calculate_percent v p = Inr x \<Longrightarrow> 0 \<le> v \<Longrightarrow> in_int64 v \<Longrightarrow> p < 2 ^ 16 \<Longrightarrow> x = percent_of p v \<and> 0 \<le> x"
  by (auto simp: calculate_percent_exact percent_of_def pos_imp_zdiv_nonneg_iff GRAPHENE_100_PERCENT_def)

lemma percent_of_zero [simp]: "percent_of p 0 = 0" "percent_of 0 x = 0"
  by (simp_all add: percent_of_def)

text \<open>Deposits of \<open>f x\<close> for every account \<open>x\<close> into the balances of shared fees in asset \<open>i\<close>, and nothing else.\<close>

definition shared :: "asset_id_type \<Rightarrow> (account_id_type \<Rightarrow> int) \<Rightarrow> database \<Rightarrow> database \<Rightarrow> bool" where
  "shared i f d d' \<longleftrightarrow> vesting_frame d d' \<and>
     (\<forall>x a. amount (get_market_fee_vesting_balance d' x a) =
       amount (get_market_fee_vesting_balance d x a) + (if a = i then f x else 0)) \<and>
     (\<forall>k v. store_find (vesting_balances d) k = Some v \<and>
        \<not> (vbo_balance_type v = Vbt_market_fee_sharing \<and> asset_id (vbo_balance v) = i) \<longrightarrow>
        store_find (vesting_balances d') k = Some v)"

lemma shared_frame: "shared i f d d' \<Longrightarrow> vesting_frame d d'"
  by (simp add: shared_def)

lemma store_find_put_by_other:
  assumes "store_find st k = Some v" "\<not> P v"
  shows "store_find (store_put_by P st w) k = Some v"
proof -
  have "map_option snd (find (\<lambda>p. fst p = k) (upd_first (\<lambda>p. P (snd p)) (\<lambda>p. (fst p, w)) xs)) = Some v"
    if "map_option snd (find (\<lambda>p. fst p = k) xs) = Some v" for xs
    using that assms(2) by (induction xs) (auto split: if_splits)
  then show ?thesis using assms(1) by (simp add: store_find_def store_put_by_def)
qed

lemma vesting_frame_fields:
  assumes "vesting_frame d d'"
  shows "parameters d' = parameters d" "accounts d' = accounts d" "head_block_time d' = head_block_time d"
    "asset_dyn_data d' = asset_dyn_data d" "is_authorized_asset d' = is_authorized_asset d"
    "authorized_for d' = authorized_for d" "reward_account d' = reward_account d" "network_share d' = network_share d"
    "reward_share d' = reward_share d" "referrer_share d' = referrer_share d"
proof -
  obtain vs where d': "d' = d\<lparr>vesting_balances := vs\<rparr>" using assms by (auto simp: vesting_frame_def)
  show basic: "parameters d' = parameters d" "accounts d' = accounts d" "head_block_time d' = head_block_time d"
    "asset_dyn_data d' = asset_dyn_data d" by (simp_all add: d')
  show is_auth: "is_authorized_asset d' = is_authorized_asset d"
    by (intro ext) (simp only: is_authorized_asset_def is_authorized_asset_slow_def basic)
  show auth: "authorized_for d' = authorized_for d" "reward_account d' = reward_account d"
    by (simp_all add: fun_eq_iff authorized_for_def reward_account_def basic is_auth)
  show "network_share d' = network_share d" "reward_share d' = reward_share d" "referrer_share d' = referrer_share d"
    by (intro ext, simp only: network_share_def reward_share_def referrer_share_def basic auth)+
qed

context fc_safe
begin

lemma shared_none: "(\<And>x. f x = 0) \<Longrightarrow> shared i f d d"
  by (simp add: shared_def)

lemma shared_trans:
  assumes "shared i f d d1" "shared i g d1 d2" "\<And>x. h x = f x + g x"
  shows "shared i h d d2"
  using assms vesting_frame_trans[of d d1 d2] unfolding shared_def by auto

lemma shared_deposit:
  assumes "deposit_market_fee_vesting_balance fc account delta d = Inr d'"
  shows "shared (asset_id delta) (\<lambda>x. if x = account then amount delta else 0) d d'"
proof (cases "amount delta = 0")
  case True
  then show ?thesis using assms by (auto simp: deposit_market_fee_vesting_balance_def intro: shared_none)
next
  case nz: False
  let ?P = "vbo_mfs_key account (asset_id delta)" and ?vs = "vesting_balances d"
  note frame = vesting_frame_deposit[OF assms]
  show ?thesis
  proof (cases "store_search ?P ?vs")
    case None
    let ?v = "\<lparr>vbo_owner = account, vbo_balance = delta, vbo_policy = Instant_vesting,
      vbo_balance_type = Vbt_market_fee_sharing\<rparr>"
    from None assms nz have d': "vesting_balances d' = store_add ?vs ?v"
      by (auto simp: deposit_market_fee_vesting_balance_def)
    have "store_search (vbo_mfs_key x a) (vesting_balances d') =
        (case store_search (vbo_mfs_key x a) ?vs of None \<Rightarrow> if x = account \<and> a = asset_id delta then Some ?v else None | Some w \<Rightarrow> Some w)" for x a
      unfolding d' store_search_add by (auto simp: vbo_mfs_key_def split: option.split)
    moreover have "store_find (vesting_balances d') k = Some v" if "store_find ?vs k = Some v" for k v
      using that unfolding d' by (auto simp: store_find_def store_add_def find_append)
    ultimately show ?thesis using None frame
      by (auto simp: shared_def get_market_fee_vesting_balance_def split: option.split)
  next
    case (Some v)
    with assms nz obtain v' where v': "vbo_deposit_vested fc (head_block_time d) delta v = Inr v'"
      and d': "vesting_balances d' = store_put_by ?P ?vs v'"
      by (auto simp: deposit_market_fee_vesting_balance_def)
    note bal = vbo_deposit_balance(2)[OF v'] and key = store_searchD[OF Some]
    have P': "?P v'" using v' key bal by (auto simp: vbo_mfs_key_def vbo_deposit_vested_def)
    have "amount (get_market_fee_vesting_balance d' x a) = amount (get_market_fee_vesting_balance d x a)
        + (if a = asset_id delta then if x = account then amount delta else 0 else 0)" for x a
    proof (cases "x = account \<and> a = asset_id delta")
      case True
      then show ?thesis using store_search_put_by_same[OF Some P'] Some bal d'
        by (simp add: get_market_fee_vesting_balance_def)
    next
      case False
      have "store_search (vbo_mfs_key x a) (store_put_by ?P ?vs v') = store_search (vbo_mfs_key x a) ?vs"
        using False P' by (intro store_search_put_by_other) (auto simp: vbo_mfs_key_def)
      then show ?thesis using False d' by (auto simp: get_market_fee_vesting_balance_def)
    qed
    moreover have "store_find (vesting_balances d') k = Some w"
      if "store_find ?vs k = Some w" "\<not> (vbo_balance_type w = Vbt_market_fee_sharing \<and> asset_id (vbo_balance w) = asset_id delta)" for k w
      unfolding d' by (rule store_find_put_by_other[OF that(1)]) (use that(2) in \<open>auto simp: vbo_mfs_key_def\<close>)
    ultimately show ?thesis using frame by (simp add: shared_def)
  qed
qed

lemma shared_deposit_of:
  "deposit_market_fee_vesting_balance fc account (ASSET m i) d = Inr d' \<Longrightarrow>
    shared i (\<lambda>x. if x = account then m else 0) d d'"
  by (drule shared_deposit) (simp only: asset.select_convs)

lemma share_with_network_shared:
  assumes "share_with_network fc i fees d = Inr (rest, d')" "asset_id fees = i" "0 \<le> amount fees" "in_int64 (amount fees)"
    and "percents_ok d seller ao"
  shows "amount rest = amount fees - network_share d (amount fees)" "0 \<le> amount rest" "amount rest \<le> amount fees"
    "shared i (\<lambda>x. if x = GRAPHENE_COMMITTEE_ACCOUNT then network_share d (amount fees) else 0) d d'"
proof -
  have "amount rest = amount fees - network_share d (amount fees) \<and> 0 \<le> amount rest \<and> amount rest \<le> amount fees \<and>
    shared i (\<lambda>x. if x = GRAPHENE_COMMITTEE_ACCOUNT then network_share d (amount fees) else 0) d d'"
  proof (cases "0 < amount fees \<and> 0 < get_market_fee_network_percent (parameters d)")
    case False
    then have "network_share d (amount fees) = 0"
      using assms(3) by (auto simp: network_share_def get_market_fee_network_percent_def split: option.splits)
    moreover have "rest = fees" "d' = d" using False assms(1) by (auto simp: share_with_network_def split: if_splits)
    ultimately show ?thesis using assms(3) by (auto intro: shared_none)
  next
    case True
    then obtain p where p: "market_fee_network_percent (parameters d) = Some p" "0 < p"
      by (auto simp: get_market_fee_network_percent_def split: option.splits)
    with True assms(1) obtain x where x: "calculate_percent (amount fees) p = Inr x" "x \<le> amount fees"
      and run: "(if 0 < x then bnd (deposit_market_fee_vesting_balance fc GRAPHENE_COMMITTEE_ACCOUNT (ASSET x i) d) (\<lambda>d.
            bnd (asset_sub fc fees (ASSET x i)) (\<lambda>rest. Inr (rest, d))) else Inr (fees, d)) = Inr (rest, d')"
      by (auto simp: share_with_network_def get_market_fee_network_percent_def)
    have x': "x = network_share d (amount fees)" "0 \<le> x"
      using calculate_percent_of[OF x(1) assms(3,4)] p assms(5) by (auto simp: network_share_def percents_ok_def)
    show ?thesis
    proof (cases "0 < x")
      case True
      with run have dep: "deposit_market_fee_vesting_balance fc GRAPHENE_COMMITTEE_ACCOUNT (ASSET x i) d = Inr d'"
        and "amount rest = amount fees - x" by auto
      with shared_deposit_of[OF dep] x' x(2) show ?thesis by (simp cong: if_cong)
    next
      case False
      with run x' x(2) show ?thesis by (auto intro: shared_none)
    qed
  qed
  then show "amount rest = amount fees - network_share d (amount fees)" "0 \<le> amount rest" "amount rest \<le> amount fees"
    "shared i (\<lambda>x. if x = GRAPHENE_COMMITTEE_ACCOUNT then network_share d (amount fees) else 0) d d'" by auto
qed

lemma pay_referrer_reward_shared:
  assumes "pay_referrer_reward fc s g f i ao reward d = Inr (rest, d')" "asset_id reward = i" "0 \<le> amount reward"
    and "in_int64 (amount reward)" "referrer_rewards_percentage s < 2 ^ 16"
    and "g = reward_account d (registrar s)" "f = reward_account d (referrer s)"
  shows "amount rest = amount reward - referrer_share d s i ao (amount reward)"
    "shared i (\<lambda>x. if x = f then referrer_share d s i ao (amount reward) else 0) d d'"
proof -
  have "amount rest = amount reward - referrer_share d s i ao (amount reward) \<and>
    shared i (\<lambda>x. if x = f then referrer_share d s i ao (amount reward) else 0) d d'"
  proof (cases "f \<noteq> g")
    case False
    then have "referrer_share d s i ao (amount reward) = 0" using assms(6,7) by (auto simp: referrer_share_def)
    then show ?thesis using False assms(1) by (auto simp: pay_referrer_reward_def intro: shared_none)
  next
    case True
    with assms(1) obtain x where x: "calculate_percent (amount reward) (referrer_rewards_percentage s) = Inr x"
      by (auto simp: pay_referrer_reward_def)
    note x' = calculate_percent_of[OF x assms(3-5)]
    show ?thesis
    proof (cases "0 < x \<and> authorized_for d i ao f")
      case True
      then have r: "referrer_share d s i ao (amount reward) = x" using x' \<open>f \<noteq> g\<close> assms(6,7) by (auto simp: referrer_share_def)
      have "asset_sub fc reward (ASSET x i) = Inr rest \<and> deposit_market_fee_vesting_balance fc f (ASSET x i) d = Inr d'"
        using True \<open>f \<noteq> g\<close> x assms(1) by (auto simp: pay_referrer_reward_def authorized_for_def)
      with shared_deposit_of[of f x i d d'] show ?thesis by (auto simp: r cong: if_cong)
    next
      case False
      then have "referrer_share d s i ao (amount reward) = 0" using x' assms(7) by (auto simp: referrer_share_def)
      moreover have "rest = reward \<and> d' = d"
        using False \<open>f \<noteq> g\<close> x assms(1) by (auto simp: pay_referrer_reward_def authorized_for_def split: if_splits)
      ultimately show ?thesis by (auto intro: shared_none)
    qed
  qed
  then show "amount rest = amount reward - referrer_share d s i ao (amount reward)"
    "shared i (\<lambda>x. if x = f then referrer_share d s i ao (amount reward) else 0) d d'" by auto
qed

lemma distribute_reward_shared:
  assumes "distribute_reward fc s i ao reward d = Inr d'" "asset_id reward = i" "0 \<le> amount reward"
    and "in_int64 (amount reward)" "referrer_rewards_percentage s < 2 ^ 16"
  shows "shared i (\<lambda>x. (if x = reward_account d (referrer s) then referrer_share d s i ao (amount reward) else 0) +
    (if x = reward_account d (registrar s) then amount reward - referrer_share d s i ao (amount reward) else 0)) d d'"
proof -
  let ?g = "reward_account d (registrar s)" and ?f = "reward_account d (referrer s)"
  have redirect: "redirect_temp_account (head_block_time d) x = reward_account d x" for x
    by (simp add: redirect_temp_account_def reward_account_def)
  from assms(1) obtain rest d1 where r: "pay_referrer_reward fc s ?g ?f i ao reward d = Inr (rest, d1)"
    and fin: "(if 0 < amount rest then deposit_market_fee_vesting_balance fc ?g rest d1 else Inr d1) = Inr d'"
    unfolding distribute_reward_def Let_def redirect by auto
  note r1 = pay_referrer_reward_shared[OF r assms(2-5) refl refl] and r2 = pay_referrer_reward_step(3,4)[OF r assms(2,3)]
  have "shared i (\<lambda>x. if x = ?g then amount rest else 0) d1 d'"
  proof (cases "0 < amount rest")
    case True
    then show ?thesis using fin shared_deposit[of ?g rest d1 d'] r2(1) by simp
  next
    case False
    then show ?thesis using fin r2(2) by (auto intro: shared_none)
  qed
  from shared_trans[OF r1(2) this] show ?thesis using r1(1) by simp
qed

lemma pay_rewards_shared:
  assumes "pay_rewards fc seller i ao fees d = Inr (reward, d')" "asset_id fees = i" "0 \<le> amount fees"
    and "in_int64 (amount fees)" "percents_ok d seller ao"
  shows "amount reward = reward_share d seller i ao (amount fees)"
    "shared i (\<lambda>x. case seller of None \<Rightarrow> 0 | Some s \<Rightarrow>
      (if x = reward_account d (referrer s) then referrer_share d s i ao (amount reward) else 0) +
      (if x = reward_account d (registrar s) then amount reward - referrer_share d s i ao (amount reward) else 0)) d d'"
proof -
  let ?f = "\<lambda>r x. case seller of None \<Rightarrow> 0 | Some s \<Rightarrow>
      (if x = reward_account d (referrer s) then referrer_share d s i ao r else 0) +
      (if x = reward_account d (registrar s) then r - referrer_share d s i ao r else 0)"
  have none: "shared i (?f 0) d d" by (rule shared_none) (simp add: referrer_share_def split: option.split)
  have "amount reward = reward_share d seller i ao (amount fees) \<and> shared i (?f (amount reward)) d d'"
  proof (cases "\<exists>s p. seller = Some s \<and> reward_percent (options ao) = Some p \<and> p \<noteq> 0 \<and> is_rewards_allowed ao seller")
    case False
    then have "reward_share d seller i ao (amount fees) = 0"
      by (fastforce simp: reward_share_def is_rewards_allowed_def split: option.splits)
    moreover have "reward = ASSET 0 i" "d' = d"
      using False assms(1) by (auto simp: pay_rewards_def split: option.splits if_splits)
    ultimately show ?thesis using none by (simp cong: if_cong option.case_cong)
  next
    case True
    then obtain s p where sp: "seller = Some s" "reward_percent (options ao) = Some p" "p \<noteq> 0" and al: "is_rewards_allowed ao seller"
      by blast
    with assms(1) obtain x where x: "calculate_percent (amount fees) p = Inr x"
      by (auto simp: pay_rewards_def)
    have "p < 2 ^ 16" and pct: "referrer_rewards_percentage s < 2 ^ 16" using assms(5) sp by (auto simp: percents_ok_def)
    note x' = calculate_percent_of[OF x assms(3,4) this(1)]
    have share: "reward_share d seller i ao (amount fees) = (if authorized_for d i ao (registrar s) then x else 0)"
      using sp al x' by (auto simp: reward_share_def is_rewards_allowed_def split: option.splits)
    show ?thesis
    proof (cases "0 < x \<and> authorized_for d i ao (registrar s)")
      case True
      with sp al x assms(1) have "reward = ASSET x i" "distribute_reward fc s i ao (ASSET x i) d = Inr d'" "x \<le> amount fees"
        by (auto simp: pay_rewards_def authorized_for_def split: if_splits)
      moreover have "in_int64 x" using in_int64_between[OF assms(4), of x] x' calculation(3) by simp
      ultimately show ?thesis using distribute_reward_shared[of s i ao "ASSET x i" d d'] pct True share sp(1) x' by (simp cong: if_cong)
    next
      case False
      then have "reward_share d seller i ao (amount fees) = 0" using share x' by auto
      moreover have "reward = ASSET 0 i \<and> d' = d"
        using False sp al x assms(1) by (auto simp: pay_rewards_def authorized_for_def split: if_splits)
      ultimately show ?thesis using none by (simp cong: if_cong option.case_cong)
    qed
  qed
  then show "amount reward = reward_share d seller i ao (amount fees)" "shared i (?f (amount reward)) d d'" by auto
qed

end

text \<open>The dynamic data of the traded asset collect the share of the issuer.\<close>

definition collected :: "asset_object \<Rightarrow> int \<Rightarrow> database \<Rightarrow> database \<Rightarrow> bool" where
  "collected ao x d d' \<longleftrightarrow> (\<forall>k. store_find (asset_dyn_data d') k = map_option
     (\<lambda>dd. if k = dynamic_asset_data_id ao then dd\<lparr>accumulated_fees := accumulated_fees dd + x\<rparr> else dd) (store_find (asset_dyn_data d) k))"

lemma collected_none: "collected ao 0 d d"
  by (simp add: collected_def option.map_ident_strong)

lemma market_fees_shared:
  assumes "fc_safe fc" "asset_id fee = i" "0 \<le> amount fee" "in_int64 (amount fee)" "percents_ok d seller ao"
    and "pay_market_fees fc seller i ao receives is_maker (Some fee) d = Inr (f, d')"
  shows "\<exists>d2. shared i (market_fee_share d seller i ao (amount fee)) d d2 \<and>
    d' = d2\<lparr>asset_dyn_data := asset_dyn_data d'\<rparr> \<and> collected ao (issuer_share d seller i ao (amount fee)) d d'"
proof -
  from pay_market_fees_parts[OF assms(6)] obtain rest d1 where net: "share_with_network fc i fee d = Inr (rest, d1)"
    and pos: "0 < amount rest \<longrightarrow> (\<exists>reward d2. pay_rewards fc seller i ao rest d1 = Inr (reward, d2) \<and>
       (if amount reward < amount rest then
              modify_dyn (dynamic_asset_data_id ao) (\<lambda>dd.
                bnd (safe_sub fc (amount rest) (amount reward)) (\<lambda>x.
                bnd (safe_add fc (accumulated_fees dd) x) (\<lambda>x.
                Inr (dd\<lparr>accumulated_fees := x\<rparr>)))) d2
            else Inr d2) = Inr d')"
    and neg: "\<not> 0 < amount rest \<longrightarrow> d' = d1"
    by blast
  note n = fc_safe.share_with_network_shared[OF assms(1) net assms(2-5)]
  note fr = vesting_frame_fields[OF shared_frame[OF n(4)]]
  have aid: "asset_id rest = i" by (rule fc_safe.share_with_network_step(3)[OF assms(1) net assms(2)])
  have pct: "percents_ok d1 seller ao" using assms(5) by (simp add: percents_ok_def fr)
  have r64: "in_int64 (amount rest)" by (rule in_int64_between[OF assms(4) n(2,3)])
  show ?thesis
  proof (cases "0 < amount rest")
    case True
    then obtain reward d2 where rw: "pay_rewards fc seller i ao rest d1 = Inr (reward, d2)"
      and fin: "(if amount reward < amount rest then
              modify_dyn (dynamic_asset_data_id ao) (\<lambda>dd.
                bnd (safe_sub fc (amount rest) (amount reward)) (\<lambda>x.
                bnd (safe_add fc (accumulated_fees dd) x) (\<lambda>x.
                Inr (dd\<lparr>accumulated_fees := x\<rparr>)))) d2
            else Inr d2) = Inr d'" using pos by blast
    note r = fc_safe.pay_rewards_shared[OF assms(1) rw aid n(2) r64 pct]
    have le: "amount reward \<le> amount rest" using fc_safe.pay_rewards_step(3)[OF assms(1) rw aid n(2)] by simp
    have sh: "shared i (market_fee_share d seller i ao (amount fee)) d d2"
      by (rule fc_safe.shared_trans[OF assms(1) n(4) r(2)])
        (simp add: market_fee_share_def Let_def r(1) n(1) fr split: option.split)
    have "asset_dyn_data d2 = asset_dyn_data d" using vesting_frame_fields(4)[OF shared_frame[OF r(2)]] fr(4) by simp
    moreover have iss: "issuer_share d seller i ao (amount fee) = amount rest - amount reward"
      by (simp add: issuer_share_def n(1) r(1) fr)
    ultimately have "d' = d2\<lparr>asset_dyn_data := asset_dyn_data d'\<rparr> \<and> collected ao (issuer_share d seller i ao (amount fee)) d d'"
    proof (cases "amount reward < amount rest")
      case True
      with fin obtain dd where "store_find (asset_dyn_data d2) (dynamic_asset_data_id ao) = Some dd"
        "d' = d2\<lparr>asset_dyn_data := store_put (asset_dyn_data d2) (dynamic_asset_data_id ao)
          (dd\<lparr>accumulated_fees := accumulated_fees dd + (amount rest - amount reward)\<rparr>)\<rparr>"
        using assms(1) by (auto elim!: modify_dynE simp: fc_safe.safe_add_iff fc_safe.safe_sub_iff)
      with iss \<open>asset_dyn_data d2 = asset_dyn_data d\<close> show ?thesis
        by (auto simp: collected_def store_find_put option.map_ident_strong)
    next
      case False
      then have "d' = d2" "issuer_share d seller i ao (amount fee) = 0" using fin le iss by simp_all
      with \<open>asset_dyn_data d2 = asset_dyn_data d\<close> show ?thesis by (simp add: collected_def option.map_ident_strong)
    qed
    with sh show ?thesis by blast
  next
    case False
    then have zero: "amount rest = 0" "d' = d1" using n(2) neg by simp_all
    have none: "reward_share d seller i ao 0 = 0" "referrer_share d s i ao 0 = 0" for s
      by (simp_all add: reward_share_def referrer_share_def split: option.split)
    have "shared i (market_fee_share d seller i ao (amount fee)) d d1"
      by (rule fc_safe.shared_trans[OF assms(1) n(4) fc_safe.shared_none[OF assms(1), of "\<lambda>_. 0"]])
        (use n(1) zero none in \<open>simp_all add: market_fee_share_def Let_def split: option.split\<close>)
    moreover have "issuer_share d seller i ao (amount fee) = 0" using n(1) zero none by (simp add: issuer_share_def)
    then have "collected ao (issuer_share d seller i ao (amount fee)) d d1"
      using fr(4) by (simp add: collected_def option.map_ident_strong)
    ultimately show ?thesis using zero(2) by auto
  qed
qed

text \<open>
  C25: \<open>pay_market_fees\<close> distributes exactly the market fee, for percentages of 16 bits: a fee that exceeds the
  received amount is refused. The balance of shared fees of every account grows by exactly its share: the
  committee account takes the percentage of the network, the referrer and the registrar of the seller divide the
  reward of the asset as described above, and every other account gets nothing. The accumulated fees of the asset grow
  by exactly what is left for its issuer. No other vesting balance, no other dynamic data, no account balance and
  no other object of the database changes, and the value held of the asset grows by the fee.
\<close>

theorem market_fees_distributed:
  assumes "fc_safe fc" "wf_db d" "store_find (assets d) i = Some ao" "asset_id fee = i" "0 \<le> amount fee"
    and "in_int64 (amount fee)" "percents_ok d seller ao"
    and "pay_market_fees fc seller i ao receives is_maker (Some fee) d = Inr (f, d')"
  shows "f = fee \<and> amount fee \<le> amount receives \<and> wf_db d' \<and>
    (\<forall>a. supply_gap d' a = supply_gap d a + (if a = i then amount fee else 0)) \<and>
    (\<forall>x a. amount (get_market_fee_vesting_balance d' x a) = amount (get_market_fee_vesting_balance d x a)
      + (if a = i then market_fee_share d seller i ao (amount fee) x else 0)) \<and>
    (\<forall>k. store_find (asset_dyn_data d') k = map_option (\<lambda>dd. if k = dynamic_asset_data_id ao
      then dd\<lparr>accumulated_fees := accumulated_fees dd + issuer_share d seller i ao (amount fee)\<rparr> else dd)
      (store_find (asset_dyn_data d) k)) \<and>
    (\<forall>k v. store_find (vesting_balances d) k = Some v \<and>
      \<not> (vbo_balance_type v = Vbt_market_fee_sharing \<and> asset_id (vbo_balance v) = i) \<longrightarrow>
      store_find (vesting_balances d') k = Some v) \<and>
    d' = d\<lparr>vesting_balances := vesting_balances d', asset_dyn_data := asset_dyn_data d'\<rparr>"
proof -
  note st = fc_safe.pay_market_fees_step[OF assms(1,8,3,4,5)]
  from market_fees_shared[OF assms(1,4-8)] obtain d2 where sh: "shared i (market_fee_share d seller i ao (amount fee)) d d2"
    and d': "d' = d2\<lparr>asset_dyn_data := asset_dyn_data d'\<rparr>" and col: "collected ao (issuer_share d seller i ao (amount fee)) d d'" by blast
  have vb: "vesting_balances d' = vesting_balances d2" using arg_cong[OF d', of vesting_balances] by simp
  then have get: "get_market_fee_vesting_balance d' = get_market_fee_vesting_balance d2"
    by (simp add: fun_eq_iff get_market_fee_vesting_balance_def)
  have "d2 = d\<lparr>vesting_balances := vesting_balances d2\<rparr>" using shared_frame[OF sh] by (simp add: vesting_frame_def)
  then have "d' = d\<lparr>vesting_balances := vesting_balances d2, asset_dyn_data := asset_dyn_data d'\<rparr>" using d' by metis
  with vb have frame: "d' = d\<lparr>vesting_balances := vesting_balances d', asset_dyn_data := asset_dyn_data d'\<rparr>" by simp
  have "wf_db d'" "\<forall>a. supply_gap d' a = supply_gap d a + (if a = i then amount fee else 0)"
    using st(1) assms(2) by (auto simp: gap_step_def amt_at_def)
  with st(2,3) sh col frame show ?thesis unfolding shared_def collected_def get vb by blast
qed

definition reward_asset :: asset_object where
  "reward_asset = (sample_asset 1)\<lparr>options := sample_options\<lparr>reward_percent := Some 5000\<rparr>\<rparr>"

definition reward_db :: database where
  "reward_db = (sample_db 1700000000)\<lparr>
     parameters := (parameters (sample_db 0))\<lparr>market_fee_network_percent := Some 2000\<rparr>,
     assets := \<lparr>items = [(0, sample_asset 0), (1, reward_asset)], next_id = 2\<rparr>\<rparr>"

text \<open>Of a fee of 100, the network takes 20 percent; half of the rest is the reward.\<close>

theorem market_fees_distributed_witness:
  "\<exists>f d'. pay_market_fees fc_ref (Some (sample_account 0)) 1 reward_asset (ASSET 1000 1) True
      (Some (ASSET 100 1)) reward_db = Inr (f, d') \<and> supply_gap d' 1 = supply_gap reward_db 1 + 100 \<and>
    issuer_share reward_db (Some (sample_account 0)) 1 reward_asset 100 = 40 \<and>
    amount (get_market_fee_vesting_balance d' 0 1) = amount (get_market_fee_vesting_balance reward_db 0 1)
      + market_fee_share reward_db (Some (sample_account 0)) 1 reward_asset 100 0"
proof -
  let ?r = "pay_market_fees fc_ref (Some (sample_account 0)) 1 reward_asset (ASSET 1000 1) True
      (Some (ASSET 100 1)) reward_db"
  have "\<not> isl ?r"
    by (simp add: pay_market_fees_def share_with_network_def pay_rewards_def distribute_reward_def
        pay_referrer_reward_def is_rewards_allowed_def get_market_fee_network_percent_def
        calculate_percent_def redirect_temp_account_def deposit_market_fee_vesting_balance_def
        vbo_mfs_key_def reward_db_def reward_asset_def is_authorized_asset_def modify_dyn_def
        store_search_def store_find_def store_get_def store_add_def store_put_def hardfork_times
        account_constants flag_defs asset_sub_def asset_le_def asset_less_def u128_mul_def u128_def
        to_int64_def GRAPHENE_MAX_SHARE_SUPPLY_def GRAPHENE_100_PERCENT_def sample_defs fc_ref_simps
        cong: eval_congs)
  then obtain f d' where run: "?r = Inr (f, d')" by (cases ?r) auto
  have wf: "wf_db reward_db" "store_find (assets reward_db) 1 = Some reward_asset"
    by (simp_all add: reward_db_def reward_asset_def sample_defs wf_defs wf_assets_def store_wf_def
        store_find_def store_all_def CORE_ASSET_def CORE_DYN_def)
  have pct: "percents_ok reward_db (Some (sample_account 0)) reward_asset"
    by (simp add: percents_ok_def reward_db_def reward_asset_def sample_defs)
  have "issuer_share reward_db (Some (sample_account 0)) 1 reward_asset 100 = 40"
    by (simp add: issuer_share_def network_share_def reward_share_def percent_of_def authorized_for_def is_authorized_asset_def
        reward_db_def reward_asset_def sample_defs store_find_def flag_defs GRAPHENE_100_PERCENT_def)
  then show ?thesis
    using market_fees_distributed[OF fc_ref.fc_safe_axioms wf _ _ _ pct run] run by (simp add: in_int64_def)
qed

end
