(* ===== verification/Liquidity_Pool.thy ===== *)
theory Liquidity_Pool
  imports Market_Fees
begin

text \<open>
  Liquidity pools: \<open>libraries/protocol/liquidity_pool.cpp\<close> (validation) and
  \<open>libraries/chain/liquidity_pool_evaluator.cpp\<close>. A pool trades two assets along the curve
  \<open>balance_a * balance_b = constant\<close> and issues a share asset to its depositors.

  The members an evaluator sets in \<open>do_evaluate\<close> are its result. The arithmetic of deposits,
  withdrawals and exchanges stands in functions of its own (\<open>lp_deposit_amounts\<close>,
  \<open>lp_withdraw_amount\<close>, \<open>lp_exchange_delta\<close>), with the 128-bit operations of the source.
\<close>

section \<open>Operations\<close>

record liquidity_pool_create_operation =
  lpc_fee :: asset
  lpc_account :: account_id_type
  lpc_asset_a :: asset_id_type
  lpc_asset_b :: asset_id_type
  lpc_share_asset :: asset_id_type
  lpc_taker_fee_percent :: nat
  lpc_withdrawal_fee_percent :: nat

record liquidity_pool_delete_operation =
  lpdel_fee :: asset
  lpdel_account :: account_id_type
  lpdel_pool :: nat

record liquidity_pool_update_operation =
  lpu_fee :: asset
  lpu_account :: account_id_type
  lpu_pool :: nat
  lpu_taker_fee_percent :: "nat option"
  lpu_withdrawal_fee_percent :: "nat option"

record liquidity_pool_deposit_operation =
  lpd_fee :: asset
  lpd_account :: account_id_type
  lpd_pool :: nat
  lpd_amount_a :: asset
  lpd_amount_b :: asset

record liquidity_pool_withdraw_operation =
  lpw_fee :: asset
  lpw_account :: account_id_type
  lpw_pool :: nat
  lpw_share_amount :: asset

record liquidity_pool_exchange_operation =
  lpx_fee :: asset
  lpx_account :: account_id_type
  lpx_pool :: nat
  lpx_amount_to_sell :: asset
  lpx_min_to_receive :: asset

definition lp_create_validate :: "liquidity_pool_create_operation \<Rightarrow> unit result" where
  "lp_create_validate op =
     FC_ASSERT (0 \<le> amount (lpc_fee op))
    (FC_ASSERT (lpc_asset_a op < lpc_asset_b op)
    (FC_ASSERT (lpc_asset_a op \<noteq> lpc_share_asset op \<and> lpc_asset_b op \<noteq> lpc_share_asset op)
    (FC_ASSERT (int (lpc_taker_fee_percent op) \<le> GRAPHENE_100_PERCENT)
    (FC_ASSERT (int (lpc_withdrawal_fee_percent op) \<le> GRAPHENE_100_PERCENT)
    (Inr ())))))"

definition lp_delete_validate :: "liquidity_pool_delete_operation \<Rightarrow> unit result" where
  "lp_delete_validate op = FC_ASSERT (0 \<le> amount (lpdel_fee op)) (Inr ())"

definition lp_update_validate :: "liquidity_pool_update_operation \<Rightarrow> unit result" where
  "lp_update_validate op =
     FC_ASSERT (0 \<le> amount (lpu_fee op))
    (FC_ASSERT (lpu_taker_fee_percent op \<noteq> None \<or> lpu_withdrawal_fee_percent op \<noteq> None)
    (FC_ASSERT (case lpu_taker_fee_percent op of None \<Rightarrow> True | Some p \<Rightarrow> int p \<le> GRAPHENE_100_PERCENT)
    (FC_ASSERT (case lpu_withdrawal_fee_percent op of None \<Rightarrow> True | Some p \<Rightarrow> p = 0)
    (Inr ()))))"

definition lp_deposit_validate :: "liquidity_pool_deposit_operation \<Rightarrow> unit result" where
  "lp_deposit_validate op =
     FC_ASSERT (0 \<le> amount (lpd_fee op))
    (FC_ASSERT (0 < amount (lpd_amount_a op) \<and> 0 < amount (lpd_amount_b op))
    (FC_ASSERT (asset_id (lpd_amount_a op) < asset_id (lpd_amount_b op))
    (Inr ())))"

definition lp_withdraw_validate :: "liquidity_pool_withdraw_operation \<Rightarrow> unit result" where
  "lp_withdraw_validate op =
     FC_ASSERT (0 \<le> amount (lpw_fee op))
    (FC_ASSERT (0 < amount (lpw_share_amount op))
    (Inr ()))"

definition lp_exchange_validate :: "liquidity_pool_exchange_operation \<Rightarrow> unit result" where
  "lp_exchange_validate op =
     FC_ASSERT (0 \<le> amount (lpx_fee op))
    (FC_ASSERT (0 < amount (lpx_amount_to_sell op))
    (FC_ASSERT (0 < amount (lpx_min_to_receive op))
    (FC_ASSERT (asset_id (lpx_amount_to_sell op) \<noteq> asset_id (lpx_min_to_receive op))
    (Inr ()))))"

section \<open>Create, delete, update\<close>

definition lp_create_do_evaluate ::
    "liquidity_pool_create_operation \<Rightarrow> fee_state \<Rightarrow> database \<Rightarrow> unit result" where
  "lp_create_do_evaluate op fs d =
     FC_ASSERT (HARDFORK_LIQUIDITY_POOL_TIME \<le> head_block_time d)
    (bnd (store_get (assets d) (lpc_asset_a op)) (\<lambda>_.
     bnd (store_get (assets d) (lpc_asset_b op)) (\<lambda>_.
     bnd (store_get (assets d) (lpc_share_asset op)) (\<lambda>share_asset.
     FC_ASSERT (issuer share_asset = lpc_account op)
    (FC_ASSERT (\<not> is_market_issued share_asset)
    (FC_ASSERT (\<not> is_liquidity_pool_share_asset share_asset)
    (bnd (store_get (asset_dyn_data d) (dynamic_asset_data_id share_asset)) (\<lambda>dyn.
     FC_ASSERT (current_supply dyn = 0)
    (Inr ())))))))))"

definition new_liquidity_pool_object :: "liquidity_pool_create_operation \<Rightarrow> liquidity_pool_object" where
  "new_liquidity_pool_object op =
     \<lparr>lpo_asset_a = lpc_asset_a op, lpo_asset_b = lpc_asset_b op,
      lpo_balance_a = 0, lpo_balance_b = 0, lpo_share_asset = lpc_share_asset op,
      lpo_taker_fee_percent = lpc_taker_fee_percent op,
      lpo_withdrawal_fee_percent = lpc_withdrawal_fee_percent op, lpo_virtual_value = 0\<rparr>"

definition lp_create_do_apply ::
    "liquidity_pool_create_operation \<Rightarrow> unit \<Rightarrow> fee_state \<Rightarrow> database \<Rightarrow> database result" where
  "lp_create_do_apply op ev fs d =
     (let new_id = next_id (liquidity_pools d);
          d = d\<lparr>liquidity_pools := store_add (liquidity_pools d) (new_liquidity_pool_object op)\<rparr>
      in bnd (store_get (assets d) (lpc_share_asset op)) (\<lambda>ao.
         Inr (d\<lparr>assets := store_put (assets d) (lpc_share_asset op)
                  (ao\<lparr>for_liquidity_pool := Some new_id\<rparr>)\<rparr>)))"

definition lp_delete_do_evaluate ::
    "liquidity_pool_delete_operation \<Rightarrow> fee_state \<Rightarrow> database \<Rightarrow> unit result" where
  "lp_delete_do_evaluate op fs d =
     bnd (store_get (liquidity_pools d) (lpdel_pool op)) (\<lambda>pool.
     FC_ASSERT (lpo_balance_a pool = 0 \<and> lpo_balance_b pool = 0)
    (bnd (store_get (assets d) (lpo_share_asset pool)) (\<lambda>share_asset.
     FC_ASSERT (issuer share_asset = lpdel_account op)
    (Inr ()))))"

definition lp_delete_do_apply ::
    "liquidity_pool_delete_operation \<Rightarrow> unit \<Rightarrow> fee_state \<Rightarrow> database \<Rightarrow> database result" where
  "lp_delete_do_apply op ev fs d =
     bnd (store_get (liquidity_pools d) (lpdel_pool op)) (\<lambda>pool.
     bnd (store_get (assets d) (lpo_share_asset pool)) (\<lambda>ao.
     Inr (d\<lparr>assets := store_put (assets d) (lpo_share_asset pool) (ao\<lparr>for_liquidity_pool := None\<rparr>),
            liquidity_pools := store_del (liquidity_pools d) (lpdel_pool op)\<rparr>)))"

definition lp_update_do_evaluate ::
    "liquidity_pool_update_operation \<Rightarrow> fee_state \<Rightarrow> database \<Rightarrow> unit result" where
  "lp_update_do_evaluate op fs d =
     FC_ASSERT (HARDFORK_CORE_2604_TIME \<le> head_block_time d)
    (bnd (store_get (liquidity_pools d) (lpu_pool op)) (\<lambda>pool.
     bnd (store_get (assets d) (lpo_share_asset pool)) (\<lambda>share_asset.
     FC_ASSERT (issuer share_asset = lpu_account op)
    (FC_ASSERT (lpu_taker_fee_percent op \<noteq> None \<longrightarrow>
        lpo_withdrawal_fee_percent pool = 0 \<or> lpu_withdrawal_fee_percent op = Some 0)
    (Inr ())))))"

definition lp_update_do_apply ::
    "liquidity_pool_update_operation \<Rightarrow> unit \<Rightarrow> fee_state \<Rightarrow> database \<Rightarrow> database result" where
  "lp_update_do_apply op ev fs d =
     bnd (store_get (liquidity_pools d) (lpu_pool op)) (\<lambda>pool.
     let pool = (case lpu_taker_fee_percent op of None \<Rightarrow> pool | Some p \<Rightarrow> pool\<lparr>lpo_taker_fee_percent := p\<rparr>);
         pool = (case lpu_withdrawal_fee_percent op of None \<Rightarrow> pool | Some p \<Rightarrow> pool\<lparr>lpo_withdrawal_fee_percent := p\<rparr>)
     in Inr (d\<lparr>liquidity_pools := store_put (liquidity_pools d) (lpu_pool op) pool\<rparr>))"

section \<open>Deposit\<close>

definition update_virtual_value :: "liquidity_pool_object \<Rightarrow> liquidity_pool_object" where
  "update_virtual_value p =
     p\<lparr>lpo_virtual_value := u128_mul (u128 (lpo_balance_a p)) (u128 (lpo_balance_b p))\<rparr>"

text \<open>\<open>lpo.balance_a += da; lpo.balance_b += db; lpo.update_virtual_value()\<close>.\<close>

definition pool_add ::
    "fc_lib \<Rightarrow> share_type \<Rightarrow> share_type \<Rightarrow> liquidity_pool_object \<Rightarrow> liquidity_pool_object result" where
  "pool_add fc da db p =
     bnd (safe_add fc (lpo_balance_a p) da) (\<lambda>a.
     bnd (safe_add fc (lpo_balance_b p) db) (\<lambda>b.
     Inr (update_virtual_value (p\<lparr>lpo_balance_a := a, lpo_balance_b := b\<rparr>))))"

record lp_deposit_state =
  lpds_pool_receives_a :: asset
  lpds_pool_receives_b :: asset
  lpds_account_receives :: asset

text \<open>The amounts of a deposit into a pool that is not empty: what the account receives and what the
  pool receives of each asset.\<close>

definition lp_deposit_amounts ::
    "fc_lib \<Rightarrow> liquidity_pool_object \<Rightarrow> share_type \<Rightarrow> share_type \<Rightarrow> share_type \<Rightarrow> share_type \<Rightarrow>
     lp_deposit_state result" where
  "lp_deposit_amounts fc pool max_sup supply amount_a amount_b =
     bnd (safe_sub fc max_sup supply) (\<lambda>max_new_supply.
     let max128 = u128 max_new_supply;
         supply128 = u128 supply;
         new_supply_if_a = u128_mul supply128 (u128 amount_a) div u128 (lpo_balance_a pool);
         new_supply_if_b = u128_mul supply128 (u128 amount_b) div u128 (lpo_balance_b pool);
         new_supply = min (min new_supply_if_a new_supply_if_b) max128
     in
     FC_ASSERT (0 < new_supply)
    (let a128 = u128_sub (u128_add (u128_mul new_supply (u128 (lpo_balance_a pool))) supply128) 1 div supply128 in
     FC_ASSERT (a128 \<le> u128 amount_a)
    (let b128 = u128_sub (u128_add (u128_mul new_supply (u128 (lpo_balance_b pool))) supply128) 1 div supply128 in
     FC_ASSERT (b128 \<le> u128 amount_b)
    (Inr \<lparr>lpds_pool_receives_a = ASSET (to_int64 a128) (lpo_asset_a pool),
          lpds_pool_receives_b = ASSET (to_int64 b128) (lpo_asset_b pool),
          lpds_account_receives = ASSET (to_int64 new_supply) (lpo_share_asset pool)\<rparr>))))"

definition lp_deposit_do_evaluate ::
    "fc_lib \<Rightarrow> liquidity_pool_deposit_operation \<Rightarrow> fee_state \<Rightarrow> database \<Rightarrow> lp_deposit_state result" where
  "lp_deposit_do_evaluate fc op fs d =
     bnd (store_get (liquidity_pools d) (lpd_pool op)) (\<lambda>pool.
     FC_ASSERT (asset_id (lpd_amount_a op) = lpo_asset_a pool)
    (FC_ASSERT (asset_id (lpd_amount_b op) = lpo_asset_b pool)
    (FC_ASSERT ((lpo_balance_a pool = 0) = (lpo_balance_b pool = 0))
    (bnd (store_get (assets d) (lpo_share_asset pool)) (\<lambda>share_asset_obj.
     FC_ASSERT (can_create_new_supply share_asset_obj)
    (FC_ASSERT (lpo_balance_a pool = 0 \<longrightarrow> issuer share_asset_obj = lpd_account op)
    (bnd (store_get (asset_dyn_data d) (dynamic_asset_data_id share_asset_obj)) (\<lambda>dyn.
     FC_ASSERT ((lpo_balance_a pool = 0) = (current_supply dyn = 0))
    (FC_ASSERT (current_supply dyn < max_supply (options share_asset_obj))
    (bnd (authorized d (fee_paying_account fs) (lpo_share_asset pool)) (\<lambda>ok.
     FC_ASSERT ok
    (bnd (authorized d (fee_paying_account fs) (lpo_asset_a pool)) (\<lambda>ok.
     FC_ASSERT ok
    (bnd (authorized d (fee_paying_account fs) (lpo_asset_b pool)) (\<lambda>ok.
     FC_ASSERT ok
    (if lpo_balance_a pool = 0 then
       let share_amount = max (amount (lpd_amount_a op)) (amount (lpd_amount_b op)) in
       FC_ASSERT (share_amount \<le> max_supply (options share_asset_obj))
      (Inr \<lparr>lpds_pool_receives_a = lpd_amount_a op, lpds_pool_receives_b = lpd_amount_b op,
            lpds_account_receives = ASSET share_amount (lpo_share_asset pool)\<rparr>)
     else
       lp_deposit_amounts fc pool (max_supply (options share_asset_obj)) (current_supply dyn)
         (amount (lpd_amount_a op)) (amount (lpd_amount_b op))))))))))))))))))"

definition lp_deposit_do_apply ::
    "fc_lib \<Rightarrow> liquidity_pool_deposit_operation \<Rightarrow> lp_deposit_state \<Rightarrow> fee_state \<Rightarrow> database \<Rightarrow> database result" where
  "lp_deposit_do_apply fc op ev fs d =
     bnd (debit fc (lpd_account op) (lpds_pool_receives_a ev) d) (\<lambda>d.
     bnd (debit fc (lpd_account op) (lpds_pool_receives_b ev) d) (\<lambda>d.
     bnd (adjust_balance fc (lpd_account op) (lpds_account_receives ev) d) (\<lambda>d.
     bnd (store_get (liquidity_pools d) (lpd_pool op)) (\<lambda>pool.
     bnd (pool_add fc (amount (lpds_pool_receives_a ev)) (amount (lpds_pool_receives_b ev)) pool) (\<lambda>pool'.
     bnd (store_get (assets d) (lpo_share_asset pool)) (\<lambda>share_asset_obj.
     bnd (modify_dyn (dynamic_asset_data_id share_asset_obj) (\<lambda>dd.
            bnd (safe_add fc (current_supply dd) (amount (lpds_account_receives ev))) (\<lambda>x.
            FC_ASSERT (0 < x)
           (Inr (dd\<lparr>current_supply := x\<rparr>))))
          (d\<lparr>liquidity_pools := store_put (liquidity_pools d) (lpd_pool op) pool'\<rparr>)) (\<lambda>d.
     FC_ASSERT (0 < lpo_balance_a pool' \<and> 0 < lpo_balance_b pool')
    (Inr d))))))))"

section \<open>Withdraw\<close>

record lp_withdraw_state =
  lpws_pool_pays_a :: asset
  lpws_pool_pays_b :: asset
  lpws_fee_a :: asset
  lpws_fee_b :: asset

text \<open>The part of one balance a share is worth, and the withdrawal fee on it.\<close>

definition lp_withdraw_amount ::
    "share_type \<Rightarrow> share_type \<Rightarrow> share_type \<Rightarrow> nat \<Rightarrow> (int \<times> int) result" where
  "lp_withdraw_amount share bal supply fee_percent =
     (let a128 = u128_mul (u128 share) (u128 bal) div u128 supply in
      FC_ASSERT (a128 < u128 bal)
     (let fee = u128_mul a128 (int fee_percent) div GRAPHENE_100_PERCENT in
      FC_ASSERT (fee \<le> a128)
     (Inr (u128_sub a128 fee, fee))))"

definition lp_withdraw_do_evaluate ::
    "liquidity_pool_withdraw_operation \<Rightarrow> fee_state \<Rightarrow> database \<Rightarrow> lp_withdraw_state result" where
  "lp_withdraw_do_evaluate op fs d =
     bnd (store_get (liquidity_pools d) (lpw_pool op)) (\<lambda>pool.
     FC_ASSERT (asset_id (lpw_share_amount op) = lpo_share_asset pool)
    (FC_ASSERT (0 < lpo_balance_a pool \<and> 0 < lpo_balance_b pool)
    (bnd (store_get (assets d) (lpo_share_asset pool)) (\<lambda>share_asset_obj.
     bnd (authorized d (fee_paying_account fs) (lpo_share_asset pool)) (\<lambda>ok.
     FC_ASSERT ok
    (bnd (authorized d (fee_paying_account fs) (lpo_asset_a pool)) (\<lambda>ok.
     FC_ASSERT ok
    (bnd (authorized d (fee_paying_account fs) (lpo_asset_b pool)) (\<lambda>ok.
     FC_ASSERT ok
    (bnd (store_get (asset_dyn_data d) (dynamic_asset_data_id share_asset_obj)) (\<lambda>dyn.
     FC_ASSERT (amount (lpw_share_amount op) \<le> current_supply dyn)
    (if current_supply dyn = amount (lpw_share_amount op) then
       Inr \<lparr>lpws_pool_pays_a = ASSET (lpo_balance_a pool) (lpo_asset_a pool),
            lpws_pool_pays_b = ASSET (lpo_balance_b pool) (lpo_asset_b pool),
            lpws_fee_a = ASSET 0 (lpo_asset_a pool), lpws_fee_b = ASSET 0 (lpo_asset_b pool)\<rparr>
     else
       bnd (lp_withdraw_amount (amount (lpw_share_amount op)) (lpo_balance_a pool) (current_supply dyn)
              (lpo_withdrawal_fee_percent pool)) (\<lambda>(a128, fee_a).
       bnd (lp_withdraw_amount (amount (lpw_share_amount op)) (lpo_balance_b pool) (current_supply dyn)
              (lpo_withdrawal_fee_percent pool)) (\<lambda>(b128, fee_b).
       FC_ASSERT (0 < a128 \<or> 0 < b128)
      (Inr \<lparr>lpws_pool_pays_a = ASSET (to_int64 a128) (lpo_asset_a pool),
            lpws_pool_pays_b = ASSET (to_int64 b128) (lpo_asset_b pool),
            lpws_fee_a = ASSET (to_int64 fee_a) (lpo_asset_a pool),
            lpws_fee_b = ASSET (to_int64 fee_b) (lpo_asset_b pool)\<rparr>)))))))))))))))"

text \<open>\<open>lpo.balance_a -= da; lpo.balance_b -= db; lpo.update_virtual_value()\<close>.\<close>

definition pool_sub ::
    "fc_lib \<Rightarrow> share_type \<Rightarrow> share_type \<Rightarrow> liquidity_pool_object \<Rightarrow> liquidity_pool_object result" where
  "pool_sub fc da db p =
     bnd (safe_sub fc (lpo_balance_a p) da) (\<lambda>a.
     bnd (safe_sub fc (lpo_balance_b p) db) (\<lambda>b.
     Inr (update_virtual_value (p\<lparr>lpo_balance_a := a, lpo_balance_b := b\<rparr>))))"

definition lp_withdraw_do_apply ::
    "fc_lib \<Rightarrow> liquidity_pool_withdraw_operation \<Rightarrow> lp_withdraw_state \<Rightarrow> fee_state \<Rightarrow> database \<Rightarrow> database result" where
  "lp_withdraw_do_apply fc op ev fs d =
     bnd (debit fc (lpw_account op) (lpw_share_amount op) d) (\<lambda>d.
     bnd (if 0 < amount (lpws_pool_pays_a ev)
          then adjust_balance fc (lpw_account op) (lpws_pool_pays_a ev) d else Inr d) (\<lambda>d.
     bnd (if 0 < amount (lpws_pool_pays_b ev)
          then adjust_balance fc (lpw_account op) (lpws_pool_pays_b ev) d else Inr d) (\<lambda>d.
     bnd (store_get (liquidity_pools d) (lpw_pool op)) (\<lambda>pool.
     bnd (store_get (assets d) (lpo_share_asset pool)) (\<lambda>share_asset_obj.
     bnd (pool_sub fc (amount (lpws_pool_pays_a ev)) (amount (lpws_pool_pays_b ev)) pool) (\<lambda>pool'.
     bnd (modify_dyn (dynamic_asset_data_id share_asset_obj) (\<lambda>dd.
            bnd (safe_sub fc (current_supply dd) (amount (lpw_share_amount op))) (\<lambda>x.
            FC_ASSERT ((lpo_balance_a pool' = 0) = (x = 0))
           (Inr (dd\<lparr>current_supply := x\<rparr>)))) d) (\<lambda>d.
     FC_ASSERT ((lpo_balance_a pool' = 0) = (lpo_balance_b pool' = 0))
    (Inr (d\<lparr>liquidity_pools := store_put (liquidity_pools d) (lpw_pool op) pool'\<rparr>)))))))))"

section \<open>Exchange\<close>

text \<open>\<open>whitelist_markets\<close> and \<open>blacklist_markets\<close> of one asset against the other.\<close>

definition market_allowed :: "asset_object \<Rightarrow> asset_id_type \<Rightarrow> bool" where
  "market_allowed ao other \<longleftrightarrow>
     (whitelist_markets (options ao) \<noteq> [] \<longrightarrow> other \<in> set (whitelist_markets (options ao))) \<and>
     (blacklist_markets (options ao) \<noteq> [] \<longrightarrow> other \<notin> set (blacklist_markets (options ao)))"

text \<open>What leaves the pool, before the taker fee, when \<open>receives\<close> is added to the balance
  \<open>bal_in\<close>: the other balance shrinks to the virtual value divided by the new balance, rounded up.\<close>

definition lp_exchange_delta ::
    "fc_lib \<Rightarrow> int \<Rightarrow> share_type \<Rightarrow> share_type \<Rightarrow> share_type \<Rightarrow> int result" where
  "lp_exchange_delta fc virtual_value bal_in bal_out receives =
     bnd (safe_add fc bal_in receives) (\<lambda>new_balance_in.
     let new_balance_out = u128_sub (u128_add virtual_value (u128 new_balance_in)) 1 div u128 new_balance_in in
     FC_ASSERT (new_balance_out \<le> bal_out)
    (Inr (u128_sub (u128 bal_out) new_balance_out)))"

record lp_exchange_state =
  lpxs_pool_receives_asset :: asset_id_type
  lpxs_pool_pays_asset :: asset_id_type
  lpxs_pool_pays :: asset
  lpxs_pool_receives :: asset
  lpxs_account_receives :: asset
  lpxs_maker_market_fee :: asset
  lpxs_taker_market_fee :: asset
  lpxs_pool_taker_fee :: asset

text \<open>The amounts of an exchange: the pool receives \<open>recv_asset\<close> into \<open>bal_in\<close> and pays \<open>pays_asset\<close> out
  of \<open>bal_out\<close>.\<close>

definition lp_exchange_amounts ::
    "fc_lib \<Rightarrow> liquidity_pool_exchange_operation \<Rightarrow> liquidity_pool_object \<Rightarrow> asset_id_type \<Rightarrow> asset_object \<Rightarrow>
     asset_id_type \<Rightarrow> asset_object \<Rightarrow> share_type \<Rightarrow> share_type \<Rightarrow> lp_exchange_state result" where
  "lp_exchange_amounts fc op pool recv_asset recv_obj pays_asset pays_obj bal_in bal_out =
     bnd (calculate_market_fee recv_asset recv_obj (lpx_amount_to_sell op) True) (\<lambda>maker_market_fee.
     bnd (asset_less maker_market_fee (lpx_amount_to_sell op)) (\<lambda>ok.
     FC_ASSERT ok
    (bnd (asset_sub fc (lpx_amount_to_sell op) maker_market_fee) (\<lambda>pool_receives.
     bnd (lp_exchange_delta fc (lpo_virtual_value pool) bal_in bal_out (amount pool_receives)) (\<lambda>delta.
     let pool_taker_fee = u128_mul delta (int (lpo_taker_fee_percent pool)) div GRAPHENE_100_PERCENT in
     FC_ASSERT (pool_taker_fee \<le> delta)
    (let pool_pays = ASSET (to_int64 (u128_sub delta pool_taker_fee)) (asset_id (lpx_min_to_receive op)) in
     bnd (calculate_market_fee pays_asset pays_obj pool_pays False) (\<lambda>taker_market_fee.
     bnd (asset_le taker_market_fee pool_pays) (\<lambda>ok.
     FC_ASSERT ok
    (bnd (asset_sub fc pool_pays taker_market_fee) (\<lambda>account_receives.
     ensure Liquidity_pool_exchange_unfillable_price
       (amount (lpx_min_to_receive op) \<le> amount account_receives)
    (Inr \<lparr>lpxs_pool_receives_asset = recv_asset, lpxs_pool_pays_asset = pays_asset,
          lpxs_pool_pays = pool_pays, lpxs_pool_receives = pool_receives,
          lpxs_account_receives = account_receives, lpxs_maker_market_fee = maker_market_fee,
          lpxs_taker_market_fee = taker_market_fee,
          lpxs_pool_taker_fee = ASSET (to_int64 pool_taker_fee) (asset_id (lpx_min_to_receive op))\<rparr>
     )))))))))))"

definition lp_exchange_do_evaluate ::
    "fc_lib \<Rightarrow> liquidity_pool_exchange_operation \<Rightarrow> fee_state \<Rightarrow> database \<Rightarrow> lp_exchange_state result" where
  "lp_exchange_do_evaluate fc op fs d =
     bnd (store_get (liquidity_pools d) (lpx_pool op)) (\<lambda>pool.
     FC_ASSERT (0 < lpo_balance_a pool \<and> 0 < lpo_balance_b pool)
    (FC_ASSERT ((asset_id (lpx_amount_to_sell op) = lpo_asset_a pool \<and>
                 asset_id (lpx_min_to_receive op) = lpo_asset_b pool) \<or>
                (asset_id (lpx_amount_to_sell op) = lpo_asset_b pool \<and>
                 asset_id (lpx_min_to_receive op) = lpo_asset_a pool))
    (bnd (store_get (assets d) (lpo_asset_a pool)) (\<lambda>asset_obj_a.
     bnd (authorized d (fee_paying_account fs) (lpo_asset_a pool)) (\<lambda>ok.
     FC_ASSERT ok
    (bnd (store_get (assets d) (lpo_asset_b pool)) (\<lambda>asset_obj_b.
     bnd (authorized d (fee_paying_account fs) (lpo_asset_b pool)) (\<lambda>ok.
     FC_ASSERT ok
    (FC_ASSERT (HARDFORK_CORE_2350_TIME \<le> head_block_time d \<longrightarrow>
        market_allowed asset_obj_a (lpo_asset_b pool) \<and> market_allowed asset_obj_b (lpo_asset_a pool))
    (if asset_id (lpx_amount_to_sell op) = lpo_asset_a pool
     then lp_exchange_amounts fc op pool (lpo_asset_a pool) asset_obj_a (lpo_asset_b pool) asset_obj_b
            (lpo_balance_a pool) (lpo_balance_b pool)
     else lp_exchange_amounts fc op pool (lpo_asset_b pool) asset_obj_b (lpo_asset_a pool) asset_obj_a
            (lpo_balance_b pool) (lpo_balance_a pool)))))))))))"

definition lp_exchange_do_apply ::
    "fc_lib \<Rightarrow> liquidity_pool_exchange_operation \<Rightarrow> lp_exchange_state \<Rightarrow> fee_state \<Rightarrow> database \<Rightarrow> database result" where
  "lp_exchange_do_apply fc op ev fs d =
     bnd (debit fc (lpx_account op) (lpx_amount_to_sell op) d) (\<lambda>d.
     bnd (adjust_balance fc (lpx_account op) (lpxs_account_receives ev) d) (\<lambda>d.
     bnd (store_get (liquidity_pools d) (lpx_pool op)) (\<lambda>pool.
     bnd (store_get (assets d) (lpo_share_asset pool)) (\<lambda>share_asset_obj.
     bnd (store_get (accounts d) (issuer share_asset_obj)) (\<lambda>pool_owner.
     bnd (store_get (assets d) (lpxs_pool_receives_asset ev)) (\<lambda>recv_obj.
     bnd (pay_market_fees fc (Some pool_owner) (lpxs_pool_receives_asset ev) recv_obj
            (lpx_amount_to_sell op) True (Some (lpxs_maker_market_fee ev)) d) (\<lambda>(_, d).
     bnd (store_get (accounts d) (fee_paying_account fs)) (\<lambda>payer.
     bnd (store_get (assets d) (lpxs_pool_pays_asset ev)) (\<lambda>pays_obj.
     bnd (pay_market_fees fc (Some payer) (lpxs_pool_pays_asset ev) pays_obj
            (lpxs_pool_pays ev) False (Some (lpxs_taker_market_fee ev)) d) (\<lambda>(_, d).
     bnd (if asset_id (lpx_amount_to_sell op) = lpo_asset_a pool then
            bnd (safe_add fc (lpo_balance_a pool) (amount (lpxs_pool_receives ev))) (\<lambda>a.
            bnd (safe_sub fc (lpo_balance_b pool) (amount (lpxs_pool_pays ev))) (\<lambda>b.
            Inr (update_virtual_value (pool\<lparr>lpo_balance_a := a, lpo_balance_b := b\<rparr>))))
          else
            bnd (safe_add fc (lpo_balance_b pool) (amount (lpxs_pool_receives ev))) (\<lambda>b.
            bnd (safe_sub fc (lpo_balance_a pool) (amount (lpxs_pool_pays ev))) (\<lambda>a.
            Inr (update_virtual_value (pool\<lparr>lpo_balance_b := b, lpo_balance_a := a\<rparr>))))) (\<lambda>pool'.
     FC_ASSERT (0 < lpo_balance_a pool' \<and> 0 < lpo_balance_b pool')
    (FC_ASSERT (lpo_virtual_value pool \<le> lpo_virtual_value pool')
    (Inr (d\<lparr>liquidity_pools := store_put (liquidity_pools d) (lpx_pool op) pool'\<rparr>))))))))))))))"

text \<open>The whole operations.\<close>

definition run_lp_create ::
    "fc_lib \<Rightarrow> share_type option \<Rightarrow> liquidity_pool_create_operation \<Rightarrow> database \<Rightarrow> database result" where
  "run_lp_create fc req op d =
     run_operation fc req (lpc_account op) (lpc_fee op) (lp_create_do_evaluate op) (lp_create_do_apply op) d"

definition run_lp_delete ::
    "fc_lib \<Rightarrow> share_type option \<Rightarrow> liquidity_pool_delete_operation \<Rightarrow> database \<Rightarrow> database result" where
  "run_lp_delete fc req op d =
     run_operation fc req (lpdel_account op) (lpdel_fee op) (lp_delete_do_evaluate op) (lp_delete_do_apply op) d"

definition run_lp_update ::
    "fc_lib \<Rightarrow> share_type option \<Rightarrow> liquidity_pool_update_operation \<Rightarrow> database \<Rightarrow> database result" where
  "run_lp_update fc req op d =
     run_operation fc req (lpu_account op) (lpu_fee op) (lp_update_do_evaluate op) (lp_update_do_apply op) d"

definition run_lp_deposit ::
    "fc_lib \<Rightarrow> share_type option \<Rightarrow> liquidity_pool_deposit_operation \<Rightarrow> database \<Rightarrow> database result" where
  "run_lp_deposit fc req op d =
     run_operation fc req (lpd_account op) (lpd_fee op) (lp_deposit_do_evaluate fc op) (lp_deposit_do_apply fc op) d"

definition run_lp_withdraw ::
    "fc_lib \<Rightarrow> share_type option \<Rightarrow> liquidity_pool_withdraw_operation \<Rightarrow> database \<Rightarrow> database result" where
  "run_lp_withdraw fc req op d =
     run_operation fc req (lpw_account op) (lpw_fee op) (lp_withdraw_do_evaluate op) (lp_withdraw_do_apply fc op) d"

definition run_lp_exchange ::
    "fc_lib \<Rightarrow> share_type option \<Rightarrow> liquidity_pool_exchange_operation \<Rightarrow> database \<Rightarrow> database result" where
  "run_lp_exchange fc req op d =
     run_operation fc req (lpx_account op) (lpx_fee op) (lp_exchange_do_evaluate fc op) (lp_exchange_do_apply fc op) d"

text \<open>The pool after an exchange in either direction.\<close>

definition exchanged_pool ::
    "liquidity_pool_exchange_operation \<Rightarrow> lp_exchange_state \<Rightarrow> liquidity_pool_object \<Rightarrow> liquidity_pool_object" where
  "exchanged_pool op ev pool =
     (if asset_id (lpx_amount_to_sell op) = lpo_asset_a pool
      then pool\<lparr>lpo_balance_a := lpo_balance_a pool + amount (lpxs_pool_receives ev),
                lpo_balance_b := lpo_balance_b pool - amount (lpxs_pool_pays ev)\<rparr>
      else pool\<lparr>lpo_balance_b := lpo_balance_b pool + amount (lpxs_pool_receives ev),
                lpo_balance_a := lpo_balance_a pool - amount (lpxs_pool_pays ev)\<rparr>)"

section \<open>Conservation\<close>

lemma gap_step_pool_put:
  assumes "store_find (liquidity_pools d) k = Some p"
    and "lpo_asset_a p' = lpo_asset_a p" "lpo_asset_b p' = lpo_asset_b p"
    and "pool_ok p \<Longrightarrow> pool_ok p'"
  shows "gap_step d (d\<lparr>liquidity_pools := store_put (liquidity_pools d) k p'\<rparr>)
    (\<lambda>a. amt_at (lpo_asset_a p) (lpo_balance_a p' - lpo_balance_a p) a +
         amt_at (lpo_asset_b p) (lpo_balance_b p' - lpo_balance_b p) a)"
  using assms store_all_find[of pool_ok "liquidity_pools d" k p]
  by (auto simp: gap_step_def gap_defs wf_defs balances_nonneg_def pools_total_def
      store_sum_put amt_at_def store_all_put)

lemma gap_step_pool_del:
  assumes "store_find (liquidity_pools d) k = Some p" "lpo_balance_a p = 0" "lpo_balance_b p = 0"
  shows "conserves d (d\<lparr>liquidity_pools := store_del (liquidity_pools d) k\<rparr>)"
  using assms by (auto simp: gap_step_def gap_defs wf_defs balances_nonneg_def pools_total_def
      store_sum_del store_all_del)

lemma gap_step_pool_new:
  assumes "lpo_balance_a p = 0" "lpo_balance_b p = 0" "lpo_virtual_value p = 0"
  shows "conserves d (d\<lparr>liquidity_pools := store_add (liquidity_pools d) p\<rparr>)"
  using assms by (auto simp: gap_step_def gap_defs wf_defs balances_nonneg_def pools_total_def
      store_all_add pool_ok_def pool_int64_def)

lemma pool_fields [simp]:
  "lpo_asset_a (update_virtual_value p) = lpo_asset_a p" "lpo_asset_b (update_virtual_value p) = lpo_asset_b p"
  "lpo_balance_a (update_virtual_value p) = lpo_balance_a p" "lpo_balance_b (update_virtual_value p) = lpo_balance_b p"
  "lpo_share_asset (update_virtual_value p) = lpo_share_asset p"
  "lpo_taker_fee_percent (update_virtual_value p) = lpo_taker_fee_percent p"
  "lpo_withdrawal_fee_percent (update_virtual_value p) = lpo_withdrawal_fee_percent p"
  by (simp_all add: update_virtual_value_def)

lemma update_virtual_value_exact:
  assumes "pool_int64 p" "0 \<le> lpo_balance_a p" "0 \<le> lpo_balance_b p"
  shows "lpo_virtual_value (update_virtual_value p) = lpo_balance_a p * lpo_balance_b p"
  using assms int64_prod_bound[of "lpo_balance_a p" "lpo_balance_b p"]
  by (simp add: update_virtual_value_def pool_int64_def u128_id u128_mul_id in_int64_def)

lemma pool_ok_update:
  assumes "pool_int64 p" "0 \<le> lpo_balance_a p" "0 \<le> lpo_balance_b p"
    "lpo_balance_a p = 0 \<longleftrightarrow> lpo_balance_b p = 0"
  shows "pool_ok (update_virtual_value p)"
  using assms update_virtual_value_exact[OF assms(1-3)] by (simp add: pool_ok_def pool_int64_def)

lemma lp_create_conserves:
  assumes "lp_create_do_apply op ev fs d = Inr d'"
  shows "conserves d d'"
proof -
  let ?p = "new_liquidity_pool_object op" and ?x = "Some (next_id (liquidity_pools d))"
  let ?d1 = "d\<lparr>liquidity_pools := store_add (liquidity_pools d) ?p\<rparr>"
  from assms obtain ao where ao: "store_find (assets ?d1) (lpc_share_asset op) = Some ao"
    and d': "d' = ?d1\<lparr>assets := store_put (assets ?d1) (lpc_share_asset op) (ao\<lparr>for_liquidity_pool := ?x\<rparr>)\<rparr>"
    by (auto simp: lp_create_do_apply_def)
  have "conserves d ?d1" by (rule gap_step_pool_new) (simp_all add: new_liquidity_pool_object_def)
  moreover have "conserves ?d1 d'" unfolding d' using ao by (rule gap_step_asset_link) simp_all
  ultimately show ?thesis by (rule conserves_trans)
qed

lemma lp_delete_conserves:
  assumes "lp_delete_do_evaluate op fs d0 = Inr ev" "fee_frame d0 d" "lp_delete_do_apply op ev fs d = Inr d'"
  shows "conserves d d'"
proof -
  from assms obtain pool ao where p: "store_find (liquidity_pools d) (lpdel_pool op) = Some pool"
    "lpo_balance_a pool = 0" "lpo_balance_b pool = 0"
    and ao: "store_find (assets d) (lpo_share_asset pool) = Some ao"
    and d': "d' = d\<lparr>assets := store_put (assets d) (lpo_share_asset pool) (ao\<lparr>for_liquidity_pool := None\<rparr>),
      liquidity_pools := store_del (liquidity_pools d) (lpdel_pool op)\<rparr>"
    by (auto simp: lp_delete_do_evaluate_def lp_delete_do_apply_def fee_frame_fields)
  let ?d1 = "d\<lparr>assets := store_put (assets d) (lpo_share_asset pool) (ao\<lparr>for_liquidity_pool := None\<rparr>)\<rparr>"
  have "conserves d ?d1" using ao by (rule gap_step_asset_link) simp_all
  moreover have "conserves ?d1 d'" using gap_step_pool_del[of ?d1 "lpdel_pool op" pool] p d' by simp
  ultimately show ?thesis by (rule conserves_trans)
qed

lemma lp_update_conserves:
  assumes "lp_update_do_apply op ev fs d = Inr d'"
  shows "conserves d d'"
proof -
  from assms obtain p p' where p: "store_find (liquidity_pools d) (lpu_pool op) = Some p"
    and d': "d' = d\<lparr>liquidity_pools := store_put (liquidity_pools d) (lpu_pool op) p'\<rparr>"
    and p': "lpo_asset_a p' = lpo_asset_a p" "lpo_asset_b p' = lpo_asset_b p"
      "lpo_balance_a p' = lpo_balance_a p" "lpo_balance_b p' = lpo_balance_b p"
      "lpo_virtual_value p' = lpo_virtual_value p"
    by (auto simp: lp_update_do_apply_def split: option.splits)
  from gap_step_pool_put[OF p p'(1,2)] p'(3-5) d' show ?thesis by (simp add: pool_ok_def pool_int64_def)
qed

context fc_safe
begin

lemma pool_add_Inr [simp]: "pool_add fc da db p = Inr p' \<longleftrightarrow>
    in_int64 (lpo_balance_a p + da) \<and> in_int64 (lpo_balance_b p + db) \<and>
    p' = update_virtual_value (p\<lparr>lpo_balance_a := lpo_balance_a p + da, lpo_balance_b := lpo_balance_b p + db\<rparr>)"
  by (auto simp: pool_add_def)

lemma pool_sub_Inr [simp]: "pool_sub fc da db p = Inr p' \<longleftrightarrow>
    in_int64 (lpo_balance_a p - da) \<and> in_int64 (lpo_balance_b p - db) \<and>
    p' = update_virtual_value (p\<lparr>lpo_balance_a := lpo_balance_a p - da, lpo_balance_b := lpo_balance_b p - db\<rparr>)"
  by (auto simp: pool_sub_def)

lemma lp_deposit_amounts_ids:
  "lp_deposit_amounts fc pool m s a b = Inr ev \<Longrightarrow>
   asset_id (lpds_pool_receives_a ev) = lpo_asset_a pool \<and> asset_id (lpds_pool_receives_b ev) = lpo_asset_b pool \<and>
   asset_id (lpds_account_receives ev) = lpo_share_asset pool"
  unfolding lp_deposit_amounts_def Let_def bnd_eq_Inr_iff ensure_eq_Inr_iff sum.inject
  by (elim exE conjE) (hypsubst, simp)

text \<open>What an evaluation of a deposit that succeeds has found.\<close>

lemma lp_deposit_evaluateD:
  assumes "lp_deposit_do_evaluate fc op fs d = Inr ev" "store_find (liquidity_pools d) (lpd_pool op) = Some pool"
  shows "\<exists>ao dyn. store_find (assets d) (lpo_share_asset pool) = Some ao \<and>
    store_find (asset_dyn_data d) (dynamic_asset_data_id ao) = Some dyn \<and>
    asset_id (lpd_amount_a op) = lpo_asset_a pool \<and> asset_id (lpd_amount_b op) = lpo_asset_b pool \<and>
    (lpo_balance_a pool = 0) = (lpo_balance_b pool = 0) \<and> (lpo_balance_a pool = 0) = (current_supply dyn = 0) \<and>
    current_supply dyn < max_supply (options ao) \<and>
    (if lpo_balance_a pool = 0
     then issuer ao = lpd_account op \<and>
       ev = \<lparr>lpds_pool_receives_a = lpd_amount_a op, lpds_pool_receives_b = lpd_amount_b op,
         lpds_account_receives = ASSET (max (amount (lpd_amount_a op)) (amount (lpd_amount_b op))) (lpo_share_asset pool)\<rparr>
     else lp_deposit_amounts fc pool (max_supply (options ao)) (current_supply dyn)
         (amount (lpd_amount_a op)) (amount (lpd_amount_b op)) = Inr ev)"
  using assms unfolding lp_deposit_do_evaluate_def
  by (simp split del: if_split) (elim exE conjE, simp split: if_splits)

lemma lp_deposit_assets:
  assumes "lp_deposit_do_evaluate fc op fs d = Inr ev" "store_find (liquidity_pools d) (lpd_pool op) = Some pool"
  shows "asset_id (lpds_pool_receives_a ev) = lpo_asset_a pool" "asset_id (lpds_pool_receives_b ev) = lpo_asset_b pool"
    "asset_id (lpds_account_receives ev) = lpo_share_asset pool"
  using lp_deposit_evaluateD[OF assms] by (auto dest: lp_deposit_amounts_ids split: if_splits)

lemma lp_deposit_conserves:
  assumes "lp_deposit_do_evaluate fc op fs d0 = Inr ev" "fee_frame d0 d" "lp_deposit_do_apply fc op ev fs d = Inr d'"
  shows "conserves d d'"
proof -
  from assms(1) obtain pool where p0: "store_find (liquidity_pools d0) (lpd_pool op) = Some pool"
    by (auto simp: lp_deposit_do_evaluate_def)
  note ids = lp_deposit_assets[OF assms(1) p0]
  from assms(3) obtain d1 d2 d3 pool1 ao where
    d1: "debit fc (lpd_account op) (lpds_pool_receives_a ev) d = Inr d1" and
    d2: "debit fc (lpd_account op) (lpds_pool_receives_b ev) d1 = Inr d2" and
    d3: "adjust_balance fc (lpd_account op) (lpds_account_receives ev) d2 = Inr d3" and
    p1: "store_find (liquidity_pools d3) (lpd_pool op) = Some pool1" and
    ao: "store_find (assets d3) (lpo_share_asset pool1) = Some ao" and
    range: "in_int64 (lpo_balance_a pool1 + amount (lpds_pool_receives_a ev))"
      "in_int64 (lpo_balance_b pool1 + amount (lpds_pool_receives_b ev))" and
    pos: "0 < lpo_balance_a pool1 + amount (lpds_pool_receives_a ev)"
      "0 < lpo_balance_b pool1 + amount (lpds_pool_receives_b ev)" and
    d': "modify_dyn (dynamic_asset_data_id ao) (\<lambda>dd.
            bnd (safe_add fc (current_supply dd) (amount (lpds_account_receives ev))) (\<lambda>x.
            FC_ASSERT (0 < x) (Inr (dd\<lparr>current_supply := x\<rparr>))))
          (d3\<lparr>liquidity_pools := store_put (liquidity_pools d3) (lpd_pool op)
            (update_virtual_value (pool1\<lparr>lpo_balance_a := lpo_balance_a pool1 + amount (lpds_pool_receives_a ev),
               lpo_balance_b := lpo_balance_b pool1 + amount (lpds_pool_receives_b ev)\<rparr>))\<rparr>) = Inr d'"
    by (auto simp: lp_deposit_do_apply_def simp del: debit_iff)
  have "liquidity_pools d3 = liquidity_pools d0"
    using d1 d2 d3 assms(2) by (auto simp: adjust_balance_fields fee_frame_fields)
  with p0 p1 have pool: "pool1 = pool" by simp
  note pp = gap_step_pool_put[OF p1, of "update_virtual_value (pool1\<lparr>lpo_balance_a := lpo_balance_a pool1 + amount (lpds_pool_receives_a ev),
               lpo_balance_b := lpo_balance_b pool1 + amount (lpds_pool_receives_b ev)\<rparr>)"]
  have dyn: "gap_step (d3\<lparr>liquidity_pools := store_put (liquidity_pools d3) (lpd_pool op)
            (update_virtual_value (pool1\<lparr>lpo_balance_a := lpo_balance_a pool1 + amount (lpds_pool_receives_a ev),
               lpo_balance_b := lpo_balance_b pool1 + amount (lpds_pool_receives_b ev)\<rparr>))\<rparr>) d'
        (amt_at (lpo_share_asset pool1) (- amount (lpds_account_receives ev)))"
    using d' by (rule modify_asset_dyn_step) (use ao in auto)
  show ?thesis
    by (rule gap_step_then[OF gap_step_trans[OF gap_step_trans[OF gap_step_trans[OF gap_step_debit[OF d1]
          gap_step_debit[OF d2]] gap_step_adjust[OF d3]] pp] dyn])
      (use range pos in \<open>simp_all add: ids pool amt_at_neg pool_int64_def pool_ok_update\<close>)
qed

lemma lp_withdraw_assets:
  assumes "lp_withdraw_do_evaluate op fs d = Inr ev" "store_find (liquidity_pools d) (lpw_pool op) = Some pool"
  shows "asset_id (lpws_pool_pays_a ev) = lpo_asset_a pool" "asset_id (lpws_pool_pays_b ev) = lpo_asset_b pool"
    "asset_id (lpw_share_amount op) = lpo_share_asset pool"
  using assms by (auto simp: lp_withdraw_do_evaluate_def split: if_splits)

text \<open>Withdrawn amounts are never negative.\<close>

lemma if_pos_adjust:
  assumes "(if 0 < amount x then adjust_balance fc acct x d else Inr d) = Inr d'" "0 \<le> amount x"
  shows "adjust_balance fc acct x d = Inr d'"
  using assms by (auto simp: adjust_balance_def split: if_splits)

lemma lp_withdraw_amount_bounds:
  assumes "lp_withdraw_amount share bal supply pct = Inr (x, f)" "in_int64 bal" "0 \<le> bal"
  shows "0 \<le> x" "x < 2 ^ 63" "0 \<le> f" "f < 2 ^ 63" "x + f < bal"
    "x + f = u128_mul (u128 share) (u128 bal) div u128 supply"
proof -
  let ?a = "u128_mul (u128 share) (u128 bal) div u128 supply"
  let ?f = "u128_mul ?a (int pct) div GRAPHENE_100_PERCENT"
  have b: "u128 bal = bal" using assms(2,3) by (simp add: u128_id in_int64_def)
  from assms(1) have "?a < bal" "?f \<le> ?a" and xf: "x = u128_sub ?a ?f" "f = ?f"
    unfolding lp_withdraw_amount_def b by auto
  moreover have "0 \<le> ?a" by (simp add: u128_mul_def u128_def pos_imp_zdiv_nonneg_iff div_int_pos_iff)
  moreover have "0 \<le> ?f" by (simp add: u128_mul_def GRAPHENE_100_PERCENT_def pos_imp_zdiv_nonneg_iff)
  moreover have "bal < 2 ^ 63" using assms(2) by (simp add: in_int64_def)
  ultimately have sub: "x = ?a - ?f" using xf(1) by (simp add: u128_sub_id)
  show "0 \<le> x" "x < 2 ^ 63" "0 \<le> f" "f < 2 ^ 63" "x + f < bal" "x + f = ?a"
    using sub xf(2) \<open>?a < bal\<close> \<open>?f \<le> ?a\<close> \<open>0 \<le> ?f\<close> \<open>bal < 2 ^ 63\<close> by linarith+
qed

lemma lp_withdraw_amount_exact:
  assumes "lp_withdraw_amount share bal supply pct = Inr (x, f)" "in_int64 bal" "0 \<le> bal"
  shows "to_int64 x = x \<and> 0 \<le> x \<and> x + f < bal \<and> 0 \<le> f"
  using lp_withdraw_amount_bounds[OF assms] by (auto intro!: to_int64_id simp: in_int64_def)

lemma lp_withdraw_evaluateD:
  assumes "lp_withdraw_do_evaluate op fs d = Inr ev" "store_find (liquidity_pools d) (lpw_pool op) = Some pool"
  shows "\<exists>ao dyn. store_find (assets d) (lpo_share_asset pool) = Some ao \<and>
    store_find (asset_dyn_data d) (dynamic_asset_data_id ao) = Some dyn \<and>
    0 < lpo_balance_a pool \<and> 0 < lpo_balance_b pool \<and>
    amount (lpw_share_amount op) \<le> current_supply dyn \<and>
    (if current_supply dyn = amount (lpw_share_amount op)
     then lpws_pool_pays_a ev = ASSET (lpo_balance_a pool) (lpo_asset_a pool) \<and>
       lpws_pool_pays_b ev = ASSET (lpo_balance_b pool) (lpo_asset_b pool)
     else \<exists>a fa b fb. lp_withdraw_amount (amount (lpw_share_amount op)) (lpo_balance_a pool) (current_supply dyn)
              (lpo_withdrawal_fee_percent pool) = Inr (a, fa) \<and>
       lp_withdraw_amount (amount (lpw_share_amount op)) (lpo_balance_b pool) (current_supply dyn)
              (lpo_withdrawal_fee_percent pool) = Inr (b, fb) \<and>
       lpws_pool_pays_a ev = ASSET (to_int64 a) (lpo_asset_a pool) \<and>
       lpws_pool_pays_b ev = ASSET (to_int64 b) (lpo_asset_b pool))"
  using assms unfolding lp_withdraw_do_evaluate_def
  by (simp split del: if_split) (elim exE conjE, auto split: if_splits)

lemma lp_withdraw_pays_bounds:
  assumes "lp_withdraw_do_evaluate op fs d = Inr ev" "store_find (liquidity_pools d) (lpw_pool op) = Some pool"
    and "pool_int64 pool"
  shows "0 \<le> amount (lpws_pool_pays_a ev)" "0 \<le> amount (lpws_pool_pays_b ev)"
    "amount (lpws_pool_pays_a ev) \<le> lpo_balance_a pool" "amount (lpws_pool_pays_b ev) \<le> lpo_balance_b pool"
  using lp_withdraw_evaluateD[OF assms(1,2)] assms(3)
  by (auto simp: pool_int64_def split: if_splits dest!: lp_withdraw_amount_exact)

lemma lp_withdraw_conserves:
  assumes "lp_withdraw_do_evaluate op fs d0 = Inr ev" "fee_frame d0 d" "lp_withdraw_do_apply fc op ev fs d = Inr d'"
  shows "conserves d d'"
proof (rule gap_step_wf)
  assume wf: "wf_db d"
  from assms(1) obtain pool where p0: "store_find (liquidity_pools d0) (lpw_pool op) = Some pool"
    by (auto simp: lp_withdraw_do_evaluate_def)
  note ids = lp_withdraw_assets[OF assms(1) p0]
  have ok: "pool_ok pool"
    using wf p0 assms(2) store_all_find[of pool_ok "liquidity_pools d" "lpw_pool op" pool]
    by (simp add: wf_defs fee_frame_fields)
  then have range: "pool_int64 pool" by (simp add: pool_ok_def)
  note pos = lp_withdraw_pays_bounds[OF assms(1) p0 range]
  from assms(3) obtain d1 d2 d3 d4 pool1 ao where
    d1: "debit fc (lpw_account op) (lpw_share_amount op) d = Inr d1" and
    d2: "(if 0 < amount (lpws_pool_pays_a ev)
          then adjust_balance fc (lpw_account op) (lpws_pool_pays_a ev) d1 else Inr d1) = Inr d2" and
    d3: "(if 0 < amount (lpws_pool_pays_b ev)
          then adjust_balance fc (lpw_account op) (lpws_pool_pays_b ev) d2 else Inr d2) = Inr d3" and
    p1: "store_find (liquidity_pools d3) (lpw_pool op) = Some pool1" and
    ao: "store_find (assets d3) (lpo_share_asset pool1) = Some ao" and
    sub: "in_int64 (lpo_balance_a pool1 - amount (lpws_pool_pays_a ev))"
      "in_int64 (lpo_balance_b pool1 - amount (lpws_pool_pays_b ev))" and
    zero: "(lpo_balance_a pool1 - amount (lpws_pool_pays_a ev) = 0) =
      (lpo_balance_b pool1 - amount (lpws_pool_pays_b ev) = 0)" and
    d4: "modify_dyn (dynamic_asset_data_id ao) (\<lambda>dd.
            bnd (safe_sub fc (current_supply dd) (amount (lpw_share_amount op))) (\<lambda>x.
            FC_ASSERT ((lpo_balance_a pool1 - amount (lpws_pool_pays_a ev) = 0) = (x = 0))
           (Inr (dd\<lparr>current_supply := x\<rparr>)))) d3 = Inr d4" and
    d': "d' = d4\<lparr>liquidity_pools := store_put (liquidity_pools d4) (lpw_pool op)
            (update_virtual_value (pool1\<lparr>lpo_balance_a := lpo_balance_a pool1 - amount (lpws_pool_pays_a ev),
               lpo_balance_b := lpo_balance_b pool1 - amount (lpws_pool_pays_b ev)\<rparr>))\<rparr>"
    by (auto simp: lp_withdraw_do_apply_def simp del: debit_iff)
  note a2 = if_pos_adjust[OF d2 pos(1)] and a3 = if_pos_adjust[OF d3 pos(2)]
  have "liquidity_pools d3 = liquidity_pools d0"
    using d1 a2 a3 assms(2) by (auto simp: adjust_balance_fields fee_frame_fields)
  with p0 p1 have pool: "pool1 = pool" by simp
  have dyn: "gap_step d3 d4 (amt_at (lpo_share_asset pool1) (amount (lpw_share_amount op)))"
    using d4 ao by (rule modify_asset_dyn_step) auto
  have p4: "store_find (liquidity_pools d4) (lpw_pool op) = Some pool1"
    using d4 p1 by (auto elim: modify_dynE)
  note pp = gap_step_pool_put[OF p4, of "update_virtual_value (pool1\<lparr>lpo_balance_a := lpo_balance_a pool1 - amount (lpws_pool_pays_a ev),
               lpo_balance_b := lpo_balance_b pool1 - amount (lpws_pool_pays_b ev)\<rparr>)"]
  show ?thesis
    unfolding d'
    by (rule gap_step_then[OF gap_step_trans[OF gap_step_trans[OF gap_step_trans[OF gap_step_debit[OF d1]
          gap_step_adjust[OF a2]] gap_step_adjust[OF a3]] dyn] pp])
      (use sub pos zero in \<open>simp_all add: ids pool amt_at_neg pool_int64_def pool_ok_update\<close>)
qed

lemma calculate_percent_nonneg: "calculate_percent v p = Inr x \<Longrightarrow> 0 \<le> x"
proof -
  assume "calculate_percent v p = Inr x"
  then have x: "x = to_int64 (u128_mul (u128 v) (int p) div GRAPHENE_100_PERCENT)"
    and le: "u128_mul (u128 v) (int p) div GRAPHENE_100_PERCENT \<le> GRAPHENE_MAX_SHARE_SUPPLY"
    by (auto simp: calculate_percent_def)
  have "0 \<le> u128_mul (u128 v) (int p) div GRAPHENE_100_PERCENT"
    by (simp add: u128_mul_def GRAPHENE_100_PERCENT_def pos_imp_zdiv_nonneg_iff)
  with x le show "0 \<le> x" by (simp add: to_int64_id share_in_int64)
qed

lemma calculate_market_fee_nonneg:
  "calculate_market_fee i ao t maker = Inr f \<Longrightarrow> 0 \<le> max_market_fee (options ao) \<Longrightarrow> 0 \<le> amount f"
  by (auto simp: calculate_market_fee_def split: if_splits dest: calculate_percent_nonneg)

lemma lp_exchange_amountsD:
  assumes "lp_exchange_amounts fc op pool ra ro pa po bal_in bal_out = Inr ev"
  shows "lpxs_pool_receives_asset ev = ra" "lpxs_pool_pays_asset ev = pa"
    "calculate_market_fee ra ro (lpx_amount_to_sell op) True = Inr (lpxs_maker_market_fee ev)"
    "amount (lpxs_maker_market_fee ev) < amount (lpx_amount_to_sell op)"
    "lpxs_pool_receives ev = ASSET (amount (lpx_amount_to_sell op) - amount (lpxs_maker_market_fee ev))
      (asset_id (lpx_amount_to_sell op))"
    "\<exists>delta. lp_exchange_delta fc (lpo_virtual_value pool) bal_in bal_out (amount (lpxs_pool_receives ev)) = Inr delta \<and>
      u128_mul delta (int (lpo_taker_fee_percent pool)) div GRAPHENE_100_PERCENT \<le> delta \<and>
      lpxs_pool_pays ev = ASSET (to_int64 (u128_sub delta
        (u128_mul delta (int (lpo_taker_fee_percent pool)) div GRAPHENE_100_PERCENT))) (asset_id (lpx_min_to_receive op))"
    "calculate_market_fee pa po (lpxs_pool_pays ev) False = Inr (lpxs_taker_market_fee ev)"
    "lpxs_account_receives ev = ASSET (amount (lpxs_pool_pays ev) - amount (lpxs_taker_market_fee ev))
      (asset_id (lpx_min_to_receive op))"
    "amount (lpx_min_to_receive op) \<le> amount (lpxs_account_receives ev)"
proof -
  let ?sell = "lpx_amount_to_sell op" and ?want = "lpx_min_to_receive op"
  let ?fee = "\<lambda>delta. u128_mul delta (int (lpo_taker_fee_percent pool)) div GRAPHENE_100_PERCENT"
  let ?pays = "\<lambda>delta. ASSET (to_int64 (u128_sub delta (?fee delta))) (asset_id ?want)"
  from assms obtain mf delta tf where
    f: "calculate_market_fee ra ro ?sell True = Inr mf" "amount mf < amount ?sell"
      "lp_exchange_delta fc (lpo_virtual_value pool) bal_in bal_out (amount ?sell - amount mf) = Inr delta"
      "?fee delta \<le> delta" "calculate_market_fee pa po (?pays delta) False = Inr tf"
      "amount ?want \<le> amount (?pays delta) - amount tf"
    and ev: "ev = \<lparr>lpxs_pool_receives_asset = ra, lpxs_pool_pays_asset = pa, lpxs_pool_pays = ?pays delta,
          lpxs_pool_receives = ASSET (amount ?sell - amount mf) (asset_id ?sell),
          lpxs_account_receives = ASSET (amount (?pays delta) - amount tf) (asset_id ?want),
          lpxs_maker_market_fee = mf, lpxs_taker_market_fee = tf,
          lpxs_pool_taker_fee = ASSET (to_int64 (?fee delta)) (asset_id ?want)\<rparr>"
    unfolding lp_exchange_amounts_def Let_def bnd_eq_Inr_iff ensure_eq_Inr_iff asset_sub_Inr
      asset_less_Inr asset_le_Inr by (elim exE conjE) (clarify, simp)
  show "lpxs_pool_receives_asset ev = ra" "lpxs_pool_pays_asset ev = pa"
    "calculate_market_fee ra ro ?sell True = Inr (lpxs_maker_market_fee ev)"
    "amount (lpxs_maker_market_fee ev) < amount ?sell"
    "lpxs_pool_receives ev = ASSET (amount ?sell - amount (lpxs_maker_market_fee ev)) (asset_id ?sell)"
    "calculate_market_fee pa po (lpxs_pool_pays ev) False = Inr (lpxs_taker_market_fee ev)"
    "lpxs_account_receives ev = ASSET (amount (lpxs_pool_pays ev) - amount (lpxs_taker_market_fee ev)) (asset_id ?want)"
    "amount ?want \<le> amount (lpxs_account_receives ev)"
    using f ev by simp_all
  show "\<exists>delta. lp_exchange_delta fc (lpo_virtual_value pool) bal_in bal_out (amount (lpxs_pool_receives ev)) = Inr delta \<and>
      ?fee delta \<le> delta \<and> lpxs_pool_pays ev = ?pays delta"
    using f(3,4) ev by (intro exI[of _ delta]) simp
qed

text \<open>What an evaluation of an exchange that succeeds has found: the direction of the trade, the
  objects of the two assets and the amounts.\<close>

lemma lp_exchange_evaluateE:
  assumes "lp_exchange_do_evaluate fc op fs d = Inr ev" "store_find (liquidity_pools d) (lpx_pool op) = Some pool"
  obtains (sells_a) oa ob where "0 < lpo_balance_a pool" "0 < lpo_balance_b pool"
      "asset_id (lpx_amount_to_sell op) = lpo_asset_a pool" "asset_id (lpx_min_to_receive op) = lpo_asset_b pool"
      "store_find (assets d) (lpo_asset_a pool) = Some oa" "store_find (assets d) (lpo_asset_b pool) = Some ob"
      "lp_exchange_amounts fc op pool (lpo_asset_a pool) oa (lpo_asset_b pool) ob
         (lpo_balance_a pool) (lpo_balance_b pool) = Inr ev"
  | (sells_b) oa ob where "0 < lpo_balance_a pool" "0 < lpo_balance_b pool"
      "asset_id (lpx_amount_to_sell op) \<noteq> lpo_asset_a pool"
      "asset_id (lpx_amount_to_sell op) = lpo_asset_b pool" "asset_id (lpx_min_to_receive op) = lpo_asset_a pool"
      "store_find (assets d) (lpo_asset_a pool) = Some oa" "store_find (assets d) (lpo_asset_b pool) = Some ob"
      "lp_exchange_amounts fc op pool (lpo_asset_b pool) ob (lpo_asset_a pool) oa
         (lpo_balance_b pool) (lpo_balance_a pool) = Inr ev"
proof (cases "asset_id (lpx_amount_to_sell op) = lpo_asset_a pool")
  case True
  then show thesis using assms sells_a by (auto simp: lp_exchange_do_evaluate_def)
next
  case False
  then show thesis using assms sells_b by (auto simp: lp_exchange_do_evaluate_def)
qed

lemma lp_exchange_evaluate_pool:
  assumes "lp_exchange_do_evaluate fc op fs d = Inr ev"
  obtains pool where "store_find (liquidity_pools d) (lpx_pool op) = Some pool"
  using assms by (auto simp: lp_exchange_do_evaluate_def)

lemma lp_exchange_applyE:
  assumes "lp_exchange_do_apply fc op ev fs d = Inr d'"
  obtains d1 d2 d3 d4 pool po ro pa pp f1 f2 where
    "debit fc (lpx_account op) (lpx_amount_to_sell op) d = Inr d1"
    "adjust_balance fc (lpx_account op) (lpxs_account_receives ev) d1 = Inr d2"
    "store_find (liquidity_pools d2) (lpx_pool op) = Some pool"
    "store_find (assets d2) (lpxs_pool_receives_asset ev) = Some ro"
    "pay_market_fees fc (Some po) (lpxs_pool_receives_asset ev) ro
            (lpx_amount_to_sell op) True (Some (lpxs_maker_market_fee ev)) d2 = Inr (f1, d3)"
    "store_find (assets d3) (lpxs_pool_pays_asset ev) = Some pa"
    "pay_market_fees fc (Some pp) (lpxs_pool_pays_asset ev) pa
            (lpxs_pool_pays ev) False (Some (lpxs_taker_market_fee ev)) d3 = Inr (f2, d4)"
    "pool_int64 (exchanged_pool op ev pool)"
    "0 < lpo_balance_a (exchanged_pool op ev pool)" "0 < lpo_balance_b (exchanged_pool op ev pool)"
    "lpo_virtual_value pool \<le> lpo_virtual_value (update_virtual_value (exchanged_pool op ev pool))"
    "d' = d4\<lparr>liquidity_pools := store_put (liquidity_pools d4) (lpx_pool op)
       (update_virtual_value (exchanged_pool op ev pool))\<rparr>"
  using assms unfolding lp_exchange_do_apply_def bnd_eq_Inr_iff ensure_eq_Inr_iff store_get_Inr split_paired_Ex split_conv
  apply (elim exE conjE)
  apply (rule that, assumption+)
  apply (simp_all add: exchanged_pool_def pool_int64_def split: if_splits)
  done

text \<open>The amounts and assets of an exchange, in either direction.\<close>

lemma lp_exchange_ids:
  assumes "lp_exchange_do_evaluate fc op fs d = Inr ev" "store_find (liquidity_pools d) (lpx_pool op) = Some pool"
    and "store_all (\<lambda>ao. 0 \<le> max_market_fee (options ao)) (assets d)"
  shows "lpxs_pool_receives_asset ev = asset_id (lpx_amount_to_sell op)" (is ?A)
    "lpxs_pool_pays_asset ev = asset_id (lpx_min_to_receive op)" (is ?B)
    "asset_id (lpxs_maker_market_fee ev) = asset_id (lpx_amount_to_sell op)" (is ?C)
    "asset_id (lpxs_taker_market_fee ev) = asset_id (lpx_min_to_receive op)" (is ?D)
    "0 \<le> amount (lpxs_maker_market_fee ev)" (is ?E) "0 \<le> amount (lpxs_taker_market_fee ev)" (is ?F)
    "asset_id (lpxs_account_receives ev) = asset_id (lpx_min_to_receive op)" (is ?G)
    "amount (lpxs_pool_receives ev) = amount (lpx_amount_to_sell op) - amount (lpxs_maker_market_fee ev)" (is ?H)
    "amount (lpxs_account_receives ev) = amount (lpxs_pool_pays ev) - amount (lpxs_taker_market_fee ev)" (is ?I)
    "amount (lpx_min_to_receive op) \<le> amount (lpxs_account_receives ev)" (is ?J)
proof -
  have fee: "0 \<le> max_market_fee (options ao)" if "store_find (assets d) i = Some ao" for i ao
    by (rule store_all_find[OF assms(3) that])
  have "?A \<and> ?B \<and> ?C \<and> ?D \<and> ?E \<and> ?F \<and> ?G \<and> ?H \<and> ?I \<and> ?J" using assms(1,2)
  proof (cases rule: lp_exchange_evaluateE)
    case (sells_a oa ob)
    note D = lp_exchange_amountsD[OF sells_a(7)]
    then show ?thesis using sells_a calculate_market_fee_asset[OF D(3)] calculate_market_fee_asset[OF D(7)]
      calculate_market_fee_nonneg[OF D(3)] calculate_market_fee_nonneg[OF D(7)] fee by simp
  next
    case (sells_b oa ob)
    note D = lp_exchange_amountsD[OF sells_b(8)]
    then show ?thesis using sells_b calculate_market_fee_asset[OF D(3)] calculate_market_fee_asset[OF D(7)]
      calculate_market_fee_nonneg[OF D(3)] calculate_market_fee_nonneg[OF D(7)] fee by simp
  qed
  then show ?A ?B ?C ?D ?E ?F ?G ?H ?I ?J by auto
qed

lemma wf_db_market_fees: "wf_db d \<Longrightarrow> store_all (\<lambda>ao. 0 \<le> max_market_fee (options ao)) (assets d)"
  by (simp add: wf_defs)

lemma lp_exchange_direction:
  assumes "lp_exchange_do_evaluate fc op fs d = Inr ev" "store_find (liquidity_pools d) (lpx_pool op) = Some pool"
  shows "if asset_id (lpx_amount_to_sell op) = lpo_asset_a pool
    then asset_id (lpx_min_to_receive op) = lpo_asset_b pool
    else asset_id (lpx_amount_to_sell op) = lpo_asset_b pool \<and> asset_id (lpx_min_to_receive op) = lpo_asset_a pool"
  using assms by (cases rule: lp_exchange_evaluateE) simp_all

lemma lp_exchange_conserves:
  assumes "lp_exchange_do_evaluate fc op fs d0 = Inr ev" "fee_frame d0 d" "lp_exchange_do_apply fc op ev fs d = Inr d'"
  shows "conserves d d'"
proof (rule gap_step_wf)
  assume "wf_db d"
  with assms(2) have wf: "store_all (\<lambda>ao. 0 \<le> max_market_fee (options ao)) (assets d0)"
    using wf_db_market_fees[of d] by (simp add: fee_frame_fields)
  from assms(1) obtain pool where p0: "store_find (liquidity_pools d0) (lpx_pool op) = Some pool"
    by (rule lp_exchange_evaluate_pool)
  note ids = lp_exchange_ids[OF assms(1) p0 wf]
  note dir = lp_exchange_direction[OF assms(1) p0]
  from assms(3) obtain d1 d2 d3 d4 pool1 po ro pa pp f1 f2 where
    d1: "debit fc (lpx_account op) (lpx_amount_to_sell op) d = Inr d1" and
    d2: "adjust_balance fc (lpx_account op) (lpxs_account_receives ev) d1 = Inr d2" and
    p1: "store_find (liquidity_pools d2) (lpx_pool op) = Some pool1" and
    ro: "store_find (assets d2) (lpxs_pool_receives_asset ev) = Some ro" and
    d3: "pay_market_fees fc (Some po) (lpxs_pool_receives_asset ev) ro
            (lpx_amount_to_sell op) True (Some (lpxs_maker_market_fee ev)) d2 = Inr (f1, d3)" and
    pa: "store_find (assets d3) (lpxs_pool_pays_asset ev) = Some pa" and
    d4: "pay_market_fees fc (Some pp) (lpxs_pool_pays_asset ev) pa
            (lpxs_pool_pays ev) False (Some (lpxs_taker_market_fee ev)) d3 = Inr (f2, d4)" and
    range: "pool_int64 (exchanged_pool op ev pool1)" "0 < lpo_balance_a (exchanged_pool op ev pool1)"
      "0 < lpo_balance_b (exchanged_pool op ev pool1)" and
    d': "d' = d4\<lparr>liquidity_pools := store_put (liquidity_pools d4) (lpx_pool op)
       (update_virtual_value (exchanged_pool op ev pool1))\<rparr>"
    by (rule lp_exchange_applyE)
  have "liquidity_pools d2 = liquidity_pools d0"
    using d1 d2 assms(2) by (auto simp: adjust_balance_fields fee_frame_fields)
  with p0 p1 have pool: "pool1 = pool" by simp
  have m: "asset_id (lpxs_maker_market_fee ev) = lpxs_pool_receives_asset ev"
    "asset_id (lpxs_taker_market_fee ev) = lpxs_pool_pays_asset ev" using ids by simp_all
  have p4: "store_find (liquidity_pools d4) (lpx_pool op) = Some pool1"
    using p1 pay_market_fees_fields[OF d3 m(1)] pay_market_fees_fields[OF d4 m(2)] by simp
  have pp: "gap_step d4 d' (\<lambda>a. amt_at (asset_id (lpx_amount_to_sell op)) (amount (lpxs_pool_receives ev)) a +
      amt_at (asset_id (lpx_min_to_receive op)) (- amount (lpxs_pool_pays ev)) a)"
    unfolding d' using range dir
    by (intro gap_step_then[OF gap_step_refl gap_step_pool_put[OF p4]])
      (auto simp: pool pool_ok_update, auto simp: exchanged_pool_def)
  show ?thesis
    by (rule gap_step_then[OF gap_step_trans[OF gap_step_trans[OF gap_step_trans[OF gap_step_debit[OF d1]
          gap_step_adjust[OF d2]] pay_market_fees_step(1)[OF d3 ro m(1) ids(5)]]
          pay_market_fees_step(1)[OF d4 pa m(2) ids(6)]] pp])
      (simp add: ids, simp add: amt_at_def)
qed

lemma lp_exchange_delta_bounds:
  assumes "lp_exchange_delta fc (i * out) i out x = Inr delta" "0 < i" "0 < out" "0 \<le> x"
    and "in_int64 i" "in_int64 out"
  shows "0 \<le> delta" "delta < out" "i * out \<le> (i + x) * (out - delta)"
    "(i + x) * (out - delta - 1) < i * out"
proof -
  let ?n = "i + x"
  from assms(1) have n: "in_int64 ?n" by (auto simp: lp_exchange_delta_def)
  have pos: "0 < ?n" "?n < 2 ^ 63" using assms n by (auto simp: in_int64_def)
  have v: "0 < i * out" "i * out < 2 ^ 126" using assms int64_prod_bound[of i out] by auto
  have u: "u128 ?n = ?n" "u128 out = out" using pos assms by (auto simp: u128_id in_int64_def)
  have "u128_sub (u128_add (i * out) ?n) 1 = i * out + ?n - 1"
    using v pos by (simp add: u128_add_id u128_sub_id)
  with assms(1) u have le: "ceil_div (i * out) ?n \<le> out"
    and delta: "delta = u128_sub out (ceil_div (i * out) ?n)"
    by (auto simp: lp_exchange_delta_def ceil_div_def)
  have ge: "0 \<le> ceil_div (i * out) ?n" using pos v by (intro ceil_div_nonneg) auto
  have d: "delta = out - ceil_div (i * out) ?n"
    using delta le ge assms(6) by (simp add: u128_sub_id in_int64_def)
  note b = ceil_div_bounds[OF pos(1), of "i * out"]
  show "0 \<le> delta" using d le by simp
  show "i * out \<le> ?n * (out - delta)" using b(1) d by (simp add: mult.commute)
  with v(1) pos(1) have "0 < out - delta" by (metis less_le_trans zero_less_mult_pos)
  then show "delta < out" by simp
  show "?n * (out - delta - 1) < i * out" using b(2) d by (simp add: mult.commute)
qed

lemma taker_fee_exact:
  assumes "0 \<le> delta" "delta < 2 ^ 63" "u128_mul delta (int p) div GRAPHENE_100_PERCENT \<le> delta"
  shows "to_int64 (u128_sub delta (u128_mul delta (int p) div GRAPHENE_100_PERCENT)) =
      delta - u128_mul delta (int p) div GRAPHENE_100_PERCENT"
    "0 \<le> u128_mul delta (int p) div GRAPHENE_100_PERCENT"
proof -
  show ge: "0 \<le> u128_mul delta (int p) div GRAPHENE_100_PERCENT"
    by (simp add: u128_mul_def GRAPHENE_100_PERCENT_def pos_imp_zdiv_nonneg_iff)
  show "to_int64 (u128_sub delta (u128_mul delta (int p) div GRAPHENE_100_PERCENT)) =
      delta - u128_mul delta (int p) div GRAPHENE_100_PERCENT"
    using assms ge by (subst u128_sub_id) (auto intro!: to_int64_id simp: in_int64_def)
qed

lemma lp_exchange_amounts_product:
  assumes "lp_exchange_amounts fc op pool ra ro pa po i out = Inr ev" "lpo_virtual_value pool = i * out"
    and "0 < i" "0 < out" "in_int64 i" "in_int64 out"
  shows "0 < amount (lpxs_pool_receives ev)" "0 \<le> amount (lpxs_pool_pays ev)" "amount (lpxs_pool_pays ev) < out"
    "i * out \<le> (i + amount (lpxs_pool_receives ev)) * (out - amount (lpxs_pool_pays ev))"
proof -
  note D = lp_exchange_amountsD[OF assms(1)]
  from D(4,5) show pos: "0 < amount (lpxs_pool_receives ev)" by simp
  from D(6) obtain delta where
    delta: "lp_exchange_delta fc (i * out) i out (amount (lpxs_pool_receives ev)) = Inr delta"
      "u128_mul delta (int (lpo_taker_fee_percent pool)) div GRAPHENE_100_PERCENT \<le> delta"
      "amount (lpxs_pool_pays ev) = to_int64 (u128_sub delta
        (u128_mul delta (int (lpo_taker_fee_percent pool)) div GRAPHENE_100_PERCENT))"
    using assms(2) by auto
  note b = lp_exchange_delta_bounds[OF delta(1) assms(3,4) _ assms(5,6)]
  have db: "0 \<le> delta" "delta < out" "i * out \<le> (i + amount (lpxs_pool_receives ev)) * (out - delta)"
    using b pos by auto
  have "delta < 2 ^ 63" using db(2) assms(6) by (simp add: in_int64_def)
  note t = taker_fee_exact[OF db(1) this delta(2)]
  from t delta have pays: "amount (lpxs_pool_pays ev) \<le> delta" "0 \<le> amount (lpxs_pool_pays ev)" by auto
  then show "0 \<le> amount (lpxs_pool_pays ev)" "amount (lpxs_pool_pays ev) < out" using db(2) by auto
  have "(i + amount (lpxs_pool_receives ev)) * (out - delta) \<le>
      (i + amount (lpxs_pool_receives ev)) * (out - amount (lpxs_pool_pays ev))"
    using pays pos assms(3) by (intro mult_left_mono) auto
  with db(3) show "i * out \<le> (i + amount (lpxs_pool_receives ev)) * (out - amount (lpxs_pool_pays ev))" by linarith
qed

end

sublocale fc_safe \<subseteq> lp_create_ev: conserving_evaluator fc lpc_account lpc_fee lp_create_validate lp_create_do_evaluate lp_create_do_apply
  by unfold_locales (rule lp_create_conserves)

sublocale fc_safe \<subseteq> lp_delete_ev: conserving_evaluator fc lpdel_account lpdel_fee lp_delete_validate
    lp_delete_do_evaluate lp_delete_do_apply
  by unfold_locales (rule lp_delete_conserves)

sublocale fc_safe \<subseteq> lp_update_ev: conserving_evaluator fc lpu_account lpu_fee lp_update_validate lp_update_do_evaluate lp_update_do_apply
  by unfold_locales (rule lp_update_conserves)

sublocale fc_safe \<subseteq> lp_deposit_ev: conserving_evaluator fc lpd_account lpd_fee lp_deposit_validate "lp_deposit_do_evaluate fc"
    "lp_deposit_do_apply fc"
  by unfold_locales (rule lp_deposit_conserves)

sublocale fc_safe \<subseteq> lp_withdraw_ev: conserving_evaluator fc lpw_account lpw_fee lp_withdraw_validate lp_withdraw_do_evaluate
    "lp_withdraw_do_apply fc"
  by unfold_locales (rule lp_withdraw_conserves)

sublocale fc_safe \<subseteq> lp_exchange_ev: conserving_evaluator fc lpx_account lpx_fee lp_exchange_validate "lp_exchange_do_evaluate fc"
    "lp_exchange_do_apply fc"
  by unfold_locales (rule lp_exchange_conserves)

end
