(* ===== verification/Pool_Properties.thy ===== *)
theory Pool_Properties
  imports Liquidity_Pool
begin

text \<open>
  What liquidity pools promise to traders and shareholders: exchanges never lower the product of the
  two balances and pay at least the requested minimum, deposits and withdrawals are exact
  and never take value from the other shareholders. The amounts are the 128-bit computations of
  \<open>liquidity_pool_evaluator.cpp\<close> with their roundings.
\<close>

section \<open>Effects of the operations\<close>

lemma wf_pool: "wf_db d \<Longrightarrow> store_find (liquidity_pools d) k = Some p \<Longrightarrow> pool_ok p"
  unfolding wf_defs by (blast intro: store_all_find)

context fc_safe
begin

lemmas lp_deposit_steps = lp_deposit_ev.operation_steps
lemmas lp_withdraw_steps = lp_withdraw_ev.operation_steps
lemmas lp_exchange_steps = lp_exchange_ev.operation_steps

lemma lp_exchange_pool_ok:
  assumes "lp_exchange_do_evaluate fc op fs d = Inr ev"
    and "store_find (liquidity_pools d) (lpx_pool op) = Some pool" "pool_ok pool"
  shows "lpo_balance_a pool * lpo_balance_b pool \<le>
      lpo_balance_a (exchanged_pool op ev pool) * lpo_balance_b (exchanged_pool op ev pool)"
    "0 < lpo_balance_a (exchanged_pool op ev pool)" "0 < lpo_balance_b (exchanged_pool op ev pool)"
proof -
  have p: "in_int64 (lpo_balance_a pool)" "in_int64 (lpo_balance_b pool)"
    "lpo_virtual_value pool = lpo_balance_a pool * lpo_balance_b pool"
    using assms(3) by (simp_all add: pool_ok_def pool_int64_def)
  have "lpo_balance_a pool * lpo_balance_b pool \<le>
      lpo_balance_a (exchanged_pool op ev pool) * lpo_balance_b (exchanged_pool op ev pool) \<and>
    0 < lpo_balance_a (exchanged_pool op ev pool) \<and> 0 < lpo_balance_b (exchanged_pool op ev pool)"
    using assms(1,2)
  proof (cases rule: lp_exchange_evaluateE)
    case (sells_a oa ob)
    from lp_exchange_amounts_product[OF sells_a(7) p(3) sells_a(1,2) p(1,2)] sells_a(1,2,3)
    show ?thesis by (simp add: exchanged_pool_def)
  next
    case (sells_b oa ob)
    have "lpo_virtual_value pool = lpo_balance_b pool * lpo_balance_a pool" using p(3) by simp
    from lp_exchange_amounts_product[OF sells_b(8) this sells_b(2,1) p(2,1)] sells_b(1,2,3)
    show ?thesis by (simp add: exchanged_pool_def mult.commute)
  qed
  then show "lpo_balance_a pool * lpo_balance_b pool \<le>
      lpo_balance_a (exchanged_pool op ev pool) * lpo_balance_b (exchanged_pool op ev pool)"
    "0 < lpo_balance_a (exchanged_pool op ev pool)" "0 < lpo_balance_b (exchanged_pool op ev pool)" by auto
qed

text \<open>What an exchange does to the pool and to the balances.\<close>

lemma lp_exchange_effect:
  assumes "lp_exchange_do_evaluate fc op fs d0 = Inr ev" "fee_frame d0 d"
    and "lp_exchange_do_apply fc op ev fs d = Inr d'" "wf_db d0"
    and "store_find (liquidity_pools d0) (lpx_pool op) = Some pool"
  shows "store_find (liquidity_pools d') (lpx_pool op) = Some (update_virtual_value (exchanged_pool op ev pool))"
    "amount (get_balance d' owner a) = amount (get_balance d owner a)
      - (if owner = lpx_account op \<and> a = asset_id (lpx_amount_to_sell op) then amount (lpx_amount_to_sell op) else 0)
      + (if owner = lpx_account op \<and> a = asset_id (lpx_min_to_receive op) then amount (lpxs_account_receives ev) else 0)"
proof -
  note ids = lp_exchange_ids[OF assms(1,5) wf_db_market_fees[OF assms(4)]]
  from assms(3) obtain d1 d2 d3 d4 pool1 po ro pa pp f1 f2 where
    d1: "debit fc (lpx_account op) (lpx_amount_to_sell op) d = Inr d1" and
    d2: "adjust_balance fc (lpx_account op) (lpxs_account_receives ev) d1 = Inr d2" and
    p1: "store_find (liquidity_pools d2) (lpx_pool op) = Some pool1" and
    d3: "pay_market_fees fc (Some po) (lpxs_pool_receives_asset ev) ro
            (lpx_amount_to_sell op) True (Some (lpxs_maker_market_fee ev)) d2 = Inr (f1, d3)" and
    d4: "pay_market_fees fc (Some pp) (lpxs_pool_pays_asset ev) pa
            (lpxs_pool_pays ev) False (Some (lpxs_taker_market_fee ev)) d3 = Inr (f2, d4)" and
    d': "d' = d4\<lparr>liquidity_pools := store_put (liquidity_pools d4) (lpx_pool op)
       (update_virtual_value (exchanged_pool op ev pool1))\<rparr>"
    by (rule lp_exchange_applyE)
  have m: "asset_id (lpxs_maker_market_fee ev) = lpxs_pool_receives_asset ev"
    "asset_id (lpxs_taker_market_fee ev) = lpxs_pool_pays_asset ev" using ids by simp_all
  have p2: "liquidity_pools d2 = liquidity_pools d0"
    using d1 d2 assms(2) by (auto simp: adjust_balance_fields fee_frame_fields)
  with assms(5) p1 have pool: "pool1 = pool" by simp
  note f3 = pay_market_fees_fields[OF d3 m(1)] and f4 = pay_market_fees_fields[OF d4 m(2)]
  show "store_find (liquidity_pools d') (lpx_pool op) = Some (update_virtual_value (exchanged_pool op ev pool))"
    using p1 f3 f4 by (simp add: d' pool store_find_put_same)
  have "get_balance d' owner a = get_balance d2 owner a"
    using f3(4) f4(4) by (simp add: get_balance_def get_account_balance_def d')
  then show "amount (get_balance d' owner a) = amount (get_balance d owner a)
      - (if owner = lpx_account op \<and> a = asset_id (lpx_amount_to_sell op) then amount (lpx_amount_to_sell op) else 0)
      + (if owner = lpx_account op \<and> a = asset_id (lpx_min_to_receive op) then amount (lpxs_account_receives ev) else 0)"
    using d1 adjust_balance_get[OF d2, of owner a] ids(7) by (auto simp: adjust_balance_get)
qed

lemma lp_exchange_run:
  assumes "wf_db d" "run_lp_exchange fc req op d = Inr d'"
    and "store_find (liquidity_pools d) (lpx_pool op) = Some pool"
  shows "\<exists>pool' received. store_find (liquidity_pools d') (lpx_pool op) = Some pool' \<and> pool_ok pool' \<and>
    0 < lpo_balance_a pool' \<and> 0 < lpo_balance_b pool' \<and>
    lpo_balance_a pool * lpo_balance_b pool \<le> lpo_balance_a pool' * lpo_balance_b pool' \<and>
    amount (lpx_min_to_receive op) \<le> received \<and>
    (\<forall>owner a. amount (get_balance d' owner a) = amount (get_balance d owner a)
      - (if owner = lpx_account op \<and> a = asset_id (lpx_amount_to_sell op) then amount (lpx_amount_to_sell op) else 0)
      + (if owner = lpx_account op \<and> a = asset_id (lpx_min_to_receive op) then received else 0)
      - (if owner = lpx_account op \<and> a = asset_id (lpx_fee op) then amount (lpx_fee op) else 0))"
proof -
  from assms(2) obtain fs ev d1 d2 where ev: "lp_exchange_do_evaluate fc op fs d = Inr ev"
    and frame: "fee_frame d d1" and d2: "lp_exchange_do_apply fc op ev fs d1 = Inr d2"
    and d': "adjust_balance fc (lpx_account op) (ASSET (- amount (lpx_fee op)) (asset_id (lpx_fee op))) d2 = Inr d'"
    unfolding run_lp_exchange_def by (rule lp_exchange_steps)
  have ok: "pool_ok pool" using wf_pool[OF assms(1,3)] .
  note e = lp_exchange_effect[OF ev frame d2 assms(1,3)]
  note p = lp_exchange_pool_ok[OF ev assms(3) ok]
  let ?p = "update_virtual_value (exchanged_pool op ev pool)"
  have find: "store_find (liquidity_pools d') (lpx_pool op) = Some ?p"
    using e(1) adjust_balance_fields[OF d'] by simp
  from d2 have int: "pool_int64 (exchanged_pool op ev pool)"
  proof (rule lp_exchange_applyE)
    fix d1' d2' pool1 assume "debit fc (lpx_account op) (lpx_amount_to_sell op) d1 = Inr d1'"
      "adjust_balance fc (lpx_account op) (lpxs_account_receives ev) d1' = Inr d2'"
      "store_find (liquidity_pools d2') (lpx_pool op) = Some pool1" "pool_int64 (exchanged_pool op ev pool1)"
    then show ?thesis using frame assms(3) by (auto simp: adjust_balance_fields fee_frame_fields)
  qed
  have "pool_ok ?p" by (rule pool_ok_update) (use int p in auto)
  moreover have "amount (get_balance d' owner a) = amount (get_balance d owner a)
      - (if owner = lpx_account op \<and> a = asset_id (lpx_amount_to_sell op) then amount (lpx_amount_to_sell op) else 0)
      + (if owner = lpx_account op \<and> a = asset_id (lpx_min_to_receive op) then amount (lpxs_account_receives ev) else 0)
      - (if owner = lpx_account op \<and> a = asset_id (lpx_fee op) then amount (lpx_fee op) else 0)" for owner a
    using adjust_balance_get[OF d', of owner a] e(2)[of owner a] fee_frame_balance[OF frame] by simp
  ultimately show ?thesis
    using find p lp_exchange_ids(10)[OF ev assms(3) wf_db_market_fees[OF assms(1)]]
    by (intro exI[of _ ?p] exI[of _ "amount (lpxs_account_receives ev)"]) simp
qed

end

lemma to_int64_upto: "0 \<le> x \<Longrightarrow> x \<le> y \<Longrightarrow> in_int64 y \<Longrightarrow> to_int64 x = x"
  by (rule to_int64_id) (simp add: in_int64_def)

context fc_safe
begin

text \<open>The amounts of a deposit into a pool in use: what the pool receives is the depositor's share of
  each balance rounded up, within the offered amounts.\<close>

lemma lp_deposit_amounts_fair:
  assumes "lp_deposit_amounts fc pool m s x y = Inr ev"
    and "pool_ok pool" "0 < lpo_balance_a pool" "0 < s" "in_int64 s" "s < m" "0 < x" "in_int64 x" "0 < y" "in_int64 y"
  shows "0 < amount (lpds_account_receives ev) \<and> s + amount (lpds_account_receives ev) \<le> m \<and>
    0 < amount (lpds_pool_receives_a ev) \<and> amount (lpds_pool_receives_a ev) \<le> x \<and>
    0 < amount (lpds_pool_receives_b ev) \<and> amount (lpds_pool_receives_b ev) \<le> y \<and>
    amount (lpds_account_receives ev) * lpo_balance_a pool \<le> amount (lpds_pool_receives_a ev) * s \<and>
    amount (lpds_account_receives ev) * lpo_balance_b pool \<le> amount (lpds_pool_receives_b ev) * s"
proof -
  let ?A = "lpo_balance_a pool" and ?B = "lpo_balance_b pool"
  have AB: "0 < ?A" "0 < ?B" "in_int64 ?A" "in_int64 ?B"
    using assms(2,3) by (auto simp: pool_ok_def pool_int64_def)
  have lt: "?A < 2 ^ 63" "?B < 2 ^ 63" "s < 2 ^ 63" "x < 2 ^ 63" "y < 2 ^ 63"
    using AB assms by (simp_all add: in_int64_def)
  have u: "u128 ?A = ?A" "u128 ?B = ?B" "u128 s = s" "u128 x = x" "u128 y = y"
    using AB lt assms by (simp_all add: u128_id)
  from assms(1) have m: "in_int64 (m - s)" by (auto simp: lp_deposit_amounts_def)
  then have um: "u128 (m - s) = m - s" "m - s < 2 ^ 63" using assms(6) by (simp_all add: u128_id in_int64_def)
  let ?n = "min (min (u128_mul s x div ?A) (u128_mul s y div ?B)) (m - s)"
  let ?a = "\<lambda>n. u128_sub (u128_add (u128_mul n ?A) s) 1 div s"
  let ?b = "\<lambda>n. u128_sub (u128_add (u128_mul n ?B) s) 1 div s"
  have "0 < ?n \<and> ?a ?n \<le> x \<and> ?b ?n \<le> y \<and>
      ev = \<lparr>lpds_pool_receives_a = ASSET (to_int64 (?a ?n)) (lpo_asset_a pool),
          lpds_pool_receives_b = ASSET (to_int64 (?b ?n)) (lpo_asset_b pool),
          lpds_account_receives = ASSET (to_int64 ?n) (lpo_share_asset pool)\<rparr>"
    using assms(1) unfolding lp_deposit_amounts_def Let_def bnd_eq_Inr_iff ensure_eq_Inr_iff sum.inject safe_sub_iff
    by (elim exE conjE, hypsubst) (simp only: u um simp_thms)
  then have n0: "0 < ?n" and a: "?a ?n \<le> x" and b: "?b ?n \<le> y"
    and ev: "ev = \<lparr>lpds_pool_receives_a = ASSET (to_int64 (?a ?n)) (lpo_asset_a pool),
          lpds_pool_receives_b = ASSET (to_int64 (?b ?n)) (lpo_asset_b pool),
          lpds_account_receives = ASSET (to_int64 ?n) (lpo_share_asset pool)\<rparr>" by blast+
  define n where "n = ?n"
  have n: "0 < n" "n \<le> m - s" "in_int64 n" using n0 um(2) unfolding n_def by (auto simp: in_int64_def)
  have ceil: "u128_sub (u128_add (u128_mul n z) s) 1 div s = ceil_div (n * z) s" if "0 < z" "in_int64 z" for z
  proof -
    have "0 < n * z" "n * z < 2 ^ 126" using that n int64_prod_bound[of n z] by auto
    then show ?thesis using assms(4) lt(3) by (simp add: u128_mul_id u128_add_id u128_sub_id ceil_div_def)
  qed
  have pos: "0 < ceil_div (n * z) s" "n * z \<le> ceil_div (n * z) s * s" if "0 < z" for z
  proof -
    show *: "n * z \<le> ceil_div (n * z) s * s" using ceil_div_bounds(1)[OF assms(4)] .
    moreover have "0 < n * z" using that n(1) by simp
    ultimately have "0 < ceil_div (n * z) s * s" by linarith
    then show "0 < ceil_div (n * z) s" using assms(4) by (simp add: zero_less_mult_iff)
  qed
  have ab: "ceil_div (n * ?A) s \<le> x" "ceil_div (n * ?B) s \<le> y"
    using a[folded n_def] b[folded n_def] by (simp_all only: ceil[OF AB(1,3)] ceil[OF AB(2,4)])
  have i: "to_int64 n = n" "to_int64 (ceil_div (n * ?A) s) = ceil_div (n * ?A) s"
    "to_int64 (ceil_div (n * ?B) s) = ceil_div (n * ?B) s"
    using to_int64_id[OF n(3)] to_int64_upto[OF _ ab(1) assms(8)] to_int64_upto[OF _ ab(2) assms(10)]
      pos(1)[OF AB(1)] pos(1)[OF AB(2)] by simp_all
  have "amount (lpds_account_receives ev) = n" "amount (lpds_pool_receives_a ev) = ceil_div (n * ?A) s"
    "amount (lpds_pool_receives_b ev) = ceil_div (n * ?B) s"
    using ev[folded n_def] by (simp_all add: ceil[OF AB(1,3)] ceil[OF AB(2,4)] i)
  then show ?thesis using n ab pos[OF AB(1)] pos[OF AB(2)] by simp
qed

lemma lp_deposit_applyE:
  assumes "lp_deposit_do_apply fc op ev fs d = Inr d'"
  obtains d1 d2 d3 pool ao dd where
    "debit fc (lpd_account op) (lpds_pool_receives_a ev) d = Inr d1"
    "debit fc (lpd_account op) (lpds_pool_receives_b ev) d1 = Inr d2"
    "adjust_balance fc (lpd_account op) (lpds_account_receives ev) d2 = Inr d3"
    "store_find (liquidity_pools d) (lpd_pool op) = Some pool"
    "store_find (assets d) (lpo_share_asset pool) = Some ao"
    "store_find (asset_dyn_data d) (dynamic_asset_data_id ao) = Some dd"
    "d' = d3\<lparr>liquidity_pools := store_put (liquidity_pools d) (lpd_pool op)
          (update_virtual_value (pool\<lparr>lpo_balance_a := lpo_balance_a pool + amount (lpds_pool_receives_a ev),
             lpo_balance_b := lpo_balance_b pool + amount (lpds_pool_receives_b ev)\<rparr>)),
        asset_dyn_data := store_put (asset_dyn_data d) (dynamic_asset_data_id ao)
          (dd\<lparr>current_supply := current_supply dd + amount (lpds_account_receives ev)\<rparr>)\<rparr>"
proof -
  let ?pool = "\<lambda>p. update_virtual_value (p\<lparr>lpo_balance_a := lpo_balance_a p + amount (lpds_pool_receives_a ev),
             lpo_balance_b := lpo_balance_b p + amount (lpds_pool_receives_b ev)\<rparr>)"
  from assms obtain d1 d2 d3 pool ao where
    d: "debit fc (lpd_account op) (lpds_pool_receives_a ev) d = Inr d1"
      "debit fc (lpd_account op) (lpds_pool_receives_b ev) d1 = Inr d2"
      "adjust_balance fc (lpd_account op) (lpds_account_receives ev) d2 = Inr d3" and
    p: "store_find (liquidity_pools d3) (lpd_pool op) = Some pool"
      "store_find (assets d3) (lpo_share_asset pool) = Some ao" and
    m: "modify_dyn (dynamic_asset_data_id ao) (\<lambda>dd.
            bnd (safe_add fc (current_supply dd) (amount (lpds_account_receives ev))) (\<lambda>x.
            FC_ASSERT (0 < x) (Inr (dd\<lparr>current_supply := x\<rparr>))))
          (d3\<lparr>liquidity_pools := store_put (liquidity_pools d3) (lpd_pool op) (?pool pool)\<rparr>) = Inr d'"
    by (auto simp: lp_deposit_do_apply_def simp del: debit_iff)
  have f: "liquidity_pools d3 = liquidity_pools d" "assets d3 = assets d" "asset_dyn_data d3 = asset_dyn_data d"
    using d by (auto simp: adjust_balance_fields)
  from m obtain dd where "store_find (asset_dyn_data d3) (dynamic_asset_data_id ao) = Some dd"
    "d' = d3\<lparr>liquidity_pools := store_put (liquidity_pools d3) (lpd_pool op) (?pool pool),
        asset_dyn_data := store_put (asset_dyn_data d3) (dynamic_asset_data_id ao)
          (dd\<lparr>current_supply := current_supply dd + amount (lpds_account_receives ev)\<rparr>)\<rparr>"
    by (auto elim!: modify_dynE)
  with d p f show thesis by (intro that) auto
qed

lemma lp_deposit_evaluate_fair:
  assumes "lp_deposit_do_evaluate fc op fs d = Inr ev" "lp_deposit_validate op = Inr ()"
    and "store_find (liquidity_pools d) (lpd_pool op) = Some pool" "pool_ok pool"
    and "store_find (assets d) (lpo_share_asset pool) = Some ao"
    and "store_find (asset_dyn_data d) (dynamic_asset_data_id ao) = Some dyn"
    and "0 \<le> current_supply dyn" "in_int64 (current_supply dyn)"
    and "in_int64 (amount (lpd_amount_a op))" "in_int64 (amount (lpd_amount_b op))"
  shows "0 < amount (lpds_pool_receives_a ev) \<and> amount (lpds_pool_receives_a ev) \<le> amount (lpd_amount_a op) \<and>
    0 < amount (lpds_pool_receives_b ev) \<and> amount (lpds_pool_receives_b ev) \<le> amount (lpd_amount_b op) \<and>
    0 < amount (lpds_account_receives ev) \<and>
    lpo_balance_a pool * amount (lpds_account_receives ev) \<le> amount (lpds_pool_receives_a ev) * current_supply dyn \<and>
    lpo_balance_b pool * amount (lpds_account_receives ev) \<le> amount (lpds_pool_receives_b ev) * current_supply dyn"
proof -
  have pos: "0 < amount (lpd_amount_a op)" "0 < amount (lpd_amount_b op)"
    using assms(2) by (simp_all add: lp_deposit_validate_def)
  show ?thesis
  proof (cases "lpo_balance_a pool = 0")
    case True
    with lp_deposit_evaluateD[OF assms(1,3)] assms(4-6) pos show ?thesis by (auto simp: pool_ok_def)
  next
    case False
    with lp_deposit_evaluateD[OF assms(1,3)] assms(5,6)
    have am: "lp_deposit_amounts fc pool (max_supply (options ao)) (current_supply dyn)
        (amount (lpd_amount_a op)) (amount (lpd_amount_b op)) = Inr ev"
      "current_supply dyn \<noteq> 0" "current_supply dyn < max_supply (options ao)" by auto
    have "0 < lpo_balance_a pool" "0 < current_supply dyn"
      using False assms(4,7) am(2) by (auto simp: pool_ok_def)
    from lp_deposit_amounts_fair[OF am(1) assms(4) this assms(8) am(3) pos(1) assms(9) pos(2) assms(10)]
    show ?thesis by (simp add: mult.commute)
  qed
qed

text \<open>What a deposit does to the pool, the share supply and the balances.\<close>

lemma lp_deposit_effect:
  assumes "lp_deposit_do_evaluate fc op fs d0 = Inr ev" "fee_frame d0 d" "lp_deposit_do_apply fc op ev fs d = Inr d'"
    and "store_find (liquidity_pools d0) (lpd_pool op) = Some pool"
    and "store_find (assets d0) (lpo_share_asset pool) = Some ao"
    and "store_find (asset_dyn_data d0) (dynamic_asset_data_id ao) = Some dyn"
  shows "\<exists>pool' dyn'. store_find (liquidity_pools d') (lpd_pool op) = Some pool' \<and>
    lpo_balance_a pool' = lpo_balance_a pool + amount (lpds_pool_receives_a ev) \<and>
    lpo_balance_b pool' = lpo_balance_b pool + amount (lpds_pool_receives_b ev) \<and>
    store_find (asset_dyn_data d') (dynamic_asset_data_id ao) = Some dyn' \<and>
    current_supply dyn' = current_supply dyn + amount (lpds_account_receives ev)" (is ?A)
    and "amount (get_balance d' owner a) = amount (get_balance d owner a)
      - (if owner = lpd_account op \<and> a = lpo_asset_a pool then amount (lpds_pool_receives_a ev) else 0)
      - (if owner = lpd_account op \<and> a = lpo_asset_b pool then amount (lpds_pool_receives_b ev) else 0)
      + (if owner = lpd_account op \<and> a = lpo_share_asset pool then amount (lpds_account_receives ev) else 0)" (is ?B)
proof -
  from assms(3) obtain e1 e2 e3 pool1 ao1 dd where
    e: "debit fc (lpd_account op) (lpds_pool_receives_a ev) d = Inr e1"
      "debit fc (lpd_account op) (lpds_pool_receives_b ev) e1 = Inr e2"
      "adjust_balance fc (lpd_account op) (lpds_account_receives ev) e2 = Inr e3" and
    p: "store_find (liquidity_pools d) (lpd_pool op) = Some pool1"
      "store_find (assets d) (lpo_share_asset pool1) = Some ao1"
      "store_find (asset_dyn_data d) (dynamic_asset_data_id ao1) = Some dd" and
    eq: "d' = e3\<lparr>liquidity_pools := store_put (liquidity_pools d) (lpd_pool op)
          (update_virtual_value (pool1\<lparr>lpo_balance_a := lpo_balance_a pool1 + amount (lpds_pool_receives_a ev),
             lpo_balance_b := lpo_balance_b pool1 + amount (lpds_pool_receives_b ev)\<rparr>)),
        asset_dyn_data := store_put (asset_dyn_data d) (dynamic_asset_data_id ao1)
          (dd\<lparr>current_supply := current_supply dd + amount (lpds_account_receives ev)\<rparr>)\<rparr>"
    by (rule lp_deposit_applyE)
  have same: "pool1 = pool" "ao1 = ao" using p assms(2,4,5) by (auto simp: fee_frame_fields)
  have dd: "current_supply dd = current_supply dyn"
    using fee_frame_supply[OF assms(2) p(3)] assms(6) same by auto
  show ?A using p dd by (simp add: eq same store_find_put_same)
  have "get_balance d' owner a = get_balance e3 owner a"
    by (simp add: eq get_balance_def get_account_balance_def)
  then show ?B
    using e(1,2) adjust_balance_get[OF e(3), of owner a] lp_deposit_assets[OF assms(1,4)]
    by (auto simp: adjust_balance_get)
qed

lemma lp_deposit_run:
  assumes "wf_db d" "lp_deposit_validate op = Inr ()" "run_lp_deposit fc req op d = Inr d'"
    and "store_find (liquidity_pools d) (lpd_pool op) = Some pool"
    and "store_find (assets d) (lpo_share_asset pool) = Some ao"
    and "store_find (asset_dyn_data d) (dynamic_asset_data_id ao) = Some dyn"
    and "0 \<le> current_supply dyn" "in_int64 (current_supply dyn)"
    and "in_int64 (amount (lpd_amount_a op))" "in_int64 (amount (lpd_amount_b op))"
  shows "\<exists>x y n pool' dyn'. store_find (liquidity_pools d') (lpd_pool op) = Some pool' \<and>
    lpo_balance_a pool' = lpo_balance_a pool + x \<and> lpo_balance_b pool' = lpo_balance_b pool + y \<and>
    store_find (asset_dyn_data d') (dynamic_asset_data_id ao) = Some dyn' \<and>
    current_supply dyn' = current_supply dyn + n \<and>
    0 < x \<and> x \<le> amount (lpd_amount_a op) \<and> 0 < y \<and> y \<le> amount (lpd_amount_b op) \<and> 0 < n \<and>
    lpo_balance_a pool * n \<le> x * current_supply dyn \<and> lpo_balance_b pool * n \<le> y * current_supply dyn \<and>
    (\<forall>owner a. amount (get_balance d' owner a) = amount (get_balance d owner a)
      - (if owner = lpd_account op \<and> a = lpo_asset_a pool then x else 0)
      - (if owner = lpd_account op \<and> a = lpo_asset_b pool then y else 0)
      + (if owner = lpd_account op \<and> a = lpo_share_asset pool then n else 0)
      - (if owner = lpd_account op \<and> a = asset_id (lpd_fee op) then amount (lpd_fee op) else 0))"
proof -
  from assms(3) obtain fs ev d1 d2 where ev: "lp_deposit_do_evaluate fc op fs d = Inr ev"
    and frame: "fee_frame d d1" and d2: "lp_deposit_do_apply fc op ev fs d1 = Inr d2"
    and d': "adjust_balance fc (lpd_account op) (ASSET (- amount (lpd_fee op)) (asset_id (lpd_fee op))) d2 = Inr d'"
    unfolding run_lp_deposit_def by (rule lp_deposit_steps)
  note fair = lp_deposit_evaluate_fair[OF ev assms(2,4) wf_pool[OF assms(1,4)] assms(5-10)]
  note e = lp_deposit_effect[OF ev frame d2 assms(4-6)]
  from e(1) obtain pool' dyn' where eff: "store_find (liquidity_pools d2) (lpd_pool op) = Some pool'"
    "lpo_balance_a pool' = lpo_balance_a pool + amount (lpds_pool_receives_a ev)"
    "lpo_balance_b pool' = lpo_balance_b pool + amount (lpds_pool_receives_b ev)"
    "store_find (asset_dyn_data d2) (dynamic_asset_data_id ao) = Some dyn'"
    "current_supply dyn' = current_supply dyn + amount (lpds_account_receives ev)" by blast
  note f = adjust_balance_fields[OF d']
  show ?thesis
    by (rule exI[of _ "amount (lpds_pool_receives_a ev)"], rule exI[of _ "amount (lpds_pool_receives_b ev)"],
        rule exI[of _ "amount (lpds_account_receives ev)"], rule exI[of _ pool'], rule exI[of _ dyn'])
      (use fair eff f e(2) adjust_balance_get[OF d'] fee_frame_balance[OF frame] in simp)
qed

text \<open>Withdrawals.\<close>

lemma lp_withdraw_amount_fair:
  assumes "lp_withdraw_amount n bal s pct = Inr (x, f)" "in_int64 bal" "0 \<le> bal" "0 \<le> n" "in_int64 n" "0 < s" "in_int64 s"
  shows "x * s \<le> n * bal" "to_int64 x = x" "0 \<le> x"
proof -
  note b = lp_withdraw_amount_bounds[OF assms(1-3)]
  have u: "u128 n = n" "u128 bal = bal" "u128 s = s" using assms by (simp_all add: u128_id in_int64_def)
  have m: "u128_mul n bal = n * bal"
    using assms int64_prod_bound[of n bal] by (simp add: u128_mul_id)
  have "x + f = n * bal div s" using b(6) by (simp only: u m)
  with b(3) have "x \<le> n * bal div s" by linarith
  then show "x * s \<le> n * bal" using assms(6) by (simp add: le_div_iff_mult_le)
  show "to_int64 x = x" "0 \<le> x" using lp_withdraw_amount_exact[OF assms(1-3)] by auto
qed

lemma lp_withdraw_evaluate_fair:
  assumes "lp_withdraw_do_evaluate op fs d = Inr ev" "lp_withdraw_validate op = Inr ()"
    and "store_find (liquidity_pools d) (lpw_pool op) = Some pool" "pool_ok pool"
    and "store_find (assets d) (lpo_share_asset pool) = Some ao"
    and "store_find (asset_dyn_data d) (dynamic_asset_data_id ao) = Some dyn"
    and "in_int64 (current_supply dyn)"
  shows "0 < amount (lpw_share_amount op) \<and> amount (lpw_share_amount op) \<le> current_supply dyn \<and>
    0 \<le> amount (lpws_pool_pays_a ev) \<and> 0 \<le> amount (lpws_pool_pays_b ev) \<and>
    amount (lpws_pool_pays_a ev) * current_supply dyn \<le> amount (lpw_share_amount op) * lpo_balance_a pool \<and>
    amount (lpws_pool_pays_b ev) * current_supply dyn \<le> amount (lpw_share_amount op) * lpo_balance_b pool"
proof -
  let ?n = "amount (lpw_share_amount op)"
  from lp_withdraw_evaluateD[OF assms(1,3)] assms(5,6)
  have ev: "0 < lpo_balance_a pool" "0 < lpo_balance_b pool" "?n \<le> current_supply dyn"
    "if current_supply dyn = ?n
     then lpws_pool_pays_a ev = ASSET (lpo_balance_a pool) (lpo_asset_a pool) \<and>
       lpws_pool_pays_b ev = ASSET (lpo_balance_b pool) (lpo_asset_b pool)
     else \<exists>a fa b fb. lp_withdraw_amount ?n (lpo_balance_a pool) (current_supply dyn)
              (lpo_withdrawal_fee_percent pool) = Inr (a, fa) \<and>
       lp_withdraw_amount ?n (lpo_balance_b pool) (current_supply dyn)
              (lpo_withdrawal_fee_percent pool) = Inr (b, fb) \<and>
       lpws_pool_pays_a ev = ASSET (to_int64 a) (lpo_asset_a pool) \<and>
       lpws_pool_pays_b ev = ASSET (to_int64 b) (lpo_asset_b pool)" by auto
  have n: "0 < ?n" using assms(2) by (simp add: lp_withdraw_validate_def)
  have int: "in_int64 (lpo_balance_a pool)" "in_int64 (lpo_balance_b pool)"
    using assms(4) by (simp_all add: pool_ok_def pool_int64_def)
  have "in_int64 ?n" "0 < current_supply dyn" using n ev(3) assms(7) by (auto simp: in_int64_def)
  note fair = lp_withdraw_amount_fair[OF _ _ _ _ this(1,2) assms(7)]
  show ?thesis
  proof (cases "current_supply dyn = ?n")
    case True
    then show ?thesis using ev n by (simp add: mult.commute)
  next
    case False
    with ev(4) obtain a fa b fb where w: "lp_withdraw_amount ?n (lpo_balance_a pool) (current_supply dyn)
              (lpo_withdrawal_fee_percent pool) = Inr (a, fa)"
      "lp_withdraw_amount ?n (lpo_balance_b pool) (current_supply dyn)
              (lpo_withdrawal_fee_percent pool) = Inr (b, fb)"
      "amount (lpws_pool_pays_a ev) = to_int64 a" "amount (lpws_pool_pays_b ev) = to_int64 b" by auto
    from fair[OF w(1) int(1)] fair[OF w(2) int(2)] w(3,4) ev(1-3) n show ?thesis by simp
  qed
qed

lemma lp_withdraw_effect:
  assumes "lp_withdraw_do_evaluate op fs d0 = Inr ev" "fee_frame d0 d" "lp_withdraw_do_apply fc op ev fs d = Inr d'"
    and "store_find (liquidity_pools d0) (lpw_pool op) = Some pool" "pool_ok pool"
    and "store_find (assets d0) (lpo_share_asset pool) = Some ao"
    and "store_find (asset_dyn_data d0) (dynamic_asset_data_id ao) = Some dyn"
  shows "\<exists>pool' dyn'. store_find (liquidity_pools d') (lpw_pool op) = Some pool' \<and>
    lpo_balance_a pool' = lpo_balance_a pool - amount (lpws_pool_pays_a ev) \<and>
    lpo_balance_b pool' = lpo_balance_b pool - amount (lpws_pool_pays_b ev) \<and>
    store_find (asset_dyn_data d') (dynamic_asset_data_id ao) = Some dyn' \<and>
    current_supply dyn' = current_supply dyn - amount (lpw_share_amount op) \<and>
    (lpo_balance_a pool' = 0 \<longleftrightarrow> current_supply dyn' = 0)" (is ?A)
    and "amount (get_balance d' owner a) = amount (get_balance d owner a)
      - (if owner = lpw_account op \<and> a = lpo_share_asset pool then amount (lpw_share_amount op) else 0)
      + (if owner = lpw_account op \<and> a = lpo_asset_a pool then amount (lpws_pool_pays_a ev) else 0)
      + (if owner = lpw_account op \<and> a = lpo_asset_b pool then amount (lpws_pool_pays_b ev) else 0)" (is ?B)
proof -
  note ids = lp_withdraw_assets[OF assms(1,4)]
  have "pool_int64 pool" using assms(5) by (simp add: pool_ok_def)
  note pos = lp_withdraw_pays_bounds[OF assms(1,4) this]
  from assms(3) obtain d1 d2 d3 d4 pool1 ao1 where
    d1: "debit fc (lpw_account op) (lpw_share_amount op) d = Inr d1" and
    d2: "(if 0 < amount (lpws_pool_pays_a ev)
          then adjust_balance fc (lpw_account op) (lpws_pool_pays_a ev) d1 else Inr d1) = Inr d2" and
    d3: "(if 0 < amount (lpws_pool_pays_b ev)
          then adjust_balance fc (lpw_account op) (lpws_pool_pays_b ev) d2 else Inr d2) = Inr d3" and
    p1: "store_find (liquidity_pools d3) (lpw_pool op) = Some pool1" and
    ao: "store_find (assets d3) (lpo_share_asset pool1) = Some ao1" and
    d4: "modify_dyn (dynamic_asset_data_id ao1) (\<lambda>dd.
            bnd (safe_sub fc (current_supply dd) (amount (lpw_share_amount op))) (\<lambda>x.
            FC_ASSERT ((lpo_balance_a pool1 - amount (lpws_pool_pays_a ev) = 0) = (x = 0))
           (Inr (dd\<lparr>current_supply := x\<rparr>)))) d3 = Inr d4" and
    d': "d' = d4\<lparr>liquidity_pools := store_put (liquidity_pools d4) (lpw_pool op)
            (update_virtual_value (pool1\<lparr>lpo_balance_a := lpo_balance_a pool1 - amount (lpws_pool_pays_a ev),
               lpo_balance_b := lpo_balance_b pool1 - amount (lpws_pool_pays_b ev)\<rparr>))\<rparr>"
    by (auto simp: lp_withdraw_do_apply_def simp del: debit_iff)
  note a2 = if_pos_adjust[OF d2 pos(1)] and a3 = if_pos_adjust[OF d3 pos(2)]
  have f: "liquidity_pools d3 = liquidity_pools d" "assets d3 = assets d" "asset_dyn_data d3 = asset_dyn_data d"
    using d1 a2 a3 by (auto simp: adjust_balance_fields)
  have same: "pool1 = pool" "ao1 = ao" using p1 ao f assms(2,4,6) by (auto simp: fee_frame_fields)
  from d4 obtain dd where dd: "store_find (asset_dyn_data d) (dynamic_asset_data_id ao) = Some dd"
    "d4 = d3\<lparr>asset_dyn_data := store_put (asset_dyn_data d) (dynamic_asset_data_id ao)
       (dd\<lparr>current_supply := current_supply dd - amount (lpw_share_amount op)\<rparr>)\<rparr>"
    "(lpo_balance_a pool - amount (lpws_pool_pays_a ev) = 0) =
      (current_supply dd - amount (lpw_share_amount op) = 0)"
    using f same by (auto elim!: modify_dynE)
  have "current_supply dd = current_supply dyn"
    using fee_frame_supply[OF assms(2) dd(1)] assms(7) by auto
  then show ?A using p1 dd by (simp add: d' same store_find_put_same)
  have "get_balance d' owner a = get_balance d3 owner a"
    by (simp add: d' dd(2) get_balance_def get_account_balance_def)
  then show ?B
    using d1 adjust_balance_get[OF a3, of owner a] adjust_balance_get[OF a2, of owner a] ids
    by (auto simp: adjust_balance_get)
qed

lemma lp_withdraw_run:
  assumes "wf_db d" "lp_withdraw_validate op = Inr ()" "run_lp_withdraw fc req op d = Inr d'"
    and "store_find (liquidity_pools d) (lpw_pool op) = Some pool"
    and "store_find (assets d) (lpo_share_asset pool) = Some ao"
    and "store_find (asset_dyn_data d) (dynamic_asset_data_id ao) = Some dyn"
    and "in_int64 (current_supply dyn)"
  shows "\<exists>x y pool' dyn'. store_find (liquidity_pools d') (lpw_pool op) = Some pool' \<and>
    lpo_balance_a pool' = lpo_balance_a pool - x \<and> lpo_balance_b pool' = lpo_balance_b pool - y \<and>
    store_find (asset_dyn_data d') (dynamic_asset_data_id ao) = Some dyn' \<and>
    current_supply dyn' = current_supply dyn - amount (lpw_share_amount op) \<and>
    (lpo_balance_a pool' = 0 \<longleftrightarrow> current_supply dyn' = 0) \<and> 0 \<le> current_supply dyn' \<and> 0 \<le> x \<and> 0 \<le> y \<and>
    x * current_supply dyn \<le> amount (lpw_share_amount op) * lpo_balance_a pool \<and>
    y * current_supply dyn \<le> amount (lpw_share_amount op) * lpo_balance_b pool \<and>
    (\<forall>owner a. amount (get_balance d' owner a) = amount (get_balance d owner a)
      - (if owner = lpw_account op \<and> a = lpo_share_asset pool then amount (lpw_share_amount op) else 0)
      + (if owner = lpw_account op \<and> a = lpo_asset_a pool then x else 0)
      + (if owner = lpw_account op \<and> a = lpo_asset_b pool then y else 0)
      - (if owner = lpw_account op \<and> a = asset_id (lpw_fee op) then amount (lpw_fee op) else 0))"
proof -
  from assms(3) obtain fs ev d1 d2 where ev: "lp_withdraw_do_evaluate op fs d = Inr ev"
    and frame: "fee_frame d d1" and d2: "lp_withdraw_do_apply fc op ev fs d1 = Inr d2"
    and d': "adjust_balance fc (lpw_account op) (ASSET (- amount (lpw_fee op)) (asset_id (lpw_fee op))) d2 = Inr d'"
    unfolding run_lp_withdraw_def by (rule lp_withdraw_steps)
  have ok: "pool_ok pool" using wf_pool[OF assms(1,4)] .
  note fair = lp_withdraw_evaluate_fair[OF ev assms(2,4) ok assms(5-7)]
  note e = lp_withdraw_effect[OF ev frame d2 assms(4) ok assms(5,6)]
  from e(1) obtain pool' dyn' where eff: "store_find (liquidity_pools d2) (lpw_pool op) = Some pool'"
    "lpo_balance_a pool' = lpo_balance_a pool - amount (lpws_pool_pays_a ev)"
    "lpo_balance_b pool' = lpo_balance_b pool - amount (lpws_pool_pays_b ev)"
    "store_find (asset_dyn_data d2) (dynamic_asset_data_id ao) = Some dyn'"
    "current_supply dyn' = current_supply dyn - amount (lpw_share_amount op)"
    "lpo_balance_a pool' = 0 \<longleftrightarrow> current_supply dyn' = 0" by blast
  note f = adjust_balance_fields[OF d']
  show ?thesis
    by (rule exI[of _ "amount (lpws_pool_pays_a ev)"], rule exI[of _ "amount (lpws_pool_pays_b ev)"],
        rule exI[of _ pool'], rule exI[of _ dyn'])
      (use fair eff f e(2) adjust_balance_get[OF d'] fee_frame_balance[OF frame] in simp)
qed

end

section \<open>Properties\<close>

text \<open>
  C5: an exchange with a liquidity pool that is applied never lets the product of the pool's two
  balances decrease, keeps both balances positive and the stored virtual value equal to the
  product; the trader pays exactly the amount to sell and the fee, receives at least the
  requested minimum, and no other account balance changes.
\<close>

theorem lp_exchange_keeps_product:
  assumes "fc_safe fc" "wf_db d" "run_lp_exchange fc req op d = Inr d'"
    and "store_find (liquidity_pools d) (lpx_pool op) = Some pool"
  shows "\<exists>pool' received. store_find (liquidity_pools d') (lpx_pool op) = Some pool' \<and> pool_ok pool' \<and>
    0 < lpo_balance_a pool' \<and> 0 < lpo_balance_b pool' \<and>
    lpo_balance_a pool * lpo_balance_b pool \<le> lpo_balance_a pool' * lpo_balance_b pool' \<and>
    amount (lpx_min_to_receive op) \<le> received \<and>
    (\<forall>owner a. amount (get_balance d' owner a) = amount (get_balance d owner a)
      - (if owner = lpx_account op \<and> a = asset_id (lpx_amount_to_sell op) then amount (lpx_amount_to_sell op) else 0)
      + (if owner = lpx_account op \<and> a = asset_id (lpx_min_to_receive op) then received else 0)
      - (if owner = lpx_account op \<and> a = asset_id (lpx_fee op) then amount (lpx_fee op) else 0))"
  by (rule fc_safe.lp_exchange_run[OF assms])

definition sample_pool :: liquidity_pool_object where
  "sample_pool = \<lparr>lpo_asset_a = 0, lpo_asset_b = 1, lpo_balance_a = 1000, lpo_balance_b = 2000,
     lpo_share_asset = 2, lpo_taker_fee_percent = 100, lpo_withdrawal_fee_percent = 100,
     lpo_virtual_value = 2000000\<rparr>"

definition pool_db :: database where
  "pool_db = (sample_db 1700000000)\<lparr>
     asset_dyn_data := \<lparr>items = [(0, sample_dyn 1050), (1, sample_dyn 2040), (2, sample_dyn 500)], next_id = 3\<rparr>,
     account_balances := \<lparr>items = [
       (0, \<lparr>abo_owner = 7, abo_asset_type = 0, abo_balance = 50, maintenance_flag = False\<rparr>),
       (1, \<lparr>abo_owner = 7, abo_asset_type = 1, abo_balance = 40, maintenance_flag = False\<rparr>),
       (2, \<lparr>abo_owner = 7, abo_asset_type = 2, abo_balance = 500, maintenance_flag = False\<rparr>)], next_id = 3\<rparr>,
     liquidity_pools := \<lparr>items = [(0, sample_pool)], next_id = 1\<rparr>\<rparr>"

lemma pool_db_wf: "wf_db pool_db" "store_find (liquidity_pools pool_db) 0 = Some sample_pool"
  by (simp_all add: pool_db_def sample_pool_def sample_defs wf_defs wf_assets_def store_wf_def store_find_def
      store_all_def CORE_ASSET_def CORE_DYN_def pool_ok_def pool_int64_def in_int64_def)

lemma pool_db_balance: "get_balance pool_db 7 0 = ASSET 50 0" "get_balance pool_db 7 1 = ASSET 40 1"
  "get_balance pool_db 7 2 = ASSET 500 2"
  by (simp_all add: pool_db_def sample_defs get_balance_def get_account_balance_def store_search_def abo_key_def)

lemmas pool_eval = pool_db_def sample_pool_def run_eval sample_defs fc_ref_simps authorized_def
  u128_mul_def u128_add_def u128_sub_def u128_def to_int64_def GRAPHENE_100_PERCENT_def
  update_virtual_value_def asset_sub_def

definition sample_exchange :: liquidity_pool_exchange_operation where
  "sample_exchange = \<lparr>lpx_fee = ASSET 3 0, lpx_account = 7, lpx_pool = 0,
     lpx_amount_to_sell = ASSET 10 0, lpx_min_to_receive = ASSET 15 1\<rparr>"

theorem lp_exchange_keeps_product_witness:
  "\<exists>d' pool'. run_lp_exchange fc_ref (Some 3) sample_exchange pool_db = Inr d' \<and>
    store_find (liquidity_pools d') 0 = Some pool' \<and> 2000000 \<le> lpo_balance_a pool' * lpo_balance_b pool' \<and>
    amount (get_balance d' 7 0) = 37 \<and> 55 \<le> amount (get_balance d' 7 1)"
proof -
  have "\<not> isl (run_lp_exchange fc_ref (Some 3) sample_exchange pool_db)"
    by (simp add: run_lp_exchange_def sample_exchange_def lp_exchange_do_evaluate_def lp_exchange_amounts_def
        lp_exchange_delta_def lp_exchange_do_apply_def market_allowed_def calculate_market_fee_def
        charges_market_fees_def pay_market_fees_def share_with_network_def pool_eval cong: eval_congs)
  then obtain d' where run: "run_lp_exchange fc_ref (Some 3) sample_exchange pool_db = Inr d'"
    by (cases "run_lp_exchange fc_ref (Some 3) sample_exchange pool_db") auto
  have pool: "store_find (liquidity_pools pool_db) (lpx_pool sample_exchange) = Some sample_pool"
    using pool_db_wf by (simp add: sample_exchange_def)
  from lp_exchange_keeps_product[OF fc_ref.fc_safe_axioms pool_db_wf(1) run pool] run pool_db_balance
  show ?thesis by (auto simp: sample_exchange_def sample_pool_def)
qed

text \<open>
  C20: a deposit that is applied moves the same two amounts from the depositor into the pool, at
  most the offered ones, and creates exactly the shares it gives to the depositor. Existing shares are
  never diluted: each balance grows at least in proportion to the share supply
  (\<open>balance * new_shares \<le> paid * supply\<close>, hence \<open>balance / supply\<close> does not fall).
\<close>

theorem lp_deposit_fair:
  assumes "fc_safe fc" "wf_db d" "lp_deposit_validate op = Inr ()" "run_lp_deposit fc req op d = Inr d'"
    and "store_find (liquidity_pools d) (lpd_pool op) = Some pool"
    and "store_find (assets d) (lpo_share_asset pool) = Some ao"
    and "store_find (asset_dyn_data d) (dynamic_asset_data_id ao) = Some dyn"
    and "0 \<le> current_supply dyn" "in_int64 (current_supply dyn)"
    and "in_int64 (amount (lpd_amount_a op))" "in_int64 (amount (lpd_amount_b op))"
  shows "\<exists>x y n pool' dyn'. store_find (liquidity_pools d') (lpd_pool op) = Some pool' \<and>
    lpo_balance_a pool' = lpo_balance_a pool + x \<and> lpo_balance_b pool' = lpo_balance_b pool + y \<and>
    store_find (asset_dyn_data d') (dynamic_asset_data_id ao) = Some dyn' \<and>
    current_supply dyn' = current_supply dyn + n \<and>
    0 < x \<and> x \<le> amount (lpd_amount_a op) \<and> 0 < y \<and> y \<le> amount (lpd_amount_b op) \<and> 0 < n \<and>
    lpo_balance_a pool * n \<le> x * current_supply dyn \<and> lpo_balance_b pool * n \<le> y * current_supply dyn \<and>
    (\<forall>owner a. amount (get_balance d' owner a) = amount (get_balance d owner a)
      - (if owner = lpd_account op \<and> a = lpo_asset_a pool then x else 0)
      - (if owner = lpd_account op \<and> a = lpo_asset_b pool then y else 0)
      + (if owner = lpd_account op \<and> a = lpo_share_asset pool then n else 0)
      - (if owner = lpd_account op \<and> a = asset_id (lpd_fee op) then amount (lpd_fee op) else 0))"
  by (rule fc_safe.lp_deposit_run[OF assms])

definition sample_deposit :: liquidity_pool_deposit_operation where
  "sample_deposit = \<lparr>lpd_fee = ASSET 3 0, lpd_account = 7, lpd_pool = 0,
     lpd_amount_a = ASSET 15 0, lpd_amount_b = ASSET 20 1\<rparr>"

theorem lp_deposit_fair_witness:
  "\<exists>d' n. run_lp_deposit fc_ref (Some 3) sample_deposit pool_db = Inr d' \<and> 0 < n \<and>
    amount (get_balance d' 7 2) = 500 + n"
proof -
  have "\<not> isl (run_lp_deposit fc_ref (Some 3) sample_deposit pool_db)"
    by (simp add: run_lp_deposit_def sample_deposit_def lp_deposit_do_evaluate_def lp_deposit_amounts_def
        lp_deposit_do_apply_def can_create_new_supply_def pool_add_def pool_eval cong: eval_congs)
  then obtain d' where run: "run_lp_deposit fc_ref (Some 3) sample_deposit pool_db = Inr d'"
    by (cases "run_lp_deposit fc_ref (Some 3) sample_deposit pool_db") auto
  have pool: "store_find (liquidity_pools pool_db) (lpd_pool sample_deposit) = Some sample_pool"
    using pool_db_wf by (simp add: sample_deposit_def)
  have ao: "store_find (assets pool_db) (lpo_share_asset sample_pool) = Some (sample_asset 2)"
    "store_find (asset_dyn_data pool_db) (dynamic_asset_data_id (sample_asset 2)) = Some (sample_dyn 500)"
    by (simp_all add: pool_eval)
  have val: "lp_deposit_validate sample_deposit = Inr ()"
    by (simp add: lp_deposit_validate_def sample_deposit_def)
  from lp_deposit_fair[OF fc_ref.fc_safe_axioms pool_db_wf(1) val run pool ao] run pool_db_balance
  show ?thesis
    by (auto simp: sample_deposit_def sample_pool_def sample_dyn_def in_int64_def)
qed

text \<open>
  C21: a withdrawal that is applied burns exactly the withdrawn shares and pays out of the pool at most
  the shares' part of each balance (\<open>paid * supply \<le> shares * balance\<close>), so the remaining shares
  never lose value; the pool is empty exactly when no share is left, and the withdrawer receives
  exactly what leaves the pool.
\<close>

theorem lp_withdraw_fair:
  assumes "fc_safe fc" "wf_db d" "lp_withdraw_validate op = Inr ()" "run_lp_withdraw fc req op d = Inr d'"
    and "store_find (liquidity_pools d) (lpw_pool op) = Some pool"
    and "store_find (assets d) (lpo_share_asset pool) = Some ao"
    and "store_find (asset_dyn_data d) (dynamic_asset_data_id ao) = Some dyn"
    and "in_int64 (current_supply dyn)"
  shows "\<exists>x y pool' dyn'. store_find (liquidity_pools d') (lpw_pool op) = Some pool' \<and>
    lpo_balance_a pool' = lpo_balance_a pool - x \<and> lpo_balance_b pool' = lpo_balance_b pool - y \<and>
    store_find (asset_dyn_data d') (dynamic_asset_data_id ao) = Some dyn' \<and>
    current_supply dyn' = current_supply dyn - amount (lpw_share_amount op) \<and>
    (lpo_balance_a pool' = 0 \<longleftrightarrow> current_supply dyn' = 0) \<and> 0 \<le> current_supply dyn' \<and> 0 \<le> x \<and> 0 \<le> y \<and>
    x * current_supply dyn \<le> amount (lpw_share_amount op) * lpo_balance_a pool \<and>
    y * current_supply dyn \<le> amount (lpw_share_amount op) * lpo_balance_b pool \<and>
    (\<forall>owner a. amount (get_balance d' owner a) = amount (get_balance d owner a)
      - (if owner = lpw_account op \<and> a = lpo_share_asset pool then amount (lpw_share_amount op) else 0)
      + (if owner = lpw_account op \<and> a = lpo_asset_a pool then x else 0)
      + (if owner = lpw_account op \<and> a = lpo_asset_b pool then y else 0)
      - (if owner = lpw_account op \<and> a = asset_id (lpw_fee op) then amount (lpw_fee op) else 0))"
  by (rule fc_safe.lp_withdraw_run[OF assms])

definition sample_withdraw :: liquidity_pool_withdraw_operation where
  "sample_withdraw = \<lparr>lpw_fee = ASSET 3 0, lpw_account = 7, lpw_pool = 0, lpw_share_amount = ASSET 100 2\<rparr>"

theorem lp_withdraw_fair_witness:
  "\<exists>d'. run_lp_withdraw fc_ref (Some 3) sample_withdraw pool_db = Inr d' \<and> amount (get_balance d' 7 2) = 400"
proof -
  have "\<not> isl (run_lp_withdraw fc_ref (Some 3) sample_withdraw pool_db)"
    by (simp add: run_lp_withdraw_def sample_withdraw_def lp_withdraw_do_evaluate_def lp_withdraw_amount_def
        lp_withdraw_do_apply_def pool_sub_def pool_eval cong: eval_congs)
  then obtain d' where run: "run_lp_withdraw fc_ref (Some 3) sample_withdraw pool_db = Inr d'"
    by (cases "run_lp_withdraw fc_ref (Some 3) sample_withdraw pool_db") auto
  have pool: "store_find (liquidity_pools pool_db) (lpw_pool sample_withdraw) = Some sample_pool"
    using pool_db_wf by (simp add: sample_withdraw_def)
  have ao: "store_find (assets pool_db) (lpo_share_asset sample_pool) = Some (sample_asset 2)"
    "store_find (asset_dyn_data pool_db) (dynamic_asset_data_id (sample_asset 2)) = Some (sample_dyn 500)"
    by (simp_all add: pool_eval)
  have val: "lp_withdraw_validate sample_withdraw = Inr ()"
    by (simp add: lp_withdraw_validate_def sample_withdraw_def)
  from lp_withdraw_fair[OF fc_ref.fc_safe_axioms pool_db_wf(1) val run pool ao] run pool_db_balance
  show ?thesis
    by (auto simp: sample_withdraw_def sample_pool_def sample_dyn_def in_int64_def)
qed

end
