(* ===== verification/Transfers.thy ===== *)
theory Transfers
  imports Fees
begin

text \<open>
  Transfers: \<open>libraries/protocol/transfer.cpp\<close> and \<open>libraries/chain/transfer_evaluator.cpp\<close>. An
  operation is a record without its memo and extensions; \<open>*_validate\<close>, \<open>*_do_evaluate\<close> and
  \<open>*_do_apply\<close> are the member functions of the same names.
\<close>

record transfer_operation =
  tr_fee :: asset
  tr_from :: account_id_type
  tr_to :: account_id_type
  tr_amount :: asset

definition transfer_validate :: "transfer_operation \<Rightarrow> unit result" where
  "transfer_validate op =
     FC_ASSERT (0 \<le> amount (tr_fee op))
    (FC_ASSERT (tr_from op \<noteq> tr_to op)
    (FC_ASSERT (0 < amount (tr_amount op))
    (Inr ())))"

definition transfer_do_evaluate :: "transfer_operation \<Rightarrow> fee_state \<Rightarrow> database \<Rightarrow> unit result" where
  "transfer_do_evaluate op fs d =
     bnd (store_get (accounts d) (tr_from op)) (\<lambda>from_account.
     bnd (store_get (accounts d) (tr_to op)) (\<lambda>to_account.
     bnd (store_get (assets d) (asset_id (tr_amount op))) (\<lambda>asset_type.
     ensure Transfer_from_account_not_whitelisted
       (is_authorized_asset d (tr_from op) from_account (asset_id (tr_amount op)) asset_type)
    (ensure Transfer_to_account_not_whitelisted
       (is_authorized_asset d (tr_to op) to_account (asset_id (tr_amount op)) asset_type)
    (ensure Transfer_restricted_transfer_asset
       (is_transfer_restricted asset_type \<longrightarrow>
          tr_from op = issuer asset_type \<or> tr_to op = issuer asset_type)
    (FC_ASSERT (amount (tr_amount op) \<le> amount (get_balance d (tr_from op) (asset_id (tr_amount op))))
    (Inr ())))))))"

definition transfer_do_apply ::
    "fc_lib \<Rightarrow> transfer_operation \<Rightarrow> unit \<Rightarrow> fee_state \<Rightarrow> database \<Rightarrow> database result" where
  "transfer_do_apply fc op ev fs d =
     bnd (debit fc (tr_from op) (tr_amount op) d) (\<lambda>d.
     adjust_balance fc (tr_to op) (tr_amount op) d)"

record override_transfer_operation =
  ot_fee :: asset
  ot_issuer :: account_id_type
  ot_from :: account_id_type
  ot_to :: account_id_type
  ot_amount :: asset

definition override_transfer_validate :: "override_transfer_operation \<Rightarrow> unit result" where
  "override_transfer_validate op =
     FC_ASSERT (0 \<le> amount (ot_fee op))
    (FC_ASSERT (ot_from op \<noteq> ot_to op)
    (FC_ASSERT (0 < amount (ot_amount op))
    (FC_ASSERT (ot_issuer op \<noteq> ot_from op)
    (Inr ()))))"

definition override_transfer_do_evaluate ::
    "override_transfer_operation \<Rightarrow> fee_state \<Rightarrow> database \<Rightarrow> unit result" where
  "override_transfer_do_evaluate op fs d =
     bnd (store_get (assets d) (asset_id (ot_amount op))) (\<lambda>asset_type.
     ensure Override_transfer_not_permitted (can_override asset_type)
    (FC_ASSERT (issuer asset_type = ot_issuer op)
    (bnd (store_get (accounts d) (ot_from op)) (\<lambda>from_account.
     bnd (store_get (accounts d) (ot_to op)) (\<lambda>to_account.
     FC_ASSERT (is_authorized_asset d (ot_to op) to_account (asset_id (ot_amount op)) asset_type)
    (FC_ASSERT (\<not> HARDFORK_CORE_2295_TIME \<le> head_block_time d \<longrightarrow>
        is_authorized_asset d (ot_from op) from_account (asset_id (ot_amount op)) asset_type)
    (FC_ASSERT (amount (ot_amount op) \<le> amount (get_balance d (ot_from op) (asset_id (ot_amount op))))
    (Inr ()))))))))"

definition override_transfer_do_apply ::
    "fc_lib \<Rightarrow> override_transfer_operation \<Rightarrow> unit \<Rightarrow> fee_state \<Rightarrow> database \<Rightarrow> database result" where
  "override_transfer_do_apply fc op ev fs d =
     bnd (debit fc (ot_from op) (ot_amount op) d) (\<lambda>d.
     adjust_balance fc (ot_to op) (ot_amount op) d)"

text \<open>The whole operations: evaluation, fee and application.\<close>

definition run_transfer :: "fc_lib \<Rightarrow> share_type option \<Rightarrow> transfer_operation \<Rightarrow> database \<Rightarrow> database result" where
  "run_transfer fc req op d =
     run_operation fc req (tr_from op) (tr_fee op) (transfer_do_evaluate op) (transfer_do_apply fc op) d"

definition run_override_transfer ::
    "fc_lib \<Rightarrow> share_type option \<Rightarrow> override_transfer_operation \<Rightarrow> database \<Rightarrow> database result" where
  "run_override_transfer fc req op d =
     run_operation fc req (ot_issuer op) (ot_fee op)
       (override_transfer_do_evaluate op) (override_transfer_do_apply fc op) d"

sublocale fc_safe \<subseteq> transfer_ev: conserving_evaluator fc tr_from tr_fee transfer_validate transfer_do_evaluate
    "transfer_do_apply fc"
  by unfold_locales (auto simp: transfer_do_apply_def simp del: debit_iff intro: debit_credit_conserves)

sublocale fc_safe \<subseteq> override_ev: conserving_evaluator fc ot_issuer ot_fee override_transfer_validate
    override_transfer_do_evaluate
    "override_transfer_do_apply fc"
  by unfold_locales (auto simp: override_transfer_do_apply_def simp del: debit_iff intro: debit_credit_conserves)

section \<open>Properties\<close>

context fc_safe
begin

lemmas transfer_steps = transfer_ev.operation_steps
lemmas transfer_conserves = transfer_ev.operation_conserves
lemmas override_steps = override_ev.operation_steps
lemmas override_conserves = override_ev.operation_conserves

lemma moved_balance:
  assumes "debit fc x a d = Inr d1" "adjust_balance fc y a d1 = Inr d2"
  shows "amount (get_balance d2 z b) = amount (get_balance d z b) -
    (if z = x \<and> b = asset_id a then amount a else 0) + (if z = y \<and> b = asset_id a then amount a else 0)"
  using assms adjust_bal by auto

end

text \<open>
  C22: a transfer that is applied takes exactly the amount from the sender and the fee from the
  sender, gives exactly the amount to the receiver, changes no other balance, and was covered: the
  sender owned the amount together with the fee. It is only applied when both accounts are authorized
  for the asset, and for a transfer-restricted asset one of them is its issuer.
\<close>

theorem transfer_exact:
  assumes "fc_safe fc" "wf_db d" "balances_nonneg d" "transfer_validate op = Inr ()"
    and "run_transfer fc req op d = Inr d'"
  shows "(\<forall>owner a. amount (get_balance d' owner a) = amount (get_balance d owner a)
      - (if owner = tr_from op \<and> a = asset_id (tr_amount op) then amount (tr_amount op) else 0)
      + (if owner = tr_to op \<and> a = asset_id (tr_amount op) then amount (tr_amount op) else 0)
      - (if owner = tr_from op \<and> a = asset_id (tr_fee op) then amount (tr_fee op) else 0)) \<and>
    amount (tr_amount op) + (if asset_id (tr_fee op) = asset_id (tr_amount op) then amount (tr_fee op) else 0)
      \<le> amount (get_balance d (tr_from op) (asset_id (tr_amount op))) \<and>
    authorized d (tr_from op) (asset_id (tr_amount op)) = Inr True \<and>
    authorized d (tr_to op) (asset_id (tr_amount op)) = Inr True \<and>
    (\<forall>ao. store_find (assets d) (asset_id (tr_amount op)) = Some ao \<and> is_transfer_restricted ao \<longrightarrow>
      issuer ao \<in> {tr_from op, tr_to op})"
proof -
  from assms(5) obtain fs d1 d2 d3 where ev: "transfer_do_evaluate op fs d = Inr ()"
    and frame: "fee_frame d d1" and d2: "debit fc (tr_from op) (tr_amount op) d1 = Inr d2"
    and d3: "adjust_balance fc (tr_to op) (tr_amount op) d2 = Inr d3"
    and d': "adjust_balance fc (tr_from op) (ASSET (- amount (tr_fee op)) (asset_id (tr_fee op))) d3 = Inr d'"
    unfolding run_transfer_def
    by (auto simp: transfer_do_apply_def fc_safe.debit_iff[OF assms(1)]
        elim!: fc_safe.transfer_steps[OF assms(1)])
  have exact: "amount (get_balance d' owner a) = amount (get_balance d owner a)
      - (if owner = tr_from op \<and> a = asset_id (tr_amount op) then amount (tr_amount op) else 0)
      + (if owner = tr_to op \<and> a = asset_id (tr_amount op) then amount (tr_amount op) else 0)
      - (if owner = tr_from op \<and> a = asset_id (tr_fee op) then amount (tr_fee op) else 0)" for owner a
    using fc_safe.adjust_balance_get[OF assms(1) d', of owner a]
      fc_safe.moved_balance[OF assms(1) d2 d3, of owner a] fee_frame_balance[OF frame] by simp
  have "conserves d d'"
    using fc_safe.transfer_conserves[OF assms(1,4)] assms(5) unfolding run_transfer_def by blast
  then have "0 \<le> amount (get_balance d' (tr_from op) (asset_id (tr_amount op)))"
    using assms(2,3) by (simp add: gap_step_def get_balance_nonneg)
  moreover have "tr_from op \<noteq> tr_to op" using assms(4) by (simp add: transfer_validate_def)
  ultimately have "amount (tr_amount op) +
      (if asset_id (tr_fee op) = asset_id (tr_amount op) then amount (tr_fee op) else 0)
      \<le> amount (get_balance d (tr_from op) (asset_id (tr_amount op)))"
    using exact[of "tr_from op" "asset_id (tr_amount op)"] by (auto split: if_splits)
  with exact ev show ?thesis by (auto simp: transfer_do_evaluate_def authorized_def)
qed

definition sample_transfer :: transfer_operation where
  "sample_transfer = \<lparr>tr_fee = ASSET 3 0, tr_from = 7, tr_to = 8, tr_amount = ASSET 40 0\<rparr>"

theorem transfer_exact_witness:
  "\<exists>d'. run_transfer fc_ref (Some 3) sample_transfer (sample_db 100) = Inr d' \<and>
    amount (get_balance d' 7 0) = 7 \<and> amount (get_balance d' 8 0) = 40 \<and> amount (get_balance d' 8 1) = 40"
proof -
  have "\<not> isl (run_transfer fc_ref (Some 3) sample_transfer (sample_db 100))"
    by (simp add: run_transfer_def sample_transfer_def transfer_do_evaluate_def transfer_do_apply_def
        is_transfer_restricted_def run_eval sample_defs fc_ref_simps cong: eval_congs)
  then obtain d' where run: "run_transfer fc_ref (Some 3) sample_transfer (sample_db 100) = Inr d'"
    by (cases "run_transfer fc_ref (Some 3) sample_transfer (sample_db 100)") auto
  have bal: "get_balance (sample_db 100) 7 0 = ASSET 50 0" "get_balance (sample_db 100) 8 0 = ASSET 0 0"
    "get_balance (sample_db 100) 8 1 = ASSET 40 1" "balances_nonneg (sample_db 100)"
    by (simp_all add: sample_defs get_balance_def get_account_balance_def store_search_def abo_key_def
        balances_nonneg_def store_all_def)
  have wf: "wf_db (sample_db 100)"
    by (simp add: sample_defs wf_defs wf_assets_def store_wf_def store_find_def store_all_def
        CORE_ASSET_def CORE_DYN_def)
  have val: "transfer_validate sample_transfer = Inr ()"
    by (simp add: transfer_validate_def sample_transfer_def)
  show ?thesis
    using run transfer_exact[OF fc_ref.fc_safe_axioms wf bal(4) val run] bal(1-3)
    by (simp add: sample_transfer_def)
qed

text \<open>
  An override transfer is applied only for an asset whose override flag is set, on request of its
  issuer, towards an authorized receiver; it moves exactly the amount between the two accounts
  and charges the fee to the issuer.
\<close>

theorem override_transfer_exact:
  assumes "fc_safe fc" "run_override_transfer fc req op d = Inr d'"
  shows "(\<exists>ao. store_find (assets d) (asset_id (ot_amount op)) = Some ao \<and> can_override ao \<and>
      issuer ao = ot_issuer op) \<and>
    authorized d (ot_to op) (asset_id (ot_amount op)) = Inr True \<and>
    (\<forall>owner a. amount (get_balance d' owner a) = amount (get_balance d owner a)
      - (if owner = ot_from op \<and> a = asset_id (ot_amount op) then amount (ot_amount op) else 0)
      + (if owner = ot_to op \<and> a = asset_id (ot_amount op) then amount (ot_amount op) else 0)
      - (if owner = ot_issuer op \<and> a = asset_id (ot_fee op) then amount (ot_fee op) else 0))"
proof -
  from assms(2) obtain fs d1 d2 d3 where ev: "override_transfer_do_evaluate op fs d = Inr ()"
    and frame: "fee_frame d d1" and d2: "debit fc (ot_from op) (ot_amount op) d1 = Inr d2"
    and d3: "adjust_balance fc (ot_to op) (ot_amount op) d2 = Inr d3"
    and d': "adjust_balance fc (ot_issuer op) (ASSET (- amount (ot_fee op)) (asset_id (ot_fee op))) d3 = Inr d'"
    unfolding run_override_transfer_def
    by (auto simp: override_transfer_do_apply_def fc_safe.debit_iff[OF assms(1)]
        elim!: fc_safe.override_steps[OF assms(1)])
  have exact: "amount (get_balance d' owner a) = amount (get_balance d owner a)
      - (if owner = ot_from op \<and> a = asset_id (ot_amount op) then amount (ot_amount op) else 0)
      + (if owner = ot_to op \<and> a = asset_id (ot_amount op) then amount (ot_amount op) else 0)
      - (if owner = ot_issuer op \<and> a = asset_id (ot_fee op) then amount (ot_fee op) else 0)" for owner a
    using fc_safe.adjust_balance_get[OF assms(1) d', of owner a]
      fc_safe.moved_balance[OF assms(1) d2 d3, of owner a] fee_frame_balance[OF frame] by simp
  from exact ev show ?thesis by (auto simp: override_transfer_do_evaluate_def authorized_def)
qed

definition sample_override :: override_transfer_operation where
  "sample_override = \<lparr>ot_fee = ASSET 3 0, ot_issuer = 7, ot_from = 8, ot_to = 7, ot_amount = ASSET 40 1\<rparr>"

definition override_db :: database where
  "override_db = (sample_db 100)\<lparr>assets := \<lparr>items = [(0, sample_asset 0),
     (1, (sample_asset 1)\<lparr>options := sample_options\<lparr>flags := 4\<rparr>\<rparr>)], next_id = 2\<rparr>\<rparr>"

theorem override_transfer_exact_witness:
  "\<exists>d'. run_override_transfer fc_ref (Some 3) sample_override override_db = Inr d' \<and>
    amount (get_balance d' 7 1) = 40 \<and> amount (get_balance d' 8 1) = 0"
proof -
  have "\<not> isl (run_override_transfer fc_ref (Some 3) sample_override override_db)"
    by (simp add: run_override_transfer_def sample_override_def override_transfer_do_evaluate_def
        override_transfer_do_apply_def can_override_def override_db_def run_eval sample_defs fc_ref_simps
        cong: eval_congs)
  then obtain d' where run: "run_override_transfer fc_ref (Some 3) sample_override override_db = Inr d'"
    by (cases "run_override_transfer fc_ref (Some 3) sample_override override_db") auto
  have bal: "get_balance override_db 7 1 = ASSET 0 1" "get_balance override_db 8 1 = ASSET 40 1"
    by (simp_all add: override_db_def sample_defs get_balance_def get_account_balance_def store_search_def
        abo_key_def)
  show ?thesis
    using run override_transfer_exact[OF fc_ref.fc_safe_axioms run] bal
    by (simp add: sample_override_def)
qed

end
