(* ===== verification/Undo_Database.thy ===== *)
theory Undo_Database
  imports Prelude "HOL-Library.AList"
begin

text \<open>
  The object database and its undo history: \<open>libraries/db/undo_database.cpp\<close>,
  \<open>libraries/db/include/graphene/db/undo_database.hpp\<close> and the create / modify / remove path
  of \<open>libraries/db/include/graphene/db/index.hpp\<close>, \<open>generic_index.hpp\<close> and
  \<open>object_database.cpp\<close>.

  An object id is the pair of its index (\<open>space_type()\<close>) and its instance. The objects of all
  indexes are one map, and every index has its next instance. The unordered containers of an
  \<open>undo_state\<close> are association lists (or lists of ids) in an arbitrary iteration order. The
  \<open>std::deque\<close> of undo states is a list whose head is \<open>_stack.back()\<close>.

  The abstract specification is a stack of snapshots: opening a session saves the whole
  database, \<open>undo\<close> and \<open>pop_commit\<close> restore the latest snapshot, \<open>merge\<close> forgets it. The
  simulation lemmas show that the recorded differences implement exactly that.
\<close>

section \<open>Data\<close>

type_synonym oid = "nat \<times> nat"

record 'o objdb =
  objects :: "oid \<rightharpoonup> 'o"
  next_ids :: "nat \<Rightarrow> nat"

record 'o undo_state =
  old_values :: "(oid \<times> 'o) list"
  old_index_next_ids :: "(nat \<times> nat) list"
  new_ids :: "oid list"
  removed :: "(oid \<times> 'o) list"

definition empty_undo_state :: "'o undo_state" where
  "empty_undo_state = \<lparr>old_values = [], old_index_next_ids = [], new_ids = [], removed = []\<rparr>"

record 'o undo_database =
  db :: "'o objdb"
  stack :: "'o undo_state list"
  disabled :: bool
  active_sessions :: nat
  max_size :: nat

section \<open>Plain changes of the object database\<close>

text \<open>\<open>get_object\<close> throws for a missing object; \<open>insert\<close> throws when the id is taken.\<close>

definition db_modify :: "oid \<Rightarrow> 'o \<Rightarrow> 'o objdb \<Rightarrow> 'o objdb result" where
  "db_modify i v d = FC_ASSERT (objects d i \<noteq> None) (Inr (d\<lparr>objects := (objects d)(i \<mapsto> v)\<rparr>))"

definition db_remove :: "oid \<Rightarrow> 'o objdb \<Rightarrow> 'o objdb result" where
  "db_remove i d = FC_ASSERT (objects d i \<noteq> None) (Inr (d\<lparr>objects := (objects d)(i := None)\<rparr>))"

definition db_insert :: "oid \<Rightarrow> 'o \<Rightarrow> 'o objdb \<Rightarrow> 'o objdb result" where
  "db_insert i v d = FC_ASSERT (objects d i = None) (Inr (d\<lparr>objects := (objects d)(i \<mapsto> v)\<rparr>))"

definition set_next_id :: "nat \<Rightarrow> nat \<Rightarrow> 'o objdb \<Rightarrow> 'o objdb" where
  "set_next_id x n d = d\<lparr>next_ids := (next_ids d)(x := n)\<rparr>"

section \<open>Recording changes\<close>

definition enable :: "'o undo_database \<Rightarrow> 'o undo_database" where
  "enable u = u\<lparr>disabled := False\<rparr>"

definition disable :: "'o undo_database \<Rightarrow> 'o undo_database" where
  "disable u = u\<lparr>disabled := True\<rparr>"

text \<open>\<open>if( _stack.empty() ) _stack.emplace_back();\<close>\<close>

definition with_state :: "'o undo_state list \<Rightarrow> 'o undo_state list" where
  "with_state ss = (if ss = [] then [empty_undo_state] else ss)"

definition record_create :: "oid \<Rightarrow> 'o undo_state \<Rightarrow> 'o undo_state" where
  "record_create i st =
     (let st = (case map_of (old_index_next_ids st) (fst i) of
                  None \<Rightarrow> st\<lparr>old_index_next_ids := AList.update (fst i) (snd i) (old_index_next_ids st)\<rparr>
                | Some n \<Rightarrow> st)
      in st\<lparr>new_ids := List.insert i (new_ids st)\<rparr>)"

definition record_modify :: "oid \<Rightarrow> 'o \<Rightarrow> 'o undo_state \<Rightarrow> 'o undo_state" where
  "record_modify i v st =
     (if i \<in> set (new_ids st) then st
      else case map_of (old_values st) i of
        Some w \<Rightarrow> st
      | None \<Rightarrow> st\<lparr>old_values := AList.update i v (old_values st)\<rparr>)"

definition record_remove :: "oid \<Rightarrow> 'o \<Rightarrow> 'o undo_state \<Rightarrow> 'o undo_state" where
  "record_remove i v st =
     (if i \<in> set (new_ids st) then st\<lparr>new_ids := removeAll i (new_ids st)\<rparr>
      else case map_of (old_values st) i of
        Some w \<Rightarrow> st\<lparr>removed := AList.update i w (removed st), old_values := AList.delete i (old_values st)\<rparr>
      | None \<Rightarrow>
          (case map_of (removed st) i of
             Some w \<Rightarrow> st
           | None \<Rightarrow> st\<lparr>removed := AList.update i v (removed st)\<rparr>))"

definition on_change :: "('o undo_state \<Rightarrow> 'o undo_state) \<Rightarrow> 'o undo_database \<Rightarrow> 'o undo_database" where
  "on_change f u =
     (if disabled u then u
      else case with_state (stack u) of
        [] \<Rightarrow> u
      | st # ss \<Rightarrow> u\<lparr>stack := f st # ss\<rparr>)"

definition on_create :: "oid \<Rightarrow> 'o undo_database \<Rightarrow> 'o undo_database" where
  "on_create i = on_change (record_create i)"

definition on_modify :: "oid \<Rightarrow> 'o \<Rightarrow> 'o undo_database \<Rightarrow> 'o undo_database" where
  "on_modify i v = on_change (record_modify i v)"

definition on_remove :: "oid \<Rightarrow> 'o \<Rightarrow> 'o undo_database \<Rightarrow> 'o undo_database" where
  "on_remove i v = on_change (record_remove i v)"

section \<open>Changes through a primary index\<close>

text \<open>
  \<open>primary_index::create\<close> inserts the object under the next id, uses the id up and then
  records the creation; \<open>modify\<close> and \<open>remove\<close> record the old value before the change.
\<close>

definition index_create :: "nat \<Rightarrow> 'o \<Rightarrow> 'o undo_database \<Rightarrow> 'o undo_database result" where
  "index_create x v u =
     (let i = (x, next_ids (db u) x) in
      bnd (db_insert i v (db u)) (\<lambda>d.
      Inr (on_create i (u\<lparr>db := set_next_id x (Suc (next_ids d x)) d\<rparr>))))"

definition index_modify :: "oid \<Rightarrow> 'o \<Rightarrow> 'o undo_database \<Rightarrow> 'o undo_database result" where
  "index_modify i v u =
     (case objects (db u) i of
        None \<Rightarrow> Inl Assert_exception
      | Some w \<Rightarrow> bnd (db_modify i v (db u)) (\<lambda>d. Inr ((on_modify i w u)\<lparr>db := d\<rparr>)))"

definition index_remove :: "oid \<Rightarrow> 'o undo_database \<Rightarrow> 'o undo_database result" where
  "index_remove i u =
     (case objects (db u) i of
        None \<Rightarrow> Inl Assert_exception
      | Some w \<Rightarrow> bnd (db_remove i (db u)) (\<lambda>d. Inr ((on_remove i w u)\<lparr>db := d\<rparr>)))"

section \<open>Sessions\<close>

text \<open>\<open>while( size() > max_size() ) _stack.pop_front();\<close>\<close>

definition trim :: "nat \<Rightarrow> 'a list \<Rightarrow> 'a list" where
  "trim n ss = take n ss"

definition start_undo_session :: "bool \<Rightarrow> 'o undo_database \<Rightarrow> 'o undo_database" where
  "start_undo_session force_enable u =
     (if disabled u \<and> \<not> force_enable then u
      else u\<lparr>disabled := (if force_enable then False else disabled u),
             stack := empty_undo_state # trim (max_size u) (stack u),
             active_sessions := Suc (active_sessions u)\<rparr>)"

text \<open>The four loops that \<open>undo()\<close> and \<open>pop_commit()\<close> share.\<close>

definition restore :: "'o undo_state \<Rightarrow> 'o objdb \<Rightarrow> 'o objdb result" where
  "restore st d =
     bnd (fold_res (\<lambda>(i, v). db_modify i v) (old_values st) d) (\<lambda>d.
     bnd (fold_res db_remove (new_ids st) d) (\<lambda>d.
     bnd (Inr (fold (\<lambda>(x, n). set_next_id x n) (old_index_next_ids st) d)) (\<lambda>d.
     fold_res (\<lambda>(i, v). db_insert i v) (removed st) d)))"

definition undo :: "'o undo_database \<Rightarrow> 'o undo_database result" where
  "undo u =
     FC_ASSERT (\<not> disabled u)
    (FC_ASSERT (0 < active_sessions u)
    (case stack u of
       [] \<Rightarrow> Inl Fc_exception
     | st # ss \<Rightarrow>
         bnd (restore st (db u)) (\<lambda>d.
         Inr (enable (u\<lparr>db := d, stack := ss, active_sessions := active_sessions u - 1\<rparr>)))))"

definition pop_commit :: "'o undo_database \<Rightarrow> 'o undo_database result" where
  "pop_commit u =
     FC_ASSERT (active_sessions u = 0)
    (FC_ASSERT (stack u \<noteq> [])
    (case stack u of
       [] \<Rightarrow> Inl Fc_exception
     | st # ss \<Rightarrow> bnd (restore st (db u)) (\<lambda>d. Inr (enable (u\<lparr>db := d, stack := ss\<rparr>)))))"

definition commit :: "'o undo_database \<Rightarrow> 'o undo_database result" where
  "commit u = FC_ASSERT (0 < active_sessions u) (Inr (u\<lparr>active_sessions := active_sessions u - 1\<rparr>))"

text \<open>The loops of \<open>merge()\<close>, each folding one container of the later state into the
  earlier one.\<close>

definition merge_old_value :: "oid \<times> 'o \<Rightarrow> 'o undo_state \<Rightarrow> 'o undo_state" where
  "merge_old_value p prev =
     (if fst p \<in> set (new_ids prev) then prev
      else case map_of (old_values prev) (fst p) of
        Some w \<Rightarrow> prev
      | None \<Rightarrow> prev\<lparr>old_values := AList.update (fst p) (snd p) (old_values prev)\<rparr>)"

definition merge_new_id :: "oid \<Rightarrow> 'o undo_state \<Rightarrow> 'o undo_state" where
  "merge_new_id i prev = prev\<lparr>new_ids := List.insert i (new_ids prev)\<rparr>"

definition merge_next_id :: "nat \<times> nat \<Rightarrow> 'o undo_state \<Rightarrow> 'o undo_state" where
  "merge_next_id p prev =
     (case map_of (old_index_next_ids prev) (fst p) of
        None \<Rightarrow> prev\<lparr>old_index_next_ids := AList.update (fst p) (snd p) (old_index_next_ids prev)\<rparr>
      | Some n \<Rightarrow> prev)"

definition merge_removed :: "oid \<times> 'o \<Rightarrow> 'o undo_state \<Rightarrow> 'o undo_state" where
  "merge_removed p prev =
     (if fst p \<in> set (new_ids prev) then prev\<lparr>new_ids := removeAll (fst p) (new_ids prev)\<rparr>
      else case map_of (old_values prev) (fst p) of
        Some w \<Rightarrow> prev\<lparr>removed := AList.update (fst p) w (removed prev),
                        old_values := AList.delete (fst p) (old_values prev)\<rparr>
      | None \<Rightarrow> prev\<lparr>removed := AList.update (fst p) (snd p) (removed prev)\<rparr>)"

definition merge_states :: "'o undo_state \<Rightarrow> 'o undo_state \<Rightarrow> 'o undo_state" where
  "merge_states st prev =
     fold merge_removed (removed st)
       (fold merge_next_id (old_index_next_ids st)
         (fold merge_new_id (new_ids st)
           (fold merge_old_value (old_values st) prev)))"

definition merge :: "'o undo_database \<Rightarrow> 'o undo_database result" where
  "merge u =
     FC_ASSERT (0 < active_sessions u)
    (if active_sessions u = 1 \<and> length (stack u) = 1
     then Inr (u\<lparr>stack := tl (stack u), active_sessions := active_sessions u - 1\<rparr>)
     else
       FC_ASSERT (2 \<le> length (stack u))
      (case stack u of
         st # prev # ss \<Rightarrow>
           Inr (u\<lparr>stack := merge_states st prev # ss, active_sessions := active_sessions u - 1\<rparr>)
       | _ \<Rightarrow> Inl Fc_exception))"

section \<open>What an undo state says about an object\<close>

text \<open>The four relationships of an object to an undo state listed in the comment of
  \<open>merge()\<close>.\<close>

datatype 'o entry = New | Upd 'o | Del 'o | Nop

definition entry :: "'o undo_state \<Rightarrow> oid \<Rightarrow> 'o entry" where
  "entry st i =
     (if i \<in> set (new_ids st) then New
      else case map_of (old_values st) i of
        Some w \<Rightarrow> Upd w
      | None \<Rightarrow> (case map_of (removed st) i of Some w \<Rightarrow> Del w | None \<Rightarrow> Nop))"

definition wf_state :: "'o undo_state \<Rightarrow> bool" where
  "wf_state st \<longleftrightarrow>
     distinct (new_ids st) \<and> distinct (map fst (old_values st)) \<and> distinct (map fst (removed st)) \<and>
     distinct (map fst (old_index_next_ids st)) \<and>
     (\<forall>i \<in> set (new_ids st). map_of (old_values st) i = None \<and> map_of (removed st) i = None) \<and>
     (\<forall>i w. map_of (old_values st) i = Some w \<longrightarrow> map_of (removed st) i = None)"

text \<open>The table in the comment of \<open>merge()\<close>: the entry of the earlier state, then the entry of
  the later one. The cells marked N/A there (they violate causality) are mapped to the
  earlier entry.\<close>

fun compose :: "'o entry \<Rightarrow> 'o entry \<Rightarrow> 'o entry" where
  "compose New (Upd y) = New"
| "compose New (Del y) = Nop"
| "compose New Nop = New"
| "compose (Upd x) (Upd y) = Upd x"
| "compose (Upd x) (Del y) = Del x"
| "compose (Upd x) Nop = Upd x"
| "compose (Del x) Nop = Del x"
| "compose Nop e = e"
| "compose e _ = e"

fun causal :: "'o entry \<Rightarrow> 'o entry \<Rightarrow> bool" where
  "causal New New = False"
| "causal (Upd x) New = False"
| "causal (Del x) Nop = True"
| "causal (Del x) e = False"
| "causal _ _ = True"

declare map_of_eq_Some_iff [simp del] Some_eq_map_of_iff [simp del]

lemmas alist_conv = update_conv' delete_conv' distinct_update distinct_delete

lemma wf_empty [simp]: "wf_state empty_undo_state"
  and entry_empty [simp]: "entry empty_undo_state i = Nop"
  by (simp_all add: wf_state_def entry_def empty_undo_state_def)

subsection \<open>Recording one change\<close>

lemma record_create_entry:
  assumes "wf_state st" "entry st i = Nop"
  shows "wf_state (record_create i st)"
    and "entry (record_create i st) j = (if j = i then New else entry st j)"
    and "map_of (old_index_next_ids (record_create i st)) x =
      (case map_of (old_index_next_ids st) x of None \<Rightarrow> if x = fst i then Some (snd i) else None | Some n \<Rightarrow> Some n)"
  using assms
  by (auto simp: record_create_def wf_state_def entry_def alist_conv simp del: split_paired_All
      split: if_splits option.splits)

lemma record_modify_entry:
  assumes "wf_state st" "\<And>w. entry st i \<noteq> Del w"
  shows "wf_state (record_modify i v st) \<and>
    entry (record_modify i v st) = (entry st)(i := compose (entry st i) (Upd v)) \<and>
    old_index_next_ids (record_modify i v st) = old_index_next_ids st"
proof (cases "entry st i")
  case Nop
  with assms(1) show ?thesis
    by (auto simp: record_modify_def wf_state_def entry_def alist_conv fun_eq_iff
        simp del: split_paired_All split: if_splits option.splits)
qed (use assms in \<open>auto simp: record_modify_def entry_def fun_eq_iff split: if_splits option.splits\<close>)

lemma record_remove_entry:
  assumes "wf_state st" "\<And>w. entry st i \<noteq> Del w"
  shows "wf_state (record_remove i v st) \<and>
    entry (record_remove i v st) = (entry st)(i := compose (entry st i) (Del v)) \<and>
    old_index_next_ids (record_remove i v st) = old_index_next_ids st"
proof (cases "entry st i")
  case New
  with assms(1) show ?thesis
    by (auto simp: record_remove_def wf_state_def entry_def fun_eq_iff distinct_removeAll
        simp del: split_paired_All split: if_splits option.splits)
next
  case (Upd w)
  with assms(1) show ?thesis
    by (auto simp: record_remove_def wf_state_def entry_def alist_conv fun_eq_iff
        simp del: split_paired_All split: if_splits option.splits)
next
  case Nop
  with assms(1) show ?thesis
    by (auto simp: record_remove_def wf_state_def entry_def alist_conv fun_eq_iff
        simp del: split_paired_All split: if_splits option.splits)
qed (use assms in auto)

subsection \<open>Undo states as differences between two databases\<close>

definition ids_below :: "'o objdb \<Rightarrow> bool" where
  "ids_below d \<longleftrightarrow> (\<forall>x n v. objects d (x, n) = Some v \<longrightarrow> n < next_ids d x)"

text \<open>\<open>entry_ok b c n i e\<close>: the entry \<open>e\<close> of the object \<open>i\<close> describes how the database \<open>c\<close> differs
  from the earlier database \<open>b\<close>.\<close>

fun entry_ok :: "'o objdb \<Rightarrow> 'o objdb \<Rightarrow> oid \<Rightarrow> 'o entry \<Rightarrow> bool" where
  "entry_ok b c i New = (objects b i = None \<and> objects c i \<noteq> None \<and> next_ids b (fst i) \<le> snd i)"
| "entry_ok b c i (Upd w) = (objects b i = Some w \<and> objects c i \<noteq> None)"
| "entry_ok b c i (Del w) = (objects b i = Some w \<and> objects c i = None)"
| "entry_ok b c i Nop = (objects b i = objects c i)"

definition next_ok :: "'o objdb \<Rightarrow> 'o objdb \<Rightarrow> 'o undo_state \<Rightarrow> bool" where
  "next_ok b c st \<longleftrightarrow> (\<forall>x. next_ids b x \<le> next_ids c x \<and>
     (case map_of (old_index_next_ids st) x of None \<Rightarrow> next_ids c x | Some n \<Rightarrow> n) = next_ids b x)"

lemma next_okD:
  assumes "next_ok b c st"
  shows "next_ids b x \<le> next_ids c x"
    and "(case map_of (old_index_next_ids st) x of None \<Rightarrow> next_ids c x | Some n \<Rightarrow> n) = next_ids b x"
  using assms by (auto simp only: next_ok_def)

lemma next_ok_frame:
  "old_index_next_ids st' = old_index_next_ids st \<Longrightarrow> next_ok b (c\<lparr>objects := m\<rparr>) st' = next_ok b c st"
  by (simp add: next_ok_def cong: option.case_cong)

definition diff_ok :: "'o objdb \<Rightarrow> 'o objdb \<Rightarrow> 'o undo_state \<Rightarrow> bool" where
  "diff_ok b c st \<longleftrightarrow>
     wf_state st \<and> ids_below b \<and> ids_below c \<and> (\<forall>i. entry_ok b c i (entry st i)) \<and> next_ok b c st"

lemma diff_ok_refl: "ids_below d \<Longrightarrow> diff_ok d d empty_undo_state"
  by (simp add: diff_ok_def next_ok_def empty_undo_state_def entry_def wf_state_def)

lemma diff_okD:
  assumes "diff_ok b c st"
  shows "entry_ok b c i (entry st i)" "wf_state st" "ids_below b" "ids_below c" "next_ok b c st"
    "next_ids b x \<le> next_ids c x"
  using assms by (simp_all add: diff_ok_def next_ok_def del: split_paired_All)

text \<open>The current instance counter of an index is above every object of the base.\<close>

lemma diff_ok_fresh:
  assumes "diff_ok b c st" shows "objects b (x, next_ids c x) = None"
proof (rule ccontr)
  assume "objects b (x, next_ids c x) \<noteq> None"
  then have "next_ids c x < next_ids b x" using diff_okD(3)[OF assms] by (auto simp: ids_below_def)
  then show False using diff_okD(6)[OF assms, of x] by simp
qed

lemma diff_ok_create:
  assumes d: "diff_ok b c st" and new: "objects c (x, next_ids c x) = None"
  shows "diff_ok b (set_next_id x (Suc (next_ids c x)) (c\<lparr>objects := (objects c)((x, next_ids c x) \<mapsto> v)\<rparr>))
           (record_create (x, next_ids c x) st)" (is "diff_ok b ?c (record_create ?i st)")
proof -
  have fresh: "objects b ?i = None" using diff_ok_fresh[OF d] .
  have nop: "entry st ?i = Nop"
    using diff_okD(1)[OF d, of ?i] fresh new by (cases "entry st ?i") auto
  note r = record_create_entry[OF diff_okD(2)[OF d] nop]
  have le: "next_ids b x \<le> next_ids c x" using diff_okD(6)[OF d] .
  have "entry_ok b ?c j (entry (record_create ?i st) j)" for j
    using diff_okD(1)[OF d, of j] fresh le
    by (cases "entry st j"; cases "j = ?i") (auto simp: r(2) nop set_next_id_def)
  moreover have "ids_below ?c"
    using diff_okD(4)[OF d] by (auto simp: ids_below_def set_next_id_def less_SucI)
  moreover have "next_ok b ?c (record_create ?i st)"
    unfolding next_ok_def
  proof (rule allI)
    fix y
    show "next_ids b y \<le> next_ids ?c y \<and> (case map_of (old_index_next_ids (record_create ?i st)) y of
        None \<Rightarrow> next_ids ?c y | Some n \<Rightarrow> n) = next_ids b y"
      using next_okD[OF diff_okD(5)[OF d], of y]
      by (cases "map_of (old_index_next_ids st) y") (auto simp: r(3) set_next_id_def)
  qed
  ultimately show ?thesis
    using r(1) diff_okD(3)[OF d] by (simp add: diff_ok_def del: split_paired_All)
qed

lemma diff_ok_modify:
  assumes d: "diff_ok b c st" and old: "objects c i = Some w"
  shows "diff_ok b (c\<lparr>objects := (objects c)(i \<mapsto> v)\<rparr>) (record_modify i w st)"
proof -
  have nd: "entry st i \<noteq> Del u" for u using diff_okD(1)[OF d, of i] old by auto
  note r = record_modify_entry[OF diff_okD(2)[OF d] nd, of w]
  have "entry_ok b (c\<lparr>objects := (objects c)(i \<mapsto> v)\<rparr>) j (entry (record_modify i w st) j)" for j
    using diff_okD(1)[OF d, of j] old nd
    by (cases "entry st j"; cases "j = i") (auto simp: r)
  moreover have "ids_below (c\<lparr>objects := (objects c)(i \<mapsto> v)\<rparr>)"
    using diff_okD(4)[OF d] old by (auto simp: ids_below_def)
  ultimately show ?thesis
    using r diff_okD(3,5)[OF d] by (simp add: diff_ok_def next_ok_frame del: split_paired_All)
qed

lemma diff_ok_remove:
  assumes d: "diff_ok b c st" and old: "objects c i = Some w"
  shows "diff_ok b (c\<lparr>objects := (objects c)(i := None)\<rparr>) (record_remove i w st)"
proof -
  have nd: "entry st i \<noteq> Del u" for u using diff_okD(1)[OF d, of i] old by auto
  note r = record_remove_entry[OF diff_okD(2)[OF d] nd, of w]
  have "entry_ok b (c\<lparr>objects := (objects c)(i := None)\<rparr>) j (entry (record_remove i w st) j)" for j
    using diff_okD(1)[OF d, of j] old nd
    by (cases "entry st j"; cases "j = i") (auto simp: r)
  moreover have "ids_below (c\<lparr>objects := (objects c)(i := None)\<rparr>)"
    using diff_okD(4)[OF d] by (auto simp: ids_below_def)
  ultimately show ?thesis
    using r diff_okD(3,5)[OF d] by (simp add: diff_ok_def next_ok_frame del: split_paired_All)
qed

subsection \<open>Restoring\<close>

lemma fold_put:
  assumes step: "\<And>i v d. ok (objects d i) \<Longrightarrow> f (i, v) d = Inr (d\<lparr>objects := (objects d)(i \<mapsto> v)\<rparr>)"
    and "distinct (map fst kvs)" and "\<And>i v. map_of kvs i = Some v \<Longrightarrow> ok (objects d i)"
  shows "fold_res f kvs d =
    Inr (d\<lparr>objects := (\<lambda>i. case map_of kvs i of None \<Rightarrow> objects d i | Some v \<Rightarrow> Some v)\<rparr>)"
  using assms(2,3)
proof (induction kvs arbitrary: d)
  case (Cons p kvs)
  obtain i v where p: "p = (i, v)" by (cases p)
  let ?d = "d\<lparr>objects := (objects d)(i \<mapsto> v)\<rparr>"
  have "f p d = Inr ?d" using step Cons.prems(2)[of i v] p by simp
  moreover have ni: "map_of kvs i = None" using Cons.prems(1) p by (simp add: map_of_eq_None_iff)
  then have "map_of kvs j = Some u \<Longrightarrow> ok (objects ?d j)" for j u
    using Cons.prems(2)[of j u] p by (cases "j = i") simp_all
  then have "fold_res f kvs ?d =
      Inr (?d\<lparr>objects := (\<lambda>i. case map_of kvs i of None \<Rightarrow> objects ?d i | Some v \<Rightarrow> Some v)\<rparr>)"
    using Cons.prems(1) by (intro Cons.IH) simp_all
  moreover have "(case map_of kvs j of None \<Rightarrow> objects ?d j | Some v \<Rightarrow> Some v) =
      (case map_of (p # kvs) j of None \<Rightarrow> objects d j | Some v \<Rightarrow> Some v)" for j
    using ni p by (cases "j = i") (auto split: option.split)
  ultimately show ?case by simp
qed simp

lemma fold_db_remove:
  assumes "distinct ids" "\<And>i. i \<in> set ids \<Longrightarrow> objects d i \<noteq> None"
  shows "fold_res db_remove ids d = Inr (d\<lparr>objects := (\<lambda>i. if i \<in> set ids then None else objects d i)\<rparr>)"
  using assms
proof (induction ids arbitrary: d)
  case (Cons i ids)
  let ?d = "d\<lparr>objects := (objects d)(i := None)\<rparr>"
  have "db_remove i d = Inr ?d" using Cons.prems by (simp add: db_remove_def)
  moreover have "j \<in> set ids \<Longrightarrow> objects ?d j \<noteq> None" for j
    using Cons.prems(1) Cons.prems(2)[of j] by auto
  then have "fold_res db_remove ids ?d = Inr (?d\<lparr>objects := (\<lambda>i. if i \<in> set ids then None else objects ?d i)\<rparr>)"
    using Cons.prems(1) by (intro Cons.IH) simp_all
  moreover have "(if j \<in> set ids then None else objects ?d j) =
      (if j \<in> set (i # ids) then None else objects d j)" for j by simp
  ultimately show ?case by simp
qed simp

lemma fold_set_next_id:
  assumes "distinct (map fst kvs)"
  shows "fold (\<lambda>(x, n). set_next_id x n) kvs d =
    d\<lparr>next_ids := (\<lambda>x. case map_of kvs x of None \<Rightarrow> next_ids d x | Some n \<Rightarrow> n)\<rparr>"
  using assms
proof (induction kvs arbitrary: d)
  case (Cons p kvs)
  obtain y n where p: "p = (y, n)" by (cases p)
  have ny: "map_of kvs y = None" using Cons.prems p by (simp add: map_of_eq_None_iff)
  have "(case map_of kvs x of None \<Rightarrow> next_ids (set_next_id y n d) x | Some m \<Rightarrow> m) =
      (case map_of (p # kvs) x of None \<Rightarrow> next_ids d x | Some m \<Rightarrow> m)" for x
    using ny p by (cases "x = y") (auto simp: set_next_id_def split: option.split)
  then show ?case using Cons.IH[of "set_next_id y n d"] Cons.prems by (simp add: p) (simp add: set_next_id_def)
qed simp

lemma restore_diff:
  assumes d: "diff_ok b c st"
  shows "restore st c = Inr b"
proof -
  have wf: "wf_state st" using diff_okD(2)[OF d] .
  have e: "entry_ok b c i (entry st i)" for i using diff_okD(1)[OF d] .
  let ?d1 = "c\<lparr>objects := (\<lambda>i. case map_of (old_values st) i of None \<Rightarrow> objects c i | Some v \<Rightarrow> Some v)\<rparr>"
  let ?d2 = "?d1\<lparr>objects := (\<lambda>i. if i \<in> set (new_ids st) then None else objects ?d1 i)\<rparr>"
  let ?d3 = "?d2\<lparr>next_ids := next_ids b\<rparr>"
  let ?o4 = "\<lambda>i. case map_of (removed st) i of None \<Rightarrow> objects ?d3 i | Some v \<Rightarrow> Some v"
  have 1: "fold_res (\<lambda>(i, v). db_modify i v) (old_values st) c = Inr ?d1"
  proof (rule fold_put[where ok = "\<lambda>x. x \<noteq> None"])
    show "objects c i \<noteq> None" if "map_of (old_values st) i = Some v" for i v
      using e[of i] that wf by (auto simp: entry_def wf_state_def split: if_splits)
  qed (use wf in \<open>simp_all add: wf_state_def db_modify_def\<close>)
  have 2: "fold_res db_remove (new_ids st) ?d1 = Inr ?d2"
  proof (rule fold_db_remove)
    show "objects ?d1 i \<noteq> None" if "i \<in> set (new_ids st)" for i
      using e[of i] that by (auto simp: entry_def split: option.splits)
  qed (use wf in \<open>simp add: wf_state_def\<close>)
  have 3: "fold (\<lambda>(x, n). set_next_id x n) (old_index_next_ids st) ?d2 = ?d3"
    using next_okD(2)[OF diff_okD(5)[OF d]] wf by (simp add: fold_set_next_id wf_state_def cong: option.case_cong)
  have 4: "fold_res (\<lambda>(i, v). db_insert i v) (removed st) ?d3 = Inr (?d3\<lparr>objects := ?o4\<rparr>)"
  proof (rule fold_put[where ok = "\<lambda>x. x = None"])
    show "objects ?d3 i = None" if "map_of (removed st) i = Some v" for i v
      using e[of i] that wf
      by (auto simp: entry_def wf_state_def simp del: split_paired_All split: if_splits option.splits)
  qed (use wf in \<open>simp_all add: wf_state_def db_insert_def\<close>)
  have "?o4 i = objects b i" for i
    using e[of i] wf
    by (auto simp: entry_def wf_state_def simp del: split_paired_All split: if_splits option.splits)
  then have "?d3\<lparr>objects := ?o4\<rparr> = b" by simp
  with 1 2 3 4 show ?thesis by (simp add: restore_def)
qed

subsection \<open>Merging\<close>

text \<open>
  A loop over one container of the later state changes the entries of its keys only. \<open>g\<close> is
  the effect on one entry and \<open>ok\<close> what that entry must be before.
\<close>

lemma fold_entry:
  assumes step: "\<And>i v s. wf_state s \<Longrightarrow> ok v (entry s i) \<Longrightarrow>
      wf_state (f (i, v) s) \<and> entry (f (i, v) s) = (entry s)(i := g v (entry s i)) \<and>
      old_index_next_ids (f (i, v) s) = old_index_next_ids s"
    and "distinct (map fst kvs)" "wf_state s"
    and "\<And>i v. map_of kvs i = Some v \<Longrightarrow> ok v (entry s i)"
  shows "wf_state (fold f kvs s) \<and>
    entry (fold f kvs s) = (\<lambda>i. case map_of kvs i of None \<Rightarrow> entry s i | Some v \<Rightarrow> g v (entry s i)) \<and>
    old_index_next_ids (fold f kvs s) = old_index_next_ids s"
  using assms(2-4)
proof (induction kvs arbitrary: s)
  case (Cons p kvs)
  obtain i v where p: "p = (i, v)" by (cases p)
  have st: "wf_state (f p s)" "entry (f p s) = (entry s)(i := g v (entry s i))"
    "old_index_next_ids (f p s) = old_index_next_ids s"
    using step[of s v i] Cons.prems(2) Cons.prems(3)[of i v] p by simp_all
  have ni: "map_of kvs i = None" using Cons.prems(1) p by (simp add: map_of_eq_None_iff)
  have "map_of kvs j = Some u \<Longrightarrow> ok u (entry (f p s) j)" for j u
    using Cons.prems(3)[of j u] p ni st(2) by (cases "j = i") auto
  then have "wf_state (fold f kvs (f p s)) \<and>
      entry (fold f kvs (f p s)) =
        (\<lambda>i. case map_of kvs i of None \<Rightarrow> entry (f p s) i | Some v \<Rightarrow> g v (entry (f p s) i)) \<and>
      old_index_next_ids (fold f kvs (f p s)) = old_index_next_ids (f p s)"
    using Cons.prems(1) st(1) by (intro Cons.IH) simp_all
  moreover have "(case map_of kvs j of None \<Rightarrow> entry (f p s) j | Some v \<Rightarrow> g v (entry (f p s) j)) =
      (case map_of (p # kvs) j of None \<Rightarrow> entry s j | Some v \<Rightarrow> g v (entry s j))" for j
    using ni p st(2) by (cases "j = i") (auto split: option.split)
  ultimately show ?case using st(3) by simp
qed simp

lemma merge_old_value_step:
  assumes "wf_state s" "\<forall>w. entry s i \<noteq> Del w"
  shows "wf_state (merge_old_value (i, v) s) \<and>
    entry (merge_old_value (i, v) s) = (entry s)(i := compose (entry s i) (Upd v)) \<and>
    old_index_next_ids (merge_old_value (i, v) s) = old_index_next_ids s"
proof -
  have "merge_old_value (i, v) s = record_modify i v s"
    by (simp add: merge_old_value_def record_modify_def split: option.split)
  then show ?thesis using record_modify_entry assms by metis
qed

lemma merge_removed_step:
  assumes "wf_state s" "\<forall>w. entry s i \<noteq> Del w"
  shows "wf_state (merge_removed (i, v) s) \<and>
    entry (merge_removed (i, v) s) = (entry s)(i := compose (entry s i) (Del v)) \<and>
    old_index_next_ids (merge_removed (i, v) s) = old_index_next_ids s"
proof -
  have "merge_removed (i, v) s = record_remove i v s"
    using assms(2) by (auto simp: merge_removed_def record_remove_def entry_def split: option.splits)
  then show ?thesis using record_remove_entry assms by metis
qed

lemma fold_merge_new_id:
  assumes "wf_state s" "distinct ids" "\<And>i. i \<in> set ids \<Longrightarrow> entry s i = Nop"
  shows "wf_state (fold merge_new_id ids s) \<and>
    entry (fold merge_new_id ids s) = (\<lambda>i. if i \<in> set ids then New else entry s i) \<and>
    old_index_next_ids (fold merge_new_id ids s) = old_index_next_ids s"
  using assms
proof (induction ids arbitrary: s)
  case (Cons i ids)
  let ?s = "merge_new_id i s"
  have nop: "entry s i = Nop" using Cons.prems(3) by simp
  have s: "wf_state ?s" "entry ?s = (entry s)(i := New)" "old_index_next_ids ?s = old_index_next_ids s"
    using Cons.prems(1) nop
    by (auto simp: merge_new_id_def wf_state_def entry_def fun_eq_iff simp del: split_paired_All
        split: if_splits option.splits)
  have "\<And>j. j \<in> set ids \<Longrightarrow> entry ?s j = Nop" "distinct ids"
    using Cons.prems(2,3) s(2) by auto
  from Cons.IH[OF s(1) this(2,1)] show ?case using s(2,3) by (auto simp: fun_eq_iff)
qed simp

lemma fold_merge_next_id:
  assumes "wf_state s" "distinct (map fst kvs)"
  shows "wf_state (fold merge_next_id kvs s) \<and> entry (fold merge_next_id kvs s) = entry s \<and>
    map_of (old_index_next_ids (fold merge_next_id kvs s)) x =
      (case map_of (old_index_next_ids s) x of None \<Rightarrow> map_of kvs x | Some n \<Rightarrow> Some n)"
  using assms
proof (induction kvs arbitrary: s)
  case (Cons p kvs)
  let ?s = "merge_next_id p s"
  have s: "wf_state ?s" "entry ?s = entry s"
    "map_of (old_index_next_ids ?s) x =
      (case map_of (old_index_next_ids s) x of None \<Rightarrow> if x = fst p then Some (snd p) else None | Some n \<Rightarrow> Some n)"
    using Cons.prems(1)
    by (auto simp: merge_next_id_def wf_state_def entry_def alist_conv fun_eq_iff
        simp del: split_paired_All split: option.splits)
  have "map_of kvs (fst p) = None" using Cons.prems(2) by (simp add: map_of_eq_None_iff)
  then show ?case using Cons.IH[OF s(1)] Cons.prems(2) s by (auto split: option.splits)
qed (simp split: option.split)

lemma compose_Nop [simp]: "compose e Nop = e"
  by (cases e) simp_all

lemma entry_old_value: "wf_state st \<Longrightarrow> map_of (old_values st) i = Some v \<longleftrightarrow> entry st i = Upd v"
  and entry_removed: "wf_state st \<Longrightarrow> map_of (removed st) i = Some v \<longleftrightarrow> entry st i = Del v"
  and entry_new: "i \<in> set (new_ids st) \<longleftrightarrow> entry st i = New"
  by (auto simp: entry_def wf_state_def simp del: split_paired_All split: option.splits if_splits)

text \<open>\<open>merge()\<close> implements the table of its comment for every object whose two entries do not
  violate causality, and keeps the older next id of every index.\<close>

lemma merge_states_entry:
  assumes wf: "wf_state st" "wf_state prev" and c: "\<And>i. causal (entry prev i) (entry st i)"
  shows "wf_state (merge_states st prev)"
    and "entry (merge_states st prev) i = compose (entry prev i) (entry st i)"
    and "map_of (old_index_next_ids (merge_states st prev)) x =
      (case map_of (old_index_next_ids prev) x of None \<Rightarrow> map_of (old_index_next_ids st) x | Some n \<Rightarrow> Some n)"
proof -
  note dist = wf(1)[unfolded wf_state_def]
  define s1 where "s1 = fold merge_old_value (old_values st) prev"
  define s2 where "s2 = fold merge_new_id (new_ids st) s1"
  define s3 where "s3 = fold merge_next_id (old_index_next_ids st) s2"
  have 1: "wf_state s1 \<and> entry s1 = (\<lambda>i. case map_of (old_values st) i of None \<Rightarrow> entry prev i
        | Some v \<Rightarrow> compose (entry prev i) (Upd v)) \<and> old_index_next_ids s1 = old_index_next_ids prev"
    unfolding s1_def
  proof (rule fold_entry[where ok = "\<lambda>v e. \<forall>w. e \<noteq> Del w", OF merge_old_value_step])
    show "\<forall>w. entry prev i \<noteq> Del w" if "map_of (old_values st) i = Some v" for i v
      using c[of i] that wf(1) by (auto simp: entry_old_value)
  qed (use wf(2) dist in simp_all)
  have "entry s1 i = Nop" if "i \<in> set (new_ids st)" for i
    using c[of i] that 1 wf(1) entry_old_value[OF wf(1), of i]
    by (cases "entry prev i") (auto simp: entry_new split: option.splits)
  then have 2: "wf_state s2 \<and> entry s2 = (\<lambda>i. if i \<in> set (new_ids st) then New else entry s1 i) \<and>
      old_index_next_ids s2 = old_index_next_ids s1"
    unfolding s2_def using 1 dist by (intro fold_merge_new_id) auto
  have 3: "wf_state s3 \<and> entry s3 = entry s2 \<and> map_of (old_index_next_ids s3) x =
      (case map_of (old_index_next_ids s2) x of None \<Rightarrow> map_of (old_index_next_ids st) x | Some n \<Rightarrow> Some n)"
    for x unfolding s3_def using 2 dist by (intro fold_merge_next_id) auto
  have "wf_state (fold merge_removed (removed st) s3) \<and>
      entry (fold merge_removed (removed st) s3) = (\<lambda>i. case map_of (removed st) i of None \<Rightarrow> entry s3 i
        | Some v \<Rightarrow> compose (entry s3 i) (Del v)) \<and>
      old_index_next_ids (fold merge_removed (removed st) s3) = old_index_next_ids s3"
  proof (rule fold_entry[where ok = "\<lambda>v e. \<forall>w. e \<noteq> Del w", OF merge_removed_step])
    show "\<forall>w. entry s3 i \<noteq> Del w" if "map_of (removed st) i = Some v" for i v
      using c[of i] that 1 2 3 wf(1) entry_old_value[OF wf(1), of i]
      by (auto simp: entry_removed entry_new split: option.splits)
  qed (use 3 dist in simp_all)
  then have 4: "wf_state (merge_states st prev)"
      "entry (merge_states st prev) i = (case map_of (removed st) i of None \<Rightarrow> entry s3 i
        | Some v \<Rightarrow> compose (entry s3 i) (Del v))"
      "old_index_next_ids (merge_states st prev) = old_index_next_ids s3" for i
    by (simp_all add: merge_states_def s1_def s2_def s3_def)
  show "wf_state (merge_states st prev)" using 4(1) .
  show "entry (merge_states st prev) i = compose (entry prev i) (entry st i)"
    using 1 2 3 4(2)[of i] c[of i] entry_old_value[OF wf(1), of i] entry_removed[OF wf(1), of i]
      entry_new[of i st]
    by (cases "entry st i"; cases "entry prev i") (auto split: option.splits if_splits)
  show "map_of (old_index_next_ids (merge_states st prev)) x =
      (case map_of (old_index_next_ids prev) x of None \<Rightarrow> map_of (old_index_next_ids st) x | Some n \<Rightarrow> Some n)"
    using 1 2 3[of x] 4(3) by simp
qed

lemma diff_ok_causal:
  assumes "diff_ok a b prev" "diff_ok b c st"
  shows "causal (entry prev i) (entry st i)"
proof -
  have "snd i < next_ids a (fst i)" if "objects a i = Some w" for w
    using diff_okD(3)[OF assms(1)] that by (cases i) (auto simp: ids_below_def)
  then show ?thesis
    using diff_okD(1)[OF assms(1), of i] diff_okD(1)[OF assms(2), of i] diff_okD(6)[OF assms(1), of "fst i"]
    by (cases "entry prev i"; cases "entry st i") auto
qed

text \<open>Differences compose: this is what makes \<open>merge()\<close> correct.\<close>

lemma diff_ok_merge:
  assumes p: "diff_ok a b prev" and s: "diff_ok b c st"
  shows "diff_ok a c (merge_states st prev)"
proof -
  note m = merge_states_entry[OF diff_okD(2)[OF s] diff_okD(2)[OF p] diff_ok_causal[OF p s]]
  have "entry_ok a c i (entry (merge_states st prev) i)" for i
    using diff_okD(1)[OF p, of i] diff_okD(1)[OF s, of i] diff_okD(6)[OF p, of "fst i"] diff_ok_causal[OF p s, of i]
    unfolding m(2) by (cases "entry prev i"; cases "entry st i") auto
  moreover have "next_ok a c (merge_states st prev)"
    unfolding next_ok_def
  proof (rule allI)
    fix x
    show "next_ids a x \<le> next_ids c x \<and>
      (case map_of (old_index_next_ids (merge_states st prev)) x of None \<Rightarrow> next_ids c x | Some n \<Rightarrow> n) = next_ids a x"
      using next_okD[OF diff_okD(5)[OF p], of x] next_okD[OF diff_okD(5)[OF s], of x]
      unfolding m(3) by (auto split: option.splits)
  qed
  ultimately show ?thesis
    using m(1) diff_okD(3)[OF p] diff_okD(4)[OF s] by (simp add: diff_ok_def del: split_paired_All)
qed

section \<open>Commands and the snapshot specification\<close>

datatype 'o change = Create nat 'o | Modify oid 'o | Remove oid

fun apply_change :: "'o change \<Rightarrow> 'o undo_database \<Rightarrow> 'o undo_database result" where
  "apply_change (Create x v) u = index_create x v u"
| "apply_change (Modify i v) u = index_modify i v u"
| "apply_change (Remove i) u = index_remove i u"

text \<open>The effect of a change on the objects alone.\<close>

fun plain_change :: "'o change \<Rightarrow> 'o objdb \<Rightarrow> 'o objdb result" where
  "plain_change (Create x v) d =
     bnd (db_insert (x, next_ids d x) v d) (\<lambda>d'. Inr (set_next_id x (Suc (next_ids d' x)) d'))"
| "plain_change (Modify i v) d = db_modify i v d"
| "plain_change (Remove i) d = db_remove i d"

datatype 'o cmd = Change "'o change" | Start bool | Undo | Merge | Commit | Pop_commit

fun exec :: "'o cmd \<Rightarrow> 'o undo_database \<Rightarrow> 'o undo_database result" where
  "exec (Change c) u = apply_change c u"
| "exec (Start f) u = Inr (start_undo_session f u)"
| "exec Undo u = undo u"
| "exec Merge u = merge u"
| "exec Commit u = commit u"
| "exec Pop_commit u = pop_commit u"

record 'o snapshots =
  current :: "'o objdb"
  saved :: "'o objdb list"
  sessions :: nat
  limit :: nat

fun spec :: "'o cmd \<Rightarrow> 'o snapshots \<Rightarrow> 'o snapshots result" where
  "spec (Change c) a =
     bnd (plain_change c (current a)) (\<lambda>d.
     Inr (a\<lparr>current := d, saved := (if saved a = [] then [current a] else saved a)\<rparr>))"
| "spec (Start f) a =
     Inr (a\<lparr>saved := current a # take (limit a) (saved a), sessions := Suc (sessions a)\<rparr>)"
| "spec Undo a =
     FC_ASSERT (0 < sessions a)
    (case saved a of
       [] \<Rightarrow> Inl Fc_exception
     | d # ds \<Rightarrow> Inr (a\<lparr>current := d, saved := ds, sessions := sessions a - 1\<rparr>))"
| "spec Merge a =
     FC_ASSERT (0 < sessions a)
    (FC_ASSERT (sessions a = 1 \<and> length (saved a) = 1 \<or> 2 \<le> length (saved a))
    (Inr (a\<lparr>saved := tl (saved a), sessions := sessions a - 1\<rparr>)))"
| "spec Commit a = FC_ASSERT (0 < sessions a) (Inr (a\<lparr>sessions := sessions a - 1\<rparr>))"
| "spec Pop_commit a =
     FC_ASSERT (sessions a = 0)
    (FC_ASSERT (saved a \<noteq> [])
    (Inr (a\<lparr>current := hd (saved a), saved := tl (saved a)\<rparr>)))"

text \<open>Every undo state on the stack is the difference between two consecutive snapshots.\<close>

fun hist :: "'o objdb list \<Rightarrow> 'o objdb \<Rightarrow> 'o undo_state list \<Rightarrow> bool" where
  "hist [] d [] = True"
| "hist (b # bs) d (st # ss) = (diff_ok b d st \<and> hist bs b ss)"
| "hist _ _ _ = False"

definition sim :: "'o undo_database \<Rightarrow> 'o snapshots \<Rightarrow> bool" where
  "sim u a \<longleftrightarrow> \<not> disabled u \<and> db u = current a \<and> active_sessions u = sessions a \<and> max_size u = limit a \<and>
     ids_below (db u) \<and> hist (saved a) (db u) (stack u)"

definition sim_result :: "'o undo_database result \<Rightarrow> 'o snapshots result \<Rightarrow> bool" where
  "sim_result r q \<longleftrightarrow> (case r of Inl e \<Rightarrow> (\<exists>e'. q = Inl e') | Inr u \<Rightarrow> (\<exists>a. q = Inr a \<and> sim u a))"

lemma hist_length: "hist bs d ss \<Longrightarrow> length bs = length ss"
  by (induction bs d ss rule: hist.induct) simp_all

lemma hist_take: "hist bs d ss \<Longrightarrow> hist (take n bs) d (take n ss)"
proof (induction bs d ss arbitrary: n rule: hist.induct)
  case (2 b bs d st ss)
  then show ?case by (cases n) simp_all
qed simp_all

lemma hist_with_state:
  assumes "hist bs d ss" "ids_below d"
  obtains b bs' st ss' where "with_state ss = st # ss'" "(if bs = [] then [d] else bs) = b # bs'"
    "diff_ok b d st" "hist bs' b ss'"
proof (cases ss)
  case Nil
  with assms that[of empty_undo_state "[]" d "[]"] show ?thesis
    by (cases bs) (auto simp: with_state_def diff_ok_refl)
next
  case (Cons st ss')
  with assms that[of st ss'] show ?thesis by (cases bs) (auto simp: with_state_def)
qed

text \<open>A change together with its recording keeps the difference to the snapshot.\<close>

lemma change_records:
  assumes "diff_ok b d st" "plain_change c d = Inr d'"
  shows "\<exists>f. diff_ok b d' (f st) \<and> ids_below d' \<and>
     (\<forall>u. db u = d \<longrightarrow> apply_change c u = Inr ((on_change f u)\<lparr>db := d'\<rparr>))"
proof (cases c)
  case (Create x v)
  then have new: "objects d (x, next_ids d x) = None"
    and d': "d' = set_next_id x (Suc (next_ids d x)) (d\<lparr>objects := (objects d)((x, next_ids d x) \<mapsto> v)\<rparr>)"
    using assms(2) by (auto simp: db_insert_def)
  then have "diff_ok b d' (record_create (x, next_ids d x) st)" using diff_ok_create[OF assms(1)] by simp
  moreover have "apply_change c u = Inr ((on_change (record_create (x, next_ids d x)) u)\<lparr>db := d'\<rparr>)"
    if "db u = d" for u
    using that Create new d'
    by (auto simp: index_create_def db_insert_def on_create_def on_change_def split: list.split)
  ultimately show ?thesis using diff_okD(4) by blast
next
  case (Modify i v)
  then obtain w where old: "objects d i = Some w" and d': "d' = d\<lparr>objects := (objects d)(i \<mapsto> v)\<rparr>"
    using assms(2) by (auto simp: db_modify_def)
  then have "diff_ok b d' (record_modify i w st)" using diff_ok_modify[OF assms(1)] by simp
  moreover have "apply_change c u = Inr ((on_change (record_modify i w) u)\<lparr>db := d'\<rparr>)" if "db u = d" for u
    using that Modify old d' by (simp add: index_modify_def db_modify_def on_modify_def)
  ultimately show ?thesis using diff_okD(4) by blast
next
  case (Remove i)
  then obtain w where old: "objects d i = Some w" and d': "d' = d\<lparr>objects := (objects d)(i := None)\<rparr>"
    using assms(2) by (auto simp: db_remove_def)
  then have "diff_ok b d' (record_remove i w st)" using diff_ok_remove[OF assms(1)] by simp
  moreover have "apply_change c u = Inr ((on_change (record_remove i w) u)\<lparr>db := d'\<rparr>)" if "db u = d" for u
    using that Remove old d' by (simp add: index_remove_def db_remove_def on_remove_def)
  ultimately show ?thesis using diff_okD(4) by blast
qed

lemma change_throws: "plain_change c (db u) = Inl e \<Longrightarrow> \<exists>e'. apply_change c u = Inl e'"
  by (cases c)
    (auto simp: index_create_def index_modify_def index_remove_def db_insert_def db_modify_def
      db_remove_def ensure_def split: if_splits)

lemma sim_change:
  assumes "sim u a" shows "sim_result (exec (Change c) u) (spec (Change c) a)"
proof (cases "plain_change c (current a)")
  case (Inl e)
  then show ?thesis using assms change_throws[of c u e] by (auto simp: sim_def sim_result_def)
next
  case (Inr d')
  obtain b bs st ss where w: "with_state (stack u) = st # ss"
    "(if saved a = [] then [db u] else saved a) = b # bs" "diff_ok b (db u) st" "hist bs b ss"
    using assms hist_with_state unfolding sim_def by metis
  have "plain_change c (db u) = Inr d'" using Inr assms by (simp add: sim_def)
  from change_records[OF w(3) this] obtain f where f: "diff_ok b d' (f st)" "ids_below d'"
    "apply_change c u = Inr ((on_change f u)\<lparr>db := d'\<rparr>)" by blast
  have "sim ((on_change f u)\<lparr>db := d'\<rparr>)
      (a\<lparr>current := d', saved := (if saved a = [] then [current a] else saved a)\<rparr>)"
    using assms f(1,2) w by (auto simp: sim_def on_change_def split: if_splits)
  then show ?thesis using Inr f(3) by (simp add: sim_result_def)
qed

lemma sim_undo:
  assumes "sim u a" shows "sim_result (exec Undo u) (spec Undo a)"
proof (cases "saved a")
  case Nil
  then show ?thesis using assms
    by (cases "stack u") (auto simp: sim_def sim_result_def undo_def ensure_def split: sum.splits)
next
  case (Cons b bs)
  with assms obtain st ss where st: "stack u = st # ss" "diff_ok b (db u) st" "hist bs b ss"
    by (cases "stack u") (auto simp: sim_def)
  then show ?thesis using assms Cons restore_diff[OF st(2)] diff_okD(3)[OF st(2)]
    by (auto simp: sim_def sim_result_def undo_def ensure_def enable_def)
qed

lemma sim_pop_commit:
  assumes "sim u a" shows "sim_result (exec Pop_commit u) (spec Pop_commit a)"
proof (cases "saved a")
  case Nil
  then show ?thesis using assms
    by (cases "stack u") (auto simp: sim_def sim_result_def pop_commit_def ensure_def split: sum.splits)
next
  case (Cons b bs)
  with assms obtain st ss where st: "stack u = st # ss" "diff_ok b (db u) st" "hist bs b ss"
    by (cases "stack u") (auto simp: sim_def)
  then show ?thesis using assms Cons restore_diff[OF st(2)] diff_okD(3)[OF st(2)]
    by (auto simp: sim_def sim_result_def pop_commit_def ensure_def enable_def)
qed

lemma sim_merge:
  assumes "sim u a" shows "sim_result (exec Merge u) (spec Merge a)"
proof -
  have len: "length (saved a) = length (stack u)" using assms hist_length by (auto simp: sim_def)
  show ?thesis
  proof (cases "2 \<le> length (stack u)")
    case True
    then obtain st prev ss where ss: "stack u = st # prev # ss" by (auto simp: Suc_le_length_iff numeral_2_eq_2)
    obtain b1 b2 bs where bs: "saved a = b1 # b2 # bs" using len ss by (auto simp: length_Suc_conv)
    have h: "diff_ok b1 (db u) st" "diff_ok b2 b1 prev" "hist bs b2 ss" using assms ss bs by (auto simp: sim_def)
    have "diff_ok b2 (db u) (merge_states st prev)" using diff_ok_merge[OF h(2) h(1)] .
    then show ?thesis using assms ss bs h(3)
      by (auto simp: sim_def sim_result_def merge_def ensure_def)
  next
    case False
    then have "stack u = [] \<and> saved a = [] \<or> (\<exists>st b. stack u = [st] \<and> saved a = [b])"
      using len by (cases "stack u"; cases "saved a") (auto simp: Suc_le_eq)
    then show ?thesis using assms
      by (auto simp: sim_def sim_result_def merge_def ensure_def)
  qed
qed

lemma sim_step: "sim u a \<Longrightarrow> sim_result (exec c u) (spec c a)"
proof (cases c)
  case (Start f)
  assume s: "sim u a"
  then have "hist (take (limit a) (saved a)) (db u) (trim (max_size u) (stack u))"
    by (auto simp: sim_def trim_def hist_take)
  with s Start show ?thesis
    by (auto simp: sim_def sim_result_def start_undo_session_def diff_ok_refl)
next
  case Commit
  assume "sim u a"
  with Commit show ?thesis by (auto simp: sim_def sim_result_def commit_def ensure_def)
qed (simp_all only: sim_change sim_undo sim_merge sim_pop_commit)

section \<open>Sessions as a contract\<close>

text \<open>
  What the chain layer relies on when it applies a transaction or a block inside a session:
  a history of saved states that opening a session extends and changes keep, and an undo that
  returns to the latest saved state. The lemma of the locale is what makes a failed
  transaction leave no trace.
\<close>

locale undo_history =
  fixes invar :: "'d list \<Rightarrow> 'u \<Rightarrow> bool"
    and state :: "'u \<Rightarrow> 'd"
    and start :: "'u \<Rightarrow> 'u"
    and step :: "'c \<Rightarrow> 'u \<Rightarrow> 'u result"
    and rollback :: "'u \<Rightarrow> 'u result"
  assumes start_saves: "invar ds u \<Longrightarrow> \<exists>ds'. invar (state u # ds') (start u)"
    and step_keeps: "invar (d # ds) u \<Longrightarrow> step c u = Inr u' \<Longrightarrow> invar (d # ds) u'"
    and rollback_returns: "invar (d # ds) u \<Longrightarrow> \<exists>u'. rollback u = Inr u' \<and> state u' = d \<and> invar ds u'"
begin

lemma run_keeps: "invar (d # ds) u \<Longrightarrow> fold_res step cs u = Inr u' \<Longrightarrow> invar (d # ds) u'"
  by (rule fold_res_invariant[where P = "invar (d # ds)"]) (auto intro: step_keeps)

lemma session_rollback:
  assumes "invar ds u" "fold_res step cs (start u) = Inr u'"
  shows "\<exists>u''. rollback u' = Inr u'' \<and> state u'' = state u"
  using start_saves[OF assms(1)] run_keeps[OF _ assms(2)] rollback_returns by metis

end

text \<open>The saved states of open sessions come first; the committed ones follow.\<close>

definition session_invar :: "'o objdb list \<Rightarrow> 'o undo_database \<Rightarrow> bool" where
  "session_invar ds u \<longleftrightarrow> \<not> disabled u \<and> ids_below (db u) \<and> length ds \<le> active_sessions u \<and>
     (\<exists>rest. hist (ds @ rest) (db u) (stack u))"

definition as_snapshots :: "'o objdb list \<Rightarrow> 'o undo_database \<Rightarrow> 'o snapshots" where
  "as_snapshots ds u = \<lparr>current = db u, saved = ds, sessions = active_sessions u, limit = max_size u\<rparr>"

lemma session_invar_sim: "session_invar ds u \<Longrightarrow> \<exists>rest. sim u (as_snapshots (ds @ rest) u)"
  by (auto simp: session_invar_def sim_def as_snapshots_def)

interpretation undo_sessions: undo_history session_invar db "start_undo_session False" apply_change undo
proof unfold_locales
  show "\<exists>ds'. session_invar (db u # ds') (start_undo_session False u)"
    if asm: "session_invar ds u" for ds and u :: "'o undo_database"
  proof -
    obtain rest where "sim u (as_snapshots (ds @ rest) u)" using session_invar_sim[OF asm] by blast
    from sim_step[OF this, of "Start False"] have "session_invar [db u] (start_undo_session False u)"
      by (auto simp: sim_result_def sim_def session_invar_def as_snapshots_def start_undo_session_def)
    then show ?thesis by blast
  qed
  show "session_invar (d # ds) u'" if asm: "session_invar (d # ds) u" "apply_change c u = Inr u'"
    for d ds c and u u' :: "'o undo_database"
  proof -
    obtain rest where r: "sim u (as_snapshots (d # ds @ rest) u)" using session_invar_sim[OF asm(1)] by auto
    from sim_step[OF r, of "Change c"] asm show ?thesis
      by (auto simp: sim_result_def sim_def session_invar_def as_snapshots_def)
  qed
  show "\<exists>u'. undo u = Inr u' \<and> db u' = d \<and> session_invar ds u'" if asm: "session_invar (d # ds) u"
    for d ds and u :: "'o undo_database"
  proof -
    obtain rest where r: "sim u (as_snapshots (d # ds @ rest) u)" using session_invar_sim[OF asm] by auto
    from asm have "Suc (length ds) \<le> active_sessions u" by (simp add: session_invar_def)
    with sim_step[OF r, of Undo] show ?thesis
      by (cases "undo u") (auto simp: sim_result_def sim_def session_invar_def as_snapshots_def)
  qed
qed

section \<open>Properties\<close>

text \<open>
  C18: undoing a session restores the database exactly. From any enabled state, with any
  number of earlier sessions open or committed, open a session, run any sequence of object
  creations, modifications and removals that succeeds, and undo: the undo succeeds and every
  object and every next id is what it was before the session.
\<close>

theorem undo_restores_session:
  assumes "session_invar ds u"
    and "fold_res apply_change cs (start_undo_session False u) = Inr u'"
  shows "\<exists>u''. undo u' = Inr u'' \<and> db u'' = db u"
  using undo_sessions.session_rollback[OF assms] .

definition empty_undo_database :: "'o undo_database" where
  "empty_undo_database = \<lparr>db = \<lparr>objects = Map.empty, next_ids = (\<lambda>_. 0)\<rparr>, stack = [], disabled = False,
     active_sessions = 0, max_size = 256\<rparr>"

lemma empty_session_invar: "session_invar [] empty_undo_database"
  by (auto simp: session_invar_def empty_undo_database_def ids_below_def intro: exI[of _ "[]"])

theorem undo_restores_session_witness:
  "\<exists>u' u''. fold_res apply_change [Create 7 ''x'', Modify (7, 0) ''y'', Remove (7, 0), Create 7 ''z'']
       (start_undo_session False empty_undo_database) = Inr u' \<and> objects (db u') (7, 1) = Some ''z'' \<and>
     undo u' = Inr u'' \<and> db u'' = db empty_undo_database"
proof -
  let ?cs = "[Create 7 ''x'', Modify (7, 0) ''y'', Remove (7, 0), Create 7 ''z'']"
  obtain u' where u': "fold_res apply_change ?cs (start_undo_session False empty_undo_database) = Inr u'"
    "objects (db u') (7, 1) = Some ''z''"
    by (simp add: empty_undo_database_def start_undo_session_def index_create_def index_modify_def
        index_remove_def db_insert_def db_modify_def db_remove_def on_create_def on_modify_def
        on_remove_def on_change_def with_state_def set_next_id_def del: split_paired_Ex split_paired_All
        split: list.split)
  with undo_restores_session[OF empty_session_invar u'(1)] show ?thesis by blast
qed

text \<open>
  C4: the undo database refines a stack of snapshots. Running any sequence of commands
  (changes, opening sessions, undo, merge, commit, pop_commit) on the recorded differences
  throws exactly when the snapshot machine throws, and otherwise ends in a database equal to
  the machine's current state, with the differences still describing its saved states. In
  particular \<open>merge\<close> forgets one saved state and changes nothing else.
\<close>

theorem undo_database_refines_snapshots:
  assumes "sim u a"
  shows "sim_result (fold_res exec cs u) (fold_res spec cs a)"
  using assms
proof (induction cs arbitrary: u a)
  case Nil
  then show ?case by (simp add: sim_result_def)
next
  case (Cons c cs)
  from sim_step[OF Cons.prems, of c] show ?case
  proof (cases "exec c u")
    case (Inl e)
    with sim_step[OF Cons.prems, of c] show ?thesis by (auto simp: sim_result_def)
  next
    case (Inr u')
    with sim_step[OF Cons.prems, of c] obtain a' where "spec c a = Inr a'" "sim u' a'"
      by (auto simp: sim_result_def)
    with Inr Cons.IH[of u' a'] show ?thesis by simp
  qed
qed

lemma empty_sim: "sim empty_undo_database (as_snapshots [] empty_undo_database)"
  by (simp add: sim_def as_snapshots_def empty_undo_database_def ids_below_def)

theorem undo_database_refines_snapshots_witness:
  "sim_result (fold_res exec [Start False, Change (Create 7 ''x''), Start False, Change (Modify (7, 0) ''y''), Merge, Undo]
       empty_undo_database)
     (fold_res spec [Start False, Change (Create 7 ''x''), Start False, Change (Modify (7, 0) ''y''), Merge, Undo]
       (as_snapshots [] empty_undo_database))"
  by (rule undo_database_refines_snapshots[OF empty_sim])

text \<open>
  C19: \<open>merge()\<close> composes two undo states as the table in its comment says: for every object
  the merged entry is the table's cell for the earlier and the later entry, provided the pair
  is not one of the table's N/A cells.
\<close>

theorem merge_implements_table:
  assumes "wf_state st" "wf_state prev" and "\<And>i. causal (entry prev i) (entry st i)"
  shows "wf_state (merge_states st prev) \<and>
    (\<forall>i. entry (merge_states st prev) i = compose (entry prev i) (entry st i))"
  using merge_states_entry(1,2)[OF assms] by blast

theorem merge_implements_table_witness:
  "entry (merge_states \<lparr>old_values = [], old_index_next_ids = [], new_ids = [], removed = [((1, 2), ''y'')]\<rparr>
      \<lparr>old_values = [((1, 2), ''x'')], old_index_next_ids = [], new_ids = [], removed = []\<rparr>) (1, 2) = Del ''x''"
proof -
  let ?st = "\<lparr>old_values = [], old_index_next_ids = [], new_ids = [], removed = [((1, 2), ''y'')]\<rparr>"
  let ?prev = "\<lparr>old_values = [((1, 2), ''x'')], old_index_next_ids = [], new_ids = [], removed = []\<rparr>"
  have e: "entry ?prev (1, 2) = Upd ''x''" "entry ?st (1, 2) = Del ''y''" by (simp_all add: entry_def)
  have w: "wf_state ?st" "wf_state ?prev" by (simp_all add: wf_state_def)
  have "causal (entry ?prev i) (entry ?st i)" for i by (simp add: entry_def)
  from merge_implements_table[OF w this] show ?thesis by (simp only: e compose.simps)
qed

end
