(* ===== verification/Samet_Fund.thy ===== *)
theory Samet_Fund
  imports Fees
begin

text \<open>
  Funds that lend within one transaction: \<open>libraries/protocol/samet_fund.cpp\<close> (validation) and
  \<open>libraries/chain/samet_fund_evaluator.cpp\<close>. The pointer \<open>_fund\<close> an evaluator keeps between
  \<open>do_evaluate\<close> and \<open>do_apply\<close> is the id of the operation, looked up again in \<open>do_apply\<close>. The
  check at the end of a transaction that no debt is left is part of the theory of transactions.
\<close>

definition GRAPHENE_FEE_RATE_DENOM :: int where "GRAPHENE_FEE_RATE_DENOM = 1000000"

section \<open>Operations\<close>

record samet_fund_create_operation =
  sfc_fee :: asset
  sfc_owner_account :: account_id_type
  sfc_asset_type :: asset_id_type
  sfc_balance :: share_type
  sfc_fee_rate :: nat

record samet_fund_delete_operation =
  sfd_fee :: asset
  sfd_owner_account :: account_id_type
  sfd_fund_id :: nat

record samet_fund_update_operation =
  sfu_fee :: asset
  sfu_owner_account :: account_id_type
  sfu_fund_id :: nat
  sfu_delta_amount :: "asset option"
  sfu_new_fee_rate :: "nat option"

record samet_fund_borrow_operation =
  sfb_fee :: asset
  sfb_borrower :: account_id_type
  sfb_fund_id :: nat
  sfb_borrow_amount :: asset

record samet_fund_repay_operation =
  sfr_fee :: asset
  sfr_account :: account_id_type
  sfr_fund_id :: nat
  sfr_repay_amount :: asset
  sfr_fund_fee :: asset

definition samet_create_validate :: "samet_fund_create_operation \<Rightarrow> unit result" where
  "samet_create_validate op =
     FC_ASSERT (0 \<le> amount (sfc_fee op))
    (FC_ASSERT (0 < sfc_balance op)
    (Inr ()))"

definition samet_delete_validate :: "samet_fund_delete_operation \<Rightarrow> unit result" where
  "samet_delete_validate op = FC_ASSERT (0 \<le> amount (sfd_fee op)) (Inr ())"

definition samet_update_validate :: "samet_fund_update_operation \<Rightarrow> unit result" where
  "samet_update_validate op =
     FC_ASSERT (0 \<le> amount (sfu_fee op))
    (FC_ASSERT (sfu_delta_amount op \<noteq> None \<or> sfu_new_fee_rate op \<noteq> None)
    (case sfu_delta_amount op of
       None \<Rightarrow> Inr ()
     | Some delta \<Rightarrow> FC_ASSERT (amount delta \<noteq> 0) (Inr ())))"

definition samet_borrow_validate :: "samet_fund_borrow_operation \<Rightarrow> unit result" where
  "samet_borrow_validate op =
     FC_ASSERT (0 \<le> amount (sfb_fee op))
    (FC_ASSERT (0 < amount (sfb_borrow_amount op))
    (Inr ()))"

definition samet_repay_validate :: "samet_fund_repay_operation \<Rightarrow> unit result" where
  "samet_repay_validate op =
     FC_ASSERT (0 \<le> amount (sfr_fee op))
    (FC_ASSERT (0 < amount (sfr_repay_amount op))
    (FC_ASSERT (0 \<le> amount (sfr_fund_fee op))
    (FC_ASSERT (asset_id (sfr_repay_amount op) = asset_id (sfr_fund_fee op))
    (Inr ()))))"

section \<open>Evaluators\<close>

definition samet_create_do_evaluate ::
    "samet_fund_create_operation \<Rightarrow> fee_state \<Rightarrow> database \<Rightarrow> unit result" where
  "samet_create_do_evaluate op fs d =
     FC_ASSERT (HARDFORK_CORE_2351_TIME \<le> head_block_time d)
    (bnd (authorized d (fee_paying_account fs) (sfc_asset_type op)) (\<lambda>ok.
     FC_ASSERT ok
    (Inr ())))"

definition samet_create_do_apply ::
    "fc_lib \<Rightarrow> samet_fund_create_operation \<Rightarrow> unit \<Rightarrow> fee_state \<Rightarrow> database \<Rightarrow> database result" where
  "samet_create_do_apply fc op ev fs d =
     bnd (debit fc (sfc_owner_account op) (ASSET (sfc_balance op) (sfc_asset_type op)) d) (\<lambda>d.
     Inr (d\<lparr>samet_funds := store_add (samet_funds d)
            \<lparr>sfo_owner_account = sfc_owner_account op, sfo_asset_type = sfc_asset_type op,
             sfo_balance = sfc_balance op, sfo_fee_rate = sfc_fee_rate op, sfo_unpaid_amount = 0\<rparr>\<rparr>))"

definition samet_delete_do_evaluate ::
    "samet_fund_delete_operation \<Rightarrow> fee_state \<Rightarrow> database \<Rightarrow> unit result" where
  "samet_delete_do_evaluate op fs d =
     bnd (store_get (samet_funds d) (sfd_fund_id op)) (\<lambda>fund.
     FC_ASSERT (sfo_owner_account fund = sfd_owner_account op)
    (FC_ASSERT (sfo_unpaid_amount fund = 0)
    (Inr ())))"

definition samet_delete_do_apply ::
    "fc_lib \<Rightarrow> samet_fund_delete_operation \<Rightarrow> unit \<Rightarrow> fee_state \<Rightarrow> database \<Rightarrow> database result" where
  "samet_delete_do_apply fc op ev fs d =
     bnd (store_get (samet_funds d) (sfd_fund_id op)) (\<lambda>fund.
     bnd (adjust_balance fc (sfd_owner_account op) (ASSET (sfo_balance fund) (sfo_asset_type fund)) d) (\<lambda>d.
     Inr (d\<lparr>samet_funds := store_del (samet_funds d) (sfd_fund_id op)\<rparr>)))"

definition samet_update_do_evaluate ::
    "fc_lib \<Rightarrow> samet_fund_update_operation \<Rightarrow> fee_state \<Rightarrow> database \<Rightarrow> unit result" where
  "samet_update_do_evaluate fc op fs d =
     bnd (store_get (samet_funds d) (sfu_fund_id op)) (\<lambda>fund.
     FC_ASSERT (sfo_owner_account fund = sfu_owner_account op)
    (bnd (case sfu_delta_amount op of
            None \<Rightarrow> Inr ()
          | Some delta \<Rightarrow>
              FC_ASSERT (sfo_asset_type fund = asset_id delta)
             (FC_ASSERT (sfo_unpaid_amount fund = 0)
             (if 0 < amount delta then
                bnd (authorized d (fee_paying_account fs) (sfo_asset_type fund)) (\<lambda>ok. FC_ASSERT ok (Inr ()))
              else
                bnd (safe_neg fc (amount delta)) (\<lambda>neg. FC_ASSERT (neg < sfo_balance fund) (Inr ()))))) (\<lambda>_.
     case sfu_new_fee_rate op of
       None \<Rightarrow> Inr ()
     | Some rate \<Rightarrow> FC_ASSERT (sfo_fee_rate fund \<noteq> rate) (Inr ()))))"

text \<open>The lambda of \<open>samet_fund_update_evaluator::do_apply\<close>.\<close>

definition samet_fund_updated ::
    "fc_lib \<Rightarrow> samet_fund_update_operation \<Rightarrow> samet_fund_object \<Rightarrow> samet_fund_object result" where
  "samet_fund_updated fc op fund =
     bnd (case sfu_delta_amount op of
            None \<Rightarrow> Inr fund
          | Some delta \<Rightarrow> bnd (safe_add fc (sfo_balance fund) (amount delta)) (\<lambda>x. Inr (fund\<lparr>sfo_balance := x\<rparr>))) (\<lambda>fund.
     Inr (case sfu_new_fee_rate op of None \<Rightarrow> fund | Some rate \<Rightarrow> fund\<lparr>sfo_fee_rate := rate\<rparr>))"

definition samet_update_do_apply ::
    "fc_lib \<Rightarrow> samet_fund_update_operation \<Rightarrow> unit \<Rightarrow> fee_state \<Rightarrow> database \<Rightarrow> database result" where
  "samet_update_do_apply fc op ev fs d =
     bnd (case sfu_delta_amount op of None \<Rightarrow> Inr d | Some delta \<Rightarrow> debit fc (sfu_owner_account op) delta d) (\<lambda>d.
     bnd (store_get (samet_funds d) (sfu_fund_id op)) (\<lambda>fund.
     bnd (samet_fund_updated fc op fund) (\<lambda>fund'.
     FC_ASSERT (0 < sfo_balance fund')
    (Inr (d\<lparr>samet_funds := store_put (samet_funds d) (sfu_fund_id op) fund'\<rparr>)))))"

definition samet_borrow_do_evaluate ::
    "fc_lib \<Rightarrow> samet_fund_borrow_operation \<Rightarrow> fee_state \<Rightarrow> database \<Rightarrow> unit result" where
  "samet_borrow_do_evaluate fc op fs d =
     bnd (store_get (samet_funds d) (sfb_fund_id op)) (\<lambda>fund.
     FC_ASSERT (sfo_asset_type fund = asset_id (sfb_borrow_amount op))
    (bnd (safe_add fc (sfo_unpaid_amount fund) (amount (sfb_borrow_amount op))) (\<lambda>needed.
     FC_ASSERT (needed \<le> sfo_balance fund)
    (bnd (authorized d (fee_paying_account fs) (sfo_asset_type fund)) (\<lambda>ok.
     FC_ASSERT ok
    (Inr ()))))))"

definition samet_borrow_do_apply ::
    "fc_lib \<Rightarrow> samet_fund_borrow_operation \<Rightarrow> unit \<Rightarrow> fee_state \<Rightarrow> database \<Rightarrow> database result" where
  "samet_borrow_do_apply fc op ev fs d =
     bnd (store_get (samet_funds d) (sfb_fund_id op)) (\<lambda>fund.
     bnd (safe_add fc (sfo_unpaid_amount fund) (amount (sfb_borrow_amount op))) (\<lambda>x.
     let fund' = fund\<lparr>sfo_unpaid_amount := x\<rparr> in
     bnd (adjust_balance fc (sfb_borrower op) (sfb_borrow_amount op)
            (d\<lparr>samet_funds := store_put (samet_funds d) (sfb_fund_id op) fund'\<rparr>)) (\<lambda>d.
     FC_ASSERT (sfo_unpaid_amount fund' \<le> sfo_balance fund')
    (Inr d))))"

text \<open>The fee for a repaid amount, rounded up, in 128 bits; also the fee of a credit deal.\<close>

definition required_fund_fee :: "share_type \<Rightarrow> nat \<Rightarrow> int" where
  "required_fund_fee amt fee_rate =
     u128_sub (u128_add (u128_mul (u128 amt) (int fee_rate)) GRAPHENE_FEE_RATE_DENOM) 1
       div GRAPHENE_FEE_RATE_DENOM"

definition samet_repay_do_evaluate ::
    "samet_fund_repay_operation \<Rightarrow> fee_state \<Rightarrow> database \<Rightarrow> unit result" where
  "samet_repay_do_evaluate op fs d =
     bnd (store_get (samet_funds d) (sfr_fund_id op)) (\<lambda>fund.
     FC_ASSERT (sfo_asset_type fund = asset_id (sfr_repay_amount op))
    (bnd (authorized d (fee_paying_account fs) (sfo_asset_type fund)) (\<lambda>ok.
     FC_ASSERT ok
    (FC_ASSERT (amount (sfr_repay_amount op) \<le> sfo_unpaid_amount fund)
    (let required_fee = required_fund_fee (amount (sfr_repay_amount op)) (sfo_fee_rate fund) in
     FC_ASSERT (required_fee \<le> u128 (amount (sfr_fund_fee op)))
    (Inr ()))))))"

definition samet_repay_do_apply ::
    "fc_lib \<Rightarrow> samet_fund_repay_operation \<Rightarrow> unit \<Rightarrow> fee_state \<Rightarrow> database \<Rightarrow> database result" where
  "samet_repay_do_apply fc op ev fs d =
     bnd (asset_add fc (sfr_repay_amount op) (sfr_fund_fee op)) (\<lambda>total_amount.
     bnd (debit fc (sfr_account op) total_amount d) (\<lambda>d.
     bnd (store_get (samet_funds d) (sfr_fund_id op)) (\<lambda>fund.
     bnd (safe_add fc (sfo_balance fund) (amount (sfr_fund_fee op))) (\<lambda>x.
     bnd (safe_sub fc (sfo_unpaid_amount fund) (amount (sfr_repay_amount op))) (\<lambda>y.
     Inr (d\<lparr>samet_funds := store_put (samet_funds d) (sfr_fund_id op)
              (fund\<lparr>sfo_balance := x, sfo_unpaid_amount := y\<rparr>)\<rparr>))))))"

section \<open>The whole operations\<close>

definition run_samet_create ::
    "fc_lib \<Rightarrow> share_type option \<Rightarrow> samet_fund_create_operation \<Rightarrow> database \<Rightarrow> database result" where
  "run_samet_create fc req op d = run_operation fc req (sfc_owner_account op) (sfc_fee op)
     (samet_create_do_evaluate op) (samet_create_do_apply fc op) d"

definition run_samet_delete ::
    "fc_lib \<Rightarrow> share_type option \<Rightarrow> samet_fund_delete_operation \<Rightarrow> database \<Rightarrow> database result" where
  "run_samet_delete fc req op d = run_operation fc req (sfd_owner_account op) (sfd_fee op)
     (samet_delete_do_evaluate op) (samet_delete_do_apply fc op) d"

definition run_samet_update ::
    "fc_lib \<Rightarrow> share_type option \<Rightarrow> samet_fund_update_operation \<Rightarrow> database \<Rightarrow> database result" where
  "run_samet_update fc req op d = run_operation fc req (sfu_owner_account op) (sfu_fee op)
     (samet_update_do_evaluate fc op) (samet_update_do_apply fc op) d"

definition run_samet_borrow ::
    "fc_lib \<Rightarrow> share_type option \<Rightarrow> samet_fund_borrow_operation \<Rightarrow> database \<Rightarrow> database result" where
  "run_samet_borrow fc req op d = run_operation fc req (sfb_borrower op) (sfb_fee op)
     (samet_borrow_do_evaluate fc op) (samet_borrow_do_apply fc op) d"

definition run_samet_repay ::
    "fc_lib \<Rightarrow> share_type option \<Rightarrow> samet_fund_repay_operation \<Rightarrow> database \<Rightarrow> database result" where
  "run_samet_repay fc req op d = run_operation fc req (sfr_account op) (sfr_fee op)
     (samet_repay_do_evaluate op) (samet_repay_do_apply fc op) d"

section \<open>Conservation\<close>

text \<open>Replacing, adding and removing a fund.\<close>

lemma gap_step_fund_put:
  assumes "store_find (samet_funds d) k = Some f" "sfo_asset_type f' = sfo_asset_type f" "fund_ok f \<Longrightarrow> fund_ok f'"
  shows "gap_step d (d\<lparr>samet_funds := store_put (samet_funds d) k f'\<rparr>)
    (amt_at (sfo_asset_type f) (sfo_balance f' - sfo_unpaid_amount f' - (sfo_balance f - sfo_unpaid_amount f)))"
  using assms store_all_find[of fund_ok "samet_funds d" k f]
  by (auto simp: gap_step_def gap_defs wf_defs balances_nonneg_def funds_total_def store_sum_put amt_at_def
      store_all_put)

lemma gap_step_fund_add:
  assumes "fund_ok f"
  shows "gap_step d (d\<lparr>samet_funds := store_add (samet_funds d) f\<rparr>)
    (amt_at (sfo_asset_type f) (sfo_balance f - sfo_unpaid_amount f))"
  using assms by (auto simp: gap_step_def gap_defs wf_defs balances_nonneg_def funds_total_def amt_at_def store_all_add)

lemma gap_step_fund_del:
  assumes "store_find (samet_funds d) k = Some f"
  shows "gap_step d (d\<lparr>samet_funds := store_del (samet_funds d) k\<rparr>)
    (amt_at (sfo_asset_type f) (sfo_unpaid_amount f - sfo_balance f))"
  using assms by (auto simp: gap_step_def gap_defs wf_defs balances_nonneg_def funds_total_def store_sum_del
      amt_at_def store_all_del)

context fc_safe
begin

lemma debit_positive: "debit fc account a d = Inr d' \<Longrightarrow> 0 < amount a \<Longrightarrow> in_int64 (amount a)"
  by (auto simp: adjust_balance_def split: option.splits if_splits)

lemma samet_create_conserves:
  assumes "samet_create_validate op = Inr ()" "samet_create_do_apply fc op ev fs d = Inr d'"
  shows "conserves d d'"
proof -
  let ?f = "\<lparr>sfo_owner_account = sfc_owner_account op, sfo_asset_type = sfc_asset_type op,
     sfo_balance = sfc_balance op, sfo_fee_rate = sfc_fee_rate op, sfo_unpaid_amount = 0\<rparr>"
  from assms(2) obtain d1 where
    d1: "debit fc (sfc_owner_account op) (ASSET (sfc_balance op) (sfc_asset_type op)) d = Inr d1" and
    d': "d' = d1\<lparr>samet_funds := store_add (samet_funds d1) ?f\<rparr>"
    by (auto simp: samet_create_do_apply_def simp del: debit_iff)
  have "fund_ok ?f"
    using assms(1) debit_positive[OF d1] by (simp add: fund_ok_def samet_create_validate_def)
  from gap_step_fund_add[OF this, of d1] show ?thesis
    unfolding d' by (intro gap_step_then[OF gap_step_debit[OF d1]]) (auto simp: amt_at_neg)
qed

lemma samet_delete_conserves:
  assumes "samet_delete_do_evaluate op fs d0 = Inr ev0" "fee_frame d0 d" "samet_delete_do_apply fc op ev fs d = Inr d'"
  shows "conserves d d'"
proof -
  from assms obtain f d1 where f: "store_find (samet_funds d) (sfd_fund_id op) = Some f" "sfo_unpaid_amount f = 0"
    and d1: "adjust_balance fc (sfd_owner_account op) (ASSET (sfo_balance f) (sfo_asset_type f)) d = Inr d1"
    and d': "d' = d1\<lparr>samet_funds := store_del (samet_funds d1) (sfd_fund_id op)\<rparr>"
    by (auto simp: samet_delete_do_evaluate_def samet_delete_do_apply_def fee_frame_fields)
  have f1: "store_find (samet_funds d1) (sfd_fund_id op) = Some f" using f d1 by (simp add: adjust_balance_fields)
  show ?thesis unfolding d'
    by (rule gap_step_then[OF gap_step_adjust[OF d1] gap_step_fund_del[OF f1]]) (simp add: f(2) amt_at_neg)
qed

lemma samet_fund_updated_Inr:
  "samet_fund_updated fc op f = Inr f' \<Longrightarrow> sfo_asset_type f' = sfo_asset_type f \<and>
    sfo_unpaid_amount f' = sfo_unpaid_amount f \<and>
    (case sfu_delta_amount op of None \<Rightarrow> sfo_balance f' = sfo_balance f
     | Some delta \<Rightarrow> sfo_balance f' = sfo_balance f + amount delta \<and> in_int64 (sfo_balance f'))"
  by (auto simp: samet_fund_updated_def split: option.splits)

lemma samet_update_conserves:
  assumes "samet_update_do_evaluate fc op fs d0 = Inr ev0" "fee_frame d0 d" "samet_update_do_apply fc op ev fs d = Inr d'"
  shows "conserves d d'"
proof -
  from assms(3) obtain d1 f f' where
    d1: "(case sfu_delta_amount op of None \<Rightarrow> Inr d | Some delta \<Rightarrow> debit fc (sfu_owner_account op) delta d) = Inr d1"
    and f: "store_find (samet_funds d1) (sfu_fund_id op) = Some f" "samet_fund_updated fc op f = Inr f'"
      "0 < sfo_balance f'"
    and d': "d' = d1\<lparr>samet_funds := store_put (samet_funds d1) (sfu_fund_id op) f'\<rparr>"
    by (auto simp: samet_update_do_apply_def simp del: debit_iff)
  note u = samet_fund_updated_Inr[OF f(2)]
  show ?thesis
  proof (cases "sfu_delta_amount op")
    case None
    then show ?thesis using d1 d' u gap_step_fund_put[OF f(1), of f'] by (simp add: fund_ok_def)
  next
    case (Some delta)
    have d1': "debit fc (sfu_owner_account op) delta d = Inr d1" using d1 Some by (simp del: debit_iff)
    have "samet_funds d1 = samet_funds d0" using d1' assms(2) by (auto simp: adjust_balance_fields fee_frame_fields)
    then have ev: "sfo_asset_type f = asset_id delta" "sfo_unpaid_amount f = 0"
      using assms(1) Some f(1) by (auto simp: samet_update_do_evaluate_def split: if_splits)
    have "fund_ok f \<Longrightarrow> fund_ok f'" using u Some f(3) ev by (auto simp: fund_ok_def)
    from gap_step_fund_put[OF f(1) _ this] u Some show ?thesis unfolding d'
      by (intro gap_step_then[OF gap_step_debit[OF d1']]) (auto simp: ev amt_at_neg)
  qed
qed

lemma samet_borrow_conserves:
  assumes "samet_borrow_validate op = Inr ()" "samet_borrow_do_evaluate fc op fs d0 = Inr ev0" "fee_frame d0 d"
    and "samet_borrow_do_apply fc op ev fs d = Inr d'"
  shows "conserves d d'"
proof -
  let ?up = "\<lambda>f. f\<lparr>sfo_unpaid_amount := sfo_unpaid_amount f + amount (sfb_borrow_amount op)\<rparr>"
  from assms obtain f where f: "store_find (samet_funds d) (sfb_fund_id op) = Some f"
      "sfo_asset_type f = asset_id (sfb_borrow_amount op)" "sfo_unpaid_amount (?up f) \<le> sfo_balance f"
      "0 < amount (sfb_borrow_amount op)"
    and d': "adjust_balance fc (sfb_borrower op) (sfb_borrow_amount op)
        (d\<lparr>samet_funds := store_put (samet_funds d) (sfb_fund_id op) (?up f)\<rparr>) = Inr d'"
    by (auto simp: samet_borrow_do_evaluate_def samet_borrow_do_apply_def samet_borrow_validate_def fee_frame_fields)
  have "fund_ok f \<Longrightarrow> fund_ok (?up f)" using f by (simp add: fund_ok_def)
  from gap_step_fund_put[OF f(1) _ this] show ?thesis
    by (intro gap_step_then[OF _ gap_step_adjust[OF d']]) (auto simp: f(2) amt_at_def)
qed

lemma samet_repay_applyE:
  assumes "samet_repay_do_apply fc op ev fs d = Inr d'" "asset_id (sfr_repay_amount op) = asset_id (sfr_fund_fee op)"
  obtains f d1 where "store_find (samet_funds d) (sfr_fund_id op) = Some f"
    "debit fc (sfr_account op)
       (ASSET (amount (sfr_repay_amount op) + amount (sfr_fund_fee op)) (asset_id (sfr_repay_amount op))) d = Inr d1"
    "in_int64 (sfo_balance f + amount (sfr_fund_fee op))"
    "d' = d1\<lparr>samet_funds := store_put (samet_funds d1) (sfr_fund_id op)
       (f\<lparr>sfo_balance := sfo_balance f + amount (sfr_fund_fee op),
          sfo_unpaid_amount := sfo_unpaid_amount f - amount (sfr_repay_amount op)\<rparr>)\<rparr>"
  using assms by (auto simp: samet_repay_do_apply_def adjust_balance_fields)

lemma samet_repay_conserves:
  assumes "samet_repay_validate op = Inr ()" "samet_repay_do_evaluate op fs d0 = Inr ev0" "fee_frame d0 d"
    and "samet_repay_do_apply fc op ev fs d = Inr d'"
  shows "conserves d d'"
proof -
  have val: "asset_id (sfr_repay_amount op) = asset_id (sfr_fund_fee op)" "0 < amount (sfr_repay_amount op)"
    "0 \<le> amount (sfr_fund_fee op)" using assms(1) by (auto simp: samet_repay_validate_def)
  from samet_repay_applyE[OF assms(4) val(1)] obtain f d1 where
    f: "store_find (samet_funds d) (sfr_fund_id op) = Some f" and
    d1: "debit fc (sfr_account op)
       (ASSET (amount (sfr_repay_amount op) + amount (sfr_fund_fee op)) (asset_id (sfr_repay_amount op))) d = Inr d1" and
    range: "in_int64 (sfo_balance f + amount (sfr_fund_fee op))" and
    d': "d' = d1\<lparr>samet_funds := store_put (samet_funds d1) (sfr_fund_id op)
       (f\<lparr>sfo_balance := sfo_balance f + amount (sfr_fund_fee op),
          sfo_unpaid_amount := sfo_unpaid_amount f - amount (sfr_repay_amount op)\<rparr>)\<rparr>" by blast
  have ev: "sfo_asset_type f = asset_id (sfr_repay_amount op)" "amount (sfr_repay_amount op) \<le> sfo_unpaid_amount f"
    using assms(2,3) f by (auto simp: samet_repay_do_evaluate_def fee_frame_fields)
  have f1: "store_find (samet_funds d1) (sfr_fund_id op) = Some f" using f d1 by (auto simp: adjust_balance_fields)
  let ?f = "f\<lparr>sfo_balance := sfo_balance f + amount (sfr_fund_fee op),
          sfo_unpaid_amount := sfo_unpaid_amount f - amount (sfr_repay_amount op)\<rparr>"
  have "fund_ok f \<Longrightarrow> fund_ok ?f" using ev val range by (simp add: fund_ok_def)
  from gap_step_fund_put[OF f1 _ this] show ?thesis unfolding d'
    by (intro gap_step_then[OF gap_step_debit[OF d1]]) (auto simp: ev amt_at_def)
qed

end

sublocale fc_safe \<subseteq> samet_create_ev: conserving_evaluator fc sfc_owner_account sfc_fee samet_create_validate
    samet_create_do_evaluate "samet_create_do_apply fc"
  by unfold_locales (rule samet_create_conserves)

sublocale fc_safe \<subseteq> samet_delete_ev: conserving_evaluator fc sfd_owner_account sfd_fee samet_delete_validate
    samet_delete_do_evaluate "samet_delete_do_apply fc"
  by unfold_locales (rule samet_delete_conserves)

sublocale fc_safe \<subseteq> samet_update_ev: conserving_evaluator fc sfu_owner_account sfu_fee samet_update_validate
    "samet_update_do_evaluate fc" "samet_update_do_apply fc"
  by unfold_locales (rule samet_update_conserves)

sublocale fc_safe \<subseteq> samet_borrow_ev: conserving_evaluator fc sfb_borrower sfb_fee samet_borrow_validate
    "samet_borrow_do_evaluate fc" "samet_borrow_do_apply fc"
  by unfold_locales (rule samet_borrow_conserves)

sublocale fc_safe \<subseteq> samet_repay_ev: conserving_evaluator fc sfr_account sfr_fee samet_repay_validate
    samet_repay_do_evaluate "samet_repay_do_apply fc"
  by unfold_locales (rule samet_repay_conserves)

section \<open>Properties\<close>

lemma required_fund_fee_exact:
  assumes "0 \<le> amt" "in_int64 amt" "fee_rate < 2 ^ 32"
  shows "required_fund_fee amt fee_rate = ceil_div (amt * int fee_rate) GRAPHENE_FEE_RATE_DENOM"
proof -
  have "in_int64 (int fee_rate)" using assms(3) by (simp add: in_int64_def)
  then have m: "0 \<le> amt * int fee_rate" "amt * int fee_rate < 2 ^ 126"
    using int64_prod_bound[of amt "int fee_rate"] assms by auto
  have "u128_mul (u128 amt) (int fee_rate) = amt * int fee_rate"
    using m assms by (simp add: u128_mul_id u128_id in_int64_def)
  then show ?thesis
    using m by (simp add: required_fund_fee_def ceil_div_def u128_add_id u128_sub_id GRAPHENE_FEE_RATE_DENOM_def)
qed

lemma wf_fund: "wf_db d \<Longrightarrow> store_find (samet_funds d) k = Some f \<Longrightarrow> fund_ok f"
  unfolding wf_defs by (blast intro: store_all_find)

context fc_safe
begin

lemmas samet_borrow_steps = samet_borrow_ev.operation_steps
lemmas samet_repay_steps = samet_repay_ev.operation_steps

lemma samet_repay_run:
  assumes "wf_db d" "samet_repay_validate op = Inr ()" "run_samet_repay fc req op d = Inr d'"
    and "store_find (samet_funds d) (sfr_fund_id op) = Some fund" "sfo_fee_rate fund < 2 ^ 32"
  shows "store_find (samet_funds d') (sfr_fund_id op) =
      Some (fund\<lparr>sfo_balance := sfo_balance fund + amount (sfr_fund_fee op),
                 sfo_unpaid_amount := sfo_unpaid_amount fund - amount (sfr_repay_amount op)\<rparr>) \<and>
    amount (sfr_repay_amount op) * int (sfo_fee_rate fund) \<le> amount (sfr_fund_fee op) * GRAPHENE_FEE_RATE_DENOM \<and>
    amount (sfr_repay_amount op) \<le> sfo_unpaid_amount fund \<and>
    (\<forall>owner a. amount (get_balance d' owner a) = amount (get_balance d owner a)
      - (if owner = sfr_account op \<and> a = sfo_asset_type fund
         then amount (sfr_repay_amount op) + amount (sfr_fund_fee op) else 0)
      - (if owner = sfr_account op \<and> a = asset_id (sfr_fee op) then amount (sfr_fee op) else 0))"
proof -
  have val: "asset_id (sfr_repay_amount op) = asset_id (sfr_fund_fee op)" "0 < amount (sfr_repay_amount op)"
    "0 \<le> amount (sfr_fund_fee op)" using assms(2) by (auto simp: samet_repay_validate_def)
  from assms(3) obtain fs ev d1 d2 where ev: "samet_repay_do_evaluate op fs d = Inr ev"
    and frame: "fee_frame d d1" and d2: "samet_repay_do_apply fc op ev fs d1 = Inr d2"
    and d': "adjust_balance fc (sfr_account op) (ASSET (- amount (sfr_fee op)) (asset_id (sfr_fee op))) d2 = Inr d'"
    unfolding run_samet_repay_def by (rule samet_repay_steps)
  from samet_repay_applyE[OF d2 val(1)] obtain f e1 where
    f: "store_find (samet_funds d1) (sfr_fund_id op) = Some f" and
    e1: "debit fc (sfr_account op)
       (ASSET (amount (sfr_repay_amount op) + amount (sfr_fund_fee op)) (asset_id (sfr_repay_amount op))) d1 = Inr e1" and
    range: "in_int64 (sfo_balance f + amount (sfr_fund_fee op))" and
    eq: "d2 = e1\<lparr>samet_funds := store_put (samet_funds e1) (sfr_fund_id op)
       (f\<lparr>sfo_balance := sfo_balance f + amount (sfr_fund_fee op),
          sfo_unpaid_amount := sfo_unpaid_amount f - amount (sfr_repay_amount op)\<rparr>)\<rparr>" by blast
  have same: "f = fund" using f assms(4) frame by (simp add: fee_frame_fields)
  have ok: "fund_ok fund" using wf_fund[OF assms(1,4)] .
  from ev assms(4) have e: "sfo_asset_type fund = asset_id (sfr_repay_amount op)"
    "amount (sfr_repay_amount op) \<le> sfo_unpaid_amount fund"
    "required_fund_fee (amount (sfr_repay_amount op)) (sfo_fee_rate fund) \<le> u128 (amount (sfr_fund_fee op))"
    by (auto simp: samet_repay_do_evaluate_def)
  have rp: "in_int64 (amount (sfr_repay_amount op))" "u128 (amount (sfr_fund_fee op)) = amount (sfr_fund_fee op)"
    using e(2) ok val range same by (auto simp: fund_ok_def in_int64_def u128_id)
  have "ceil_div (amount (sfr_repay_amount op) * int (sfo_fee_rate fund)) GRAPHENE_FEE_RATE_DENOM
      \<le> amount (sfr_fund_fee op)"
    using e(3) rp val(2) required_fund_fee_exact[OF _ rp(1) assms(5)] by simp
  then have fee: "amount (sfr_repay_amount op) * int (sfo_fee_rate fund) \<le> amount (sfr_fund_fee op) * GRAPHENE_FEE_RATE_DENOM"
    by (subst (asm) ceil_div_le_iff) (simp_all add: GRAPHENE_FEE_RATE_DENOM_def)
  have find: "store_find (samet_funds d') (sfr_fund_id op) =
      Some (fund\<lparr>sfo_balance := sfo_balance fund + amount (sfr_fund_fee op),
                 sfo_unpaid_amount := sfo_unpaid_amount fund - amount (sfr_repay_amount op)\<rparr>)"
    using adjust_balance_fields[OF d'] e1 f by (auto simp: eq same adjust_balance_fields store_find_put_same)
  have "get_balance d2 owner a = get_balance e1 owner a" for owner a
    by (simp add: eq get_balance_def get_account_balance_def)
  then have "amount (get_balance d' owner a) = amount (get_balance d owner a)
      - (if owner = sfr_account op \<and> a = sfo_asset_type fund
         then amount (sfr_repay_amount op) + amount (sfr_fund_fee op) else 0)
      - (if owner = sfr_account op \<and> a = asset_id (sfr_fee op) then amount (sfr_fee op) else 0)" for owner a
    using adjust_balance_get[OF d', of owner a] e1 fee_frame_balance[OF frame] e(1)
    by (auto simp: adjust_balance_get)
  with find fee e(2) show ?thesis by blast
qed

lemma samet_borrow_run:
  assumes "run_samet_borrow fc req op d = Inr d'"
    and "store_find (samet_funds d) (sfb_fund_id op) = Some fund"
  shows "store_find (samet_funds d') (sfb_fund_id op) =
      Some (fund\<lparr>sfo_unpaid_amount := sfo_unpaid_amount fund + amount (sfb_borrow_amount op)\<rparr>) \<and>
    sfo_unpaid_amount fund + amount (sfb_borrow_amount op) \<le> sfo_balance fund \<and>
    (\<forall>owner a. amount (get_balance d' owner a) = amount (get_balance d owner a)
      + (if owner = sfb_borrower op \<and> a = sfo_asset_type fund then amount (sfb_borrow_amount op) else 0)
      - (if owner = sfb_borrower op \<and> a = asset_id (sfb_fee op) then amount (sfb_fee op) else 0))"
proof -
  from assms(1) obtain fs ev d1 d2 where ev: "samet_borrow_do_evaluate fc op fs d = Inr ev"
    and frame: "fee_frame d d1" and d2: "samet_borrow_do_apply fc op ev fs d1 = Inr d2"
    and d': "adjust_balance fc (sfb_borrower op) (ASSET (- amount (sfb_fee op)) (asset_id (sfb_fee op))) d2 = Inr d'"
    unfolding run_samet_borrow_def by (rule samet_borrow_steps)
  let ?f = "fund\<lparr>sfo_unpaid_amount := sfo_unpaid_amount fund + amount (sfb_borrow_amount op)\<rparr>"
  let ?e = "d1\<lparr>samet_funds := store_put (samet_funds d1) (sfb_fund_id op) ?f\<rparr>"
  have f1: "store_find (samet_funds d1) (sfb_fund_id op) = Some fund" using assms(2) frame by (simp add: fee_frame_fields)
  from d2 f1 have e: "adjust_balance fc (sfb_borrower op) (sfb_borrow_amount op) ?e = Inr d2"
    "sfo_unpaid_amount ?f \<le> sfo_balance fund"
    by (auto simp: samet_borrow_do_apply_def)
  have aid: "sfo_asset_type fund = asset_id (sfb_borrow_amount op)"
    using ev assms(2) by (auto simp: samet_borrow_do_evaluate_def)
  have "get_balance ?e = get_balance d" using fee_frame_balance[OF frame]
    by (intro ext) (simp add: get_balance_def get_account_balance_def fee_frame_fields[OF frame])
  then have "amount (get_balance d' owner a) = amount (get_balance d owner a)
      + (if owner = sfb_borrower op \<and> a = sfo_asset_type fund then amount (sfb_borrow_amount op) else 0)
      - (if owner = sfb_borrower op \<and> a = asset_id (sfb_fee op) then amount (sfb_fee op) else 0)" for owner a
    using adjust_balance_get[OF d', of owner a] adjust_balance_get[OF e(1), of owner a] by (simp add: aid)
  moreover have "store_find (samet_funds d') (sfb_fund_id op) = Some ?f"
    using adjust_balance_fields[OF d'] adjust_balance_fields[OF e(1)] f1 by (simp add: store_find_put_same)
  ultimately show ?thesis using e(2) by simp
qed

end

text \<open>
  C35: a repayment to a fund that is applied reduces the unpaid amount by exactly the repaid amount,
  which was owed, adds the offered fund fee to the fund, and takes both from the repaying account
  together with the operation fee. The fund fee covers the fee rate of the fund, rounded up, although
  the product may exceed 64 bits.
\<close>

theorem samet_repay_exact:
  assumes "fc_safe fc" "wf_db d" "samet_repay_validate op = Inr ()" "run_samet_repay fc req op d = Inr d'"
    and "store_find (samet_funds d) (sfr_fund_id op) = Some fund" "sfo_fee_rate fund < 2 ^ 32"
  shows "store_find (samet_funds d') (sfr_fund_id op) =
      Some (fund\<lparr>sfo_balance := sfo_balance fund + amount (sfr_fund_fee op),
                 sfo_unpaid_amount := sfo_unpaid_amount fund - amount (sfr_repay_amount op)\<rparr>) \<and>
    amount (sfr_repay_amount op) * int (sfo_fee_rate fund) \<le> amount (sfr_fund_fee op) * GRAPHENE_FEE_RATE_DENOM \<and>
    amount (sfr_repay_amount op) \<le> sfo_unpaid_amount fund \<and>
    (\<forall>owner a. amount (get_balance d' owner a) = amount (get_balance d owner a)
      - (if owner = sfr_account op \<and> a = sfo_asset_type fund
         then amount (sfr_repay_amount op) + amount (sfr_fund_fee op) else 0)
      - (if owner = sfr_account op \<and> a = asset_id (sfr_fee op) then amount (sfr_fee op) else 0))"
  by (rule fc_safe.samet_repay_run[OF assms])

definition sample_fund :: samet_fund_object where
  "sample_fund = \<lparr>sfo_owner_account = 8, sfo_asset_type = 0, sfo_balance = 100, sfo_fee_rate = 30000,
     sfo_unpaid_amount = 20\<rparr>"

definition fund_db :: database where
  "fund_db = (sample_db 1700000000)\<lparr>samet_funds := \<lparr>items = [(0, sample_fund)], next_id = 1\<rparr>\<rparr>"

lemma fund_db_wf: "wf_db fund_db" "store_find (samet_funds fund_db) 0 = Some sample_fund"
  by (simp_all add: fund_db_def sample_fund_def sample_defs wf_defs wf_assets_def store_wf_def store_find_def
      store_all_def CORE_ASSET_def CORE_DYN_def fund_ok_def in_int64_def)

lemma fund_db_balance: "get_balance fund_db 7 0 = ASSET 50 0"
  by (simp add: fund_db_def sample_defs get_balance_def get_account_balance_def store_search_def abo_key_def)

lemmas fund_eval = fund_db_def sample_fund_def authorized_def asset_add_def run_eval sample_defs fc_ref_simps

definition sample_repay :: samet_fund_repay_operation where
  "sample_repay = \<lparr>sfr_fee = ASSET 3 0, sfr_account = 7, sfr_fund_id = 0, sfr_repay_amount = ASSET 20 0,
     sfr_fund_fee = ASSET 1 0\<rparr>"

theorem samet_repay_exact_witness:
  "\<exists>d' f. run_samet_repay fc_ref (Some 3) sample_repay fund_db = Inr d' \<and>
    store_find (samet_funds d') 0 = Some f \<and> sfo_unpaid_amount f = 0 \<and> sfo_balance f = 101 \<and>
    amount (get_balance d' 7 0) = 26"
proof -
  have "\<not> isl (run_samet_repay fc_ref (Some 3) sample_repay fund_db)"
    by (simp add: run_samet_repay_def sample_repay_def samet_repay_do_evaluate_def samet_repay_do_apply_def
        required_fund_fee_def u128_mul_def u128_add_def u128_sub_def u128_def GRAPHENE_FEE_RATE_DENOM_def
        fund_eval cong: eval_congs)
  then obtain d' where run: "run_samet_repay fc_ref (Some 3) sample_repay fund_db = Inr d'"
    by (cases "run_samet_repay fc_ref (Some 3) sample_repay fund_db") auto
  have h: "store_find (samet_funds fund_db) (sfr_fund_id sample_repay) = Some sample_fund"
    "sfo_fee_rate sample_fund < 2 ^ 32" "samet_repay_validate sample_repay = Inr ()"
    using fund_db_wf(2) by (simp_all add: sample_repay_def sample_fund_def samet_repay_validate_def)
  from samet_repay_exact[OF fc_ref.fc_safe_axioms fund_db_wf(1) h(3) run h(1,2)] run fund_db_balance
  show ?thesis by (simp add: sample_repay_def sample_fund_def)
qed

text \<open>
  A loan from a fund that is applied gives the borrower exactly the borrowed amount, records
  it as unpaid, and never lends more than the fund holds.
\<close>

theorem samet_borrow_exact:
  assumes "fc_safe fc" "run_samet_borrow fc req op d = Inr d'"
    and "store_find (samet_funds d) (sfb_fund_id op) = Some fund"
  shows "store_find (samet_funds d') (sfb_fund_id op) =
      Some (fund\<lparr>sfo_unpaid_amount := sfo_unpaid_amount fund + amount (sfb_borrow_amount op)\<rparr>) \<and>
    sfo_unpaid_amount fund + amount (sfb_borrow_amount op) \<le> sfo_balance fund \<and>
    (\<forall>owner a. amount (get_balance d' owner a) = amount (get_balance d owner a)
      + (if owner = sfb_borrower op \<and> a = sfo_asset_type fund then amount (sfb_borrow_amount op) else 0)
      - (if owner = sfb_borrower op \<and> a = asset_id (sfb_fee op) then amount (sfb_fee op) else 0))"
  by (rule fc_safe.samet_borrow_run[OF assms])

definition sample_borrow :: samet_fund_borrow_operation where
  "sample_borrow = \<lparr>sfb_fee = ASSET 3 0, sfb_borrower = 7, sfb_fund_id = 0, sfb_borrow_amount = ASSET 80 0\<rparr>"

theorem samet_borrow_exact_witness:
  "\<exists>d'. run_samet_borrow fc_ref (Some 3) sample_borrow fund_db = Inr d' \<and> amount (get_balance d' 7 0) = 127"
proof -
  have "\<not> isl (run_samet_borrow fc_ref (Some 3) sample_borrow fund_db)"
    by (simp add: run_samet_borrow_def sample_borrow_def samet_borrow_do_evaluate_def samet_borrow_do_apply_def
        fund_eval cong: eval_congs)
  then obtain d' where run: "run_samet_borrow fc_ref (Some 3) sample_borrow fund_db = Inr d'"
    by (cases "run_samet_borrow fc_ref (Some 3) sample_borrow fund_db") auto
  have h: "store_find (samet_funds fund_db) (sfb_fund_id sample_borrow) = Some sample_fund"
    using fund_db_wf(2) by (simp add: sample_borrow_def)
  from samet_borrow_exact[OF fc_ref.fc_safe_axioms run h] run fund_db_balance
  show ?thesis by (simp add: sample_borrow_def sample_fund_def)
qed

end
