(* ===== verification/Htlc.thy ===== *)
theory Htlc
  imports Fees
begin

text \<open>
  Hash time locked contracts: \<open>libraries/protocol/htlc.cpp\<close>, \<open>libraries/chain/htlc_evaluator.cpp\<close> and
  \<open>database::clear_expired_htlcs\<close> of \<open>libraries/chain/db_update.cpp\<close>. A contract holds an amount
  until somebody presents the preimage of its hash (the receiver gets the amount) or it expires (the
  sender gets it back). The digests are functions of the \<open>fc\<close> library and parameters of the
  model. A memo is represented by its presence.

  \<open>htlc_extend_evaluator::do_evaluate\<close> reads the committee's HTLC options without checking that they are
  set; reading an empty \<open>optional\<close> is modelled as an exception.
\<close>

section \<open>Operations\<close>

record htlc_create_operation =
  hc_fee :: asset
  hc_from :: account_id_type
  hc_to :: account_id_type
  hc_amount :: asset
  hc_preimage_hash :: htlc_hash
  hc_preimage_size :: nat
  hc_claim_period_seconds :: nat
  hc_has_memo :: bool

record htlc_redeem_operation =
  hr_fee :: asset
  hr_htlc_id :: nat
  hr_redeemer :: account_id_type
  hr_preimage :: bytes

record htlc_extend_operation =
  he_fee :: asset
  he_htlc_id :: nat
  he_update_issuer :: account_id_type
  he_seconds_to_add :: nat

definition htlc_create_validate :: "htlc_create_operation \<Rightarrow> unit result" where
  "htlc_create_validate op =
     FC_ASSERT (0 \<le> amount (hc_fee op))
    (FC_ASSERT (0 < amount (hc_amount op))
    (Inr ()))"

definition htlc_redeem_validate :: "htlc_redeem_operation \<Rightarrow> unit result" where
  "htlc_redeem_validate op = FC_ASSERT (0 \<le> amount (hr_fee op)) (Inr ())"

definition htlc_extend_validate :: "htlc_extend_operation \<Rightarrow> unit result" where
  "htlc_extend_validate op = FC_ASSERT (0 \<le> amount (he_fee op)) (Inr ())"

section \<open>Creating a contract\<close>

definition is_hash160 :: "htlc_hash \<Rightarrow> bool" where
  "is_hash160 h = (case h of Algo_hash160 _ \<Rightarrow> True | _ \<Rightarrow> False)"

definition check_htlc_create_hf_bsip64 ::
    "time_point_sec \<Rightarrow> htlc_create_operation \<Rightarrow> asset_object \<Rightarrow> unit result" where
  "check_htlc_create_hf_bsip64 block_time op asset_to_transfer =
     (if block_time < HARDFORK_CORE_BSIP64_TIME then
        FC_ASSERT (\<not> hc_has_memo op)
       (FC_ASSERT (\<not> is_hash160 (hc_preimage_hash op))
       (Inr ()))
      else
        FC_ASSERT (\<not> is_transfer_restricted asset_to_transfer \<or>
                   hc_from op = issuer asset_to_transfer \<or> hc_to op = issuer asset_to_transfer)
       (Inr ()))"

definition htlc_create_do_evaluate ::
    "htlc_create_operation \<Rightarrow> fee_state \<Rightarrow> database \<Rightarrow> unit result" where
  "htlc_create_do_evaluate op fs d =
    (case updatable_htlc_options (parameters d) of
       None \<Rightarrow> Inl Assert_exception
     | Some opts \<Rightarrow>
         FC_ASSERT (hc_claim_period_seconds op \<le> max_timeout_secs opts)
        (FC_ASSERT (hc_preimage_size op \<le> max_preimage_size opts)
        (bnd (asset_ge (get_balance d (hc_from op) (asset_id (hc_amount op))) (hc_amount op)) (\<lambda>ok.
         FC_ASSERT ok
        (bnd (store_get (assets d) (asset_id (hc_amount op))) (\<lambda>asset_to_transfer.
         bnd (store_get (accounts d) (hc_from op)) (\<lambda>from_account.
         bnd (store_get (accounts d) (hc_to op)) (\<lambda>to_account.
         bnd (check_htlc_create_hf_bsip64 (head_block_time d) op asset_to_transfer) (\<lambda>_.
         FC_ASSERT (is_authorized_asset d (hc_from op) from_account (asset_id (hc_amount op)) asset_to_transfer)
        (FC_ASSERT (is_authorized_asset d (hc_to op) to_account (asset_id (hc_amount op)) asset_to_transfer)
        (Inr ())))))))))))"

definition new_htlc_object :: "fc_lib \<Rightarrow> time_point_sec \<Rightarrow> htlc_create_operation \<Rightarrow> htlc_object" where
  "new_htlc_object fc now op =
     \<lparr>htlc_from = hc_from op, htlc_to = hc_to op, htlc_amount = amount (hc_amount op),
      htlc_asset_id = asset_id (hc_amount op), htlc_preimage_hash = hc_preimage_hash op,
      htlc_preimage_size = hc_preimage_size op,
      htlc_expiration = tps_add fc now (hc_claim_period_seconds op)\<rparr>"

definition htlc_create_do_apply ::
    "fc_lib \<Rightarrow> htlc_create_operation \<Rightarrow> unit \<Rightarrow> fee_state \<Rightarrow> database \<Rightarrow> database result" where
  "htlc_create_do_apply fc op ev fs d =
     bnd (debit fc (hc_from op) (hc_amount op) d) (\<lambda>d.
     Inr (d\<lparr>htlcs := store_add (htlcs d) (new_htlc_object fc (head_block_time d) op)\<rparr>))"

section \<open>Redeeming and extending\<close>

definition check_htlc_redeem_hf_bsip64 ::
    "time_point_sec \<Rightarrow> htlc_redeem_operation \<Rightarrow> htlc_object \<Rightarrow> unit result" where
  "check_htlc_redeem_hf_bsip64 block_time op h =
     (if 0 < htlc_preimage_size h \<or> block_time < HARDFORK_CORE_BSIP64_TIME
      then FC_ASSERT (length (hr_preimage op) = htlc_preimage_size h) (Inr ())
      else Inr ())"

text \<open>\<open>htlc_redeem_visitor\<close>: the digest of the preimage with the algorithm of the lock.\<close>

fun preimage_matches :: "fc_lib \<Rightarrow> bytes \<Rightarrow> htlc_hash \<Rightarrow> bool" where
  "preimage_matches fc data (Algo_ripemd160 h) = (hash_ripemd160 fc data = h)"
| "preimage_matches fc data (Algo_sha1 h) = (hash_sha1 fc data = h)"
| "preimage_matches fc data (Algo_sha256 h) = (hash_sha256 fc data = h)"
| "preimage_matches fc data (Algo_hash160 h) = (hash_hash160 fc data = h)"

definition htlc_redeem_do_evaluate ::
    "fc_lib \<Rightarrow> htlc_redeem_operation \<Rightarrow> fee_state \<Rightarrow> database \<Rightarrow> unit result" where
  "htlc_redeem_do_evaluate fc op fs d =
     bnd (store_get (htlcs d) (hr_htlc_id op)) (\<lambda>h.
     bnd (check_htlc_redeem_hf_bsip64 (head_block_time d) op h) (\<lambda>_.
     FC_ASSERT (preimage_matches fc (hr_preimage op) (htlc_preimage_hash h))
    (Inr ())))"

definition htlc_redeem_do_apply ::
    "fc_lib \<Rightarrow> htlc_redeem_operation \<Rightarrow> unit \<Rightarrow> fee_state \<Rightarrow> database \<Rightarrow> database result" where
  "htlc_redeem_do_apply fc op ev fs d =
     bnd (store_get (htlcs d) (hr_htlc_id op)) (\<lambda>h.
     bnd (adjust_balance fc (htlc_to h) (ASSET (htlc_amount h) (htlc_asset_id h)) d) (\<lambda>d.
     Inr (d\<lparr>htlcs := store_del (htlcs d) (hr_htlc_id op)\<rparr>)))"

definition htlc_extend_do_evaluate ::
    "fc_lib \<Rightarrow> htlc_extend_operation \<Rightarrow> fee_state \<Rightarrow> database \<Rightarrow> unit result" where
  "htlc_extend_do_evaluate fc op fs d =
     bnd (store_get (htlcs d) (he_htlc_id op)) (\<lambda>h.
     FC_ASSERT (he_update_issuer op = htlc_from h)
    (FC_ASSERT (htlc_expiration h + he_seconds_to_add op < tps_maximum)
    (case updatable_htlc_options (parameters d) of
       None \<Rightarrow> Inl Fc_exception
     | Some opts \<Rightarrow>
         FC_ASSERT (tps_add fc (htlc_expiration h) (he_seconds_to_add op)
                    \<le> tps_add fc (head_block_time d) (max_timeout_secs opts))
        (Inr ()))))"

definition htlc_extend_do_apply ::
    "fc_lib \<Rightarrow> htlc_extend_operation \<Rightarrow> unit \<Rightarrow> fee_state \<Rightarrow> database \<Rightarrow> database result" where
  "htlc_extend_do_apply fc op ev fs d =
     bnd (store_get (htlcs d) (he_htlc_id op)) (\<lambda>h.
     Inr (d\<lparr>htlcs := store_put (htlcs d) (he_htlc_id op)
              (h\<lparr>htlc_expiration := tps_add fc (htlc_expiration h) (he_seconds_to_add op)\<rparr>)\<rparr>))"

section \<open>Expiration\<close>

text \<open>The loop of \<open>clear_expired_htlcs\<close> takes the contract that expires first, as long as it has
  expired. The recursion ends because every round removes a contract.\<close>

function clear_expired_htlcs :: "fc_lib \<Rightarrow> database \<Rightarrow> database result" where
  "clear_expired_htlcs fc d =
    (case store_first htlc_expiration (htlcs d) of
       None \<Rightarrow> Inr d
     | Some (i, h) \<Rightarrow>
         if htlc_expiration h \<le> head_block_time d then
           (case adjust_balance fc (htlc_from h) (ASSET (htlc_amount h) (htlc_asset_id h)) d of
              Inl e \<Rightarrow> Inl e
            | Inr d1 \<Rightarrow> clear_expired_htlcs fc (d1\<lparr>htlcs := store_del (htlcs d1) i\<rparr>))
         else Inr d)"
  by pat_completeness auto
termination
  by (relation "measure (\<lambda>(fc, d). length (items (htlcs d)))")
    (auto dest!: adjust_balance_only store_first_itemsD intro: length_store_del)

declare clear_expired_htlcs.simps [simp del]

section \<open>The whole operations\<close>

definition run_htlc_create ::
    "fc_lib \<Rightarrow> share_type option \<Rightarrow> htlc_create_operation \<Rightarrow> database \<Rightarrow> database result" where
  "run_htlc_create fc req op d = run_operation fc req (hc_from op) (hc_fee op)
     (htlc_create_do_evaluate op) (htlc_create_do_apply fc op) d"

definition run_htlc_redeem ::
    "fc_lib \<Rightarrow> share_type option \<Rightarrow> htlc_redeem_operation \<Rightarrow> database \<Rightarrow> database result" where
  "run_htlc_redeem fc req op d = run_operation fc req (hr_redeemer op) (hr_fee op)
     (htlc_redeem_do_evaluate fc op) (htlc_redeem_do_apply fc op) d"

definition run_htlc_extend ::
    "fc_lib \<Rightarrow> share_type option \<Rightarrow> htlc_extend_operation \<Rightarrow> database \<Rightarrow> database result" where
  "run_htlc_extend fc req op d = run_operation fc req (he_update_issuer op) (he_fee op)
     (htlc_extend_do_evaluate fc op) (htlc_extend_do_apply fc op) d"

section \<open>Conservation\<close>

lemma gap_step_htlc_add:
  "gap_step d (d\<lparr>htlcs := store_add (htlcs d) h\<rparr>) (amt_at (htlc_asset_id h) (htlc_amount h))"
  by (auto simp: gap_step_def gap_defs wf_defs balances_nonneg_def htlcs_total_def amt_at_def store_wf_add)

lemma gap_step_htlc_del:
  assumes "store_find (htlcs d) i = Some h"
  shows "gap_step d (d\<lparr>htlcs := store_del (htlcs d) i\<rparr>) (amt_at (htlc_asset_id h) (- htlc_amount h))"
  using assms by (auto simp: gap_step_def gap_defs wf_defs balances_nonneg_def htlcs_total_def amt_at_def
      store_sum_del store_wf_del)

lemma gap_step_htlc_put:
  assumes "store_find (htlcs d) i = Some h" "htlc_asset_id h' = htlc_asset_id h" "htlc_amount h' = htlc_amount h"
  shows "conserves d (d\<lparr>htlcs := store_put (htlcs d) i h'\<rparr>)"
  using assms by (auto simp: gap_step_def gap_defs wf_defs balances_nonneg_def htlcs_total_def store_sum_put
      store_wf_put)

lemma htlc_extend_conserves:
  assumes "htlc_extend_do_apply fc op ev fs d = Inr d'"
  shows "conserves d d'"
  using assms by (auto simp: htlc_extend_do_apply_def intro!: gap_step_htlc_put)

context fc_safe
begin

lemma htlc_create_conserves:
  assumes "htlc_create_do_apply fc op ev fs d = Inr d'"
  shows "conserves d d'"
proof -
  from assms obtain d1 where d1: "debit fc (hc_from op) (hc_amount op) d = Inr d1"
    and d': "d' = d1\<lparr>htlcs := store_add (htlcs d1) (new_htlc_object fc (head_block_time d1) op)\<rparr>"
    by (auto simp: htlc_create_do_apply_def simp del: debit_iff)
  show ?thesis unfolding d'
    by (rule gap_step_then[OF gap_step_debit[OF d1] gap_step_htlc_add]) (simp add: new_htlc_object_def amt_at_neg)
qed

text \<open>Paying the amount of a contract out and removing the contract.\<close>

lemma htlc_pay_out:
  assumes "adjust_balance fc account (ASSET (htlc_amount h) (htlc_asset_id h)) d = Inr d1"
    and "store_find (htlcs d) i = Some h"
  shows "conserves d (d1\<lparr>htlcs := store_del (htlcs d1) i\<rparr>)"
proof -
  have "store_find (htlcs d1) i = Some h" using assms by (simp add: adjust_balance_fields)
  from gap_step_htlc_del[OF this] show ?thesis
    by (intro gap_step_then[OF gap_step_adjust[OF assms(1)]]) (auto simp: amt_at_neg)
qed

lemma htlc_redeem_conserves:
  assumes "htlc_redeem_do_apply fc op ev fs d = Inr d'"
  shows "conserves d d'"
  using assms by (auto simp: htlc_redeem_do_apply_def intro: htlc_pay_out)

end

sublocale fc_safe \<subseteq> htlc_create_ev: conserving_evaluator fc hc_from hc_fee htlc_create_validate
    htlc_create_do_evaluate "htlc_create_do_apply fc"
  by unfold_locales (rule htlc_create_conserves)

sublocale fc_safe \<subseteq> htlc_redeem_ev: conserving_evaluator fc hr_redeemer hr_fee htlc_redeem_validate
    "htlc_redeem_do_evaluate fc" "htlc_redeem_do_apply fc"
  by unfold_locales (rule htlc_redeem_conserves)

sublocale fc_safe \<subseteq> htlc_extend_ev: conserving_evaluator fc he_update_issuer he_fee htlc_extend_validate
    "htlc_extend_do_evaluate fc" "htlc_extend_do_apply fc"
  by unfold_locales (rule htlc_extend_conserves)

section \<open>Expiration of contracts\<close>

text \<open>What the expiration of a contract pays to an account.\<close>

definition htlc_refund :: "time_point_sec \<Rightarrow> account_id_type \<Rightarrow> asset_id_type \<Rightarrow> htlc_object \<Rightarrow> int" where
  "htlc_refund now owner a h =
     (if htlc_expiration h \<le> now \<and> htlc_from h = owner \<and> htlc_asset_id h = a then htlc_amount h else 0)"

context fc_safe
begin

lemma clear_expired_step:
  assumes "store_wf (htlcs d)" "store_first htlc_expiration (htlcs d) = Some (i, h)"
    and "adjust_balance fc (htlc_from h) (ASSET (htlc_amount h) (htlc_asset_id h)) d = Inr d1"
  defines "e \<equiv> d1\<lparr>htlcs := store_del (htlcs d1) i\<rparr>"
  shows "store_find (htlcs d) i = Some h" "store_wf (htlcs e)" "head_block_time e = head_block_time d" "conserves d e"
    "store_find (htlcs e) j = (if j = i then None else store_find (htlcs d) j)"
    "htlc_expiration h \<le> head_block_time d \<Longrightarrow>
       amount (get_balance e owner a) + store_sum (htlc_refund (head_block_time d) owner a) (htlcs e) =
       amount (get_balance d owner a) + store_sum (htlc_refund (head_block_time d) owner a) (htlcs d)"
proof -
  show f: "store_find (htlcs d) i = Some h"
    using assms(1) store_first_itemsD[OF assms(2)] by (rule store_wf_find)
  have h: "htlcs d1 = htlcs d" "head_block_time d1 = head_block_time d"
    using adjust_balance_fields[OF assms(3)] by auto
  show "store_wf (htlcs e)" using assms(1) h by (simp add: e_def store_wf_del)
  show "head_block_time e = head_block_time d" using h by (simp add: e_def)
  show "conserves d e" unfolding e_def by (rule htlc_pay_out[OF assms(3) f])
  show "store_find (htlcs e) j = (if j = i then None else store_find (htlcs d) j)"
    using assms(1) h by (simp add: e_def store_find_del)
  have "get_balance e owner a = get_balance d1 owner a" by (simp add: e_def get_balance_def get_account_balance_def)
  moreover assume "htlc_expiration h \<le> head_block_time d"
  ultimately show "amount (get_balance e owner a) + store_sum (htlc_refund (head_block_time d) owner a) (htlcs e) =
       amount (get_balance d owner a) + store_sum (htlc_refund (head_block_time d) owner a) (htlcs d)"
    using adjust_balance_get[OF assms(3), of owner a] h store_sum_del[OF f]
    by (auto simp: e_def htlc_refund_def)
qed

lemma clear_expired_done:
  assumes "store_wf (htlcs d)" "case store_first htlc_expiration (htlcs d) of None \<Rightarrow> True
      | Some (i, h) \<Rightarrow> head_block_time d < htlc_expiration h"
  shows "store_find (htlcs d) i = Some h \<Longrightarrow> head_block_time d < htlc_expiration h"
    "store_sum (htlc_refund (head_block_time d) owner a) (htlcs d) = 0"
proof -
  have late: "head_block_time d < htlc_expiration h" if "(i, h) \<in> set (items (htlcs d))" for i h
  proof (cases "store_first htlc_expiration (htlcs d)")
    case None
    with that show ?thesis by (auto simp: store_first_None[THEN iffD1])
  next
    case (Some p)
    with assms(2) store_first_le[of htlc_expiration "htlcs d" "fst p" "snd p", OF _ that] show ?thesis
      by (cases p) auto
  qed
  show "store_find (htlcs d) i = Some h \<Longrightarrow> head_block_time d < htlc_expiration h"
    using late store_find_itemsD by metis
  have "lsum (\<lambda>p. htlc_refund (head_block_time d) owner a (snd p)) (items (htlcs d)) = lsum (\<lambda>_. 0) (items (htlcs d))"
    by (rule lsum_cong) (use late in \<open>fastforce simp: htlc_refund_def\<close>)
  then show "store_sum (htlc_refund (head_block_time d) owner a) (htlcs d) = 0"
    by (simp add: store_sum_def lsum_def)
qed

lemma clear_expired_run:
  assumes "store_wf (htlcs d)" "clear_expired_htlcs fc d = Inr d'"
  shows "conserves d d' \<and> head_block_time d' = head_block_time d \<and>
    (\<forall>i h. store_find (htlcs d') i = Some h \<longleftrightarrow>
       store_find (htlcs d) i = Some h \<and> head_block_time d < htlc_expiration h) \<and>
    (\<forall>owner a. amount (get_balance d' owner a) =
       amount (get_balance d owner a) + store_sum (htlc_refund (head_block_time d) owner a) (htlcs d))"
  using assms
proof (induction "length (items (htlcs d))" arbitrary: d rule: less_induct)
  case less
  show ?case
  proof (cases "case store_first htlc_expiration (htlcs d) of None \<Rightarrow> True
      | Some (i, h) \<Rightarrow> head_block_time d < htlc_expiration h")
    case True
    then have "d' = d" using less.prems(2) by (subst (asm) clear_expired_htlcs.simps) (auto split: option.splits)
    then show ?thesis using clear_expired_done[OF less.prems(1) True] by auto
  next
    case False
    then obtain i h where ih: "store_first htlc_expiration (htlcs d) = Some (i, h)"
      "htlc_expiration h \<le> head_block_time d" by (auto split: option.splits)
    then obtain d1 where d1: "adjust_balance fc (htlc_from h) (ASSET (htlc_amount h) (htlc_asset_id h)) d = Inr d1"
      "clear_expired_htlcs fc (d1\<lparr>htlcs := store_del (htlcs d1) i\<rparr>) = Inr d'"
      using less.prems(2) by (subst (asm) clear_expired_htlcs.simps) (auto split: sum.splits)
    let ?e = "d1\<lparr>htlcs := store_del (htlcs d1) i\<rparr>"
    note st = clear_expired_step[OF less.prems(1) ih(1) d1(1)]
    have "length (items (htlcs ?e)) < length (items (htlcs d))"
      using length_store_del[OF store_first_itemsD[OF ih(1)]] adjust_balance_fields[OF d1(1)] by simp
    from less.hyps[OF this st(2) d1(2)]
    have IH: "conserves ?e d'" "head_block_time d' = head_block_time d"
      "\<And>j h. store_find (htlcs d') j = Some h \<longleftrightarrow> store_find (htlcs ?e) j = Some h \<and> head_block_time d < htlc_expiration h"
      "\<And>owner a. amount (get_balance d' owner a) =
         amount (get_balance ?e owner a) + store_sum (htlc_refund (head_block_time d) owner a) (htlcs ?e)"
      using st(3) by auto
    have "conserves d d'" using st(4) IH(1) by (rule conserves_trans)
    moreover have "store_find (htlcs d') j = Some g \<longleftrightarrow>
        store_find (htlcs d) j = Some g \<and> head_block_time d < htlc_expiration g" for j g
      using IH(3)[of j g] st(1) st(5)[of j] ih(2) by auto
    ultimately show ?thesis using IH(2,4) st(6)[OF ih(2)] by simp
  qed
qed

text \<open>The loop never gets stuck as long as the refunded balances are share amounts.\<close>

lemma clear_expired_returns:
  assumes "store_wf (htlcs d)" "balances_nonneg d" "store_all (\<lambda>h. 0 \<le> htlc_amount h \<and> in_int64 (htlc_amount h)) (htlcs d)"
    and "\<And>owner a. in_int64 (amount (get_balance d owner a) +
      store_sum (htlc_refund (head_block_time d) owner a) (htlcs d))"
  shows "\<exists>d'. clear_expired_htlcs fc d = Inr d'"
  using assms
proof (induction "length (items (htlcs d))" arbitrary: d rule: less_induct)
  case less
  show ?case
  proof (cases "case store_first htlc_expiration (htlcs d) of None \<Rightarrow> True
      | Some (i, h) \<Rightarrow> head_block_time d < htlc_expiration h")
    case True
    then show ?thesis by (subst clear_expired_htlcs.simps) (auto simp del: store_first_None split: option.splits)
  next
    case False
    then obtain i h where ih: "store_first htlc_expiration (htlcs d) = Some (i, h)"
      "htlc_expiration h \<le> head_block_time d" by (auto split: option.splits)
    let ?now = "head_block_time d" and ?o = "htlc_from h" and ?a = "htlc_asset_id h"
    have f: "store_find (htlcs d) i = Some h"
      using less.prems(1) store_first_itemsD[OF ih(1)] by (rule store_wf_find)
    have h: "0 \<le> htlc_amount h" "in_int64 (htlc_amount h)" using store_all_find[OF less.prems(3) f] by auto
    have "store_all (\<lambda>h. 0 \<le> htlc_refund ?now ?o ?a h) (htlcs d)"
      using less.prems(3) by (auto simp: store_all_def list_all_iff htlc_refund_def)
    moreover have "htlc_refund ?now ?o ?a h = htlc_amount h" using ih(2) by (simp add: htlc_refund_def)
    ultimately have "htlc_amount h \<le> store_sum (htlc_refund ?now ?o ?a) (htlcs d)"
      using store_sum_ge[OF _ f, of "htlc_refund ?now ?o ?a"] by simp
    then have fits: "in_int64 (amount (get_balance d ?o ?a) + htlc_amount h)"
      using in_int64_between[OF less.prems(4)[of ?o ?a]] get_balance_nonneg[OF less.prems(2), of ?o ?a] h(1)
      by (metis add_increasing add_left_mono)
    then obtain d1 where d1: "adjust_balance fc ?o (ASSET (htlc_amount h) ?a) d = Inr d1"
      using adjust_balance_succeeds_iff[OF _ _ less.prems(2), of "ASSET (htlc_amount h) ?a" ?o] h
        get_balance_nonneg[OF less.prems(2), of ?o ?a] by (auto simp: in_int64_def)
    let ?e = "d1\<lparr>htlcs := store_del (htlcs d1) i\<rparr>"
    note st = clear_expired_step[OF less.prems(1) ih(1) d1]
    have hs: "htlcs d1 = htlcs d" using adjust_balance_fields[OF d1] by simp
    have "length (items (htlcs ?e)) < length (items (htlcs d))"
      using length_store_del[OF store_first_itemsD[OF ih(1)]] hs by simp
    moreover have "balances_nonneg ?e" using adjust_balance_nonneg[OF d1 less.prems(2)] by (simp add: balances_nonneg_def)
    moreover have "store_all (\<lambda>h. 0 \<le> htlc_amount h \<and> in_int64 (htlc_amount h)) (htlcs ?e)"
      using less.prems(3) hs by (simp add: store_all_del)
    moreover have "in_int64 (amount (get_balance ?e owner a) +
        store_sum (htlc_refund (head_block_time ?e) owner a) (htlcs ?e))" for owner a
      using less.prems(4)[of owner a] st(3) st(6)[OF ih(2), of owner a] by simp
    ultimately obtain d' where "clear_expired_htlcs fc ?e = Inr d'"
      using less.hyps[of ?e] st(2) by blast
    then show ?thesis using ih d1 by (subst clear_expired_htlcs.simps) simp
  qed
qed

section \<open>Effects of the operations\<close>

lemmas htlc_create_steps = htlc_create_ev.operation_steps
lemmas htlc_redeem_steps = htlc_redeem_ev.operation_steps
lemmas htlc_extend_steps = htlc_extend_ev.operation_steps

lemma htlc_redeem_run:
  assumes "store_wf (htlcs d)" "run_htlc_redeem fc req op d = Inr d'"
    and "store_find (htlcs d) (hr_htlc_id op) = Some h"
  shows "preimage_matches fc (hr_preimage op) (htlc_preimage_hash h) \<and>
    (0 < htlc_preimage_size h \<longrightarrow> length (hr_preimage op) = htlc_preimage_size h) \<and>
    (\<forall>i. store_find (htlcs d') i = (if i = hr_htlc_id op then None else store_find (htlcs d) i)) \<and>
    (\<forall>owner a. amount (get_balance d' owner a) = amount (get_balance d owner a)
      + (if owner = htlc_to h \<and> a = htlc_asset_id h then htlc_amount h else 0)
      - (if owner = hr_redeemer op \<and> a = asset_id (hr_fee op) then amount (hr_fee op) else 0))"
proof -
  from assms(2) obtain fs ev d1 d2 where ev: "htlc_redeem_do_evaluate fc op fs d = Inr ev"
    and frame: "fee_frame d d1" and d2: "htlc_redeem_do_apply fc op ev fs d1 = Inr d2"
    and d': "adjust_balance fc (hr_redeemer op) (ASSET (- amount (hr_fee op)) (asset_id (hr_fee op))) d2 = Inr d'"
    unfolding run_htlc_redeem_def by (rule htlc_redeem_steps)
  have hs: "htlcs d1 = htlcs d" using frame by (simp add: fee_frame_fields)
  from d2 hs assms(3) obtain e where e: "adjust_balance fc (htlc_to h) (ASSET (htlc_amount h) (htlc_asset_id h)) d1 = Inr e"
    "d2 = e\<lparr>htlcs := store_del (htlcs e) (hr_htlc_id op)\<rparr>" by (auto simp: htlc_redeem_do_apply_def)
  have "store_find (htlcs d') i = (if i = hr_htlc_id op then None else store_find (htlcs d) i)" for i
    using adjust_balance_fields[OF d'] adjust_balance_fields[OF e(1)] e(2) hs assms(1) by (simp add: store_find_del)
  moreover have "amount (get_balance d2 owner a) = amount (get_balance e owner a)" for owner a
    by (simp add: e(2) get_balance_def get_account_balance_def)
  then have "amount (get_balance d' owner a) = amount (get_balance d owner a)
      + (if owner = htlc_to h \<and> a = htlc_asset_id h then htlc_amount h else 0)
      - (if owner = hr_redeemer op \<and> a = asset_id (hr_fee op) then amount (hr_fee op) else 0)" for owner a
    using adjust_balance_get[OF d', of owner a] adjust_balance_get[OF e(1), of owner a] fee_frame_balance[OF frame]
    by simp
  moreover have "preimage_matches fc (hr_preimage op) (htlc_preimage_hash h)"
    "0 < htlc_preimage_size h \<Longrightarrow> length (hr_preimage op) = htlc_preimage_size h"
    using ev assms(3) by (auto simp: htlc_redeem_do_evaluate_def check_htlc_redeem_hf_bsip64_def)
  ultimately show ?thesis by blast
qed

lemma htlc_create_run:
  assumes "store_wf (htlcs d)" "run_htlc_create fc req op d = Inr d'"
    and "head_block_time d + hc_claim_period_seconds op < 2 ^ 32"
  shows "(\<forall>i. store_find (htlcs d') i =
      (if i = next_id (htlcs d)
       then Some \<lparr>htlc_from = hc_from op, htlc_to = hc_to op, htlc_amount = amount (hc_amount op),
              htlc_asset_id = asset_id (hc_amount op), htlc_preimage_hash = hc_preimage_hash op,
              htlc_preimage_size = hc_preimage_size op,
              htlc_expiration = head_block_time d + hc_claim_period_seconds op\<rparr>
       else store_find (htlcs d) i)) \<and>
    (\<forall>owner a. amount (get_balance d' owner a) = amount (get_balance d owner a)
      - (if owner = hc_from op \<and> a = asset_id (hc_amount op) then amount (hc_amount op) else 0)
      - (if owner = hc_from op \<and> a = asset_id (hc_fee op) then amount (hc_fee op) else 0)) \<and>
    (\<exists>opts. updatable_htlc_options (parameters d) = Some opts \<and> hc_claim_period_seconds op \<le> max_timeout_secs opts)"
proof -
  from assms(2) obtain fs ev d1 d2 where ev: "htlc_create_do_evaluate op fs d = Inr ev"
    and frame: "fee_frame d d1" and d2: "htlc_create_do_apply fc op ev fs d1 = Inr d2"
    and d': "adjust_balance fc (hc_from op) (ASSET (- amount (hc_fee op)) (asset_id (hc_fee op))) d2 = Inr d'"
    unfolding run_htlc_create_def by (rule htlc_create_steps)
  from d2 obtain e where e: "debit fc (hc_from op) (hc_amount op) d1 = Inr e"
    "d2 = e\<lparr>htlcs := store_add (htlcs e) (new_htlc_object fc (head_block_time e) op)\<rparr>"
    by (auto simp: htlc_create_do_apply_def simp del: debit_iff)
  have f: "htlcs e = htlcs d" "head_block_time e = head_block_time d"
    using e(1) frame by (auto simp: adjust_balance_fields fee_frame_fields)
  have "amount (get_balance d2 owner a) = amount (get_balance e owner a)" for owner a
    by (simp add: e(2) get_balance_def get_account_balance_def)
  then have bal: "amount (get_balance d' owner a) = amount (get_balance d owner a)
      - (if owner = hc_from op \<and> a = asset_id (hc_amount op) then amount (hc_amount op) else 0)
      - (if owner = hc_from op \<and> a = asset_id (hc_fee op) then amount (hc_fee op) else 0)" for owner a
    using adjust_balance_get[OF d', of owner a] e(1) fee_frame_balance[OF frame] by (auto simp: adjust_balance_get)
  have "\<exists>opts. updatable_htlc_options (parameters d) = Some opts \<and> hc_claim_period_seconds op \<le> max_timeout_secs opts"
    using ev by (auto simp: htlc_create_do_evaluate_def split: option.splits)
  with bal show ?thesis
    using adjust_balance_fields[OF d'] assms(1) tps_add_exact[OF assms(3)]
    by (simp add: e(2) f store_find_add new_htlc_object_def)
qed

lemma htlc_extend_run:
  assumes "run_htlc_extend fc req op d = Inr d'" "store_find (htlcs d) (he_htlc_id op) = Some h"
    and "\<And>opts. updatable_htlc_options (parameters d) = Some opts \<Longrightarrow> head_block_time d + max_timeout_secs opts < 2 ^ 32"
  shows "he_update_issuer op = htlc_from h \<and>
    store_find (htlcs d') (he_htlc_id op) = Some (h\<lparr>htlc_expiration := htlc_expiration h + he_seconds_to_add op\<rparr>) \<and>
    (\<exists>opts. updatable_htlc_options (parameters d) = Some opts \<and>
      htlc_expiration h + he_seconds_to_add op \<le> head_block_time d + max_timeout_secs opts)"
proof -
  from assms(1) obtain fs ev d1 d2 where ev: "htlc_extend_do_evaluate fc op fs d = Inr ev"
    and frame: "fee_frame d d1" and d2: "htlc_extend_do_apply fc op ev fs d1 = Inr d2"
    and d': "adjust_balance fc (he_update_issuer op) (ASSET (- amount (he_fee op)) (asset_id (he_fee op))) d2 = Inr d'"
    unfolding run_htlc_extend_def by (rule htlc_extend_steps)
  from ev assms(2) obtain opts where o: "updatable_htlc_options (parameters d) = Some opts"
    "he_update_issuer op = htlc_from h" "htlc_expiration h + he_seconds_to_add op < tps_maximum"
    "tps_add fc (htlc_expiration h) (he_seconds_to_add op) \<le> tps_add fc (head_block_time d) (max_timeout_secs opts)"
    by (auto simp: htlc_extend_do_evaluate_def split: option.splits)
  have add: "tps_add fc (htlc_expiration h) (he_seconds_to_add op) = htlc_expiration h + he_seconds_to_add op"
    by (rule tps_add_exact) (use o(3) in \<open>simp add: tps_maximum_def\<close>)
  have "htlcs d1 = htlcs d" using frame by (simp add: fee_frame_fields)
  then have "store_find (htlcs d') (he_htlc_id op) = Some (h\<lparr>htlc_expiration := htlc_expiration h + he_seconds_to_add op\<rparr>)"
    using d2 adjust_balance_fields[OF d'] assms(2) by (auto simp: htlc_extend_do_apply_def store_find_put_same add)
  then show ?thesis using o add tps_add_exact[OF assms(3)[OF o(1)]] by auto
qed

end

section \<open>Properties\<close>

text \<open>
  C31: \<open>clear_expired_htlcs\<close> ends, and when the refunded balances stay share amounts it returns
  normally. Afterwards exactly the contracts that have not expired are left, unchanged, every sender
  has received exactly the amounts of its expired contracts, no other balance has changed, and
  no asset is created or lost.
\<close>

theorem clear_expired_htlcs_correct:
  assumes "fc_safe fc" "wf_db d" "store_wf (htlcs d)" "balances_nonneg d"
    and "store_all (\<lambda>h. 0 \<le> htlc_amount h \<and> in_int64 (htlc_amount h)) (htlcs d)"
    and "\<And>owner a. in_int64 (amount (get_balance d owner a) +
      store_sum (htlc_refund (head_block_time d) owner a) (htlcs d))"
  shows "\<exists>d'. clear_expired_htlcs fc d = Inr d' \<and> (\<forall>a. supply_gap d' a = supply_gap d a) \<and>
    (\<forall>i h. store_find (htlcs d') i = Some h \<longleftrightarrow>
       store_find (htlcs d) i = Some h \<and> head_block_time d < htlc_expiration h) \<and>
    (\<forall>owner a. amount (get_balance d' owner a) =
       amount (get_balance d owner a) + store_sum (htlc_refund (head_block_time d) owner a) (htlcs d))"
proof -
  from fc_safe.clear_expired_returns[OF assms(1,3-6)] obtain d' where d': "clear_expired_htlcs fc d = Inr d'" by blast
  from fc_safe.clear_expired_run[OF assms(1,3) d'] assms(2) d' show ?thesis by (auto simp: gap_step_def)
qed

definition sample_htlc :: "nat \<Rightarrow> htlc_object" where
  "sample_htlc t = \<lparr>htlc_from = 7, htlc_to = 8, htlc_amount = 10, htlc_asset_id = 0,
     htlc_preimage_hash = Algo_sha256 [3, 104, 105], htlc_preimage_size = 2, htlc_expiration = t\<rparr>"

definition htlc_db :: database where
  "htlc_db = (sample_db 1700000000)\<lparr>htlcs := \<lparr>items = [(0, sample_htlc 1800000000), (1, sample_htlc 1600000000)],
     next_id = 2\<rparr>\<rparr>"

lemma htlc_db_facts: "wf_db htlc_db" "store_wf (htlcs htlc_db)" "balances_nonneg htlc_db"
  "store_find (htlcs htlc_db) 0 = Some (sample_htlc 1800000000)"
  "store_find (htlcs htlc_db) 1 = Some (sample_htlc 1600000000)"
  "get_balance htlc_db 7 0 = ASSET 50 0" "get_balance htlc_db 8 0 = ASSET 0 0"
  by (simp_all add: htlc_db_def sample_htlc_def sample_defs wf_defs wf_assets_def store_wf_def store_find_def
      store_all_def CORE_ASSET_def CORE_DYN_def balances_nonneg_def get_balance_def get_account_balance_def
      store_search_def abo_key_def)

theorem clear_expired_htlcs_correct_witness:
  "\<exists>d'. clear_expired_htlcs fc_ref htlc_db = Inr d' \<and> amount (get_balance d' 7 0) = 60 \<and>
    store_find (htlcs d') 0 = Some (sample_htlc 1800000000) \<and> store_find (htlcs d') 1 = None"
proof -
  have now: "head_block_time htlc_db = 1700000000" by (simp add: htlc_db_def sample_defs)
  have all: "store_all (\<lambda>h. 0 \<le> htlc_amount h \<and> in_int64 (htlc_amount h)) (htlcs htlc_db)"
    by (simp add: htlc_db_def sample_htlc_def store_all_def in_int64_def)
  have sum: "store_sum (htlc_refund (head_block_time htlc_db) owner a) (htlcs htlc_db) =
      (if owner = 7 \<and> a = 0 then 10 else 0)" for owner a
    unfolding now by (simp add: htlc_db_def sample_htlc_def store_sum_def htlc_refund_def)
  have "amount (get_balance htlc_db owner a) = (if owner = 7 \<and> a = 0 then 50 else if owner = 8 \<and> a = 1 then 40 else 0)"
    for owner a
    by (simp add: htlc_db_def sample_defs get_balance_def get_account_balance_def store_search_def abo_key_def)
  then have int: "in_int64 (amount (get_balance htlc_db owner a) +
      store_sum (htlc_refund (head_block_time htlc_db) owner a) (htlcs htlc_db))" for owner a
    by (simp add: sum in_int64_def)
  from clear_expired_htlcs_correct[OF fc_ref.fc_safe_axioms htlc_db_facts(1-3) all int] obtain d' where
    d': "clear_expired_htlcs fc_ref htlc_db = Inr d'"
      "\<And>i h. store_find (htlcs d') i = Some h \<longleftrightarrow>
         store_find (htlcs htlc_db) i = Some h \<and> head_block_time htlc_db < htlc_expiration h"
      "amount (get_balance d' 7 0) = 60"
    using htlc_db_facts(6) sum by auto
  have "store_find (htlcs d') 1 = None"
    using d'(2)[of 1] htlc_db_facts(5) now by (cases "store_find (htlcs d') 1") (auto simp: sample_htlc_def)
  then show ?thesis using d' htlc_db_facts(4) now by (auto simp: sample_htlc_def)
qed

text \<open>
  A contract is redeemed only with a preimage whose digest, by the algorithm of the lock, is the
  hash of the lock, and of the agreed size when one was agreed. The receiver gets exactly the
  amount, the redeemer pays the fee, and the contract is gone, so it can neither be redeemed nor
  refunded again; the other contracts are untouched.
\<close>

theorem htlc_redeem_requires_preimage:
  assumes "fc_safe fc" "store_wf (htlcs d)" "run_htlc_redeem fc req op d = Inr d'"
    and "store_find (htlcs d) (hr_htlc_id op) = Some h"
  shows "preimage_matches fc (hr_preimage op) (htlc_preimage_hash h) \<and>
    (0 < htlc_preimage_size h \<longrightarrow> length (hr_preimage op) = htlc_preimage_size h) \<and>
    (\<forall>i. store_find (htlcs d') i = (if i = hr_htlc_id op then None else store_find (htlcs d) i)) \<and>
    (\<forall>owner a. amount (get_balance d' owner a) = amount (get_balance d owner a)
      + (if owner = htlc_to h \<and> a = htlc_asset_id h then htlc_amount h else 0)
      - (if owner = hr_redeemer op \<and> a = asset_id (hr_fee op) then amount (hr_fee op) else 0))"
  by (rule fc_safe.htlc_redeem_run[OF assms])

definition sample_redeem :: htlc_redeem_operation where
  "sample_redeem = \<lparr>hr_fee = ASSET 3 0, hr_htlc_id = 0, hr_redeemer = 7, hr_preimage = [104, 105]\<rparr>"

theorem htlc_redeem_requires_preimage_witness:
  "\<exists>d'. run_htlc_redeem fc_ref (Some 3) sample_redeem htlc_db = Inr d' \<and>
    store_find (htlcs d') 0 = None \<and> amount (get_balance d' 8 0) = 10 \<and> amount (get_balance d' 7 0) = 47"
proof -
  have "\<not> isl (run_htlc_redeem fc_ref (Some 3) sample_redeem htlc_db)"
    by (simp add: run_htlc_redeem_def sample_redeem_def htlc_redeem_do_evaluate_def htlc_redeem_do_apply_def
        check_htlc_redeem_hf_bsip64_def htlc_db_def sample_htlc_def run_eval sample_defs fc_ref_simps cong: eval_congs)
  then obtain d' where run: "run_htlc_redeem fc_ref (Some 3) sample_redeem htlc_db = Inr d'"
    by (cases "run_htlc_redeem fc_ref (Some 3) sample_redeem htlc_db") auto
  have h: "store_find (htlcs htlc_db) (hr_htlc_id sample_redeem) = Some (sample_htlc 1800000000)"
    using htlc_db_facts(4) by (simp add: sample_redeem_def)
  from htlc_redeem_requires_preimage[OF fc_ref.fc_safe_axioms htlc_db_facts(2) run h] run htlc_db_facts(6,7)
  show ?thesis by (simp add: sample_redeem_def sample_htlc_def)
qed

text \<open>
  Creating a contract takes exactly the amount and the fee from the sender and records a new
  contract under a fresh id that expires after the claim period, which is within the limit of
  the committee; all other contracts and balances stay as they were.
\<close>

theorem htlc_create_locks_amount:
  assumes "fc_safe fc" "store_wf (htlcs d)" "run_htlc_create fc req op d = Inr d'"
    and "head_block_time d + hc_claim_period_seconds op < 2 ^ 32"
  shows "(\<forall>i. store_find (htlcs d') i =
      (if i = next_id (htlcs d)
       then Some \<lparr>htlc_from = hc_from op, htlc_to = hc_to op, htlc_amount = amount (hc_amount op),
              htlc_asset_id = asset_id (hc_amount op), htlc_preimage_hash = hc_preimage_hash op,
              htlc_preimage_size = hc_preimage_size op,
              htlc_expiration = head_block_time d + hc_claim_period_seconds op\<rparr>
       else store_find (htlcs d) i)) \<and>
    (\<forall>owner a. amount (get_balance d' owner a) = amount (get_balance d owner a)
      - (if owner = hc_from op \<and> a = asset_id (hc_amount op) then amount (hc_amount op) else 0)
      - (if owner = hc_from op \<and> a = asset_id (hc_fee op) then amount (hc_fee op) else 0)) \<and>
    (\<exists>opts. updatable_htlc_options (parameters d) = Some opts \<and> hc_claim_period_seconds op \<le> max_timeout_secs opts)"
  by (rule fc_safe.htlc_create_run[OF assms])

definition sample_htlc_create :: htlc_create_operation where
  "sample_htlc_create = \<lparr>hc_fee = ASSET 3 0, hc_from = 7, hc_to = 8, hc_amount = ASSET 20 0,
     hc_preimage_hash = Algo_sha1 [2, 1], hc_preimage_size = 1, hc_claim_period_seconds = 600, hc_has_memo = False\<rparr>"

theorem htlc_create_locks_amount_witness:
  "\<exists>d' h. run_htlc_create fc_ref (Some 3) sample_htlc_create htlc_db = Inr d' \<and>
    store_find (htlcs d') 2 = Some h \<and> htlc_expiration h = 1700000600 \<and> amount (get_balance d' 7 0) = 27"
proof -
  have "\<not> isl (run_htlc_create fc_ref (Some 3) sample_htlc_create htlc_db)"
    by (simp add: run_htlc_create_def sample_htlc_create_def htlc_create_do_evaluate_def htlc_create_do_apply_def
        check_htlc_create_hf_bsip64_def is_transfer_restricted_def new_htlc_object_def htlc_db_def sample_htlc_def
        run_eval sample_defs fc_ref_simps cong: eval_congs)
  then obtain d' where run: "run_htlc_create fc_ref (Some 3) sample_htlc_create htlc_db = Inr d'"
    by (cases "run_htlc_create fc_ref (Some 3) sample_htlc_create htlc_db") auto
  have t: "head_block_time htlc_db + hc_claim_period_seconds sample_htlc_create < 2 ^ 32"
    "head_block_time htlc_db = 1700000000" "next_id (htlcs htlc_db) = 2"
    by (simp_all add: htlc_db_def sample_defs sample_htlc_create_def)
  from htlc_create_locks_amount[OF fc_ref.fc_safe_axioms htlc_db_facts(2) run t(1)] run htlc_db_facts(6) t(2,3)
  show ?thesis by (auto simp: sample_htlc_create_def)
qed

text \<open>
  Only the sender of a contract extends it; the new expiration is the old one plus the
  seconds, without wrap-around, and not later than the committee's limit from now.
\<close>

theorem htlc_extend_bounded:
  assumes "fc_safe fc" "run_htlc_extend fc req op d = Inr d'" "store_find (htlcs d) (he_htlc_id op) = Some h"
    and "\<And>opts. updatable_htlc_options (parameters d) = Some opts \<Longrightarrow> head_block_time d + max_timeout_secs opts < 2 ^ 32"
  shows "he_update_issuer op = htlc_from h \<and>
    store_find (htlcs d') (he_htlc_id op) = Some (h\<lparr>htlc_expiration := htlc_expiration h + he_seconds_to_add op\<rparr>) \<and>
    (\<exists>opts. updatable_htlc_options (parameters d) = Some opts \<and>
      htlc_expiration h + he_seconds_to_add op \<le> head_block_time d + max_timeout_secs opts)"
  by (rule fc_safe.htlc_extend_run[OF assms])

definition sample_extend :: htlc_extend_operation where
  "sample_extend = \<lparr>he_fee = ASSET 3 0, he_htlc_id = 1, he_update_issuer = 7, he_seconds_to_add = 100000500\<rparr>"

theorem htlc_extend_bounded_witness:
  "\<exists>d' h. run_htlc_extend fc_ref (Some 3) sample_extend htlc_db = Inr d' \<and>
    store_find (htlcs d') 1 = Some h \<and> htlc_expiration h = 1700000500"
proof -
  have "\<not> isl (run_htlc_extend fc_ref (Some 3) sample_extend htlc_db)"
    by (simp add: run_htlc_extend_def sample_extend_def htlc_extend_do_evaluate_def htlc_extend_do_apply_def
        tps_maximum_def htlc_db_def sample_htlc_def run_eval sample_defs fc_ref_simps cong: eval_congs)
  then obtain d' where run: "run_htlc_extend fc_ref (Some 3) sample_extend htlc_db = Inr d'"
    by (cases "run_htlc_extend fc_ref (Some 3) sample_extend htlc_db") auto
  have h: "store_find (htlcs htlc_db) (he_htlc_id sample_extend) = Some (sample_htlc 1600000000)"
    "\<And>opts. updatable_htlc_options (parameters htlc_db) = Some opts \<Longrightarrow>
       head_block_time htlc_db + max_timeout_secs opts < 2 ^ 32"
    using htlc_db_facts(5) by (auto simp: sample_extend_def htlc_db_def sample_defs)
  from htlc_extend_bounded[OF fc_ref.fc_safe_axioms run h] run show ?thesis
    by (auto simp: sample_extend_def sample_htlc_def)
qed

end
