(* ===== verification/Credit_Offer.thy ===== *)
theory Credit_Offer
  imports Samet_Fund
begin

text \<open>
  Credit offers and credit deals: \<open>libraries/protocol/credit_offer.cpp\<close> (validation),
  \<open>libraries/chain/credit_offer_evaluator.cpp\<close> and \<open>database::update_credit_offers_and_deals\<close> of
  \<open>libraries/chain/db_update.cpp\<close>. An offer is a fund others borrow from against collateral; a deal is
  one such loan; a summary keeps how much a borrower owes to an offer in total. The pointers an
  evaluator keeps between \<open>do_evaluate\<close> and \<open>do_apply\<close> are looked up again by id or key. The ordered
  maps of an offer are association lists, and a difference of times is taken in seconds.
\<close>

definition GRAPHENE_MAX_CREDIT_OFFER_DAYS :: int where "GRAPHENE_MAX_CREDIT_OFFER_DAYS = 380"
definition GRAPHENE_MAX_CREDIT_DEAL_DAYS :: int where "GRAPHENE_MAX_CREDIT_DEAL_DAYS = 380"
definition GRAPHENE_MAX_CREDIT_DEAL_SECS :: int where
  "GRAPHENE_MAX_CREDIT_DEAL_SECS = GRAPHENE_MAX_CREDIT_DEAL_DAYS * 86400"

text \<open>\<open>fc::days\<close>, in seconds.\<close>

definition fc_days :: "int \<Rightarrow> int" where "fc_days n = n * 86400"

text \<open>\<open>credit_deal_auto_repayment_type\<close>, stored as a byte.\<close>

definition no_auto_repayment :: nat where "no_auto_repayment = 0"
definition only_full_repayment :: nat where "only_full_repayment = 1"
definition CDAR_TYPE_COUNT :: nat where "CDAR_TYPE_COUNT = 3"

section \<open>Operations\<close>

record credit_offer_create_operation =
  coc_fee :: asset
  coc_owner_account :: account_id_type
  coc_asset_type :: asset_id_type
  coc_balance :: share_type
  coc_fee_rate :: nat
  coc_max_duration_seconds :: nat
  coc_min_deal_amount :: share_type
  coc_enabled :: bool
  coc_auto_disable_time :: time_point_sec
  coc_acceptable_collateral :: "(asset_id_type \<times> price) list"
  coc_acceptable_borrowers :: "(account_id_type \<times> share_type) list"

record credit_offer_delete_operation =
  cod_fee :: asset
  cod_owner_account :: account_id_type
  cod_offer_id :: nat

record credit_offer_update_operation =
  cou_fee :: asset
  cou_owner_account :: account_id_type
  cou_offer_id :: nat
  cou_delta_amount :: "asset option"
  cou_fee_rate :: "nat option"
  cou_max_duration_seconds :: "nat option"
  cou_min_deal_amount :: "share_type option"
  cou_enabled :: "bool option"
  cou_auto_disable_time :: "time_point_sec option"
  cou_acceptable_collateral :: "(asset_id_type \<times> price) list option"
  cou_acceptable_borrowers :: "(account_id_type \<times> share_type) list option"

record credit_offer_accept_operation =
  coa_fee :: asset
  coa_borrower :: account_id_type
  coa_offer_id :: nat
  coa_borrow_amount :: asset
  coa_collateral :: asset
  coa_max_fee_rate :: nat
  coa_min_duration_seconds :: nat
  coa_auto_repay :: "nat option"

record credit_deal_repay_operation =
  cdr_fee :: asset
  cdr_account :: account_id_type
  cdr_deal_id :: nat
  cdr_repay_amount :: asset
  cdr_credit_fee :: asset

record credit_deal_update_operation =
  cdu_fee :: asset
  cdu_account :: account_id_type
  cdu_deal_id :: nat
  cdu_auto_repay :: nat

section \<open>Validation\<close>

definition validate_acceptable_collateral ::
    "(asset_id_type \<times> price) list \<Rightarrow> asset_id_type option \<Rightarrow> unit result" where
  "validate_acceptable_collateral acceptable_collateral p_asset_type =
    (case acceptable_collateral of
       [] \<Rightarrow> Inl Assert_exception
     | first # _ \<Rightarrow>
         let asset_type = (case p_asset_type of Some a \<Rightarrow> a | None \<Rightarrow> asset_id (base (snd first))) in
         fold_res (\<lambda>(collateral_asset_type, collateral_price) _.
             FC_ASSERT (asset_id (base collateral_price) = asset_type)
            (FC_ASSERT (asset_id (quote collateral_price) = collateral_asset_type)
            (price_validate True collateral_price)))
           acceptable_collateral ())"

definition validate_acceptable_borrowers :: "(account_id_type \<times> share_type) list \<Rightarrow> unit result" where
  "validate_acceptable_borrowers acceptable_borrowers =
     fold_res (\<lambda>(_, max_borrow_amount) _.
         FC_ASSERT (0 \<le> max_borrow_amount)
        (FC_ASSERT (max_borrow_amount \<le> GRAPHENE_MAX_SHARE_SUPPLY)
        (Inr ())))
       acceptable_borrowers ()"

definition credit_offer_create_validate :: "credit_offer_create_operation \<Rightarrow> unit result" where
  "credit_offer_create_validate op =
     FC_ASSERT (0 \<le> amount (coc_fee op))
    (FC_ASSERT (0 < coc_balance op)
    (FC_ASSERT (int (coc_max_duration_seconds op) \<le> GRAPHENE_MAX_CREDIT_DEAL_SECS)
    (FC_ASSERT (0 \<le> coc_min_deal_amount op)
    (FC_ASSERT (coc_min_deal_amount op \<le> GRAPHENE_MAX_SHARE_SUPPLY)
    (bnd (validate_acceptable_collateral (coc_acceptable_collateral op) (Some (coc_asset_type op))) (\<lambda>_.
     validate_acceptable_borrowers (coc_acceptable_borrowers op)))))))"

definition credit_offer_delete_validate :: "credit_offer_delete_operation \<Rightarrow> unit result" where
  "credit_offer_delete_validate op = FC_ASSERT (0 \<le> amount (cod_fee op)) (Inr ())"

text \<open>\<open>if( x.valid() ) ...\<close> for an optional field with checks.\<close>

definition if_valid :: "'a option \<Rightarrow> ('a \<Rightarrow> unit result) \<Rightarrow> unit result" where
  "if_valid x f = (case x of None \<Rightarrow> Inr () | Some v \<Rightarrow> f v)"

definition credit_offer_update_validate :: "credit_offer_update_operation \<Rightarrow> unit result" where
  "credit_offer_update_validate op =
     FC_ASSERT (0 \<le> amount (cou_fee op))
    (bnd (if_valid (cou_delta_amount op) (\<lambda>delta. FC_ASSERT (amount delta \<noteq> 0) (Inr ()))) (\<lambda>_.
     bnd (if_valid (cou_max_duration_seconds op) (\<lambda>s.
            FC_ASSERT (int s \<le> GRAPHENE_MAX_CREDIT_DEAL_SECS) (Inr ()))) (\<lambda>_.
     bnd (if_valid (cou_min_deal_amount op) (\<lambda>m.
            FC_ASSERT (0 \<le> m) (FC_ASSERT (m \<le> GRAPHENE_MAX_SHARE_SUPPLY) (Inr ())))) (\<lambda>_.
     bnd (if_valid (cou_acceptable_collateral op) (\<lambda>c. validate_acceptable_collateral c None)) (\<lambda>_.
     bnd (if_valid (cou_acceptable_borrowers op) validate_acceptable_borrowers) (\<lambda>_.
     FC_ASSERT (cou_delta_amount op \<noteq> None \<or> cou_fee_rate op \<noteq> None \<or> cou_max_duration_seconds op \<noteq> None \<or>
                cou_min_deal_amount op \<noteq> None \<or> cou_enabled op \<noteq> None \<or> cou_auto_disable_time op \<noteq> None \<or>
                cou_acceptable_collateral op \<noteq> None \<or> cou_acceptable_borrowers op \<noteq> None)
    (Inr ())))))))"

definition credit_offer_accept_validate :: "credit_offer_accept_operation \<Rightarrow> unit result" where
  "credit_offer_accept_validate op =
     FC_ASSERT (0 \<le> amount (coa_fee op))
    (FC_ASSERT (0 < amount (coa_borrow_amount op))
    (FC_ASSERT (0 < amount (coa_collateral op))
    (if_valid (coa_auto_repay op) (\<lambda>r. FC_ASSERT (r < CDAR_TYPE_COUNT) (Inr ())))))"

definition credit_deal_repay_validate :: "credit_deal_repay_operation \<Rightarrow> unit result" where
  "credit_deal_repay_validate op =
     FC_ASSERT (0 \<le> amount (cdr_fee op))
    (FC_ASSERT (0 < amount (cdr_repay_amount op))
    (FC_ASSERT (0 \<le> amount (cdr_credit_fee op))
    (FC_ASSERT (asset_id (cdr_repay_amount op) = asset_id (cdr_credit_fee op))
    (Inr ()))))"

definition credit_deal_update_validate :: "credit_deal_update_operation \<Rightarrow> unit result" where
  "credit_deal_update_validate op =
     FC_ASSERT (0 \<le> amount (cdu_fee op))
    (FC_ASSERT (cdu_auto_repay op < CDAR_TYPE_COUNT)
    (Inr ()))"

section \<open>Creating, deleting and updating an offer\<close>

text \<open>The loops that make sure that all assets, or all accounts, of a list exist.\<close>

definition all_exist :: "'v store \<Rightarrow> nat list \<Rightarrow> unit result" where
  "all_exist st ids = fold_res (\<lambda>i _. bnd (store_get st i) (\<lambda>_. Inr ())) ids ()"

definition check_auto_disable_time :: "fc_lib \<Rightarrow> time_point_sec \<Rightarrow> time_point_sec \<Rightarrow> unit result" where
  "check_auto_disable_time fc auto_disable_time block_time =
     FC_ASSERT (block_time < auto_disable_time)
    (FC_ASSERT (tps_diff fc auto_disable_time block_time \<le> fc_days GRAPHENE_MAX_CREDIT_OFFER_DAYS)
    (Inr ()))"

definition credit_offer_create_do_evaluate ::
    "fc_lib \<Rightarrow> credit_offer_create_operation \<Rightarrow> fee_state \<Rightarrow> database \<Rightarrow> unit result" where
  "credit_offer_create_do_evaluate fc op fs d =
     FC_ASSERT (HARDFORK_CORE_2362_TIME \<le> head_block_time d)
    (bnd (if coc_enabled op then check_auto_disable_time fc (coc_auto_disable_time op) (head_block_time d)
          else Inr ()) (\<lambda>_.
     bnd (all_exist (assets d) (map fst (coc_acceptable_collateral op))) (\<lambda>_.
     bnd (all_exist (accounts d) (map fst (coc_acceptable_borrowers op))) (\<lambda>_.
     bnd (authorized d (fee_paying_account fs) (coc_asset_type op)) (\<lambda>ok.
     FC_ASSERT ok
    (Inr ()))))))"

definition new_credit_offer_object :: "credit_offer_create_operation \<Rightarrow> credit_offer_object" where
  "new_credit_offer_object op =
     \<lparr>coo_owner_account = coc_owner_account op, coo_asset_type = coc_asset_type op,
      coo_total_balance = coc_balance op, coo_current_balance = coc_balance op,
      coo_fee_rate = coc_fee_rate op, coo_max_duration_seconds = coc_max_duration_seconds op,
      coo_min_deal_amount = coc_min_deal_amount op, coo_enabled = coc_enabled op,
      coo_auto_disable_time = coc_auto_disable_time op,
      coo_acceptable_collateral = coc_acceptable_collateral op,
      coo_acceptable_borrowers = coc_acceptable_borrowers op\<rparr>"

definition credit_offer_create_do_apply ::
    "fc_lib \<Rightarrow> credit_offer_create_operation \<Rightarrow> unit \<Rightarrow> fee_state \<Rightarrow> database \<Rightarrow> database result" where
  "credit_offer_create_do_apply fc op ev fs d =
     bnd (debit fc (coc_owner_account op) (ASSET (coc_balance op) (coc_asset_type op)) d) (\<lambda>d.
     Inr (d\<lparr>credit_offers := store_add (credit_offers d) (new_credit_offer_object op)\<rparr>))"

definition credit_offer_delete_do_evaluate ::
    "credit_offer_delete_operation \<Rightarrow> fee_state \<Rightarrow> database \<Rightarrow> unit result" where
  "credit_offer_delete_do_evaluate op fs d =
     bnd (store_get (credit_offers d) (cod_offer_id op)) (\<lambda>offer.
     FC_ASSERT (coo_owner_account offer = cod_owner_account op)
    (FC_ASSERT (coo_total_balance offer = coo_current_balance offer)
    (Inr ())))"

definition credit_offer_delete_do_apply ::
    "fc_lib \<Rightarrow> credit_offer_delete_operation \<Rightarrow> unit \<Rightarrow> fee_state \<Rightarrow> database \<Rightarrow> database result" where
  "credit_offer_delete_do_apply fc op ev fs d =
     bnd (store_get (credit_offers d) (cod_offer_id op)) (\<lambda>offer.
     bnd (if coo_current_balance offer \<noteq> 0
          then adjust_balance fc (cod_owner_account op) (ASSET (coo_current_balance offer) (coo_asset_type offer)) d
          else Inr d) (\<lambda>d.
     Inr (d\<lparr>credit_offers := store_del (credit_offers d) (cod_offer_id op)\<rparr>)))"

definition credit_offer_update_do_evaluate ::
    "fc_lib \<Rightarrow> credit_offer_update_operation \<Rightarrow> fee_state \<Rightarrow> database \<Rightarrow> unit result" where
  "credit_offer_update_do_evaluate fc op fs d =
     bnd (store_get (credit_offers d) (cou_offer_id op)) (\<lambda>offer.
     FC_ASSERT (coo_owner_account offer = cou_owner_account op)
    (bnd (if_valid (cou_delta_amount op) (\<lambda>delta.
            FC_ASSERT (coo_asset_type offer = asset_id delta)
           (if 0 < amount delta then
              bnd (authorized d (fee_paying_account fs) (coo_asset_type offer)) (\<lambda>ok. FC_ASSERT ok (Inr ()))
            else
              bnd (safe_neg fc (amount delta)) (\<lambda>neg.
              FC_ASSERT (neg < coo_total_balance offer)
             (FC_ASSERT (neg \<le> coo_current_balance offer)
             (Inr ())))))) (\<lambda>_.
     bnd (let enabled = (case cou_enabled op of Some e \<Rightarrow> e | None \<Rightarrow> coo_enabled offer) in
          if enabled then
            check_auto_disable_time fc
              (case cou_auto_disable_time op of Some t \<Rightarrow> t | None \<Rightarrow> coo_auto_disable_time offer) (head_block_time d)
          else Inr ()) (\<lambda>_.
     bnd (if_valid (cou_acceptable_collateral op) (\<lambda>cs.
            fold_res (\<lambda>(c, p) _. bnd (store_get (assets d) c) (\<lambda>_.
              FC_ASSERT (coo_asset_type offer = asset_id (base p)) (Inr ()))) cs ())) (\<lambda>_.
     if_valid (cou_acceptable_borrowers op) (\<lambda>bs. all_exist (accounts d) (map fst bs)))))))"

text \<open>An optional field of the operation replaces the field of the object when it is present.\<close>

definition set_if :: "'a option \<Rightarrow> 'a \<Rightarrow> 'a" where
  "set_if x old = (case x of None \<Rightarrow> old | Some new \<Rightarrow> new)"

definition credit_offer_updated ::
    "fc_lib \<Rightarrow> credit_offer_update_operation \<Rightarrow> credit_offer_object \<Rightarrow> credit_offer_object result" where
  "credit_offer_updated fc op coo =
     bnd (case cou_delta_amount op of
            None \<Rightarrow> Inr coo
          | Some delta \<Rightarrow>
              bnd (safe_add fc (coo_total_balance coo) (amount delta)) (\<lambda>t.
              bnd (safe_add fc (coo_current_balance coo) (amount delta)) (\<lambda>c.
              Inr (coo\<lparr>coo_total_balance := t, coo_current_balance := c\<rparr>)))) (\<lambda>coo.
     Inr (coo\<lparr>coo_fee_rate := set_if (cou_fee_rate op) (coo_fee_rate coo),
              coo_max_duration_seconds := set_if (cou_max_duration_seconds op) (coo_max_duration_seconds coo),
              coo_min_deal_amount := set_if (cou_min_deal_amount op) (coo_min_deal_amount coo),
              coo_enabled := set_if (cou_enabled op) (coo_enabled coo),
              coo_auto_disable_time := set_if (cou_auto_disable_time op) (coo_auto_disable_time coo),
              coo_acceptable_collateral := set_if (cou_acceptable_collateral op) (coo_acceptable_collateral coo),
              coo_acceptable_borrowers := set_if (cou_acceptable_borrowers op) (coo_acceptable_borrowers coo)\<rparr>))"

definition credit_offer_update_do_apply ::
    "fc_lib \<Rightarrow> credit_offer_update_operation \<Rightarrow> unit \<Rightarrow> fee_state \<Rightarrow> database \<Rightarrow> database result" where
  "credit_offer_update_do_apply fc op ev fs d =
     bnd (case cou_delta_amount op of None \<Rightarrow> Inr d | Some delta \<Rightarrow> debit fc (cou_owner_account op) delta d) (\<lambda>d.
     bnd (store_get (credit_offers d) (cou_offer_id op)) (\<lambda>offer.
     bnd (credit_offer_updated fc op offer) (\<lambda>offer'.
     FC_ASSERT (0 < coo_total_balance offer')
    (FC_ASSERT (0 \<le> coo_current_balance offer')
    (FC_ASSERT (coo_current_balance offer' \<le> coo_total_balance offer')
    (bnd (if coo_enabled offer' then check_auto_disable_time fc (coo_auto_disable_time offer') (head_block_time d)
          else Inr ()) (\<lambda>_.
     Inr (d\<lparr>credit_offers := store_put (credit_offers d) (cou_offer_id op) offer'\<rparr>))))))))"

section \<open>Accepting an offer\<close>

definition summary_key :: "nat \<Rightarrow> account_id_type \<Rightarrow> credit_deal_summary_object \<Rightarrow> bool" where
  "summary_key offer borrower s \<longleftrightarrow> cso_offer_id s = offer \<and> cso_borrower s = borrower"

text \<open>\<open>do_evaluate\<close> returns whether the borrower already has a summary with the offer
  (\<open>_deal_summary\<close> is set).\<close>

definition credit_offer_accept_do_evaluate ::
    "fc_lib \<Rightarrow> credit_offer_accept_operation \<Rightarrow> fee_state \<Rightarrow> database \<Rightarrow> bool result" where
  "credit_offer_accept_do_evaluate fc op fs d =
     FC_ASSERT (HARDFORK_CORE_2595_TIME \<le> head_block_time d \<or> coa_auto_repay op = None)
    (bnd (store_get (credit_offers d) (coa_offer_id op)) (\<lambda>offer.
     FC_ASSERT (coo_enabled offer)
    (FC_ASSERT (coo_asset_type offer = asset_id (coa_borrow_amount op))
    (FC_ASSERT (amount (coa_borrow_amount op) \<le> coo_current_balance offer)
    (FC_ASSERT (coo_min_deal_amount offer \<le> amount (coa_borrow_amount op))
    (FC_ASSERT (coo_fee_rate offer \<le> coa_max_fee_rate op)
    (FC_ASSERT (coa_min_duration_seconds op \<le> coo_max_duration_seconds offer)
    (case map_of (coo_acceptable_collateral offer) (asset_id (coa_collateral op)) of
       None \<Rightarrow> Inl Assert_exception
     | Some coll_price \<Rightarrow>
         bnd (store_get (assets d) (coo_asset_type offer)) (\<lambda>_.
         bnd (store_get (assets d) (asset_id (coa_collateral op))) (\<lambda>_.
         bnd (authorized d (fee_paying_account fs) (coo_asset_type offer)) (\<lambda>ok1. FC_ASSERT ok1
        (bnd (authorized d (fee_paying_account fs) (asset_id (coa_collateral op))) (\<lambda>ok2. FC_ASSERT ok2
        (bnd (authorized d (coo_owner_account offer) (coo_asset_type offer)) (\<lambda>ok3. FC_ASSERT ok3
        (bnd (authorized d (coo_owner_account offer) (asset_id (coa_collateral op))) (\<lambda>ok4. FC_ASSERT ok4
        (bnd (multiply_and_round_up (coa_borrow_amount op) coll_price) (\<lambda>required_collateral.
         FC_ASSERT (amount required_collateral \<le> amount (coa_collateral op))
        (bnd (if coo_acceptable_borrowers offer = [] then Inr None
              else (case map_of (coo_acceptable_borrowers offer) (coa_borrower op) of
                      None \<Rightarrow> Inl Assert_exception
                    | Some m \<Rightarrow> Inr (Some m))) (\<lambda>max_allowed.
         let summ = store_search (summary_key (coa_offer_id op) (coa_borrower op)) (credit_deal_summaries d);
             already_borrowed = (case summ of None \<Rightarrow> 0 | Some s \<Rightarrow> cso_total_debt_amount s) in
         bnd (if_valid max_allowed (\<lambda>m.
                bnd (safe_add fc already_borrowed (amount (coa_borrow_amount op))) (\<lambda>t.
                FC_ASSERT (t \<le> m) (Inr ())))) (\<lambda>_.
         Inr (summ \<noteq> None)))))))))))))))))))))))"

definition credit_repay_time :: "fc_lib \<Rightarrow> time_point_sec \<Rightarrow> nat \<Rightarrow> time_point_sec" where
  "credit_repay_time fc block_time duration =
     (if int duration \<le> tps_diff fc tps_maximum block_time then tps_add fc block_time duration else tps_maximum)"

definition new_credit_deal_object ::
    "credit_offer_accept_operation \<Rightarrow> credit_offer_object \<Rightarrow> time_point_sec \<Rightarrow> credit_deal_object" where
  "new_credit_deal_object op offer repay_time =
     \<lparr>cdo_borrower = coa_borrower op, cdo_offer_id = coa_offer_id op, cdo_offer_owner = coo_owner_account offer,
      cdo_debt_asset = coo_asset_type offer, cdo_debt_amount = amount (coa_borrow_amount op),
      cdo_collateral_asset = asset_id (coa_collateral op), cdo_collateral_amount = amount (coa_collateral op),
      cdo_fee_rate = coo_fee_rate offer, cdo_latest_repay_time = repay_time,
      cdo_auto_repay = set_if (coa_auto_repay op) no_auto_repayment\<rparr>"

definition summary_borrow ::
    "fc_lib \<Rightarrow> credit_offer_accept_operation \<Rightarrow> credit_offer_object \<Rightarrow> bool \<Rightarrow> database \<Rightarrow> database result" where
  "summary_borrow fc op offer has_summary d =
    (if has_summary then
       (case store_search (summary_key (coa_offer_id op) (coa_borrower op)) (credit_deal_summaries d) of
          None \<Rightarrow> Inl Fc_exception
        | Some s \<Rightarrow>
            bnd (safe_add fc (cso_total_debt_amount s) (amount (coa_borrow_amount op))) (\<lambda>t.
            Inr (d\<lparr>credit_deal_summaries := store_put_by (summary_key (coa_offer_id op) (coa_borrower op))
                     (credit_deal_summaries d) (s\<lparr>cso_total_debt_amount := t\<rparr>)\<rparr>)))
     else
       Inr (d\<lparr>credit_deal_summaries := store_add (credit_deal_summaries d)
          \<lparr>cso_borrower = coa_borrower op, cso_offer_id = coa_offer_id op,
           cso_offer_owner = coo_owner_account offer, cso_debt_asset = coo_asset_type offer,
           cso_total_debt_amount = amount (coa_borrow_amount op)\<rparr>\<rparr>))"

definition credit_offer_accept_do_apply ::
    "fc_lib \<Rightarrow> credit_offer_accept_operation \<Rightarrow> bool \<Rightarrow> fee_state \<Rightarrow> database \<Rightarrow> database result" where
  "credit_offer_accept_do_apply fc op has_summary fs d =
     bnd (debit fc (coa_borrower op) (coa_collateral op) d) (\<lambda>d.
     bnd (adjust_balance fc (coa_borrower op) (coa_borrow_amount op) d) (\<lambda>d.
     bnd (store_get (credit_offers d) (coa_offer_id op)) (\<lambda>offer.
     bnd (safe_sub fc (coo_current_balance offer) (amount (coa_borrow_amount op))) (\<lambda>c.
     let offer' = offer\<lparr>coo_current_balance := c\<rparr>;
         d = d\<lparr>credit_offers := store_put (credit_offers d) (coa_offer_id op) offer'\<rparr>;
         repay_time = credit_repay_time fc (head_block_time d) (coo_max_duration_seconds offer');
         d = d\<lparr>credit_deals := store_add (credit_deals d) (new_credit_deal_object op offer' repay_time)\<rparr> in
     bnd (summary_borrow fc op offer' has_summary d) (\<lambda>d.
     FC_ASSERT (0 < coo_total_balance offer')
    (FC_ASSERT (0 \<le> coo_current_balance offer')
    (FC_ASSERT (coo_current_balance offer' \<le> coo_total_balance offer')
    (FC_ASSERT (head_block_time d < repay_time)
    (FC_ASSERT (tps_diff fc repay_time (head_block_time d) \<le> fc_days GRAPHENE_MAX_CREDIT_DEAL_DAYS)
    (Inr d))))))))))"

section \<open>Repaying and updating a deal\<close>

definition credit_deal_repay_do_evaluate ::
    "credit_deal_repay_operation \<Rightarrow> fee_state \<Rightarrow> database \<Rightarrow> unit result" where
  "credit_deal_repay_do_evaluate op fs d =
     bnd (store_get (credit_deals d) (cdr_deal_id op)) (\<lambda>deal.
     FC_ASSERT (cdo_borrower deal = cdr_account op)
    (FC_ASSERT (cdo_debt_asset deal = asset_id (cdr_repay_amount op))
    (FC_ASSERT (amount (cdr_repay_amount op) \<le> cdo_debt_amount deal)
    (FC_ASSERT (required_fund_fee (amount (cdr_repay_amount op)) (cdo_fee_rate deal)
                  \<le> u128 (amount (cdr_credit_fee op)))
    (bnd (authorized d (fee_paying_account fs) (cdo_debt_asset deal)) (\<lambda>ok1. FC_ASSERT ok1
    (bnd (authorized d (cdo_offer_owner deal) (cdo_debt_asset deal)) (\<lambda>ok2. FC_ASSERT ok2
    (Inr ())))))))))"

text \<open>Lowering the total of a summary, which is removed when nothing is owed any more.\<close>

definition summary_repay ::
    "fc_lib \<Rightarrow> nat \<Rightarrow> account_id_type \<Rightarrow> share_type \<Rightarrow> credit_deal_summary_object \<Rightarrow> database \<Rightarrow> database result" where
  "summary_repay fc offer borrower amt s d =
    (if cso_total_debt_amount s = amt
     then Inr (d\<lparr>credit_deal_summaries := store_del_by (summary_key offer borrower) (credit_deal_summaries d)\<rparr>)
     else
       bnd (safe_sub fc (cso_total_debt_amount s) amt) (\<lambda>t.
       Inr (d\<lparr>credit_deal_summaries := store_put_by (summary_key offer borrower) (credit_deal_summaries d)
                (s\<lparr>cso_total_debt_amount := t\<rparr>)\<rparr>)))"

text \<open>The last part of \<open>do_apply\<close>: the deal is removed or reduced, and the collateral that is released
  is returned with the database.\<close>

definition deal_repay ::
    "fc_lib \<Rightarrow> nat \<Rightarrow> share_type \<Rightarrow> credit_deal_object \<Rightarrow> database \<Rightarrow> (share_type \<times> database) result" where
  "deal_repay fc deal_id amt deal d =
    (if cdo_debt_amount deal = amt
     then Inr (cdo_collateral_amount deal, d\<lparr>credit_deals := store_del (credit_deals d) deal_id\<rparr>)
     else
       let amount_to_release = u128_mul (u128 amt) (u128 (cdo_collateral_amount deal)) div u128 (cdo_debt_amount deal) in
       FC_ASSERT (amount_to_release < u128 (cdo_collateral_amount deal))
      (let released = to_int64 amount_to_release in
       bnd (safe_sub fc (cdo_debt_amount deal) amt) (\<lambda>x.
       bnd (safe_sub fc (cdo_collateral_amount deal) released) (\<lambda>y.
       Inr (released, d\<lparr>credit_deals := store_put (credit_deals d) deal_id
              (deal\<lparr>cdo_debt_amount := x, cdo_collateral_amount := y\<rparr>)\<rparr>)))))"

definition credit_deal_repay_do_apply ::
    "fc_lib \<Rightarrow> credit_deal_repay_operation \<Rightarrow> unit \<Rightarrow> fee_state \<Rightarrow> database \<Rightarrow> database result" where
  "credit_deal_repay_do_apply fc op ev fs d =
     bnd (safe_add fc (amount (cdr_repay_amount op)) (amount (cdr_credit_fee op))) (\<lambda>total_amount.
     bnd (safe_neg fc total_amount) (\<lambda>neg.
     bnd (adjust_balance fc (cdr_account op) (ASSET neg (asset_id (cdr_repay_amount op))) d) (\<lambda>d.
     bnd (store_get (credit_deals d) (cdr_deal_id op)) (\<lambda>deal.
     bnd (store_get (credit_offers d) (cdo_offer_id deal)) (\<lambda>offer.
     bnd (safe_add fc (coo_total_balance offer) (amount (cdr_credit_fee op))) (\<lambda>t.
     bnd (safe_add fc (coo_current_balance offer) total_amount) (\<lambda>c.
     let d = d\<lparr>credit_offers := store_put (credit_offers d) (cdo_offer_id deal)
                 (offer\<lparr>coo_total_balance := t, coo_current_balance := c\<rparr>)\<rparr> in
     FC_ASSERT (c \<le> t)
    (case store_search (summary_key (cdo_offer_id deal) (cdr_account op)) (credit_deal_summaries d) of
       None \<Rightarrow> Inl Assert_exception
     | Some s \<Rightarrow>
         bnd (summary_repay fc (cdo_offer_id deal) (cdr_account op) (amount (cdr_repay_amount op)) s d) (\<lambda>d.
         bnd (deal_repay fc (cdr_deal_id op) (amount (cdr_repay_amount op)) deal d) (\<lambda>(released, d).
         adjust_balance fc (cdr_account op) (ASSET released (cdo_collateral_asset deal)) d))))))))))"

definition credit_deal_update_do_evaluate ::
    "credit_deal_update_operation \<Rightarrow> fee_state \<Rightarrow> database \<Rightarrow> unit result" where
  "credit_deal_update_do_evaluate op fs d =
     FC_ASSERT (HARDFORK_CORE_2595_TIME \<le> head_block_time d)
    (bnd (store_get (credit_deals d) (cdu_deal_id op)) (\<lambda>deal.
     FC_ASSERT (cdo_borrower deal = cdu_account op)
    (FC_ASSERT (cdo_auto_repay deal \<noteq> cdu_auto_repay op)
    (Inr ()))))"

definition credit_deal_update_do_apply ::
    "credit_deal_update_operation \<Rightarrow> unit \<Rightarrow> fee_state \<Rightarrow> database \<Rightarrow> database result" where
  "credit_deal_update_do_apply op ev fs d =
     bnd (store_get (credit_deals d) (cdu_deal_id op)) (\<lambda>deal.
     Inr (d\<lparr>credit_deals := store_put (credit_deals d) (cdu_deal_id op)
              (deal\<lparr>cdo_auto_repay := cdu_auto_repay op\<rparr>)\<rparr>))"

section \<open>The whole operations\<close>

definition run_credit_offer_create ::
    "fc_lib \<Rightarrow> share_type option \<Rightarrow> credit_offer_create_operation \<Rightarrow> database \<Rightarrow> database result" where
  "run_credit_offer_create fc req op d = run_operation fc req (coc_owner_account op) (coc_fee op)
     (credit_offer_create_do_evaluate fc op) (credit_offer_create_do_apply fc op) d"

definition run_credit_offer_delete ::
    "fc_lib \<Rightarrow> share_type option \<Rightarrow> credit_offer_delete_operation \<Rightarrow> database \<Rightarrow> database result" where
  "run_credit_offer_delete fc req op d = run_operation fc req (cod_owner_account op) (cod_fee op)
     (credit_offer_delete_do_evaluate op) (credit_offer_delete_do_apply fc op) d"

definition run_credit_offer_update ::
    "fc_lib \<Rightarrow> share_type option \<Rightarrow> credit_offer_update_operation \<Rightarrow> database \<Rightarrow> database result" where
  "run_credit_offer_update fc req op d = run_operation fc req (cou_owner_account op) (cou_fee op)
     (credit_offer_update_do_evaluate fc op) (credit_offer_update_do_apply fc op) d"

definition run_credit_offer_accept ::
    "fc_lib \<Rightarrow> share_type option \<Rightarrow> credit_offer_accept_operation \<Rightarrow> database \<Rightarrow> database result" where
  "run_credit_offer_accept fc req op d = run_operation fc req (coa_borrower op) (coa_fee op)
     (credit_offer_accept_do_evaluate fc op) (credit_offer_accept_do_apply fc op) d"

definition run_credit_deal_repay ::
    "fc_lib \<Rightarrow> share_type option \<Rightarrow> credit_deal_repay_operation \<Rightarrow> database \<Rightarrow> database result" where
  "run_credit_deal_repay fc req op d = run_operation fc req (cdr_account op) (cdr_fee op)
     (credit_deal_repay_do_evaluate op) (credit_deal_repay_do_apply fc op) d"

definition run_credit_deal_update ::
    "fc_lib \<Rightarrow> share_type option \<Rightarrow> credit_deal_update_operation \<Rightarrow> database \<Rightarrow> database result" where
  "run_credit_deal_update fc req op d = run_operation fc req (cdu_account op) (cdu_fee op)
     (credit_deal_update_do_evaluate op) (credit_deal_update_do_apply op) d"

section \<open>The books\<close>

lemma store_all_mono: "store_all P st \<Longrightarrow> (\<And>v. P v \<Longrightarrow> Q v) \<Longrightarrow> store_all Q st"
  by (auto simp: store_all_def list_all_iff)

lemma store_sum_zero: "store_all (\<lambda>v. f v = 0) st \<Longrightarrow> store_sum f st = 0"
proof -
  have "list_all (\<lambda>p. f (snd p) = 0) xs \<Longrightarrow> lsum (\<lambda>p. f (snd p)) xs = 0" for xs
    by (induction xs) auto
  then show "store_all (\<lambda>v. f v = 0) st \<Longrightarrow> store_sum f st = 0" by (simp add: store_all_def store_sum_def)
qed

lemma store_all_zero:
  assumes "store_all (\<lambda>v. 0 \<le> f v) st" "store_sum f st = 0"
  shows "store_all (\<lambda>v. f v = 0) st"
proof -
  have "list_all (\<lambda>p. 0 \<le> f (snd p)) xs \<Longrightarrow> lsum (\<lambda>p. f (snd p)) xs = 0 \<Longrightarrow> list_all (\<lambda>p. f (snd p) = 0) xs" for xs :: "(nat \<times> 'a) list"
  proof (induction xs)
    case (Cons x xs)
    have "0 \<le> lsum (\<lambda>p. f (snd p)) xs" using Cons.prems(1) by (intro lsum_nonneg) (auto simp: list_all_iff)
    with Cons show ?case by auto
  qed simp
  with assms show ?thesis by (simp add: store_all_def store_sum_def)
qed

text \<open>Nothing is owed to an offer that does not exist, and an offer to which nothing is owed has no deals.\<close>

lemma offer_debt_none:
  assumes "credit_books os ds ss" "store_find os k = None"
  shows "offer_debt ds k = 0"
  unfolding offer_debt_def using assms
  by (intro store_sum_zero) (auto simp: credit_books_def deal_linked_def elim!: store_all_mono split: option.splits)

lemma no_debt_no_deals:
  assumes "store_all deal_ok ds" "offer_debt ds k = 0"
  shows "store_all (\<lambda>c. cdo_offer_id c \<noteq> k) ds"
proof -
  have "store_all (\<lambda>c. 0 \<le> (if cdo_offer_id c = k then cdo_debt_amount c else 0)) ds"
    using assms(1) by (rule store_all_mono) (simp add: deal_ok_def)
  from store_all_zero[OF this assms(2)[unfolded offer_debt_def]] assms(1) show ?thesis
    by (force simp: store_all_def list_all_iff deal_ok_def)
qed

lemma books_add_offer:
  assumes "credit_books os ds ss" "coo_total_balance p = coo_current_balance p"
  shows "credit_books (store_add os p) ds ss"
proof -
  have wf: "store_wf os" using assms(1) by (simp add: credit_books_def)
  have "store_find os (next_id os) = None" by (rule store_index.fresh_unused[OF wf]) simp
  then have "offer_debt ds (next_id os) = 0" by (rule offer_debt_none[OF assms(1)])
  moreover have "deal_linked os c \<Longrightarrow> deal_linked (store_add os p) c" for c
    using store_index.create_keeps[OF wf, of "cdo_offer_id c" _ p] by (auto simp: deal_linked_def split: option.splits)
  ultimately show ?thesis using assms wf
    by (auto simp: credit_books_def store_wf_add store_find_add elim: store_all_mono)
qed

lemma books_del_offer:
  assumes "credit_books os ds ss" "store_all deal_ok ds" "store_find os k = Some p"
    "coo_total_balance p = coo_current_balance p"
  shows "credit_books (store_del os k) ds ss"
proof -
  have wf: "store_wf os" using assms(1) by (simp add: credit_books_def)
  have "offer_debt ds k = 0" using assms by (force simp: credit_books_def)
  from no_debt_no_deals[OF assms(2) this] assms(1)
  have "store_all (deal_linked (store_del os k)) ds"
    by (auto simp: credit_books_def store_all_def list_all_iff deal_linked_def store_find_del[OF wf])
  then show ?thesis using assms(1) by (auto simp: credit_books_def store_wf_del store_find_del)
qed

text \<open>A loan or a repayment of \<open>- x\<close>: offer, deals and summaries change together.\<close>

lemma books_change:
  assumes "credit_books os ds ss" "store_find os k = Some p"
    "coo_total_balance p' - coo_current_balance p' = coo_total_balance p - coo_current_balance p + x"
    "coo_asset_type p' = coo_asset_type p" "coo_owner_account p' = coo_owner_account p"
    "store_wf ds'" "store_all (deal_linked os) ds'"
    "\<And>i. offer_debt ds' i = offer_debt ds i + (if i = k then x else 0)"
    "\<And>i c. borrower_debt ds' i c = borrower_debt ds i c + (if i = k \<and> c = b then x else 0)"
    "\<And>i c. summary_debt ss' i c = summary_debt ss i c + (if i = k \<and> c = b then x else 0)"
    "distinct (map (\<lambda>p. (cso_offer_id (snd p), cso_borrower (snd p))) (items ss'))"
  shows "credit_books (store_put os k p') ds' ss'"
proof -
  have "deal_linked os c \<Longrightarrow> deal_linked (store_put os k p') c" for c
    using assms(2,4,5) by (auto simp: deal_linked_def store_find_put split: option.splits)
  then have "store_all (deal_linked (store_put os k p')) ds'" using assms(7) by (rule store_all_mono[rotated])
  then show ?thesis using assms by (auto simp: credit_books_def store_wf_put store_find_put)
qed

lemma books_put_offer:
  assumes "credit_books os ds ss" "store_find os k = Some p"
    "coo_total_balance p' - coo_current_balance p' = coo_total_balance p - coo_current_balance p"
    "coo_asset_type p' = coo_asset_type p" "coo_owner_account p' = coo_owner_account p"
  shows "credit_books (store_put os k p') ds ss"
  by (rule books_change[where x = 0, OF assms(1,2)]) (use assms in \<open>auto simp: credit_books_def\<close>)

text \<open>How the debts change with the deals.\<close>

lemma debt_add:
  "offer_debt (store_add ds c) i = offer_debt ds i + (if i = cdo_offer_id c then cdo_debt_amount c else 0)"
  "borrower_debt (store_add ds c) i b =
     borrower_debt ds i b + (if i = cdo_offer_id c \<and> b = cdo_borrower c then cdo_debt_amount c else 0)"
  by (auto simp: offer_debt_def borrower_debt_def)

lemma debt_del:
  assumes "store_find ds k = Some c"
  shows "offer_debt (store_del ds k) i = offer_debt ds i + (if i = cdo_offer_id c then - cdo_debt_amount c else 0)"
    "borrower_debt (store_del ds k) i b =
       borrower_debt ds i b + (if i = cdo_offer_id c \<and> b = cdo_borrower c then - cdo_debt_amount c else 0)"
  using assms by (auto simp: offer_debt_def borrower_debt_def store_sum_del)

lemma debt_put:
  assumes "store_find ds k = Some c" "cdo_offer_id c' = cdo_offer_id c" "cdo_borrower c' = cdo_borrower c"
  shows "offer_debt (store_put ds k c') i =
      offer_debt ds i + (if i = cdo_offer_id c then cdo_debt_amount c' - cdo_debt_amount c else 0)"
    "borrower_debt (store_put ds k c') i b =
       borrower_debt ds i b + (if i = cdo_offer_id c \<and> b = cdo_borrower c then cdo_debt_amount c' - cdo_debt_amount c else 0)"
  using assms by (auto simp: offer_debt_def borrower_debt_def store_sum_put)

text \<open>How they change with the summaries.\<close>

abbreviation summary_keys :: "credit_deal_summary_object store \<Rightarrow> (nat \<times> nat) list" where
  "summary_keys ss \<equiv> map (\<lambda>p. (cso_offer_id (snd p), cso_borrower (snd p))) (items ss)"

lemma summary_keys_put:
  assumes "summary_key k b s"
  shows "summary_keys (store_put_by (summary_key k b) ss s) = summary_keys ss"
proof -
  have "map f (upd_first P g xs) = map f xs" if "\<And>x. P x \<Longrightarrow> f (g x) = f x" for f :: "nat \<times> credit_deal_summary_object \<Rightarrow> nat \<times> nat" and P g xs
    using that by (induction xs) auto
  from this[of "\<lambda>p. summary_key k b (snd p)" "\<lambda>p. (cso_offer_id (snd p), cso_borrower (snd p))" "\<lambda>p. (fst p, s)"]
  show ?thesis unfolding store_put_by_def using assms by (simp add: summary_key_def)
qed

lemma summary_keys_del:
  "distinct (summary_keys ss) \<Longrightarrow> distinct (summary_keys (store_del_by P ss))"
proof -
  have "distinct (map f xs) \<Longrightarrow> distinct (map f (del_first P xs))" for f :: "nat \<times> credit_deal_summary_object \<Rightarrow> nat \<times> nat" and P xs
    by (induction xs) (auto dest: subsetD[OF set_del_first])
  then show "distinct (summary_keys ss) \<Longrightarrow> distinct (summary_keys (store_del_by P ss))"
    by (simp add: store_del_by_def)
qed

lemma summary_debt_change:
  assumes "store_search (summary_key k b) ss = Some s"
  shows "summary_debt (store_put_by (summary_key k b) ss (s\<lparr>cso_total_debt_amount := t\<rparr>)) i c =
      summary_debt ss i c + (if i = k \<and> c = b then t - cso_total_debt_amount s else 0)"
    "summary_debt (store_del_by (summary_key k b) ss) i c =
      summary_debt ss i c + (if i = k \<and> c = b then - cso_total_debt_amount s else 0)"
  using store_searchD[OF assms] assms
  by (auto simp: summary_debt_def store_sum_put_by store_sum_del_by summary_key_def)

lemma store_search_None: "store_search P st = None \<longleftrightarrow> (\<forall>p \<in> set (items st). \<not> P (snd p))"
  by (auto simp: store_search_def find_map_None)

context fc_safe
begin

lemma summary_borrowE:
  assumes "summary_borrow fc op offer has d = Inr d'"
    "has = (store_search (summary_key (coa_offer_id op) (coa_borrower op)) (credit_deal_summaries d) \<noteq> None)"
    "distinct (summary_keys (credit_deal_summaries d))"
  obtains ss where "d' = d\<lparr>credit_deal_summaries := ss\<rparr>" "distinct (summary_keys ss)"
    "\<And>i c. summary_debt ss i c = summary_debt (credit_deal_summaries d) i c +
      (if i = coa_offer_id op \<and> c = coa_borrower op then amount (coa_borrow_amount op) else 0)"
proof (cases "store_search (summary_key (coa_offer_id op) (coa_borrower op)) (credit_deal_summaries d)")
  case None
  let ?s = "\<lparr>cso_borrower = coa_borrower op, cso_offer_id = coa_offer_id op, cso_offer_owner = coo_owner_account offer,
    cso_debt_asset = coo_asset_type offer, cso_total_debt_amount = amount (coa_borrow_amount op)\<rparr>"
  from None have "(coa_offer_id op, coa_borrower op) \<notin> set (summary_keys (credit_deal_summaries d))"
    by (auto simp: store_search_None summary_key_def)
  with assms None show thesis
    by (intro that[of "store_add (credit_deal_summaries d) ?s"])
      (auto simp: summary_borrow_def store_add_def summary_debt_def store_sum_def)
next
  case (Some s)
  with store_searchD[OF Some] assms show thesis
    by (intro that[of "store_put_by (summary_key (coa_offer_id op) (coa_borrower op)) (credit_deal_summaries d)
          (s\<lparr>cso_total_debt_amount := cso_total_debt_amount s + amount (coa_borrow_amount op)\<rparr>)"])
      (auto simp: summary_borrow_def summary_keys_put summary_debt_change summary_key_def)
qed

lemma summary_repayE:
  assumes "summary_repay fc k b amt s d = Inr d'" "store_search (summary_key k b) (credit_deal_summaries d) = Some s"
    "distinct (summary_keys (credit_deal_summaries d))"
  obtains ss where "d' = d\<lparr>credit_deal_summaries := ss\<rparr>" "distinct (summary_keys ss)"
    "\<And>i c. summary_debt ss i c = summary_debt (credit_deal_summaries d) i c + (if i = k \<and> c = b then - amt else 0)"
proof (cases "cso_total_debt_amount s = amt")
  case True
  with assms show thesis
    by (intro that[of "store_del_by (summary_key k b) (credit_deal_summaries d)"])
      (auto simp: summary_repay_def summary_keys_del summary_debt_change)
next
  case False
  with store_searchD[OF assms(2)] assms show thesis
    by (intro that[of "store_put_by (summary_key k b) (credit_deal_summaries d)
          (s\<lparr>cso_total_debt_amount := cso_total_debt_amount s - amt\<rparr>)"])
      (auto simp: summary_repay_def summary_keys_put summary_debt_change summary_key_def)
qed

end

section \<open>Conservation\<close>

text \<open>Offers, deals and summaries change in one step, between adjustments of balances.\<close>

lemma gap_step_credit:
  assumes "wf_db d \<Longrightarrow> store_all offer_ok os \<and> store_all deal_ok ds \<and> credit_books os ds ss"
    "\<And>a. wf_db d \<Longrightarrow> offers_total os a + deals_total ds a =
      offers_total (credit_offers d) a + deals_total (credit_deals d) a + f a"
  shows "gap_step d (d\<lparr>credit_offers := os, credit_deals := ds, credit_deal_summaries := ss\<rparr>) f"
  unfolding gap_step_def
proof (intro impI conjI allI)
  assume wf: "wf_db d"
  let ?d = "d\<lparr>credit_offers := os, credit_deals := ds, credit_deal_summaries := ss\<rparr>"
  show "wf_db ?d" using wf assms(1)[OF wf] by (simp add: wf_defs)
  show "supply_gap ?d a = supply_gap d a + f a" for a using assms(2)[OF wf, of a] by (simp add: gap_defs)
  show "head_block_time ?d = head_block_time d" by simp
  show "balances_nonneg ?d" if "balances_nonneg d" using that by (simp add: balances_nonneg_def)
qed

lemma wf_credit:
  assumes "wf_db d"
  shows "store_all offer_ok (credit_offers d)" "store_all deal_ok (credit_deals d)"
    "credit_books (credit_offers d) (credit_deals d) (credit_deal_summaries d)"
  using assms by (auto simp: wf_defs)

lemma offers_total_put: "store_find os k = Some p \<Longrightarrow> coo_asset_type p' = coo_asset_type p \<Longrightarrow>
    offers_total (store_put os k p') a =
    offers_total os a + amt_at (coo_asset_type p) (coo_current_balance p' - coo_current_balance p) a"
  by (auto simp: offers_total_def store_sum_put amt_at_def)

lemma deals_total_put: "store_find ds k = Some c \<Longrightarrow> cdo_collateral_asset c' = cdo_collateral_asset c \<Longrightarrow>
    deals_total (store_put ds k c') a =
    deals_total ds a + amt_at (cdo_collateral_asset c) (cdo_collateral_amount c' - cdo_collateral_amount c) a"
  by (auto simp: deals_total_def store_sum_put amt_at_def)

lemma credit_totals:
  "offers_total (store_add os p) a = offers_total os a + amt_at (coo_asset_type p) (coo_current_balance p) a"
  "deals_total (store_add ds c) a = deals_total ds a + amt_at (cdo_collateral_asset c) (cdo_collateral_amount c) a"
  "store_find os k = Some p \<Longrightarrow>
     offers_total (store_del os k) a = offers_total os a - amt_at (coo_asset_type p) (coo_current_balance p) a"
  "store_find ds k = Some c \<Longrightarrow>
     deals_total (store_del ds k) a = deals_total ds a - amt_at (cdo_collateral_asset c) (cdo_collateral_amount c) a"
  by (auto simp: offers_total_def deals_total_def store_sum_del amt_at_def)

text \<open>What changes in the summaries does not touch anything else.\<close>

lemma summary_borrow_only:
  "summary_borrow fc op offer has d = Inr d' \<Longrightarrow> \<exists>ss. d' = d\<lparr>credit_deal_summaries := ss\<rparr>"
  by (auto simp: summary_borrow_def split: if_splits option.splits)

lemma summary_repay_only:
  "summary_repay fc offer b amt s d = Inr d' \<Longrightarrow> \<exists>ss. d' = d\<lparr>credit_deal_summaries := ss\<rparr>"
  by (auto simp: summary_repay_def split: if_splits)

lemma credit_deal_update_conserves:
  assumes "credit_deal_update_do_apply op ev fs d = Inr d'"
  shows "conserves d d'"
proof -
  from assms obtain c where c: "store_find (credit_deals d) (cdu_deal_id op) = Some c" and
    d': "d' = d\<lparr>credit_deals := store_put (credit_deals d) (cdu_deal_id op) (c\<lparr>cdo_auto_repay := cdu_auto_repay op\<rparr>)\<rparr>"
    by (auto simp: credit_deal_update_do_apply_def)
  let ?ds = "store_put (credit_deals d) (cdu_deal_id op) (c\<lparr>cdo_auto_repay := cdu_auto_repay op\<rparr>)"
  have "conserves d (d\<lparr>credit_offers := credit_offers d, credit_deals := ?ds,
      credit_deal_summaries := credit_deal_summaries d\<rparr>)"
  proof (rule gap_step_credit)
    assume "wf_db d"
    note w = wf_credit[OF this]
    have "deal_ok c" "deal_linked (credit_offers d) c"
      by (rule store_all_find[OF _ c], use w in \<open>simp add: credit_books_def\<close>)+
    then have "store_all deal_ok ?ds" "store_all (deal_linked (credit_offers d)) ?ds"
      using w by (auto simp: credit_books_def deal_ok_def deal_linked_def intro!: store_all_put split: option.splits)
    then show "store_all offer_ok (credit_offers d) \<and> store_all deal_ok ?ds \<and>
        credit_books (credit_offers d) ?ds (credit_deal_summaries d)"
      using w c by (simp add: credit_books_def store_wf_put debt_put)
  qed (use c in \<open>simp add: deals_total_put\<close>)
  then show ?thesis unfolding d' by simp
qed

text \<open>The amount an update adds to an offer.\<close>

definition offer_delta :: "credit_offer_update_operation \<Rightarrow> int" where
  "offer_delta op = (case cou_delta_amount op of None \<Rightarrow> 0 | Some delta \<Rightarrow> amount delta)"

context fc_safe
begin

lemma credit_offer_create_conserves:
  assumes "credit_offer_create_validate op = Inr ()" "credit_offer_create_do_apply fc op ev fs d = Inr d'"
  shows "conserves d d'"
proof -
  let ?p = "new_credit_offer_object op"
  from assms(2) obtain d1 where
    d1: "debit fc (coc_owner_account op) (ASSET (coc_balance op) (coc_asset_type op)) d = Inr d1" and
    d': "d' = d1\<lparr>credit_offers := store_add (credit_offers d1) ?p\<rparr>"
    by (auto simp: credit_offer_create_do_apply_def simp del: debit_iff)
  have "offer_ok ?p"
    using assms(1) debit_positive[OF d1]
    by (simp add: offer_ok_def credit_offer_create_validate_def new_credit_offer_object_def)
  then have "gap_step d1 (d1\<lparr>credit_offers := store_add (credit_offers d1) ?p, credit_deals := credit_deals d1,
      credit_deal_summaries := credit_deal_summaries d1\<rparr>) (amt_at (coc_asset_type op) (coc_balance op))"
    using wf_credit[of d1]
    by (intro gap_step_credit) (auto simp: store_all_add credit_totals new_credit_offer_object_def intro: books_add_offer)
  then show ?thesis
    unfolding d' by (intro gap_step_then[OF gap_step_debit[OF d1]]) (auto simp: amt_at_neg)
qed

lemma credit_offer_delete_applyE:
  assumes "credit_offer_delete_do_apply fc op ev fs d = Inr d'"
  obtains p d1 where "store_find (credit_offers d) (cod_offer_id op) = Some p"
    "adjust_balance fc (cod_owner_account op) (ASSET (coo_current_balance p) (coo_asset_type p)) d = Inr d1"
    "d' = d1\<lparr>credit_offers := store_del (credit_offers d1) (cod_offer_id op)\<rparr>"
  using assms by (auto simp: credit_offer_delete_do_apply_def adjust_balance_def split: if_splits)

lemma credit_offer_delete_conserves:
  assumes "credit_offer_delete_do_evaluate op fs d0 = Inr ev0" "fee_frame d0 d"
    "credit_offer_delete_do_apply fc op ev fs d = Inr d'"
  shows "conserves d d'"
  using assms(3)
proof (rule credit_offer_delete_applyE)
  fix p d1 assume p: "store_find (credit_offers d) (cod_offer_id op) = Some p"
    and d1: "adjust_balance fc (cod_owner_account op) (ASSET (coo_current_balance p) (coo_asset_type p)) d = Inr d1"
    and d': "d' = d1\<lparr>credit_offers := store_del (credit_offers d1) (cod_offer_id op)\<rparr>"
  have p1: "store_find (credit_offers d1) (cod_offer_id op) = Some p" using d1 p by (simp add: adjust_balance_fields)
  have eq: "coo_total_balance p = coo_current_balance p"
    using assms(1) p fee_frame_fields[OF assms(2)] by (auto simp: credit_offer_delete_do_evaluate_def)
  have "gap_step d1 (d1\<lparr>credit_offers := store_del (credit_offers d1) (cod_offer_id op), credit_deals := credit_deals d1,
      credit_deal_summaries := credit_deal_summaries d1\<rparr>) (amt_at (coo_asset_type p) (- coo_current_balance p))"
    using wf_credit[of d1] books_del_offer[OF _ _ p1 eq] p1
    by (intro gap_step_credit) (auto simp: credit_totals amt_at_neg intro: store_all_del)
  then show ?thesis unfolding d'
    by (intro gap_step_then[OF gap_step_adjust[OF d1]]) (auto simp: amt_at_neg)
qed

lemma credit_offer_updatedE:
  assumes "credit_offer_updated fc op p = Inr p'"
  shows "coo_total_balance p' = coo_total_balance p + offer_delta op"
    "coo_current_balance p' = coo_current_balance p + offer_delta op"
    "coo_asset_type p' = coo_asset_type p" "coo_owner_account p' = coo_owner_account p"
    "cou_delta_amount op \<noteq> None \<Longrightarrow> in_int64 (coo_total_balance p')"
  using assms by (auto simp: credit_offer_updated_def offer_delta_def split: option.splits)

lemma credit_offer_update_applyE:
  assumes "credit_offer_update_do_apply fc op ev fs d = Inr d'"
  obtains p p' d1 where "store_find (credit_offers d) (cou_offer_id op) = Some p"
    "credit_offer_updated fc op p = Inr p'" "0 \<le> coo_current_balance p'"
    "coo_current_balance p' \<le> coo_total_balance p'" "0 < coo_total_balance p'"
    "(case cou_delta_amount op of None \<Rightarrow> Inr d | Some delta \<Rightarrow> debit fc (cou_owner_account op) delta d) = Inr d1"
    "d' = d1\<lparr>credit_offers := store_put (credit_offers d) (cou_offer_id op) p'\<rparr>" "credit_offers d1 = credit_offers d"
proof -
  from assms obtain d1 p p' where
    d1: "(case cou_delta_amount op of None \<Rightarrow> Inr d | Some delta \<Rightarrow> debit fc (cou_owner_account op) delta d) = Inr d1"
    and p: "store_find (credit_offers d1) (cou_offer_id op) = Some p" "credit_offer_updated fc op p = Inr p'"
    "0 < coo_total_balance p'" "0 \<le> coo_current_balance p'" "coo_current_balance p' \<le> coo_total_balance p'"
    and d': "d' = d1\<lparr>credit_offers := store_put (credit_offers d1) (cou_offer_id op) p'\<rparr>"
    unfolding credit_offer_update_do_apply_def bnd_eq_Inr_iff ensure_eq_Inr_iff store_get_Inr
    by (elim exE conjE) simp
  have "credit_offers d1 = credit_offers d" using d1 by (auto split: option.splits simp: adjust_balance_fields)
  with p d' show thesis by (intro that[OF _ p(2,4,5,3) d1]) auto
qed

lemma credit_offer_update_conserves:
  assumes "credit_offer_update_do_evaluate fc op fs d0 = Inr ev0" "fee_frame d0 d"
    "credit_offer_update_do_apply fc op ev fs d = Inr d'"
  shows "conserves d d'"
  using assms(3)
proof (rule credit_offer_update_applyE)
  fix p p' d1 assume p: "store_find (credit_offers d) (cou_offer_id op) = Some p" "credit_offer_updated fc op p = Inr p'"
    "0 \<le> coo_current_balance p'" "coo_current_balance p' \<le> coo_total_balance p'"
    and d1: "(case cou_delta_amount op of None \<Rightarrow> Inr d | Some delta \<Rightarrow> debit fc (cou_owner_account op) delta d) = Inr d1"
    and d': "d' = d1\<lparr>credit_offers := store_put (credit_offers d) (cou_offer_id op) p'\<rparr>"
    and same: "credit_offers d1 = credit_offers d"
  note u = credit_offer_updatedE[OF p(2)]
  have aid: "cou_delta_amount op = Some delta \<Longrightarrow> asset_id delta = coo_asset_type p" for delta
    using assms(1) p(1) fee_frame_fields[OF assms(2)] by (auto simp: credit_offer_update_do_evaluate_def if_valid_def)
  have step: "gap_step d d1 (amt_at (coo_asset_type p) (- offer_delta op))"
    using d1 aid by (auto simp: offer_delta_def split: option.splits simp del: debit_iff dest!: gap_step_debit)
  have ok: "offer_ok p \<Longrightarrow> offer_ok p'"
    using p(3,4) u by (cases "cou_delta_amount op") (auto simp: offer_ok_def offer_delta_def)
  have p1: "store_find (credit_offers d1) (cou_offer_id op) = Some p" using p(1) same by simp
  have "gap_step d1 (d1\<lparr>credit_offers := store_put (credit_offers d1) (cou_offer_id op) p',
      credit_deals := credit_deals d1, credit_deal_summaries := credit_deal_summaries d1\<rparr>)
      (amt_at (coo_asset_type p) (offer_delta op))"
  proof (rule gap_step_credit)
    assume "wf_db d1"
    note w = wf_credit[OF this]
    have "offer_ok p'" by (rule ok[OF store_all_find[OF w(1) p1]])
    then show "store_all offer_ok (store_put (credit_offers d1) (cou_offer_id op) p') \<and> store_all deal_ok (credit_deals d1) \<and>
        credit_books (store_put (credit_offers d1) (cou_offer_id op) p') (credit_deals d1) (credit_deal_summaries d1)"
      using w books_put_offer[OF w(3) p1, of p'] u by (simp add: store_all_put)
  qed (use p1 u in \<open>simp add: offers_total_put\<close>)
  then show ?thesis unfolding d' same[symmetric]
    by (intro gap_step_then[OF step]) (auto simp: amt_at_neg)
qed

lemma credit_offer_accept_applyE:
  assumes "credit_offer_accept_do_apply fc op has fs d = Inr d'"
  obtains p t d1 d2 where "store_find (credit_offers d) (coa_offer_id op) = Some p"
    "debit fc (coa_borrower op) (coa_collateral op) d = Inr d1"
    "adjust_balance fc (coa_borrower op) (coa_borrow_amount op) d1 = Inr d2"
    "summary_borrow fc op (p\<lparr>coo_current_balance := coo_current_balance p - amount (coa_borrow_amount op)\<rparr>) has
       (d2\<lparr>credit_offers := store_put (credit_offers d2) (coa_offer_id op)
              (p\<lparr>coo_current_balance := coo_current_balance p - amount (coa_borrow_amount op)\<rparr>),
           credit_deals := store_add (credit_deals d2) (new_credit_deal_object op p t)\<rparr>) = Inr d'"
    "amount (coa_borrow_amount op) \<le> coo_current_balance p"
    "t = credit_repay_time fc (head_block_time d) (coo_max_duration_seconds p)" "head_block_time d < t"
    "tps_diff fc t (head_block_time d) \<le> fc_days GRAPHENE_MAX_CREDIT_DEAL_DAYS"
proof -
  have nd: "new_credit_deal_object op (p\<lparr>coo_current_balance := x\<rparr>) t = new_credit_deal_object op p t" for p x t
    by (simp add: new_credit_deal_object_def)
  from assms obtain d1 d2 p c where d1: "debit fc (coa_borrower op) (coa_collateral op) d = Inr d1"
    and d2: "adjust_balance fc (coa_borrower op) (coa_borrow_amount op) d1 = Inr d2"
    and p: "store_find (credit_offers d2) (coa_offer_id op) = Some p"
    and c: "c = coo_current_balance p - amount (coa_borrow_amount op)"
    and s: "summary_borrow fc op (p\<lparr>coo_current_balance := c\<rparr>) has
       (d2\<lparr>credit_offers := store_put (credit_offers d2) (coa_offer_id op) (p\<lparr>coo_current_balance := c\<rparr>),
           credit_deals := store_add (credit_deals d2) (new_credit_deal_object op (p\<lparr>coo_current_balance := c\<rparr>)
             (credit_repay_time fc (head_block_time d2) (coo_max_duration_seconds p)))\<rparr>) = Inr d'"
    and ok: "0 \<le> c" "head_block_time d' < credit_repay_time fc (head_block_time d2) (coo_max_duration_seconds p)"
    "tps_diff fc (credit_repay_time fc (head_block_time d2) (coo_max_duration_seconds p)) (head_block_time d')
       \<le> fc_days GRAPHENE_MAX_CREDIT_DEAL_DAYS"
    by (auto simp: credit_offer_accept_do_apply_def simp del: debit_iff)
  have same: "head_block_time d2 = head_block_time d" "credit_offers d2 = credit_offers d" "head_block_time d' = head_block_time d"
    using d1 d2 summary_borrow_only[OF s] by (auto simp: adjust_balance_fields)
  show thesis by (rule that[OF _ d1 d2 s[unfolded c nd]]) (use p c ok same in auto)
qed

lemma credit_offer_accept_conserves:
  assumes "credit_offer_accept_validate op = Inr ()" "credit_offer_accept_do_evaluate fc op fs d0 = Inr has"
    "fee_frame d0 d" "credit_offer_accept_do_apply fc op has fs d = Inr d'"
  shows "conserves d d'"
  using assms(4)
proof (rule credit_offer_accept_applyE)
  fix p :: credit_offer_object and t and d1 d2 :: database
  let ?k = "coa_offer_id op" and ?x = "amount (coa_borrow_amount op)"
  let ?p = "p\<lparr>coo_current_balance := coo_current_balance p - ?x\<rparr>"
  let ?c = "new_credit_deal_object op p t"
  let ?os = "store_put (credit_offers d2) ?k ?p" and ?ds = "store_add (credit_deals d2) ?c"
  assume p: "store_find (credit_offers d) ?k = Some p"
    and d1: "debit fc (coa_borrower op) (coa_collateral op) d = Inr d1"
    and d2: "adjust_balance fc (coa_borrower op) (coa_borrow_amount op) d1 = Inr d2"
    and s: "summary_borrow fc op ?p has (d2\<lparr>credit_offers := ?os, credit_deals := ?ds\<rparr>) = Inr d'"
    and le: "?x \<le> coo_current_balance p"
  have val: "0 < ?x" "0 < amount (coa_collateral op)"
    using assms(1) by (auto simp: credit_offer_accept_validate_def)
  have same: "credit_offers d2 = credit_offers d0" "credit_deals d2 = credit_deals d0"
    "credit_deal_summaries d2 = credit_deal_summaries d0"
    using d1 d2 fee_frame_fields[OF assms(3)] by (auto simp: adjust_balance_fields)
  have ev: "coo_asset_type p = asset_id (coa_borrow_amount op)"
    "has = (store_search (summary_key ?k (coa_borrower op)) (credit_deal_summaries d2) \<noteq> None)"
    using assms(2) p same fee_frame_fields[OF assms(3)]
    by (auto simp: credit_offer_accept_do_evaluate_def split: option.splits)
  have p2: "store_find (credit_offers d2) ?k = Some p" using p d1 d2 by (auto simp: adjust_balance_fields)
  have inC: "in_int64 (amount (coa_collateral op))" using debit_positive[OF d1 val(2)] .
  have "gap_step d2 d' (\<lambda>a. amt_at (asset_id (coa_borrow_amount op)) (- ?x) a +
      amt_at (asset_id (coa_collateral op)) (amount (coa_collateral op)) a)"
  proof (rule gap_step_wf)
    assume "wf_db d2"
    note w = wf_credit[OF this]
    from s obtain ss where d': "d' = d2\<lparr>credit_offers := ?os, credit_deals := ?ds, credit_deal_summaries := ss\<rparr>"
      and ss: "distinct (summary_keys ss)" "\<And>i c. summary_debt ss i c =
        summary_debt (credit_deal_summaries d2) i c + (if i = ?k \<and> c = coa_borrower op then ?x else 0)"
      by (rule summary_borrowE) (use ev(2) w(3) in \<open>simp_all add: credit_books_def\<close>)
    have pok: "offer_ok p" by (rule store_all_find[OF w(1) p2])
    then have "offer_ok ?p" using le val by (simp add: offer_ok_def)
    moreover have "in_int64 ?x" using pok le val by (auto simp: offer_ok_def in_int64_def)
    then have "deal_ok ?c" using val inC by (simp add: deal_ok_def new_credit_deal_object_def)
    moreover have "credit_books ?os ?ds ss"
      by (rule books_change[OF w(3) p2, where x = ?x and b = "coa_borrower op"])
        (use w(3) p2 ss in \<open>auto simp: credit_books_def store_wf_add store_all_add debt_add new_credit_deal_object_def
          deal_linked_def\<close>)
    ultimately have "store_all offer_ok ?os \<and> store_all deal_ok ?ds \<and> credit_books ?os ?ds ss"
      using w by (simp add: store_all_put store_all_add)
    then show "gap_step d2 d' (\<lambda>a. amt_at (asset_id (coa_borrow_amount op)) (- ?x) a +
        amt_at (asset_id (coa_collateral op)) (amount (coa_collateral op)) a)"
      unfolding d' using p2
      by (intro gap_step_credit) (simp_all add: offers_total_put credit_totals ev(1) new_credit_deal_object_def)
  qed
  then show ?thesis
    by (rule gap_step_then[OF gap_step_trans[OF gap_step_debit[OF d1] gap_step_adjust[OF d2]]]) (simp add: amt_at_neg)
qed

lemma released_bounds:
  assumes "0 < amt" "amt < debt" "in_int64 debt" "0 < coll" "in_int64 coll"
  shows "u128_mul (u128 amt) (u128 coll) div u128 debt = amt * coll div debt"
    "0 \<le> amt * coll div debt" "amt * coll div debt < coll"
proof -
  have "in_int64 amt" using assms by (auto simp: in_int64_def)
  then have m: "amt * coll < 2 ^ 126" using int64_prod_bound[of amt coll] assms by simp
  show "u128_mul (u128 amt) (u128 coll) div u128 debt = amt * coll div debt"
    using m assms \<open>in_int64 amt\<close> by (simp add: u128_mul_id u128_id in_int64_def)
  show "0 \<le> amt * coll div debt" using assms by (simp add: pos_imp_zdiv_nonneg_iff)
  have "amt * coll < debt * coll" using assms by simp
  then show "amt * coll div debt < coll"
    using assms le_div_iff_mult_le[of debt coll "amt * coll"] by (simp add: mult.commute)
qed

text \<open>Releasing collateral for a repaid amount: the deal is removed, or both parts shrink.\<close>

lemma deal_repayE:
  assumes "deal_repay fc k amt c d = Inr (released, d')" "deal_ok c" "0 < amt" "amt \<le> cdo_debt_amount c"
  obtains (full) "amt = cdo_debt_amount c" "released = cdo_collateral_amount c"
      "d' = d\<lparr>credit_deals := store_del (credit_deals d) k\<rparr>"
  | (partial) c' where "amt < cdo_debt_amount c" "released = amt * cdo_collateral_amount c div cdo_debt_amount c"
      "0 \<le> released" "released < cdo_collateral_amount c"
      "c' = c\<lparr>cdo_debt_amount := cdo_debt_amount c - amt, cdo_collateral_amount := cdo_collateral_amount c - released\<rparr>"
      "deal_ok c'" "d' = d\<lparr>credit_deals := store_put (credit_deals d) k c'\<rparr>"
proof (cases "cdo_debt_amount c = amt")
  case True
  with assms(1) show thesis by (intro full) (auto simp: deal_repay_def)
next
  case False
  then have lt: "amt < cdo_debt_amount c" using assms(4) by simp
  note r = released_bounds[OF assms(3) lt, of "cdo_collateral_amount c"]
  have dok: "in_int64 (cdo_debt_amount c)" "0 < cdo_collateral_amount c" "in_int64 (cdo_collateral_amount c)"
    using assms(2) by (auto simp: deal_ok_def)
  have "in_int64 (amt * cdo_collateral_amount c div cdo_debt_amount c)"
    by (rule in_int64_between[OF dok(3)]) (use r dok in auto)
  then have rel: "to_int64 (u128_mul (u128 amt) (u128 (cdo_collateral_amount c)) div u128 (cdo_debt_amount c)) =
      amt * cdo_collateral_amount c div cdo_debt_amount c"
    using r dok by (simp add: to_int64_id)
  show thesis
    by (rule partial[OF lt]) (use assms(1,2,3) False rel r dok lt in
      \<open>auto simp: deal_repay_def deal_ok_def intro: in_int64_between\<close>)
qed

lemma credit_deal_repay_applyE:
  assumes "credit_deal_repay_do_apply fc op ev fs d = Inr d'"
  obtains c p s d1 d2 d3 released where "store_find (credit_deals d) (cdr_deal_id op) = Some c"
    "store_find (credit_offers d) (cdo_offer_id c) = Some p"
    "adjust_balance fc (cdr_account op)
       (ASSET (- (amount (cdr_repay_amount op) + amount (cdr_credit_fee op))) (asset_id (cdr_repay_amount op))) d = Inr d1"
    "in_int64 (coo_total_balance p + amount (cdr_credit_fee op))"
    "coo_current_balance p + amount (cdr_repay_amount op) \<le> coo_total_balance p"
    "store_search (summary_key (cdo_offer_id c) (cdr_account op)) (credit_deal_summaries d) = Some s"
    "summary_repay fc (cdo_offer_id c) (cdr_account op) (amount (cdr_repay_amount op)) s
       (d1\<lparr>credit_offers := store_put (credit_offers d1) (cdo_offer_id c)
          (p\<lparr>coo_total_balance := coo_total_balance p + amount (cdr_credit_fee op),
             coo_current_balance := coo_current_balance p + (amount (cdr_repay_amount op) + amount (cdr_credit_fee op))\<rparr>)\<rparr>) = Inr d2"
    "deal_repay fc (cdr_deal_id op) (amount (cdr_repay_amount op)) c d2 = Inr (released, d3)"
    "adjust_balance fc (cdr_account op) (ASSET released (cdo_collateral_asset c)) d3 = Inr d'"
proof -
  from assms obtain d1 c p s d2 released d3 where
    d1: "adjust_balance fc (cdr_account op)
       (ASSET (- (amount (cdr_repay_amount op) + amount (cdr_credit_fee op))) (asset_id (cdr_repay_amount op))) d = Inr d1"
    and c: "store_find (credit_deals d1) (cdr_deal_id op) = Some c"
    and p: "store_find (credit_offers d1) (cdo_offer_id c) = Some p"
    and t: "in_int64 (coo_total_balance p + amount (cdr_credit_fee op))"
      "coo_current_balance p + (amount (cdr_repay_amount op) + amount (cdr_credit_fee op))
        \<le> coo_total_balance p + amount (cdr_credit_fee op)"
    and s: "store_search (summary_key (cdo_offer_id c) (cdr_account op)) (credit_deal_summaries d1) = Some s"
    and d2: "summary_repay fc (cdo_offer_id c) (cdr_account op) (amount (cdr_repay_amount op)) s
       (d1\<lparr>credit_offers := store_put (credit_offers d1) (cdo_offer_id c)
          (p\<lparr>coo_total_balance := coo_total_balance p + amount (cdr_credit_fee op),
             coo_current_balance := coo_current_balance p + (amount (cdr_repay_amount op) + amount (cdr_credit_fee op))\<rparr>)\<rparr>) = Inr d2"
    and d3: "deal_repay fc (cdr_deal_id op) (amount (cdr_repay_amount op)) c d2 = Inr (released, d3)"
      "adjust_balance fc (cdr_account op) (ASSET released (cdo_collateral_asset c)) d3 = Inr d'"
    unfolding credit_deal_repay_do_apply_def Let_def bnd_eq_Inr_iff ensure_eq_Inr_iff store_get_Inr split_paired_Ex split_conv
    by (elim exE conjE) (auto split: option.splits)
  show thesis
    by (rule that[OF _ _ d1 t(1) _ _ d2 d3]) (use c p t s d1 in \<open>auto simp: adjust_balance_fields\<close>)
qed

text \<open>The changes a repayment makes to offer, deals and summaries. They are made to the database after the
  payment \<open>d1\<close>.\<close>

lemma repay_step:
  assumes p: "store_find (credit_offers d1) (cdo_offer_id c) = Some p"
    and c: "store_find (credit_deals d1) k = Some c" "0 < amt" "amt \<le> cdo_debt_amount c"
    and b: "cdo_borrower c = b"
    and fee: "0 \<le> fee" "in_int64 (coo_total_balance p + fee)" "coo_current_balance p + amt \<le> coo_total_balance p"
    and s: "store_search (summary_key (cdo_offer_id c) b) (credit_deal_summaries d1) = Some s"
    and d2: "summary_repay fc (cdo_offer_id c) b amt s
       (d1\<lparr>credit_offers := store_put (credit_offers d1) (cdo_offer_id c)
          (p\<lparr>coo_total_balance := coo_total_balance p + fee, coo_current_balance := coo_current_balance p + (amt + fee)\<rparr>)\<rparr>) = Inr d2"
    and d3: "deal_repay fc k amt c d2 = Inr (released, d3)"
  shows "gap_step d1 d3 (\<lambda>a. amt_at (cdo_debt_asset c) (amt + fee) a + amt_at (cdo_collateral_asset c) (- released) a)"
proof (rule gap_step_wf)
  assume wf: "wf_db d1"
  note w = wf_credit[OF wf]
  let ?p = "p\<lparr>coo_total_balance := coo_total_balance p + fee, coo_current_balance := coo_current_balance p + (amt + fee)\<rparr>"
  let ?os = "store_put (credit_offers d1) (cdo_offer_id c) ?p"
  have pok: "offer_ok p" by (rule store_all_find[OF w(1) p])
  have cok: "deal_ok c" by (rule store_all_find[OF w(2) c(1)])
  have link: "deal_linked (credit_offers d1) c"
    by (rule store_all_find[OF _ c(1)]) (use w(3) in \<open>simp add: credit_books_def\<close>)
  have aid: "cdo_debt_asset c = coo_asset_type p" using link p by (simp add: deal_linked_def)
  have pok': "offer_ok ?p" using pok c(2) fee by (simp add: offer_ok_def)
  from d2 s w(3) obtain ss where d2': "d2 = d1\<lparr>credit_offers := ?os, credit_deal_summaries := ss\<rparr>"
    and ss: "distinct (summary_keys ss)" "\<And>i e. summary_debt ss i e = summary_debt (credit_deal_summaries d1) i e +
      (if i = cdo_offer_id c \<and> e = b then - amt else 0)"
    by (elim summary_repayE) (auto simp: credit_books_def)
  obtain ds where d3': "d3 = d1\<lparr>credit_offers := ?os, credit_deals := ds, credit_deal_summaries := ss\<rparr>"
    and ds: "store_all deal_ok ds" "store_wf ds" "store_all (deal_linked (credit_offers d1)) ds"
      "\<And>i. offer_debt ds i = offer_debt (credit_deals d1) i + (if i = cdo_offer_id c then - amt else 0)"
      "\<And>i e. borrower_debt ds i e = borrower_debt (credit_deals d1) i e + (if i = cdo_offer_id c \<and> e = b then - amt else 0)"
      "\<And>a. deals_total ds a = deals_total (credit_deals d1) a - amt_at (cdo_collateral_asset c) released a"
    using d3 cok c(2,3)
  proof (cases rule: deal_repayE)
    case full
    with w c(1) b show thesis unfolding d2'
      by (intro that[of "store_del (credit_deals d1) k"])
        (auto simp: credit_books_def store_all_del store_wf_del debt_del credit_totals)
  next
    case (partial c')
    have "deal_linked (credit_offers d1) c'" using link partial(5) by (simp add: deal_linked_def split: option.splits)
    with partial w c(1) b show thesis unfolding d2'
      by (intro that[of "store_put (credit_deals d1) k c'"])
        (auto simp: credit_books_def store_all_put store_wf_put debt_put deals_total_put amt_at_neg)
  qed
  show "gap_step d1 d3 (\<lambda>a. amt_at (cdo_debt_asset c) (amt + fee) a + amt_at (cdo_collateral_asset c) (- released) a)"
    unfolding d3'
  proof (rule gap_step_credit)
    have "credit_books ?os ds ss"
      by (rule books_change[OF w(3) p, where x = "- amt" and b = b]) (use ds ss in simp_all)
    then show "store_all offer_ok ?os \<and> store_all deal_ok ds \<and> credit_books ?os ds ss"
      using w(1) pok' ds(1) by (simp add: store_all_put)
  qed (use p aid ds(6) in \<open>simp add: offers_total_put amt_at_neg\<close>)
qed

lemma credit_deal_repay_conserves:
  assumes "credit_deal_repay_validate op = Inr ()" "credit_deal_repay_do_evaluate op fs d0 = Inr ev0"
    "fee_frame d0 d" "credit_deal_repay_do_apply fc op ev fs d = Inr d'"
  shows "conserves d d'"
  using assms(4)
proof (rule credit_deal_repay_applyE)
  fix c p s d1 d2 d3 released
  assume c: "store_find (credit_deals d) (cdr_deal_id op) = Some c"
    and p: "store_find (credit_offers d) (cdo_offer_id c) = Some p"
    and d1: "adjust_balance fc (cdr_account op)
       (ASSET (- (amount (cdr_repay_amount op) + amount (cdr_credit_fee op))) (asset_id (cdr_repay_amount op))) d = Inr d1"
    and t: "in_int64 (coo_total_balance p + amount (cdr_credit_fee op))"
      "coo_current_balance p + amount (cdr_repay_amount op) \<le> coo_total_balance p"
    and s: "store_search (summary_key (cdo_offer_id c) (cdr_account op)) (credit_deal_summaries d) = Some s"
    and d2: "summary_repay fc (cdo_offer_id c) (cdr_account op) (amount (cdr_repay_amount op)) s
       (d1\<lparr>credit_offers := store_put (credit_offers d1) (cdo_offer_id c)
          (p\<lparr>coo_total_balance := coo_total_balance p + amount (cdr_credit_fee op),
             coo_current_balance := coo_current_balance p + (amount (cdr_repay_amount op) + amount (cdr_credit_fee op))\<rparr>)\<rparr>) = Inr d2"
    and d3: "deal_repay fc (cdr_deal_id op) (amount (cdr_repay_amount op)) c d2 = Inr (released, d3)"
    and d': "adjust_balance fc (cdr_account op) (ASSET released (cdo_collateral_asset c)) d3 = Inr d'"
  have val: "0 < amount (cdr_repay_amount op)" "0 \<le> amount (cdr_credit_fee op)"
    using assms(1) by (auto simp: credit_deal_repay_validate_def)
  have ev: "cdo_borrower c = cdr_account op" "cdo_debt_asset c = asset_id (cdr_repay_amount op)"
    "amount (cdr_repay_amount op) \<le> cdo_debt_amount c"
    using assms(2) c fee_frame_fields[OF assms(3)] by (auto simp: credit_deal_repay_do_evaluate_def)
  have at1: "store_find (credit_offers d1) (cdo_offer_id c) = Some p"
    "store_find (credit_deals d1) (cdr_deal_id op) = Some c"
    "store_search (summary_key (cdo_offer_id c) (cdr_account op)) (credit_deal_summaries d1) = Some s"
    using p c s d1 by (simp_all add: adjust_balance_fields)
  from repay_step[OF at1(1,2) val(1) ev(3,1) val(2) t at1(3) d2 d3]
  show ?thesis
    by (intro gap_step_then[OF gap_step_trans[OF gap_step_adjust[OF d1]] gap_step_adjust[OF d']]) (auto simp: ev amt_at_def)
qed

end

sublocale fc_safe \<subseteq> credit_offer_create_ev: conserving_evaluator fc coc_owner_account coc_fee
    credit_offer_create_validate "credit_offer_create_do_evaluate fc" "credit_offer_create_do_apply fc"
  by unfold_locales (rule credit_offer_create_conserves)

sublocale fc_safe \<subseteq> credit_offer_delete_ev: conserving_evaluator fc cod_owner_account cod_fee
    credit_offer_delete_validate credit_offer_delete_do_evaluate "credit_offer_delete_do_apply fc"
  by unfold_locales (rule credit_offer_delete_conserves)

sublocale fc_safe \<subseteq> credit_offer_update_ev: conserving_evaluator fc cou_owner_account cou_fee
    credit_offer_update_validate "credit_offer_update_do_evaluate fc" "credit_offer_update_do_apply fc"
  by unfold_locales (rule credit_offer_update_conserves)

sublocale fc_safe \<subseteq> credit_offer_accept_ev: conserving_evaluator fc coa_borrower coa_fee
    credit_offer_accept_validate "credit_offer_accept_do_evaluate fc" "credit_offer_accept_do_apply fc"
  by unfold_locales (rule credit_offer_accept_conserves)

sublocale fc_safe \<subseteq> credit_deal_repay_ev: conserving_evaluator fc cdr_account cdr_fee
    credit_deal_repay_validate credit_deal_repay_do_evaluate "credit_deal_repay_do_apply fc"
  by unfold_locales (rule credit_deal_repay_conserves)

sublocale fc_safe \<subseteq> credit_deal_update_ev: conserving_evaluator fc cdu_account cdu_fee
    credit_deal_update_validate credit_deal_update_do_evaluate credit_deal_update_do_apply
  by unfold_locales (rule credit_deal_update_conserves)

end
