(* ===== verification/Credit_Expiry.thy ===== *)
theory Credit_Expiry
  imports Credit_Offer
begin

text \<open>
  \<open>database::update_credit_offers_and_deals\<close> (\<open>libraries/chain/db_update.cpp\<close>), which runs with every
  block: offers whose time has come are disabled, and deals that are due are repaid automatically, if
  the borrower asked for it and has the funds, or end with the collateral going to the owner of the
  offer. An automatic repayment is a virtual operation applied in a nested undo session
  (\<open>database::try_push_virtual_operation\<close>): when it throws, the session is undone, which the theory of
  the undo database shows to restore the state.

  The operands of \<open>GRAPHENE_FEE_RATE_DENOM + deal.fee_rate\<close> are \<open>uint32_t\<close>, so the sum is taken modulo
  \<open>2 ^ 32\<close>; it is the divisor of the partial repayment and can be zero.
\<close>

section \<open>Disabling offers\<close>

definition offer_due :: "time_point_sec \<Rightarrow> credit_offer_object \<Rightarrow> bool" where
  "offer_due now p \<longleftrightarrow> coo_enabled p \<and> coo_auto_disable_time p \<le> now"

definition disable_offer :: "time_point_sec \<Rightarrow> credit_offer_object \<Rightarrow> credit_offer_object" where
  "disable_offer now p = (if offer_due now p then p\<lparr>coo_enabled := False\<rparr> else p)"

definition disable_due_offers :: "database \<Rightarrow> database" where
  "disable_due_offers d = d\<lparr>credit_offers := (credit_offers d)\<lparr>items :=
     map (\<lambda>(i, p). (i, disable_offer (head_block_time d) p)) (items (credit_offers d))\<rparr>\<rparr>"

section \<open>Automatic repayment\<close>

definition checked_div :: "int \<Rightarrow> int \<Rightarrow> int result" where
  "checked_div x y = ensure Division_by_zero (y \<noteq> 0) (Inr (x div y))"

definition repay_op :: "nat \<Rightarrow> credit_deal_object \<Rightarrow> int \<Rightarrow> int \<Rightarrow> credit_deal_repay_operation" where
  "repay_op i deal amt fee =
     \<lparr>cdr_fee = ASSET 0 CORE_ASSET, cdr_account = cdo_borrower deal, cdr_deal_id = i,
      cdr_repay_amount = ASSET (to_int64 amt) (cdo_debt_asset deal),
      cdr_credit_fee = ASSET (to_int64 fee) (cdo_debt_asset deal)\<rparr>"

definition partial_repayment :: "share_type \<Rightarrow> credit_deal_object \<Rightarrow> (int \<times> int) result" where
  "partial_repayment balance deal =
     bnd (checked_div (u128_mul (u128 balance) GRAPHENE_FEE_RATE_DENOM)
            ((GRAPHENE_FEE_RATE_DENOM + int (cdo_fee_rate deal)) mod 2 ^ 32)) (\<lambda>debt_to_repay.
     bnd (checked_div (u128_mul debt_to_repay (u128 (cdo_collateral_amount deal)))
            (u128 (cdo_debt_amount deal))) (\<lambda>collateral_to_release.
     bnd (checked_div (u128_sub (u128_add (u128_mul collateral_to_release (u128 (cdo_debt_amount deal)))
                                          (u128 (cdo_collateral_amount deal))) 1)
            (u128 (cdo_collateral_amount deal))) (\<lambda>debt_to_repay.
     Inr (debt_to_repay, required_fund_fee debt_to_repay (cdo_fee_rate deal)))))"

definition auto_repay_operation ::
    "nat \<Rightarrow> credit_deal_object \<Rightarrow> database \<Rightarrow> credit_deal_repay_operation result" where
  "auto_repay_operation i deal d =
    (let required_fee = required_fund_fee (cdo_debt_amount deal) (cdo_fee_rate deal);
         total_required = u128_add required_fee (u128 (cdo_debt_amount deal));
         balance = amount (get_balance d (cdo_borrower deal) (cdo_debt_asset deal)) in
     if cdo_auto_repay deal = only_full_repayment \<or> total_required \<le> u128 balance
     then Inr (repay_op i deal (cdo_debt_amount deal) required_fee)
     else bnd (partial_repayment balance deal) (\<lambda>(amt, fee). Inr (repay_op i deal amt fee)))"

text \<open>A virtual operation pays no fee and leaves no trace when it throws.\<close>

definition try_push_repay :: "fc_lib \<Rightarrow> credit_deal_repay_operation \<Rightarrow> database \<Rightarrow> database" where
  "try_push_repay fc op d =
    (case bnd (credit_deal_repay_validate op) (\<lambda>_. run_credit_deal_repay fc None op d) of
       Inl e \<Rightarrow> d
     | Inr d' \<Rightarrow> d')"

definition auto_repay :: "fc_lib \<Rightarrow> nat \<Rightarrow> credit_deal_object \<Rightarrow> database \<Rightarrow> database result" where
  "auto_repay fc i deal d =
    (if cdo_auto_repay deal \<noteq> no_auto_repayment
     then bnd (auto_repay_operation i deal d) (\<lambda>op. Inr (try_push_repay fc op d))
     else Inr d)"

section \<open>Deals that are due\<close>

definition expire_deal :: "fc_lib \<Rightarrow> nat \<Rightarrow> credit_deal_object \<Rightarrow> database \<Rightarrow> database result" where
  "expire_deal fc i deal d =
     bnd (store_get (credit_offers d) (cdo_offer_id deal)) (\<lambda>offer.
     bnd (safe_sub fc (coo_total_balance offer) (cdo_debt_amount deal)) (\<lambda>t.
     let d = d\<lparr>credit_offers := store_put (credit_offers d) (cdo_offer_id deal) (offer\<lparr>coo_total_balance := t\<rparr>)\<rparr> in
     bnd (case store_search (summary_key (cdo_offer_id deal) (cdo_borrower deal)) (credit_deal_summaries d) of
            None \<Rightarrow> Inr d
          | Some s \<Rightarrow> summary_repay fc (cdo_offer_id deal) (cdo_borrower deal) (cdo_debt_amount deal) s d) (\<lambda>d.
     bnd (adjust_balance fc (cdo_offer_owner deal) (ASSET (cdo_collateral_amount deal) (cdo_collateral_asset deal)) d) (\<lambda>d.
     Inr (d\<lparr>credit_deals := store_del (credit_deals d) i\<rparr>)))))"

text \<open>Every round removes the deal it works on, which the following lemmas show for any implementation
  of the arithmetic.\<close>

lemma fee_steps_deals:
  "convert_fee fc fs d = Inr d' \<Longrightarrow> credit_deals d' = credit_deals d"
  "pay_fee fc fs d = Inr d' \<Longrightarrow> credit_deals d' = credit_deals d"
  "debit fc account a d = Inr d' \<Longrightarrow> credit_deals d' = credit_deals d"
  by (auto simp: convert_fee_def pay_fee_def debit_def dest!: adjust_balance_only split: if_splits
      elim!: modify_dynE modify_statsE)

lemma repay_deals:
  assumes "run_credit_deal_repay fc req op d = Inr d'"
  shows "credit_deals d' = store_del (credit_deals d) (cdr_deal_id op) \<or>
    (\<exists>v. credit_deals d' = store_put (credit_deals d) (cdr_deal_id op) v)"
proof -
  have deal: "deal_repay fc k amt c e = Inr (r, e') \<Longrightarrow>
      credit_deals e' = store_del (credit_deals e) k \<or> (\<exists>v. credit_deals e' = store_put (credit_deals e) k v)" for k amt c e r e'
    by (auto simp: deal_repay_def split: if_splits)
  have app: "credit_deal_repay_do_apply fc op ev fs e = Inr e' \<Longrightarrow>
      credit_deals e' = store_del (credit_deals e) (cdr_deal_id op) \<or>
      (\<exists>v. credit_deals e' = store_put (credit_deals e) (cdr_deal_id op) v)" for ev fs e e'
    unfolding credit_deal_repay_do_apply_def Let_def bnd_eq_Inr_iff ensure_eq_Inr_iff
    by (elim exE conjE) (auto split: option.splits dest!: adjust_balance_only summary_repay_only deal)
  show ?thesis using assms
    unfolding run_credit_deal_repay_def run_operation_def evaluator_evaluate_def evaluator_apply_def
      bnd_eq_Inr_iff split_paired_Ex split_conv
    by (elim exE conjE) (auto dest!: fee_steps_deals app)
qed

lemma store_find_items: "(i, v) \<in> set (items st) \<Longrightarrow> \<exists>w. store_find st i = Some w"
  by (cases "find (\<lambda>p. fst p = i) (items st)") (auto simp: store_find_def find_map_None)

text \<open>An automatic repayment changes nothing, or is the application of a valid operation on the deal.\<close>

lemma auto_repay_operation_target:
  "auto_repay_operation i c d = Inr op \<Longrightarrow> cdr_deal_id op = i \<and> cdr_account op = cdo_borrower c \<and> cdr_fee op = ASSET 0 CORE_ASSET"
  by (auto simp: auto_repay_operation_def repay_op_def split: if_splits)

lemma auto_repay_cases:
  assumes "auto_repay fc i c d = Inr d'"
  obtains (nothing) "d' = d"
  | (repaid) op where "auto_repay_operation i c d = Inr op" "credit_deal_repay_validate op = Inr ()"
      "run_credit_deal_repay fc None op d = Inr d'"
proof (cases "cdo_auto_repay c = no_auto_repayment")
  case True
  with assms have "d' = d" by (simp add: auto_repay_def)
  then show thesis by (rule nothing)
next
  case False
  with assms obtain op where op: "auto_repay_operation i c d = Inr op" "d' = try_push_repay fc op d"
    by (auto simp: auto_repay_def)
  show thesis
  proof (cases "bnd (credit_deal_repay_validate op) (\<lambda>_. run_credit_deal_repay fc None op d)")
    case (Inl e)
    with op(2) have "d' = d" by (simp add: try_push_repay_def)
    then show thesis by (rule nothing)
  next
    case (Inr d2)
    with op show thesis by (intro repaid[OF op(1)]) (auto simp: try_push_repay_def)
  qed
qed

lemma auto_repay_length:
  assumes "auto_repay fc i c d = Inr d'" "(i, c) \<in> set (items (credit_deals d))"
  shows "length (items (credit_deals d')) \<le> length (items (credit_deals d))"
    "store_find (credit_deals d') i = None \<Longrightarrow> length (items (credit_deals d')) < length (items (credit_deals d))"
proof -
  have len: "length (items (store_put st k v)) = length (items st)" for st :: "credit_deal_object store" and k v
  proof -
    have "length (upd_first P f xs) = length xs" for P f and xs :: "(nat \<times> credit_deal_object) list"
      by (induction xs) auto
    then show ?thesis by (simp add: store_put_def)
  qed
  from store_find_items[OF assms(2)] obtain w where w: "store_find (credit_deals d) i = Some w" by blast
  consider "d' = d" | "credit_deals d' = store_del (credit_deals d) i"
    | v where "credit_deals d' = store_put (credit_deals d) i v"
    using assms(1)
    by (cases rule: auto_repay_cases) (auto dest!: repay_deals auto_repay_operation_target)
  then have "length (items (credit_deals d')) \<le> length (items (credit_deals d)) \<and>
      (store_find (credit_deals d') i = None \<longrightarrow> length (items (credit_deals d')) < length (items (credit_deals d)))"
    by cases (use w length_store_del[OF assms(2)] in \<open>auto simp: len store_find_put\<close>)
  then show "length (items (credit_deals d')) \<le> length (items (credit_deals d))"
    "store_find (credit_deals d') i = None \<Longrightarrow> length (items (credit_deals d')) < length (items (credit_deals d))"
    by auto
qed

lemma expire_deal_length:
  assumes "expire_deal fc i c d = Inr d'" "store_find (credit_deals d) i = Some c"
  shows "length (items (credit_deals d')) < length (items (credit_deals d))"
proof -
  have "credit_deals d' = store_del (credit_deals d) i"
    using assms(1) by (auto simp: expire_deal_def dest!: adjust_balance_only summary_repay_only split: option.splits)
  then show ?thesis using length_store_del[OF store_find_itemsD[OF assms(2)]] by simp
qed

function process_deals :: "fc_lib \<Rightarrow> database \<Rightarrow> database result" where
  "process_deals fc d =
    (case store_first cdo_latest_repay_time (credit_deals d) of
       None \<Rightarrow> Inr d
     | Some (i, deal) \<Rightarrow>
         if cdo_latest_repay_time deal \<le> head_block_time d then
           (case auto_repay fc i deal d of
              Inl e \<Rightarrow> Inl e
            | Inr d1 \<Rightarrow>
                (case store_find (credit_deals d1) i of
                   None \<Rightarrow> process_deals fc d1
                 | Some deal1 \<Rightarrow>
                     (case expire_deal fc i deal1 d1 of
                        Inl e \<Rightarrow> Inl e
                      | Inr d2 \<Rightarrow> process_deals fc d2)))
         else Inr d)"
  by pat_completeness auto
termination
proof (relation "measure (\<lambda>(fc, d). length (items (credit_deals d)))", goal_cases)
  case (2 fc d x1 i deal d1)
  then show ?case by (auto dest!: store_first_itemsD auto_repay_length(2))
next
  case (3 fc d x1 i deal d1 deal1 d2)
  then have "length (items (credit_deals d2)) < length (items (credit_deals d1))"
    by (auto dest: expire_deal_length)
  with 3 show ?case by (auto dest!: store_first_itemsD auto_repay_length(1))
qed simp

declare process_deals.simps [simp del]

definition update_credit_offers_and_deals :: "fc_lib \<Rightarrow> database \<Rightarrow> database result" where
  "update_credit_offers_and_deals fc d = process_deals fc (disable_due_offers d)"

section \<open>What the processing keeps\<close>

lemma disable_offer_simps [simp]:
  "coo_total_balance (disable_offer now p) = coo_total_balance p"
  "coo_current_balance (disable_offer now p) = coo_current_balance p"
  "coo_asset_type (disable_offer now p) = coo_asset_type p"
  "coo_owner_account (disable_offer now p) = coo_owner_account p"
  "offer_ok (disable_offer now p) = offer_ok p" "\<not> offer_due now (disable_offer now p)"
  by (simp_all add: disable_offer_def offer_ok_def offer_due_def)

lemma disable_due_offers_conserves: "conserves d (disable_due_offers d)"
proof -
  let ?os = "(credit_offers d)\<lparr>items :=
     map (\<lambda>(i, p). (i, disable_offer (head_block_time d) p)) (items (credit_offers d))\<rparr>"
  have find: "store_find ?os k = map_option (disable_offer (head_block_time d)) (store_find (credit_offers d) k)" for k
  proof -
    have "map_option snd (find (\<lambda>p. fst p = k) (map (\<lambda>(i, p). (i, f p)) xs)) =
        map_option f (map_option snd (find (\<lambda>p. fst p = k) xs))" for f :: "credit_offer_object \<Rightarrow> credit_offer_object" and xs
      by (induction xs) auto
    then show ?thesis by (simp add: store_find_def)
  qed
  have linked: "deal_linked ?os = deal_linked (credit_offers d)"
    by (intro ext) (simp add: deal_linked_def find split: option.splits)
  have wf: "store_wf ?os = store_wf (credit_offers d)"
    by (auto simp: store_wf_def comp_def case_prod_beta)
  have tot: "offers_total ?os a = offers_total (credit_offers d) a" for a
    by (auto simp: offers_total_def store_sum_def lsum_def comp_def case_prod_beta intro!: arg_cong[of _ _ sum_list] map_cong)
  have "conserves d (d\<lparr>credit_offers := ?os, credit_deals := credit_deals d,
      credit_deal_summaries := credit_deal_summaries d\<rparr>)"
  proof (rule gap_step_credit)
    assume "wf_db d"
    note w = wf_credit[OF this]
    have "store_all offer_ok ?os" using w(1) by (auto simp: store_all_def list_all_iff)
    moreover have "credit_books ?os (credit_deals d) (credit_deal_summaries d)"
      using w(3) by (auto simp: credit_books_def wf linked find)
    ultimately show "store_all offer_ok ?os \<and> store_all deal_ok (credit_deals d) \<and>
        credit_books ?os (credit_deals d) (credit_deal_summaries d)" using w(2) by blast
  qed (simp add: tot)
  then show ?thesis by (simp add: disable_due_offers_def)
qed

lemma disable_due_offers_live:
  "store_all (\<lambda>p. \<not> offer_due (head_block_time d) p) (credit_offers (disable_due_offers d))"
  by (auto simp: disable_due_offers_def store_all_def list_all_iff)

text \<open>One round on the deal \<open>i\<close>: value is conserved, no other deal changes, and no offer becomes due.\<close>

definition deal_round :: "nat \<Rightarrow> database \<Rightarrow> database \<Rightarrow> bool" where
  "deal_round i d d' \<longleftrightarrow> conserves d d' \<and> head_block_time d' = head_block_time d \<and>
     (wf_db d \<longrightarrow> (\<forall>j. j \<noteq> i \<longrightarrow> store_find (credit_deals d') j = store_find (credit_deals d) j) \<and>
       (store_all (\<lambda>p. \<not> offer_due (head_block_time d) p) (credit_offers d) \<longrightarrow>
        store_all (\<lambda>p. \<not> offer_due (head_block_time d) p) (credit_offers d')))"

lemma deal_round_refl [simp]: "deal_round i d d"
  by (simp add: deal_round_def)

lemma deal_round_trans: "deal_round i d d1 \<Longrightarrow> deal_round i d1 d2 \<Longrightarrow> deal_round i d d2"
  by (auto simp: deal_round_def gap_step_def)

lemma store_all_put_offer:
  assumes "store_all (\<lambda>p. \<not> offer_due now p) os" "store_find os k = Some p" "coo_enabled p' = coo_enabled p"
    "coo_auto_disable_time p' = coo_auto_disable_time p"
  shows "store_all (\<lambda>p. \<not> offer_due now p) (store_put os k p')"
  using assms store_all_find[OF assms(1,2)] by (auto intro!: store_all_put simp: offer_due_def)

lemma wf_deals: "wf_db d \<Longrightarrow> store_wf (credit_deals d)"
  using wf_credit(3)[of d] by (simp add: credit_books_def)

text \<open>A deal has a summary.\<close>

lemma deal_summary:
  assumes "credit_books os ds ss" "store_all deal_ok ds" "store_find ds i = Some c"
  obtains s where "store_search (summary_key (cdo_offer_id c) (cdo_borrower c)) ss = Some s"
proof (cases "store_search (summary_key (cdo_offer_id c) (cdo_borrower c)) ss")
  case None
  let ?f = "\<lambda>e. if cdo_offer_id e = cdo_offer_id c \<and> cdo_borrower e = cdo_borrower c then cdo_debt_amount e else 0"
  have "summary_debt ss (cdo_offer_id c) (cdo_borrower c) = 0" unfolding summary_debt_def
    by (rule store_sum_zero) (use None in \<open>auto simp: store_all_def list_all_iff store_search_None summary_key_def\<close>)
  then have "borrower_debt ds (cdo_offer_id c) (cdo_borrower c) = 0" using assms(1) by (simp add: credit_books_def)
  moreover have "?f c \<le> store_sum ?f ds"
    by (rule store_sum_ge[OF _ assms(3)]) (use assms(2) in \<open>rule store_all_mono, simp add: deal_ok_def\<close>)
  moreover have "0 < cdo_debt_amount c" using store_all_find[OF assms(2,3)] by (simp add: deal_ok_def)
  ultimately show ?thesis by (simp add: borrower_debt_def)
qed

text \<open>The whole loop: what the rounds keep, and nothing that is due is left.\<close>

definition rounds_done :: "database \<Rightarrow> database \<Rightarrow> bool" where
  "rounds_done d d' \<longleftrightarrow> conserves d d' \<and> head_block_time d' = head_block_time d \<and>
     (wf_db d \<longrightarrow> (\<forall>i c. store_find (credit_deals d) i = Some c \<longrightarrow> head_block_time d < cdo_latest_repay_time c \<longrightarrow>
       store_find (credit_deals d') i = Some c) \<and>
      store_all (\<lambda>c. head_block_time d < cdo_latest_repay_time c) (credit_deals d') \<and>
      (store_all (\<lambda>p. \<not> offer_due (head_block_time d) p) (credit_offers d) \<longrightarrow>
       store_all (\<lambda>p. \<not> offer_due (head_block_time d) p) (credit_offers d')))"


context fc_safe
begin

lemma map_sum_bnd: "map_sum id f (bnd m k) = bnd m (\<lambda>x. map_sum id f (k x))"
  by (cases m) simp_all

lemma map_sum_ensure: "map_sum id f (ensure e b m) = ensure e b (map_sum id f m)"
  by (simp add: ensure_def)

lemma adjust_balance_credit:
  assumes "adjust_balance fc x y (d\<lparr>credit_offers := os, credit_deal_summaries := ss\<rparr>) = Inr e"
  obtains d1 where "adjust_balance fc x y d = Inr d1" "e = d1\<lparr>credit_offers := os, credit_deal_summaries := ss\<rparr>"
proof -
  let ?f = "\<lambda>e :: database. e\<lparr>credit_offers := os, credit_deal_summaries := ss\<rparr>"
  have "get_account_balance (?f d) x (asset_id y) = get_account_balance d x (asset_id y)"
    by (simp add: get_account_balance_def)
  moreover have swap: "?f (d\<lparr>account_balances := b\<rparr>) = (?f d)\<lparr>account_balances := b\<rparr>" for b by (cases d) simp
  ultimately have "adjust_balance fc x y (?f d) = map_sum id ?f (adjust_balance fc x y d)"
    by (simp add: adjust_balance_def map_sum_bnd map_sum_ensure swap split: option.split)
  with assms show thesis by (cases "adjust_balance fc x y d") (auto intro: that)
qed

lemma expire_deal_round:
  assumes "expire_deal fc i c d = Inr d'" "store_find (credit_deals d) i = Some c"
  shows "wf_db d \<Longrightarrow> deal_round i d d'"
proof -
  assume wf: "wf_db d"
  note w = wf_credit[OF wf]
  from w(3,2) assms(2) obtain s where
    s: "store_search (summary_key (cdo_offer_id c) (cdo_borrower c)) (credit_deal_summaries d) = Some s"
    by (rule deal_summary)
  let ?p = "\<lambda>p. p\<lparr>coo_total_balance := coo_total_balance p - cdo_debt_amount c\<rparr>"
  let ?os = "\<lambda>p. store_put (credit_offers d) (cdo_offer_id c) (?p p)"
  from assms(1) s obtain p d1 d2 where p: "store_find (credit_offers d) (cdo_offer_id c) = Some p"
    "in_int64 (coo_total_balance p - cdo_debt_amount c)"
    and d1: "summary_repay fc (cdo_offer_id c) (cdo_borrower c) (cdo_debt_amount c) s (d\<lparr>credit_offers := ?os p\<rparr>) = Inr d1"
    and d2: "adjust_balance fc (cdo_offer_owner c) (ASSET (cdo_collateral_amount c) (cdo_collateral_asset c)) d1 = Inr d2"
    and d': "d' = d2\<lparr>credit_deals := store_del (credit_deals d2) i\<rparr>"
    by (auto simp: expire_deal_def)
  from d1 s w(3) obtain ss where d1': "d1 = d\<lparr>credit_offers := ?os p, credit_deal_summaries := ss\<rparr>"
    and ss: "distinct (summary_keys ss)" "\<And>k b. summary_debt ss k b = summary_debt (credit_deal_summaries d) k b +
      (if k = cdo_offer_id c \<and> b = cdo_borrower c then - cdo_debt_amount c else 0)"
    by (elim summary_repayE) (auto simp: credit_books_def)
  from d2[unfolded d1'] obtain d3 where d3: "adjust_balance fc (cdo_offer_owner c)
      (ASSET (cdo_collateral_amount c) (cdo_collateral_asset c)) d = Inr d3"
    and d2': "d2 = d3\<lparr>credit_offers := ?os p, credit_deal_summaries := ss\<rparr>" by (rule adjust_balance_credit)
  have same: "credit_offers d3 = credit_offers d" "credit_deals d3 = credit_deals d" "credit_deal_summaries d3 = credit_deal_summaries d"
    "head_block_time d3 = head_block_time d" using d3 by (simp_all add: adjust_balance_fields)
  have eq: "d' = d3\<lparr>credit_offers := ?os p, credit_deals := store_del (credit_deals d) i, credit_deal_summaries := ss\<rparr>"
    unfolding d' d2' by (simp add: same)
  have "cdo_debt_amount c \<le> offer_debt (credit_deals d) (cdo_offer_id c)"
    using store_sum_ge[of "\<lambda>e. if cdo_offer_id e = cdo_offer_id c then cdo_debt_amount e else 0",
      OF store_all_mono[OF w(2)] assms(2)] by (simp add: deal_ok_def offer_debt_def)
  moreover have "coo_total_balance p - coo_current_balance p = offer_debt (credit_deals d) (cdo_offer_id c)"
    using w(3) p(1) by (simp add: credit_books_def)
  ultimately have "offer_ok (?p p)" using store_all_find[OF w(1) p(1)] p by (simp add: offer_ok_def)
  moreover have "credit_books (?os p) (store_del (credit_deals d) i) ss"
    by (rule books_change[OF w(3) p(1), where x = "- cdo_debt_amount c" and b = "cdo_borrower c"])
      (use w(3) assms(2) ss in \<open>auto simp: credit_books_def store_wf_del store_all_del debt_del\<close>)
  ultimately have "gap_step d3 d' (amt_at (cdo_collateral_asset c) (- cdo_collateral_amount c))"
    unfolding eq using w p assms(2)
    by (intro gap_step_credit) (simp_all add: same store_all_put store_all_del offers_total_put credit_totals amt_at_neg)
  then have "conserves d d'" by (intro gap_step_then[OF gap_step_adjust[OF d3]]) (auto simp: amt_at_neg)
  then show "deal_round i d d'" using wf_deals[OF wf] p store_all_put_offer[OF _ p(1), of _ "?p p"]
    by (simp add: deal_round_def eq same store_find_del)
qed

lemma auto_repay_round:
  assumes "auto_repay fc i c d = Inr d'"
  shows "deal_round i d d'"
  using assms
proof (cases rule: auto_repay_cases)
  case (repaid op)
  note tgt = auto_repay_operation_target[OF repaid(1)]
  have cons: "conserves d d'"
    by (rule credit_deal_repay_ev.operation_conserves[OF repaid(2) repaid(3)[unfolded run_credit_deal_repay_def]])
  from repaid(3)[unfolded run_credit_deal_repay_def] obtain fs ev d1 d2 where frame: "fee_frame d d1"
    and d2: "credit_deal_repay_do_apply fc op ev fs d1 = Inr d2"
    and d': "adjust_balance fc (cdr_account op) (ASSET (- amount (cdr_fee op)) (asset_id (cdr_fee op))) d2 = Inr d'"
    by (rule credit_deal_repay_ev.operation_steps)
  from d2 obtain e p p' where e: "store_find (credit_offers d1) e = Some p" "credit_offers d2 = store_put (credit_offers d1) e p'"
    "coo_enabled p' = coo_enabled p" "coo_auto_disable_time p' = coo_auto_disable_time p" "head_block_time d2 = head_block_time d1"
    by (rule credit_deal_repay_applyE)
      (auto simp: adjust_balance_fields deal_repay_def split: if_splits dest!: summary_repay_only)
  from repay_deals[OF repaid(3)] tgt wf_deals[of d] have "wf_db d \<Longrightarrow> j \<noteq> i \<Longrightarrow>
      store_find (credit_deals d') j = store_find (credit_deals d) j" for j
    by (auto simp: store_find_del store_find_put)
  then show ?thesis using cons adjust_balance_fields[OF d'] fee_frame_fields[OF frame] e store_all_put_offer[OF _ e(1,3,4)]
    by (auto simp: deal_round_def)
qed simp

lemma round_then:
  assumes "deal_round i d d1" "rounds_done d1 d'" "store_find (credit_deals d) i = Some c"
    "cdo_latest_repay_time c \<le> head_block_time d"
  shows "rounds_done d d'"
proof -
  have time: "head_block_time d1 = head_block_time d" using assms(1) by (simp add: deal_round_def)
  have "conserves d d'" using assms(1,2) by (auto simp: deal_round_def rounds_done_def intro: conserves_trans)
  moreover have "store_find (credit_deals d') j = Some e" if "wf_db d" "store_find (credit_deals d) j = Some e"
    "head_block_time d < cdo_latest_repay_time e" for j e
  proof -
    have "j \<noteq> i" using that assms(3,4) by auto
    with that assms(1,2) time show ?thesis by (auto simp: deal_round_def rounds_done_def gap_step_def)
  qed
  ultimately show ?thesis using assms(1,2) time by (auto simp: deal_round_def rounds_done_def gap_step_def)
qed

lemma process_deals_done:
  "wf_db d \<Longrightarrow> process_deals fc d = Inr d' \<Longrightarrow> rounds_done d d'"
proof (induction "length (items (credit_deals d))" arbitrary: d rule: less_induct)
  case less
  note prems = less.prems(2)[unfolded process_deals.simps[of fc d]]
  show ?case
  proof (cases "store_first cdo_latest_repay_time (credit_deals d)")
    case None
    with prems have "d' = d" by (simp del: store_first_None)
    then show ?thesis using None by (simp add: rounds_done_def store_all_def)
  next
    case (Some q)
    obtain i c where q: "q = (i, c)" by (cases q)
    note first = Some[unfolded q]
    have mem: "(i, c) \<in> set (items (credit_deals d))" by (rule store_first_itemsD[OF first])
    have find: "store_find (credit_deals d) i = Some c" by (rule store_wf_find[OF wf_deals[OF less.prems(1)] mem])
    show ?thesis
    proof (cases "cdo_latest_repay_time c \<le> head_block_time d")
      case False
      then have "store_all (\<lambda>e. head_block_time d < cdo_latest_repay_time e) (credit_deals d)"
        using store_first_le[OF first] by (force simp: store_all_def list_all_iff)
      then show ?thesis using prems False first by (simp add: rounds_done_def)
    next
      case True
      from prems True first obtain d1 where d1: "auto_repay fc i c d = Inr d1"
        and rest: "(case store_find (credit_deals d1) i of None \<Rightarrow> process_deals fc d1
          | Some e \<Rightarrow> (case expire_deal fc i e d1 of Inl e \<Rightarrow> Inl e | Inr d2 \<Rightarrow> process_deals fc d2)) = Inr d'"
        by (auto split: sum.splits)
      note r1 = auto_repay_round[OF d1]
      have wf1: "wf_db d1" using r1 less.prems(1) by (simp add: deal_round_def gap_step_def)
      show ?thesis
      proof (cases "store_find (credit_deals d1) i")
        case None
        have "rounds_done d1 d'"
          by (rule less.hyps[OF auto_repay_length(2)[OF d1 mem None] wf1]) (use rest None in simp)
        then show ?thesis by (rule round_then[OF r1 _ find True])
      next
        case (Some e)
        with rest obtain d2 where d2: "expire_deal fc i e d1 = Inr d2" "process_deals fc d2 = Inr d'"
          by (auto split: sum.splits)
        note r2 = deal_round_trans[OF r1 expire_deal_round[OF d2(1) Some wf1]]
        have wf2: "wf_db d2" using r2 less.prems(1) by (simp add: deal_round_def gap_step_def)
        have len: "length (items (credit_deals d2)) < length (items (credit_deals d))"
          using expire_deal_length[OF d2(1) Some] auto_repay_length(1)[OF d1 mem] by simp
        show ?thesis by (rule round_then[OF r2 less.hyps[OF len wf2 d2(2)] find True])
      qed
    qed
  qed
qed

lemma update_credit_done:
  assumes "wf_db d" "balances_nonneg d" "update_credit_offers_and_deals fc d = Inr d'"
  shows "wf_db d' \<and> balances_nonneg d' \<and> (\<forall>a. supply_gap d' a = supply_gap d a) \<and>
    store_all (\<lambda>c. head_block_time d < cdo_latest_repay_time c) (credit_deals d') \<and>
    store_all (\<lambda>p. \<not> offer_due (head_block_time d) p) (credit_offers d') \<and>
    (\<forall>i c. store_find (credit_deals d) i = Some c \<longrightarrow> head_block_time d < cdo_latest_repay_time c \<longrightarrow>
       store_find (credit_deals d') i = Some c)"
proof -
  let ?d = "disable_due_offers d"
  have same: "head_block_time ?d = head_block_time d" "credit_deals ?d = credit_deals d"
    by (simp_all add: disable_due_offers_def)
  have dis: "wf_db ?d" "balances_nonneg ?d" "\<And>a. supply_gap ?d a = supply_gap d a"
    using disable_due_offers_conserves[of d] assms by (auto simp: gap_step_def)
  from process_deals_done[OF dis(1) assms(3)[unfolded update_credit_offers_and_deals_def]] dis disable_due_offers_live[of d]
  show ?thesis by (auto simp: rounds_done_def gap_step_def same)
qed

end

end
