(* ===== verification/Credit_Properties.thy ===== *)
theory Credit_Properties
  imports Credit_Expiry
begin

text \<open>
  The properties of credit offers and deals: what accepting an offer and repaying a deal do, how
  much an automatic repayment pays, and what the processing of each block leaves behind.
\<close>

section \<open>Accepting an offer\<close>

context fc_safe
begin

lemmas credit_offer_accept_steps = credit_offer_accept_ev.operation_steps
lemmas credit_deal_repay_steps = credit_deal_repay_ev.operation_steps

lemma credit_offer_accept_run:
  assumes "wf_db d" "credit_offer_accept_validate op = Inr ()" "run_credit_offer_accept fc req op d = Inr d'"
    and p: "store_find (credit_offers d) (coa_offer_id op) = Some p"
    and price: "map_of (coo_acceptable_collateral p) (asset_id (coa_collateral op)) = Some r" "wf_price r"
      "asset_id (base r) = coo_asset_type p"
  shows "coo_enabled p \<and> amount (coa_borrow_amount op) \<le> coo_current_balance p \<and>
    amount (coa_borrow_amount op) * amount (quote r) \<le> amount (coa_collateral op) * amount (base r) \<and>
    store_find (credit_offers d') (coa_offer_id op) =
      Some (p\<lparr>coo_current_balance := coo_current_balance p - amount (coa_borrow_amount op)\<rparr>) \<and>
    (\<exists>t. store_find (credit_deals d') (next_id (credit_deals d)) = Some (new_credit_deal_object op p t) \<and>
      head_block_time d < t \<and> int t \<le> int (head_block_time d) + GRAPHENE_MAX_CREDIT_DEAL_SECS) \<and>
    (\<forall>owner a. amount (get_balance d' owner a) = amount (get_balance d owner a)
      - (if owner = coa_borrower op \<and> a = asset_id (coa_collateral op) then amount (coa_collateral op) else 0)
      + (if owner = coa_borrower op \<and> a = coo_asset_type p then amount (coa_borrow_amount op) else 0)
      - (if owner = coa_borrower op \<and> a = asset_id (coa_fee op) then amount (coa_fee op) else 0))"
proof -
  let ?x = "amount (coa_borrow_amount op)"
  have val: "0 < ?x" using assms(2) by (auto simp: credit_offer_accept_validate_def)
  from assms(3) obtain fs has d1 d2 where ev: "credit_offer_accept_do_evaluate fc op fs d = Inr has"
    and frame: "fee_frame d d1" and ap: "credit_offer_accept_do_apply fc op has fs d1 = Inr d2"
    and d': "adjust_balance fc (coa_borrower op) (ASSET (- amount (coa_fee op)) (asset_id (coa_fee op))) d2 = Inr d'"
    unfolding run_credit_offer_accept_def by (rule credit_offer_accept_steps)
  note fr = fee_frame_fields[OF frame] and fd = adjust_balance_fields[OF d']
  from ev p price(1) have e: "coo_enabled p" "coo_asset_type p = asset_id (coa_borrow_amount op)"
    and "\<exists>q. multiply_and_round_up (coa_borrow_amount op) r = Inr q \<and> amount q \<le> amount (coa_collateral op)"
    by (auto simp: credit_offer_accept_do_evaluate_def)
  then obtain q where q: "multiply_and_round_up (coa_borrow_amount op) r = Inr q" "amount q \<le> amount (coa_collateral op)" by blast
  from ap obtain t e1 e2 where
    e1: "debit fc (coa_borrower op) (coa_collateral op) d1 = Inr e1"
    and e2: "adjust_balance fc (coa_borrower op) (coa_borrow_amount op) e1 = Inr e2"
    and s: "summary_borrow fc op (p\<lparr>coo_current_balance := coo_current_balance p - ?x\<rparr>) has
       (e2\<lparr>credit_offers := store_put (credit_offers e2) (coa_offer_id op) (p\<lparr>coo_current_balance := coo_current_balance p - ?x\<rparr>),
           credit_deals := store_add (credit_deals e2) (new_credit_deal_object op p t)\<rparr>) = Inr d2"
    and t: "?x \<le> coo_current_balance p" "head_block_time d1 < t"
      "tps_diff fc t (head_block_time d1) \<le> fc_days GRAPHENE_MAX_CREDIT_DEAL_DAYS"
    by (rule credit_offer_accept_applyE) (use p fr in auto)
  from summary_borrow_only[OF s] obtain ss where
    d2: "d2 = e2\<lparr>credit_offers := store_put (credit_offers e2) (coa_offer_id op) (p\<lparr>coo_current_balance := coo_current_balance p - ?x\<rparr>),
           credit_deals := store_add (credit_deals e2) (new_credit_deal_object op p t), credit_deal_summaries := ss\<rparr>" by auto
  have same: "credit_offers e2 = credit_offers d" "credit_deals e2 = credit_deals d"
    using e1 e2 fr by (auto simp: adjust_balance_fields)
  have pok: "offer_ok p" using store_all_find[OF wf_credit(1)[OF assms(1)] p] .
  then have "in_int64 ?x" using t(1) val by (auto simp: offer_ok_def in_int64_def)
  with multiply_and_round_up_base(1)[OF price(2) _ _ _ q(1)] e(2) price(3) val q(2)
  have "ceil_div (?x * amount (quote r)) (amount (base r)) \<le> amount (coa_collateral op)" by simp
  then have cover: "?x * amount (quote r) \<le> amount (coa_collateral op) * amount (base r)"
    using ceil_div_le_iff wf_priceD(1)[OF price(2)] by simp
  have "get_balance d2 = get_balance e2" by (intro ext) (simp add: d2 get_balance_def get_account_balance_def)
  then have bal: "amount (get_balance d' owner a) = amount (get_balance d owner a)
      - (if owner = coa_borrower op \<and> a = asset_id (coa_collateral op) then amount (coa_collateral op) else 0)
      + (if owner = coa_borrower op \<and> a = coo_asset_type p then ?x else 0)
      - (if owner = coa_borrower op \<and> a = asset_id (coa_fee op) then amount (coa_fee op) else 0)" for owner a
    using adjust_balance_get[OF d', of owner a] adjust_balance_get[OF e2, of owner a] e1 fee_frame_balance[OF frame]
    by (auto simp: adjust_balance_get e(2))
  have "store_find (credit_deals d') (next_id (credit_deals d)) = Some (new_credit_deal_object op p t)"
    using fd by (simp add: d2 same store_find_add[OF wf_deals[OF assms(1)]])
  moreover have "store_find (credit_offers d') (coa_offer_id op) = Some (p\<lparr>coo_current_balance := coo_current_balance p - ?x\<rparr>)"
    using fd p by (simp add: d2 same store_find_put_same)
  moreover have "head_block_time d < t" "int t \<le> int (head_block_time d) + GRAPHENE_MAX_CREDIT_DEAL_SECS"
    using t fr by (auto simp: fc_days_def GRAPHENE_MAX_CREDIT_DEAL_SECS_def)
  ultimately show ?thesis using e t cover bal by blast
qed

section \<open>Repaying a deal\<close>

lemma deal_repay_exact:
  assumes "deal_repay fc k amt c d = Inr (released, d')" "deal_ok c" "0 < amt" "amt \<le> cdo_debt_amount c"
    "store_find (credit_deals d) k = Some c" "store_wf (credit_deals d)"
  shows "released = (if amt = cdo_debt_amount c then cdo_collateral_amount c
      else amt * cdo_collateral_amount c div cdo_debt_amount c)"
    "store_find (credit_deals d') k = (if amt = cdo_debt_amount c then None
      else Some (c\<lparr>cdo_debt_amount := cdo_debt_amount c - amt, cdo_collateral_amount := cdo_collateral_amount c - released\<rparr>))"
    "cdo_collateral_amount c * (cdo_debt_amount c - amt) \<le> (cdo_collateral_amount c - released) * cdo_debt_amount c"
    "\<exists>ds. d' = d\<lparr>credit_deals := ds\<rparr>"
proof -
  have pos: "0 < cdo_debt_amount c" using assms(2) by (simp add: deal_ok_def)
  have fl: "amt * cdo_collateral_amount c div cdo_debt_amount c * cdo_debt_amount c \<le> amt * cdo_collateral_amount c"
    by (rule floor_bounds(1)[OF pos])
  show "cdo_collateral_amount c * (cdo_debt_amount c - amt) \<le> (cdo_collateral_amount c - released) * cdo_debt_amount c"
    using assms(1-4) by (cases rule: deal_repayE) (use fl in \<open>auto simp: algebra_simps\<close>)
  show "released = (if amt = cdo_debt_amount c then cdo_collateral_amount c
      else amt * cdo_collateral_amount c div cdo_debt_amount c)"
    using assms(1-4) by (cases rule: deal_repayE) simp_all
  show "\<exists>ds. d' = d\<lparr>credit_deals := ds\<rparr>" using assms(1-4) by (cases rule: deal_repayE) blast+
  show "store_find (credit_deals d') k = (if amt = cdo_debt_amount c then None
      else Some (c\<lparr>cdo_debt_amount := cdo_debt_amount c - amt, cdo_collateral_amount := cdo_collateral_amount c - released\<rparr>))"
    using assms(1-4)
    by (cases rule: deal_repayE) (use assms(5,6) in \<open>auto simp: store_find_del store_find_put_same\<close>)
qed

lemma credit_deal_repay_run:
  assumes "wf_db d" "credit_deal_repay_validate op = Inr ()" "run_credit_deal_repay fc req op d = Inr d'"
    and c: "store_find (credit_deals d) (cdr_deal_id op) = Some c" "cdo_fee_rate c < 2 ^ 32"
    and p: "store_find (credit_offers d) (cdo_offer_id c) = Some p"
    and amt: "amt = amount (cdr_repay_amount op)" "fee = amount (cdr_credit_fee op)"
    and rel: "released = (if amt = cdo_debt_amount c then cdo_collateral_amount c
      else amt * cdo_collateral_amount c div cdo_debt_amount c)"
  shows "cdo_borrower c = cdr_account op \<and> amt \<le> cdo_debt_amount c \<and>
    amt * int (cdo_fee_rate c) \<le> fee * GRAPHENE_FEE_RATE_DENOM \<and>
    store_find (credit_offers d') (cdo_offer_id c) = Some (p\<lparr>coo_total_balance := coo_total_balance p + fee,
      coo_current_balance := coo_current_balance p + (amt + fee)\<rparr>) \<and>
    store_find (credit_deals d') (cdr_deal_id op) = (if amt = cdo_debt_amount c then None
      else Some (c\<lparr>cdo_debt_amount := cdo_debt_amount c - amt, cdo_collateral_amount := cdo_collateral_amount c - released\<rparr>)) \<and>
    cdo_collateral_amount c * (cdo_debt_amount c - amt) \<le> (cdo_collateral_amount c - released) * cdo_debt_amount c \<and>
    (\<forall>owner a. amount (get_balance d' owner a) = amount (get_balance d owner a)
      - (if owner = cdr_account op \<and> a = cdo_debt_asset c then amt + fee else 0)
      + (if owner = cdr_account op \<and> a = cdo_collateral_asset c then released else 0)
      - (if owner = cdr_account op \<and> a = asset_id (cdr_fee op) then amount (cdr_fee op) else 0))"
proof -
  have val: "0 < amt" "0 \<le> fee" using assms(2) by (auto simp: credit_deal_repay_validate_def amt)
  have cok: "deal_ok c" by (rule store_all_find[OF wf_credit(2)[OF assms(1)] c(1)])
  have pok: "offer_ok p" by (rule store_all_find[OF wf_credit(1)[OF assms(1)] p])
  from assms(3) obtain fs ev d1 d2 where ev: "credit_deal_repay_do_evaluate op fs d = Inr ev"
    and frame: "fee_frame d d1" and ap: "credit_deal_repay_do_apply fc op ev fs d1 = Inr d2"
    and d': "adjust_balance fc (cdr_account op) (ASSET (- amount (cdr_fee op)) (asset_id (cdr_fee op))) d2 = Inr d'"
    unfolding run_credit_deal_repay_def by (rule credit_deal_repay_steps)
  note fr = fee_frame_fields[OF frame] and fd = adjust_balance_fields[OF d']
  from ev c have e: "cdo_borrower c = cdr_account op" "cdo_debt_asset c = asset_id (cdr_repay_amount op)"
    "amt \<le> cdo_debt_amount c" "required_fund_fee amt (cdo_fee_rate c) \<le> u128 fee"
    by (auto simp: credit_deal_repay_do_evaluate_def amt)
  let ?p = "p\<lparr>coo_total_balance := coo_total_balance p + fee, coo_current_balance := coo_current_balance p + (amt + fee)\<rparr>"
  from ap obtain e1 e2 e3 s rl where
    e1: "adjust_balance fc (cdr_account op) (ASSET (- (amt + fee)) (asset_id (cdr_repay_amount op))) d1 = Inr e1"
    and range: "in_int64 (coo_total_balance p + fee)"
    and e2: "summary_repay fc (cdo_offer_id c) (cdr_account op) amt s
       (e1\<lparr>credit_offers := store_put (credit_offers e1) (cdo_offer_id c) ?p\<rparr>) = Inr e2"
    and e3: "deal_repay fc (cdr_deal_id op) amt c e2 = Inr (rl, e3)"
    and fin: "adjust_balance fc (cdr_account op) (ASSET rl (cdo_collateral_asset c)) e3 = Inr d2"
    by (rule credit_deal_repay_applyE) (use c p fr amt in auto)
  from summary_repay_only[OF e2] obtain ss where
    e2': "e2 = e1\<lparr>credit_offers := store_put (credit_offers e1) (cdo_offer_id c) ?p, credit_deal_summaries := ss\<rparr>" by auto
  have same: "credit_offers e1 = credit_offers d" "credit_deals e1 = credit_deals d"
    using e1 fr by (auto simp: adjust_balance_fields)
  have find2: "store_find (credit_deals e2) (cdr_deal_id op) = Some c" "store_wf (credit_deals e2)"
    using c(1) wf_deals[OF assms(1)] by (simp_all add: e2' same)
  note dr = deal_repay_exact[OF e3 cok val(1) e(3) find2]
  have rl: "rl = released" using dr(1) rel by simp
  from dr(4) obtain ds where e3': "e3 = e2\<lparr>credit_deals := ds\<rparr>" by blast
  have "in_int64 amt" using e(3) cok val by (auto simp: deal_ok_def in_int64_def)
  moreover have "u128 fee = fee" using range pok val by (auto simp: offer_ok_def in_int64_def u128_id)
  ultimately have "ceil_div (amt * int (cdo_fee_rate c)) GRAPHENE_FEE_RATE_DENOM \<le> fee"
    using e(4) val c(2) by (simp add: required_fund_fee_exact)
  then have feeok: "amt * int (cdo_fee_rate c) \<le> fee * GRAPHENE_FEE_RATE_DENOM"
    by (subst (asm) ceil_div_le_iff) (simp_all add: GRAPHENE_FEE_RATE_DENOM_def)
  have "get_balance e3 = get_balance e1" by (intro ext) (simp add: e3' e2' get_balance_def get_account_balance_def)
  then have bal: "amount (get_balance d' owner a) = amount (get_balance d owner a)
      - (if owner = cdr_account op \<and> a = cdo_debt_asset c then amt + fee else 0)
      + (if owner = cdr_account op \<and> a = cdo_collateral_asset c then released else 0)
      - (if owner = cdr_account op \<and> a = asset_id (cdr_fee op) then amount (cdr_fee op) else 0)" for owner a
    using adjust_balance_get[OF d', of owner a] adjust_balance_get[OF fin, of owner a]
      adjust_balance_get[OF e1, of owner a] fee_frame_balance[OF frame] by (simp add: e rl)
  have "store_find (credit_offers d') (cdo_offer_id c) = Some ?p"
    using fd adjust_balance_fields[OF fin] p by (simp add: e3' e2' same store_find_put_same)
  moreover have "store_find (credit_deals d') (cdr_deal_id op) = (if amt = cdo_debt_amount c then None
      else Some (c\<lparr>cdo_debt_amount := cdo_debt_amount c - amt, cdo_collateral_amount := cdo_collateral_amount c - released\<rparr>))"
    using fd adjust_balance_fields[OF fin] dr(2) by (simp add: rl)
  ultimately show ?thesis using e(1,3) feeok dr(3) bal by (simp add: rl)
qed

end

section \<open>Automatic repayment\<close>

lemma partial_repayment_amounts:
  assumes ok: "deal_ok c" and bal: "0 \<le> bal" "in_int64 bal"
    and rate: "GRAPHENE_FEE_RATE_DENOM + int (cdo_fee_rate c) < 2 ^ 32"
    and short: "bal < cdo_debt_amount c + ceil_div (cdo_debt_amount c * int (cdo_fee_rate c)) GRAPHENE_FEE_RATE_DENOM"
  shows "\<exists>amt fee. partial_repayment bal c = Inr (amt, fee) \<and> 0 \<le> amt \<and> amt < cdo_debt_amount c \<and>
    fee = ceil_div (amt * int (cdo_fee_rate c)) GRAPHENE_FEE_RATE_DENOM \<and> amt + fee \<le> bal \<and>
    amt * cdo_collateral_amount c div cdo_debt_amount c =
      (bal * GRAPHENE_FEE_RATE_DENOM div (GRAPHENE_FEE_RATE_DENOM + int (cdo_fee_rate c))) *
      cdo_collateral_amount c div cdo_debt_amount c"
proof -
  define D where "D = GRAPHENE_FEE_RATE_DENOM"
  define R where "R = int (cdo_fee_rate c)"
  define debt where "debt = cdo_debt_amount c"
  define coll where "coll = cdo_collateral_amount c"
  define x where "x = bal * D div (D + R)"
  define y where "y = x * coll div debt"
  define z where "z = ceil_div (y * debt) coll"
  have D: "0 < D" "D = 1000000" "0 \<le> R" "R < 2 ^ 32" "D + R < 2 ^ 32"
    using rate by (simp_all add: D_def R_def GRAPHENE_FEE_RATE_DENOM_def)
  have pos: "0 < debt" "in_int64 debt" "0 < coll" "in_int64 coll" using ok by (simp_all add: deal_ok_def debt_def coll_def)
  have DR: "0 < D + R" using D by simp
  have x0: "0 \<le> x" using bal D by (simp add: x_def pos_imp_zdiv_nonneg_iff)
  have xD: "x * (D + R) \<le> bal * D" unfolding x_def by (rule floor_bounds(1)[OF DR])
  have fee_le: "w + ceil_div (w * R) D \<le> bal" if "w \<le> x" for w
  proof -
    have "w * (D + R) \<le> x * (D + R)" using that DR by simp
    then have "w * R \<le> (bal - w) * D" using xD by (simp add: algebra_simps)
    then show ?thesis using ceil_div_le_iff[OF D(1), of "w * R" "bal - w"] by simp
  qed
  have lt: "x < debt"
  proof (rule ccontr)
    assume "\<not> x < debt"
    then have "debt + ceil_div (debt * R) D \<le> bal" by (intro fee_le) simp
    then show False using short by (simp add: D_def R_def debt_def)
  qed
  have y0: "0 \<le> y" using x0 pos by (simp add: y_def pos_imp_zdiv_nonneg_iff)
  have yd: "y * debt \<le> x * coll" unfolding y_def by (rule floor_bounds(1)[OF pos(1)])
  have zx: "z \<le> x" unfolding z_def using ceil_div_le_iff[OF pos(3), of "y * debt" x] yd by simp
  have z0: "0 \<le> z" unfolding z_def using y0 pos by (intro ceil_div_nonneg) simp_all
  have inx: "in_int64 x" "in_int64 z" using x0 z0 zx lt pos(2) by (auto simp: in_int64_def)
  have b1: "bal * D < 2 ^ 126" using int64_prod_bound[of bal D] bal D by (simp add: in_int64_def)
  have b2: "x * coll < 2 ^ 126" using int64_prod_bound[of x coll] inx x0 pos by simp
  have ne: "D + R \<noteq> 0" "debt \<noteq> 0" "coll \<noteq> 0" "(D + R) mod 4294967296 = D + R" using DR D pos by simp_all
  have u: "u128 bal = bal" "u128 debt = debt" "u128 coll = coll" "u128 z = z"
    using bal pos inx z0 by (simp_all add: u128_id in_int64_def)
  have m1: "u128_mul bal D = bal * D" using b1 bal D by (simp add: u128_mul_id)
  have m2: "u128_mul x coll = x * coll" using b2 x0 pos by (simp add: u128_mul_id)
  have m3: "u128_mul y debt = y * debt" using yd b2 y0 pos by (simp add: u128_mul_id)
  have m4: "u128_sub (u128_add (y * debt) coll) 1 div coll = z"
  proof -
    have "0 \<le> y * debt" "coll < 2 ^ 63" using y0 pos by (simp_all add: in_int64_def)
    then have "u128_add (y * debt) coll = y * debt + coll" "u128_sub (y * debt + coll) 1 = y * debt + coll - 1"
      using yd b2 pos by (intro u128_add_id u128_sub_id; simp)+
    then show ?thesis by (simp add: z_def ceil_div_def)
  qed
  have "partial_repayment bal c = Inr (z, required_fund_fee z (cdo_fee_rate c))"
    unfolding partial_repayment_def checked_div_def
    by (simp add: D_def[symmetric] R_def[symmetric] debt_def[symmetric] coll_def[symmetric] u m1 ne
        x_def[symmetric] m2 y_def[symmetric] m3 m4)
  moreover have "required_fund_fee z (cdo_fee_rate c) = ceil_div (z * R) D"
    using required_fund_fee_exact[OF z0 inx(2), of "cdo_fee_rate c"] D(4) by (simp add: R_def D_def)
  moreover have "z * coll div debt = y"
  proof (rule antisym)
    show "z * coll div debt \<le> y" unfolding y_def using zx pos by (intro zdiv_mono1) simp_all
    have "y * debt \<le> z * coll" unfolding z_def by (rule ceil_div_bounds(1)[OF pos(3)])
    then show "y \<le> z * coll div debt" using le_div_iff_mult_le[OF pos(1)] by simp
  qed
  ultimately show ?thesis using z0 zx lt fee_le[OF zx]
    by (auto simp: D_def R_def debt_def coll_def x_def y_def)
qed

section \<open>Properties\<close>

text \<open>
  Accepting a credit offer is only possible while the offer is enabled, gives the borrower exactly
  the borrowed amount out of what is left in the offer, and takes exactly the collateral, which covers
  the borrowed amount at the price of the offer without rounding in favour of the borrower; the new deal
  records the loan and has to be repaid in the future, within the maximum duration.
\<close>

theorem credit_accept_exact:
  assumes "fc_safe fc" "wf_db d" "credit_offer_accept_validate op = Inr ()" "run_credit_offer_accept fc req op d = Inr d'"
    and "store_find (credit_offers d) (coa_offer_id op) = Some p"
    and "map_of (coo_acceptable_collateral p) (asset_id (coa_collateral op)) = Some r" "wf_price r"
      "asset_id (base r) = coo_asset_type p"
  shows "coo_enabled p \<and> amount (coa_borrow_amount op) \<le> coo_current_balance p \<and>
    amount (coa_borrow_amount op) * amount (quote r) \<le> amount (coa_collateral op) * amount (base r) \<and>
    store_find (credit_offers d') (coa_offer_id op) =
      Some (p\<lparr>coo_current_balance := coo_current_balance p - amount (coa_borrow_amount op)\<rparr>) \<and>
    (\<exists>t. store_find (credit_deals d') (next_id (credit_deals d)) = Some (new_credit_deal_object op p t) \<and>
      head_block_time d < t \<and> int t \<le> int (head_block_time d) + GRAPHENE_MAX_CREDIT_DEAL_SECS) \<and>
    (\<forall>owner a. amount (get_balance d' owner a) = amount (get_balance d owner a)
      - (if owner = coa_borrower op \<and> a = asset_id (coa_collateral op) then amount (coa_collateral op) else 0)
      + (if owner = coa_borrower op \<and> a = coo_asset_type p then amount (coa_borrow_amount op) else 0)
      - (if owner = coa_borrower op \<and> a = asset_id (coa_fee op) then amount (coa_fee op) else 0))"
  by (rule fc_safe.credit_offer_accept_run[OF assms])

definition sample_offer :: credit_offer_object where
  "sample_offer = \<lparr>coo_owner_account = 8, coo_asset_type = 0, coo_total_balance = 100, coo_current_balance = 60,
     coo_fee_rate = 30000, coo_max_duration_seconds = 86400, coo_min_deal_amount = 1, coo_enabled = True,
     coo_auto_disable_time = 1700000000,
     coo_acceptable_collateral = [(2, \<lparr>base = ASSET 1 0, quote = ASSET 2 2\<rparr>)], coo_acceptable_borrowers = []\<rparr>"

definition sample_deal :: "nat \<Rightarrow> int \<Rightarrow> nat \<Rightarrow> credit_deal_object" where
  "sample_deal b x t = \<lparr>cdo_borrower = b, cdo_offer_id = 0, cdo_offer_owner = 8, cdo_debt_asset = 0,
     cdo_debt_amount = x, cdo_collateral_asset = 2, cdo_collateral_amount = 2 * x, cdo_fee_rate = 30000,
     cdo_latest_repay_time = t, cdo_auto_repay = 1\<rparr>"

definition sample_summary :: "nat \<Rightarrow> int \<Rightarrow> credit_deal_summary_object" where
  "sample_summary b x = \<lparr>cso_borrower = b, cso_offer_id = 0, cso_offer_owner = 8, cso_debt_asset = 0,
     cso_total_debt_amount = x\<rparr>"

text \<open>Account 7 owes 30 and account 8 owes 10; account 7 also has some of the collateral asset.\<close>

definition credit_db :: database where
  "credit_db = (sample_db 1700000000)\<lparr>credit_offers := \<lparr>items = [(0, sample_offer)], next_id = 1\<rparr>,
     credit_deals := \<lparr>items = [(0, sample_deal 7 30 1699999999), (1, sample_deal 8 10 1699999998)], next_id = 2\<rparr>,
     credit_deal_summaries := \<lparr>items = [(0, sample_summary 7 30), (1, sample_summary 8 10)], next_id = 2\<rparr>,
     account_balances := \<lparr>items = [(0, \<lparr>abo_owner = 7, abo_asset_type = 0, abo_balance = 50, maintenance_flag = False\<rparr>),
       (1, \<lparr>abo_owner = 7, abo_asset_type = 2, abo_balance = 40, maintenance_flag = False\<rparr>)], next_id = 2\<rparr>\<rparr>"

lemma credit_db_wf: "wf_db credit_db" "balances_nonneg credit_db"
  by (auto simp: credit_db_def sample_offer_def sample_deal_def sample_summary_def sample_defs wf_defs wf_assets_def
      store_wf_def store_find_def store_all_def CORE_ASSET_def CORE_DYN_def offer_ok_def deal_ok_def in_int64_def
      credit_books_def deal_linked_def offer_debt_def borrower_debt_def summary_debt_def store_sum_def
      balances_nonneg_def split: if_splits)

lemma credit_db_finds:
  "store_find (credit_offers credit_db) 0 = Some sample_offer"
  "store_find (credit_deals credit_db) 0 = Some (sample_deal 7 30 1699999999)"
  "get_balance credit_db 7 0 = ASSET 50 0" "get_balance credit_db 7 2 = ASSET 40 2" "head_block_time credit_db = 1700000000"
  by (simp_all add: credit_db_def store_find_def sample_defs get_balance_def get_account_balance_def store_search_def abo_key_def)

lemmas credit_eval = credit_db_def sample_offer_def sample_deal_def sample_summary_def authorized_def if_valid_def
  summary_key_def summary_repay_def summary_borrow_def deal_repay_def required_fund_fee_def u128_mul_def u128_add_def
  u128_sub_def u128_def to_int64_def GRAPHENE_FEE_RATE_DENOM_def GRAPHENE_MAX_SHARE_SUPPLY_def run_eval sample_defs fc_ref_simps

definition sample_accept :: credit_offer_accept_operation where
  "sample_accept = \<lparr>coa_fee = ASSET 3 0, coa_borrower = 7, coa_offer_id = 0, coa_borrow_amount = ASSET 15 0,
     coa_collateral = ASSET 31 2, coa_max_fee_rate = 30000, coa_min_duration_seconds = 3600, coa_auto_repay = None\<rparr>"

theorem credit_accept_exact_witness:
  "\<exists>d'. run_credit_offer_accept fc_ref (Some 3) sample_accept credit_db = Inr d' \<and>
    amount (get_balance d' 7 0) = 62 \<and> amount (get_balance d' 7 2) = 9"
proof -
  have "\<not> isl (run_credit_offer_accept fc_ref (Some 3) sample_accept credit_db)"
    by (simp add: run_credit_offer_accept_def sample_accept_def credit_offer_accept_do_evaluate_def
        credit_offer_accept_do_apply_def new_credit_deal_object_def credit_repay_time_def tps_maximum_def
        multiply_and_round_up_def set_if_def fc_days_def GRAPHENE_MAX_CREDIT_DEAL_DAYS_def credit_eval cong: eval_congs)
  then obtain d' where run: "run_credit_offer_accept fc_ref (Some 3) sample_accept credit_db = Inr d'"
    by (cases "run_credit_offer_accept fc_ref (Some 3) sample_accept credit_db") auto
  have h: "credit_offer_accept_validate sample_accept = Inr ()"
    "store_find (credit_offers credit_db) (coa_offer_id sample_accept) = Some sample_offer"
    "map_of (coo_acceptable_collateral sample_offer) (asset_id (coa_collateral sample_accept)) =
       Some \<lparr>base = ASSET 1 0, quote = ASSET 2 2\<rparr>"
    "wf_price \<lparr>base = ASSET 1 0, quote = ASSET 2 2\<rparr>"
    "asset_id (base \<lparr>base = ASSET 1 0, quote = ASSET 2 2\<rparr>) = coo_asset_type sample_offer"
    using credit_db_finds(1)
    by (simp_all add: sample_accept_def credit_offer_accept_validate_def if_valid_def sample_offer_def wf_price_def
        price_validate_def in_int64_def)
  from credit_accept_exact[OF fc_ref.fc_safe_axioms credit_db_wf(1) h(1) run h(2-5)] run credit_db_finds
  show ?thesis by (simp add: sample_accept_def sample_offer_def)
qed

text \<open>
  C37: a repayment of a credit deal is made by the borrower, never exceeds the debt, and comes with a
  credit fee that covers the fee rate, rounded up. Both go to the offer, exactly. A full repayment ends the
  deal and releases all collateral; a partial one releases the proportional part, rounded down, so the
  collateral that remains covers the remaining debt at least as well as before.
\<close>

theorem credit_repay_exact:
  assumes "fc_safe fc" "wf_db d" "credit_deal_repay_validate op = Inr ()" "run_credit_deal_repay fc req op d = Inr d'"
    and "store_find (credit_deals d) (cdr_deal_id op) = Some c" "cdo_fee_rate c < 2 ^ 32"
    and "store_find (credit_offers d) (cdo_offer_id c) = Some p"
    and "amt = amount (cdr_repay_amount op)" "fee = amount (cdr_credit_fee op)"
    and "released = (if amt = cdo_debt_amount c then cdo_collateral_amount c
      else amt * cdo_collateral_amount c div cdo_debt_amount c)"
  shows "cdo_borrower c = cdr_account op \<and> amt \<le> cdo_debt_amount c \<and>
    amt * int (cdo_fee_rate c) \<le> fee * GRAPHENE_FEE_RATE_DENOM \<and>
    store_find (credit_offers d') (cdo_offer_id c) = Some (p\<lparr>coo_total_balance := coo_total_balance p + fee,
      coo_current_balance := coo_current_balance p + (amt + fee)\<rparr>) \<and>
    store_find (credit_deals d') (cdr_deal_id op) = (if amt = cdo_debt_amount c then None
      else Some (c\<lparr>cdo_debt_amount := cdo_debt_amount c - amt, cdo_collateral_amount := cdo_collateral_amount c - released\<rparr>)) \<and>
    cdo_collateral_amount c * (cdo_debt_amount c - amt) \<le> (cdo_collateral_amount c - released) * cdo_debt_amount c \<and>
    (\<forall>owner a. amount (get_balance d' owner a) = amount (get_balance d owner a)
      - (if owner = cdr_account op \<and> a = cdo_debt_asset c then amt + fee else 0)
      + (if owner = cdr_account op \<and> a = cdo_collateral_asset c then released else 0)
      - (if owner = cdr_account op \<and> a = asset_id (cdr_fee op) then amount (cdr_fee op) else 0))"
  by (rule fc_safe.credit_deal_repay_run[OF assms])

definition sample_deal_repay :: credit_deal_repay_operation where
  "sample_deal_repay = \<lparr>cdr_fee = ASSET 3 0, cdr_account = 7, cdr_deal_id = 0, cdr_repay_amount = ASSET 20 0,
     cdr_credit_fee = ASSET 1 0\<rparr>"

theorem credit_repay_exact_witness:
  "\<exists>d'. run_credit_deal_repay fc_ref (Some 3) sample_deal_repay credit_db = Inr d' \<and>
    amount (get_balance d' 7 0) = 26 \<and> amount (get_balance d' 7 2) = 80 \<and>
    store_find (credit_deals d') 0 = Some (sample_deal 7 10 1699999999)"
proof -
  have "\<not> isl (run_credit_deal_repay fc_ref (Some 3) sample_deal_repay credit_db)"
    by (simp add: run_credit_deal_repay_def sample_deal_repay_def credit_deal_repay_do_evaluate_def
        credit_deal_repay_do_apply_def credit_eval cong: eval_congs)
  then obtain d' where run: "run_credit_deal_repay fc_ref (Some 3) sample_deal_repay credit_db = Inr d'"
    by (cases "run_credit_deal_repay fc_ref (Some 3) sample_deal_repay credit_db") auto
  let ?c = "sample_deal 7 30 1699999999"
  have h: "credit_deal_repay_validate sample_deal_repay = Inr ()"
    "store_find (credit_deals credit_db) (cdr_deal_id sample_deal_repay) = Some ?c" "cdo_fee_rate ?c < 2 ^ 32"
    "store_find (credit_offers credit_db) (cdo_offer_id ?c) = Some sample_offer"
    using credit_db_finds by (simp_all add: sample_deal_repay_def credit_deal_repay_validate_def sample_deal_def)
  from credit_repay_exact[OF fc_ref.fc_safe_axioms credit_db_wf(1) h(1) run h(2-4) refl refl refl] run credit_db_finds
  show ?thesis by (simp add: sample_deal_repay_def sample_deal_def)
qed

text \<open>
  When the balance of a borrower is not sufficient to repay a deal that is due with its fee, the
  automatic partial repayment asks for an amount that, with the fee for it, rounded up, does not exceed
  the balance, is less than the debt, and releases as much collateral as the largest affordable
  repayment; the 128-bit computation does not wrap. This holds when the fee rate plus the denominator
  fits into 32 bits.
\<close>

theorem auto_repay_affordable:
  assumes "deal_ok c" "0 \<le> bal" "in_int64 bal" "GRAPHENE_FEE_RATE_DENOM + int (cdo_fee_rate c) < 2 ^ 32"
    and "bal < cdo_debt_amount c + ceil_div (cdo_debt_amount c * int (cdo_fee_rate c)) GRAPHENE_FEE_RATE_DENOM"
  shows "\<exists>amt fee. partial_repayment bal c = Inr (amt, fee) \<and> 0 \<le> amt \<and> amt < cdo_debt_amount c \<and>
    fee = ceil_div (amt * int (cdo_fee_rate c)) GRAPHENE_FEE_RATE_DENOM \<and> amt + fee \<le> bal \<and>
    amt * cdo_collateral_amount c div cdo_debt_amount c =
      (bal * GRAPHENE_FEE_RATE_DENOM div (GRAPHENE_FEE_RATE_DENOM + int (cdo_fee_rate c))) *
      cdo_collateral_amount c div cdo_debt_amount c"
  by (rule partial_repayment_amounts[OF assms])

theorem auto_repay_affordable_witness:
  "\<exists>amt fee. partial_repayment 20 (sample_deal 7 30 0) = Inr (amt, fee) \<and> amt + fee \<le> 20 \<and> amt * 60 div 30 = 38"
  using auto_repay_affordable[of "sample_deal 7 30 0" 20]
  by (auto simp: sample_deal_def deal_ok_def in_int64_def GRAPHENE_FEE_RATE_DENOM_def ceil_div_def)

text \<open>
  C38: the divisor of the partial repayment is a sum of two 32-bit numbers. For the fee rate
  \<open>2 ^ 32 - 1000000\<close>, which no check excludes, it is zero: when a deal with this rate is the first that
  is due, allows partial repayment and the borrower cannot pay in full, processing the block divides by
  zero.
\<close>

theorem auto_repay_divides_by_zero:
  assumes "store_first cdo_latest_repay_time (credit_deals d) = Some (i, c)"
    and "cdo_latest_repay_time c \<le> head_block_time d" "cdo_auto_repay c = 2" "int (cdo_fee_rate c) = 2 ^ 32 - 1000000"
    and "u128 (amount (get_balance d (cdo_borrower c) (cdo_debt_asset c))) <
      u128_add (required_fund_fee (cdo_debt_amount c) (cdo_fee_rate c)) (u128 (cdo_debt_amount c))"
  shows "update_credit_offers_and_deals fc d = Inl Division_by_zero"
proof -
  have "(GRAPHENE_FEE_RATE_DENOM + int (cdo_fee_rate c)) mod 2 ^ 32 = 0"
    unfolding assms(4) by (simp add: GRAPHENE_FEE_RATE_DENOM_def)
  then have part: "partial_repayment x c = Inl Division_by_zero" for x
    by (simp add: partial_repayment_def checked_div_def)
  have bal: "get_balance (disable_due_offers d) = get_balance d"
    by (intro ext) (simp add: disable_due_offers_def get_balance_def get_account_balance_def)
  have "auto_repay fc i c (disable_due_offers d) = Inl Division_by_zero"
    using assms(3,5) part by (simp add: auto_repay_def auto_repay_operation_def bal no_auto_repayment_def only_full_repayment_def)
  moreover have "store_first cdo_latest_repay_time (credit_deals (disable_due_offers d)) = Some (i, c)"
    "head_block_time (disable_due_offers d) = head_block_time d"
    using assms(1) by (simp_all add: disable_due_offers_def)
  ultimately show ?thesis
    using assms(2) by (simp add: update_credit_offers_and_deals_def process_deals.simps[of fc "disable_due_offers d"])
qed

definition trap_deal :: credit_deal_object where
  "trap_deal = (sample_deal 7 30 1699999999)\<lparr>cdo_fee_rate := 4293967296, cdo_auto_repay := 2\<rparr>"

definition trap_db :: database where
  "trap_db = credit_db\<lparr>credit_deals := \<lparr>items = [(0, trap_deal), (1, sample_deal 8 10 1800000000)], next_id = 2\<rparr>\<rparr>"

theorem auto_repay_divides_by_zero_witness:
  "wf_db trap_db \<and> update_credit_offers_and_deals fc_ref trap_db = Inl Division_by_zero"
proof
  show "wf_db trap_db"
    by (auto simp: trap_db_def trap_deal_def credit_db_def sample_offer_def sample_deal_def sample_summary_def
        sample_defs wf_defs wf_assets_def store_wf_def store_find_def store_all_def CORE_ASSET_def CORE_DYN_def
        offer_ok_def deal_ok_def in_int64_def credit_books_def deal_linked_def offer_debt_def borrower_debt_def
        summary_debt_def store_sum_def split: if_splits)
  show "update_credit_offers_and_deals fc_ref trap_db = Inl Division_by_zero"
    by (rule auto_repay_divides_by_zero[where i = 0 and c = trap_deal])
      (simp_all add: trap_db_def trap_deal_def credit_db_def sample_deal_def sample_defs store_first_def
        required_fund_fee_def u128_add_def u128_sub_def u128_mul_def u128_def GRAPHENE_FEE_RATE_DENOM_def
        get_balance_def get_account_balance_def store_search_def abo_key_def)
qed

text \<open>
  C36: the processing of offers and deals in every block ends; when it does not fail, it keeps the books
  of offers, deals and summaries consistent, creates and destroys nothing, leaves no deal that is due
  and no enabled offer whose time is over, and does not touch the deals that are not due yet.
\<close>

theorem update_credit_offers_and_deals_correct:
  assumes "fc_safe fc" "wf_db d" "balances_nonneg d" "update_credit_offers_and_deals fc d = Inr d'"
  shows "wf_db d' \<and> balances_nonneg d' \<and> (\<forall>a. supply_gap d' a = supply_gap d a) \<and>
    store_all (\<lambda>c. head_block_time d < cdo_latest_repay_time c) (credit_deals d') \<and>
    store_all (\<lambda>p. \<not> offer_due (head_block_time d) p) (credit_offers d') \<and>
    (\<forall>i c. store_find (credit_deals d) i = Some c \<longrightarrow> head_block_time d < cdo_latest_repay_time c \<longrightarrow>
       store_find (credit_deals d') i = Some c)"
  by (rule fc_safe.update_credit_done[OF assms])

theorem update_credit_offers_and_deals_correct_witness:
  "\<exists>d'. update_credit_offers_and_deals fc_ref credit_db = Inr d' \<and> wf_db d' \<and> supply_gap d' 0 = supply_gap credit_db 0 \<and>
    credit_deals d' = \<lparr>items = [], next_id = 2\<rparr>"
proof -
  have run: "\<exists>d'. update_credit_offers_and_deals fc_ref credit_db = Inr d' \<and> credit_deals d' = \<lparr>items = [], next_id = 2\<rparr>"
    by (simp add: update_credit_offers_and_deals_def process_deals.simps disable_due_offers_def disable_offer_def offer_due_def
        store_first_def auto_repay_def auto_repay_operation_def repay_op_def no_auto_repayment_def only_full_repayment_def
        try_push_repay_def credit_deal_repay_validate_def expire_deal_def run_credit_deal_repay_def
        credit_deal_repay_do_evaluate_def credit_deal_repay_do_apply_def credit_eval cong: eval_congs)
  then obtain d' where "update_credit_offers_and_deals fc_ref credit_db = Inr d'"
    "credit_deals d' = \<lparr>items = [], next_id = 2\<rparr>" by blast
  with update_credit_offers_and_deals_correct[OF fc_ref.fc_safe_axioms credit_db_wf] show ?thesis by auto
qed

end
