(* ===== verification/Withdraw_Permission.thy ===== *)
theory Withdraw_Permission
  imports Fees
begin

text \<open>
  Withdrawal permissions, which let one account take a limited amount from another in every period:
  \<open>libraries/protocol/withdraw_permission.cpp\<close>, \<open>libraries/chain/withdraw_permission_evaluator.cpp\<close>,
  \<open>withdraw_permission_object::available_this_period\<close> and \<open>database::update_withdraw_permissions\<close>. The product
  \<open>periods_until_expiration * withdrawal_period_sec\<close> is a \<open>uint32_t\<close>; it wraps.
\<close>

section \<open>Operations\<close>

record withdraw_permission_create_operation =
  wpc_fee :: asset
  wpc_withdraw_from_account :: account_id_type
  wpc_authorized_account :: account_id_type
  wpc_withdrawal_limit :: asset
  wpc_withdrawal_period_sec :: nat
  wpc_periods_until_expiration :: nat
  wpc_period_start_time :: time_point_sec

record withdraw_permission_update_operation =
  wpu_fee :: asset
  wpu_withdraw_from_account :: account_id_type
  wpu_authorized_account :: account_id_type
  wpu_permission_to_update :: nat
  wpu_withdrawal_limit :: asset
  wpu_withdrawal_period_sec :: nat
  wpu_period_start_time :: time_point_sec
  wpu_periods_until_expiration :: nat

record withdraw_permission_claim_operation =
  wpk_fee :: asset
  wpk_withdraw_permission :: nat
  wpk_withdraw_from_account :: account_id_type
  wpk_withdraw_to_account :: account_id_type
  wpk_amount_to_withdraw :: asset

record withdraw_permission_delete_operation =
  wpd_fee :: asset
  wpd_withdraw_from_account :: account_id_type
  wpd_authorized_account :: account_id_type
  wpd_withdrawal_permission :: nat

definition withdraw_create_validate :: "withdraw_permission_create_operation \<Rightarrow> unit result" where
  "withdraw_create_validate op =
     FC_ASSERT (0 \<le> amount (wpc_fee op))
    (FC_ASSERT (wpc_withdraw_from_account op \<noteq> wpc_authorized_account op)
    (FC_ASSERT (0 < amount (wpc_withdrawal_limit op))
    (FC_ASSERT (0 < wpc_withdrawal_period_sec op)
    (FC_ASSERT (0 < wpc_periods_until_expiration op)
    (Inr ())))))"

definition withdraw_update_validate :: "withdraw_permission_update_operation \<Rightarrow> unit result" where
  "withdraw_update_validate op =
     FC_ASSERT (0 < amount (wpu_withdrawal_limit op))
    (FC_ASSERT (0 \<le> amount (wpu_fee op))
    (FC_ASSERT (0 < wpu_withdrawal_period_sec op)
    (FC_ASSERT (wpu_withdraw_from_account op \<noteq> wpu_authorized_account op)
    (FC_ASSERT (0 < wpu_periods_until_expiration op)
    (Inr ())))))"

definition withdraw_claim_validate :: "withdraw_permission_claim_operation \<Rightarrow> unit result" where
  "withdraw_claim_validate op =
     FC_ASSERT (wpk_withdraw_to_account op \<noteq> wpk_withdraw_from_account op)
    (FC_ASSERT (0 < amount (wpk_amount_to_withdraw op))
    (FC_ASSERT (0 \<le> amount (wpk_fee op))
    (Inr ())))"

definition withdraw_delete_validate :: "withdraw_permission_delete_operation \<Rightarrow> unit result" where
  "withdraw_delete_validate op =
     FC_ASSERT (0 \<le> amount (wpd_fee op))
    (FC_ASSERT (wpd_withdraw_from_account op \<noteq> wpd_authorized_account op)
    (Inr ()))"

section \<open>Creating, updating and deleting a permission\<close>

text \<open>\<open>op.period_start_time + op.periods_until_expiration * op.withdrawal_period_sec\<close>.\<close>

definition permission_expiration :: "fc_lib \<Rightarrow> time_point_sec \<Rightarrow> nat \<Rightarrow> nat \<Rightarrow> time_point_sec" where
  "permission_expiration fc start periods period = tps_add fc start (periods * period mod 2 ^ 32)"

definition withdraw_create_do_evaluate ::
    "fc_lib \<Rightarrow> withdraw_permission_create_operation \<Rightarrow> fee_state \<Rightarrow> database \<Rightarrow> unit result" where
  "withdraw_create_do_evaluate fc op fs d =
     FC_ASSERT (store_find (accounts d) (wpc_withdraw_from_account op) \<noteq> None)
    (FC_ASSERT (store_find (accounts d) (wpc_authorized_account op) \<noteq> None)
    (FC_ASSERT (store_find (assets d) (asset_id (wpc_withdrawal_limit op)) \<noteq> None)
    (FC_ASSERT (head_block_time d < wpc_period_start_time op)
    (FC_ASSERT (head_block_time d < permission_expiration fc (wpc_period_start_time op)
                  (wpc_periods_until_expiration op) (wpc_withdrawal_period_sec op))
    (FC_ASSERT (block_interval (parameters d) \<le> wpc_withdrawal_period_sec op)
    (Inr ()))))))"

definition withdraw_create_do_apply ::
    "fc_lib \<Rightarrow> withdraw_permission_create_operation \<Rightarrow> unit \<Rightarrow> fee_state \<Rightarrow> database \<Rightarrow> database result" where
  "withdraw_create_do_apply fc op ev fs d =
     Inr (d\<lparr>withdraw_permissions := store_add (withdraw_permissions d)
       \<lparr>withdraw_from_account = wpc_withdraw_from_account op, authorized_account = wpc_authorized_account op,
        withdrawal_limit = wpc_withdrawal_limit op, withdrawal_period_sec = wpc_withdrawal_period_sec op,
        period_start_time = wpc_period_start_time op,
        wpo_expiration = permission_expiration fc (wpc_period_start_time op) (wpc_periods_until_expiration op)
          (wpc_withdrawal_period_sec op),
        claimed_this_period = 0\<rparr>\<rparr>)"

definition withdraw_update_do_evaluate ::
    "fc_lib \<Rightarrow> withdraw_permission_update_operation \<Rightarrow> fee_state \<Rightarrow> database \<Rightarrow> unit result" where
  "withdraw_update_do_evaluate fc op fs d =
     bnd (store_get (withdraw_permissions d) (wpu_permission_to_update op)) (\<lambda>permit.
     FC_ASSERT (authorized_account permit = wpu_authorized_account op)
    (FC_ASSERT (withdraw_from_account permit = wpu_withdraw_from_account op)
    (FC_ASSERT (store_find (assets d) (asset_id (wpu_withdrawal_limit op)) \<noteq> None)
    (FC_ASSERT (head_block_time d \<le> wpu_period_start_time op)
    (FC_ASSERT (head_block_time d < permission_expiration fc (wpu_period_start_time op)
                  (wpu_periods_until_expiration op) (wpu_withdrawal_period_sec op))
    (FC_ASSERT (block_interval (parameters d) \<le> wpu_withdrawal_period_sec op)
    (Inr ())))))))"

definition withdraw_update_do_apply ::
    "fc_lib \<Rightarrow> withdraw_permission_update_operation \<Rightarrow> unit \<Rightarrow> fee_state \<Rightarrow> database \<Rightarrow> database result" where
  "withdraw_update_do_apply fc op ev fs d =
     bnd (store_get (withdraw_permissions d) (wpu_permission_to_update op)) (\<lambda>p.
     Inr (d\<lparr>withdraw_permissions := store_put (withdraw_permissions d) (wpu_permission_to_update op)
       (p\<lparr>period_start_time := wpu_period_start_time op,
          wpo_expiration := permission_expiration fc (wpu_period_start_time op) (wpu_periods_until_expiration op)
            (wpu_withdrawal_period_sec op),
          withdrawal_limit := wpu_withdrawal_limit op,
          withdrawal_period_sec := wpu_withdrawal_period_sec op\<rparr>)\<rparr>))"

definition withdraw_delete_do_evaluate ::
    "withdraw_permission_delete_operation \<Rightarrow> fee_state \<Rightarrow> database \<Rightarrow> unit result" where
  "withdraw_delete_do_evaluate op fs d =
     bnd (store_get (withdraw_permissions d) (wpd_withdrawal_permission op)) (\<lambda>permit.
     FC_ASSERT (authorized_account permit = wpd_authorized_account op)
    (FC_ASSERT (withdraw_from_account permit = wpd_withdraw_from_account op)
    (Inr ())))"

definition withdraw_delete_do_apply ::
    "withdraw_permission_delete_operation \<Rightarrow> unit \<Rightarrow> fee_state \<Rightarrow> database \<Rightarrow> database result" where
  "withdraw_delete_do_apply op ev fs d =
     bnd (store_get (withdraw_permissions d) (wpd_withdrawal_permission op)) (\<lambda>_.
     Inr (d\<lparr>withdraw_permissions := store_del (withdraw_permissions d) (wpd_withdrawal_permission op)\<rparr>))"

section \<open>Claiming\<close>

definition available_this_period :: "fc_lib \<Rightarrow> time_point_sec \<Rightarrow> withdraw_permission_object \<Rightarrow> asset result" where
  "available_this_period fc current_time p =
    (if tps_add fc (period_start_time p) (withdrawal_period_sec p) \<le> current_time then Inr (withdrawal_limit p)
     else
       bnd (if claimed_this_period p < amount (withdrawal_limit p)
            then safe_sub fc (amount (withdrawal_limit p)) (claimed_this_period p)
            else Inr 0) (\<lambda>x.
       Inr (ASSET x (asset_id (withdrawal_limit p)))))"

definition withdraw_claim_do_evaluate ::
    "fc_lib \<Rightarrow> withdraw_permission_claim_operation \<Rightarrow> fee_state \<Rightarrow> database \<Rightarrow> unit result" where
  "withdraw_claim_do_evaluate fc op fs d =
     bnd (store_get (withdraw_permissions d) (wpk_withdraw_permission op)) (\<lambda>permit.
     FC_ASSERT (head_block_time d < wpo_expiration permit)
    (FC_ASSERT (authorized_account permit = wpk_withdraw_to_account op)
    (FC_ASSERT (withdraw_from_account permit = wpk_withdraw_from_account op)
    (FC_ASSERT (period_start_time permit \<le> head_block_time d)
    (bnd (available_this_period fc (head_block_time d) permit) (\<lambda>available.
     bnd (asset_le (wpk_amount_to_withdraw op) available) (\<lambda>ok1. FC_ASSERT ok1
    (bnd (asset_ge (get_balance d (wpk_withdraw_from_account op) (asset_id (wpk_amount_to_withdraw op)))
            (wpk_amount_to_withdraw op)) (\<lambda>ok2. FC_ASSERT ok2
    (bnd (store_get (assets d) (asset_id (wpk_amount_to_withdraw op))) (\<lambda>ao.
     FC_ASSERT (\<not> is_transfer_restricted ao \<or> issuer ao = authorized_account permit \<or>
                issuer ao = withdraw_from_account permit)
    (bnd (authorized d (authorized_account permit) (asset_id (wpk_amount_to_withdraw op))) (\<lambda>ok3. FC_ASSERT ok3
    (bnd (authorized d (wpk_withdraw_from_account op) (asset_id (wpk_amount_to_withdraw op))) (\<lambda>ok4. FC_ASSERT ok4
    (Inr ()))))))))))))))))"

text \<open>The lambda of \<open>do_apply\<close>: the start of the period is moved to the current period.\<close>

definition permission_claimed ::
    "fc_lib \<Rightarrow> time_point_sec \<Rightarrow> share_type \<Rightarrow> withdraw_permission_object \<Rightarrow> withdraw_permission_object result" where
  "permission_claimed fc now amt p =
     ensure Division_by_zero (withdrawal_period_sec p \<noteq> 0)
    (let periods = tps_diff fc now (period_start_time p) div int (withdrawal_period_sec p) in
     bnd (if periods = 0 then safe_add fc (claimed_this_period p) amt else Inr amt) (\<lambda>c.
     Inr (p\<lparr>period_start_time := tps_add fc (period_start_time p) (nat (periods * int (withdrawal_period_sec p))),
            claimed_this_period := c\<rparr>)))"

definition withdraw_claim_do_apply ::
    "fc_lib \<Rightarrow> withdraw_permission_claim_operation \<Rightarrow> unit \<Rightarrow> fee_state \<Rightarrow> database \<Rightarrow> database result" where
  "withdraw_claim_do_apply fc op ev fs d =
     bnd (store_get (withdraw_permissions d) (wpk_withdraw_permission op)) (\<lambda>permit.
     bnd (permission_claimed fc (head_block_time d) (amount (wpk_amount_to_withdraw op)) permit) (\<lambda>permit'.
     bnd (debit fc (wpk_withdraw_from_account op) (wpk_amount_to_withdraw op)
           (d\<lparr>withdraw_permissions := store_put (withdraw_permissions d) (wpk_withdraw_permission op) permit'\<rparr>)) (\<lambda>d.
     adjust_balance fc (wpk_withdraw_to_account op) (wpk_amount_to_withdraw op) d)))"

section \<open>Expiration\<close>

definition update_withdraw_permissions :: "database \<Rightarrow> database" where
  "update_withdraw_permissions d = d\<lparr>withdraw_permissions :=
     purge wpo_expiration (\<lambda>t. t \<le> head_block_time d) (withdraw_permissions d)\<rparr>"

section \<open>The whole operations\<close>

definition run_withdraw_create ::
    "fc_lib \<Rightarrow> share_type option \<Rightarrow> withdraw_permission_create_operation \<Rightarrow> database \<Rightarrow> database result" where
  "run_withdraw_create fc req op d = run_operation fc req (wpc_withdraw_from_account op) (wpc_fee op)
     (withdraw_create_do_evaluate fc op) (withdraw_create_do_apply fc op) d"

definition run_withdraw_update ::
    "fc_lib \<Rightarrow> share_type option \<Rightarrow> withdraw_permission_update_operation \<Rightarrow> database \<Rightarrow> database result" where
  "run_withdraw_update fc req op d = run_operation fc req (wpu_withdraw_from_account op) (wpu_fee op)
     (withdraw_update_do_evaluate fc op) (withdraw_update_do_apply fc op) d"

definition run_withdraw_claim ::
    "fc_lib \<Rightarrow> share_type option \<Rightarrow> withdraw_permission_claim_operation \<Rightarrow> database \<Rightarrow> database result" where
  "run_withdraw_claim fc req op d = run_operation fc req (wpk_withdraw_to_account op) (wpk_fee op)
     (withdraw_claim_do_evaluate fc op) (withdraw_claim_do_apply fc op) d"

definition run_withdraw_delete ::
    "fc_lib \<Rightarrow> share_type option \<Rightarrow> withdraw_permission_delete_operation \<Rightarrow> database \<Rightarrow> database result" where
  "run_withdraw_delete fc req op d = run_operation fc req (wpd_withdraw_from_account op) (wpd_fee op)
     (withdraw_delete_do_evaluate op) (withdraw_delete_do_apply op) d"

section \<open>Conservation\<close>

context fc_safe
begin

lemma withdraw_create_conserves: "withdraw_create_do_apply fc op ev fs d = Inr d' \<Longrightarrow> conserves d d'"
  by (auto simp: withdraw_create_do_apply_def intro: gap_step_other)

lemma withdraw_update_conserves: "withdraw_update_do_apply fc op ev fs d = Inr d' \<Longrightarrow> conserves d d'"
  by (auto simp: withdraw_update_do_apply_def intro: gap_step_other)

lemma withdraw_delete_conserves: "withdraw_delete_do_apply op ev fs d = Inr d' \<Longrightarrow> conserves d d'"
  by (auto simp: withdraw_delete_do_apply_def intro: gap_step_other)

lemma withdraw_claim_applyE:
  assumes "withdraw_claim_do_apply fc op ev fs d = Inr d'"
  obtains p p' d1 where "store_find (withdraw_permissions d) (wpk_withdraw_permission op) = Some p"
    "permission_claimed fc (head_block_time d) (amount (wpk_amount_to_withdraw op)) p = Inr p'"
    "debit fc (wpk_withdraw_from_account op) (wpk_amount_to_withdraw op)
       (d\<lparr>withdraw_permissions := store_put (withdraw_permissions d) (wpk_withdraw_permission op) p'\<rparr>) = Inr d1"
    "adjust_balance fc (wpk_withdraw_to_account op) (wpk_amount_to_withdraw op) d1 = Inr d'"
  using assms by (auto simp: withdraw_claim_do_apply_def simp del: debit_iff)

lemma withdraw_claim_conserves:
  assumes "withdraw_claim_do_apply fc op ev fs d = Inr d'"
  shows "conserves d d'"
  using assms
proof (rule withdraw_claim_applyE)
  fix p p' d1
  assume d1: "debit fc (wpk_withdraw_from_account op) (wpk_amount_to_withdraw op)
      (d\<lparr>withdraw_permissions := store_put (withdraw_permissions d) (wpk_withdraw_permission op) p'\<rparr>) = Inr d1"
    and d': "adjust_balance fc (wpk_withdraw_to_account op) (wpk_amount_to_withdraw op) d1 = Inr d'"
  show ?thesis
    by (rule gap_step_then[OF gap_step_trans[OF gap_step_other(3) gap_step_debit[OF d1]] gap_step_adjust[OF d']])
      (simp add: amt_at_neg)
qed

end

sublocale fc_safe \<subseteq> withdraw_create_ev: conserving_evaluator fc wpc_withdraw_from_account wpc_fee
    withdraw_create_validate "withdraw_create_do_evaluate fc" "withdraw_create_do_apply fc"
  by unfold_locales (rule withdraw_create_conserves)

sublocale fc_safe \<subseteq> withdraw_update_ev: conserving_evaluator fc wpu_withdraw_from_account wpu_fee
    withdraw_update_validate "withdraw_update_do_evaluate fc" "withdraw_update_do_apply fc"
  by unfold_locales (rule withdraw_update_conserves)

sublocale fc_safe \<subseteq> withdraw_claim_ev: conserving_evaluator fc wpk_withdraw_to_account wpk_fee
    withdraw_claim_validate "withdraw_claim_do_evaluate fc" "withdraw_claim_do_apply fc"
  by unfold_locales (rule withdraw_claim_conserves)

sublocale fc_safe \<subseteq> withdraw_delete_ev: conserving_evaluator fc wpd_withdraw_from_account wpd_fee
    withdraw_delete_validate withdraw_delete_do_evaluate withdraw_delete_do_apply
  by unfold_locales (rule withdraw_delete_conserves)

section \<open>Properties\<close>

context fc_safe
begin

lemma permission_claimed_period:
  assumes "permission_claimed fc now amt p = Inr p'" "period_start_time p \<le> now" "now < 2 ^ 32"
  shows "period_start_time p' \<le> now" "now < period_start_time p' + withdrawal_period_sec p"
    "claimed_this_period p' = (if now < period_start_time p + withdrawal_period_sec p then claimed_this_period p + amt else amt)"
    "withdrawal_limit p' = withdrawal_limit p" "withdrawal_period_sec p' = withdrawal_period_sec p"
    "wpo_expiration p' = wpo_expiration p" "withdraw_from_account p' = withdraw_from_account p"
    "authorized_account p' = authorized_account p"
proof -
  define s where "s = withdrawal_period_sec p"
  define k where "k = (now - period_start_time p) div s"
  have s: "0 < s" using assms(1) by (simp add: permission_claimed_def s_def)
  have diff: "(int now - int (period_start_time p)) div int s = int k"
    using assms(2) by (simp add: k_def of_nat_diff zdiv_int)
  have ks: "k * s \<le> now - period_start_time p" by (simp add: k_def)
  have "now - period_start_time p < k * s + s"
    using s dividend_less_div_times[of s "now - period_start_time p"] by (simp add: k_def)
  have nat: "nat (int k * int s) = k * s" by (simp add: nat_mult_distrib)
  have "tps_add fc (period_start_time p) (k * s) = period_start_time p + k * s"
    using ks assms(2,3) by (intro tps_add_exact) linarith
  then have st: "period_start_time p' = period_start_time p + k * s"
    using assms(1) by (auto simp: permission_claimed_def s_def[symmetric] diff nat)
  show "period_start_time p' \<le> now" using st ks assms(2) by linarith
  show "now < period_start_time p' + withdrawal_period_sec p"
    using st \<open>now - period_start_time p < k * s + s\<close> assms(2) by (simp add: s_def[symmetric])
  have k0: "k = 0 \<longleftrightarrow> now < period_start_time p + s" using s assms(2) by (auto simp: k_def div_eq_0_iff)
  show "claimed_this_period p' = (if now < period_start_time p + withdrawal_period_sec p then claimed_this_period p + amt else amt)"
    using assms(1) k0 by (auto simp: permission_claimed_def s_def[symmetric] diff split: if_splits)
  show "withdrawal_limit p' = withdrawal_limit p" "withdrawal_period_sec p' = withdrawal_period_sec p"
    "wpo_expiration p' = wpo_expiration p" "withdraw_from_account p' = withdraw_from_account p"
    "authorized_account p' = authorized_account p"
    using assms(1) by (auto simp: permission_claimed_def)
qed

lemmas withdraw_claim_steps = withdraw_claim_ev.operation_steps

lemma withdraw_claim_run:
  assumes "withdraw_claim_validate op = Inr ()" "run_withdraw_claim fc req op d = Inr d'"
    and p: "store_find (withdraw_permissions d) (wpk_withdraw_permission op) = Some p"
    and time: "head_block_time d < 2 ^ 32"
    and amt: "amt = amount (wpk_amount_to_withdraw op)"
  shows "authorized_account p = wpk_withdraw_to_account op \<and> withdraw_from_account p = wpk_withdraw_from_account op \<and>
    asset_id (wpk_amount_to_withdraw op) = asset_id (withdrawal_limit p) \<and> head_block_time d < wpo_expiration p \<and>
    (\<exists>p'. store_find (withdraw_permissions d') (wpk_withdraw_permission op) = Some p' \<and>
      period_start_time p' \<le> head_block_time d \<and> head_block_time d < period_start_time p' + withdrawal_period_sec p \<and>
      claimed_this_period p' = (if head_block_time d < period_start_time p + withdrawal_period_sec p
        then claimed_this_period p + amt else amt) \<and>
      withdrawal_limit p' = withdrawal_limit p \<and>
      (if tps_add fc (period_start_time p) (withdrawal_period_sec p) \<le> head_block_time d \<and>
          head_block_time d < period_start_time p + withdrawal_period_sec p
       then amt \<le> amount (withdrawal_limit p) else claimed_this_period p' \<le> amount (withdrawal_limit p)) \<and>
      (period_start_time p + withdrawal_period_sec p < 2 ^ 32 \<longrightarrow> claimed_this_period p' \<le> amount (withdrawal_limit p))) \<and>
    (\<forall>owner a. amount (get_balance d' owner a) = amount (get_balance d owner a)
      - (if owner = withdraw_from_account p \<and> a = asset_id (withdrawal_limit p) then amt else 0)
      + (if owner = authorized_account p \<and> a = asset_id (withdrawal_limit p) then amt else 0)
      - (if owner = authorized_account p \<and> a = asset_id (wpk_fee op) then amount (wpk_fee op) else 0))"
proof -
  have val: "0 < amt" using assms(1) by (auto simp: withdraw_claim_validate_def amt)
  from assms(2) obtain fs ev d1 d2 where ev: "withdraw_claim_do_evaluate fc op fs d = Inr ev"
    and frame: "fee_frame d d1" and ap: "withdraw_claim_do_apply fc op ev fs d1 = Inr d2"
    and d': "adjust_balance fc (wpk_withdraw_to_account op) (ASSET (- amount (wpk_fee op)) (asset_id (wpk_fee op))) d2 = Inr d'"
    unfolding run_withdraw_claim_def by (rule withdraw_claim_steps)
  note fr = fee_frame_fields[OF frame]
  from ev p obtain av where e: "head_block_time d < wpo_expiration p" "authorized_account p = wpk_withdraw_to_account op"
    "withdraw_from_account p = wpk_withdraw_from_account op" "period_start_time p \<le> head_block_time d"
    and av: "available_this_period fc (head_block_time d) p = Inr av" "asset_le (wpk_amount_to_withdraw op) av = Inr True"
    by (auto simp: withdraw_claim_do_evaluate_def)
  from ap obtain p' e1 where p': "permission_claimed fc (head_block_time d) amt p = Inr p'"
    and e1: "debit fc (wpk_withdraw_from_account op) (wpk_amount_to_withdraw op)
       (d1\<lparr>withdraw_permissions := store_put (withdraw_permissions d) (wpk_withdraw_permission op) p'\<rparr>) = Inr e1"
    and e2: "adjust_balance fc (wpk_withdraw_to_account op) (wpk_amount_to_withdraw op) e1 = Inr d2"
    by (rule withdraw_claim_applyE) (use p fr amt in auto)
  note pc = permission_claimed_period[OF p' e(4) time]
  let ?until = "tps_add fc (period_start_time p) (withdrawal_period_sec p)"
  from av have aid: "asset_id (wpk_amount_to_withdraw op) = asset_id (withdrawal_limit p)"
    and lim: "amt \<le> (if head_block_time d < ?until
      then max 0 (amount (withdrawal_limit p) - claimed_this_period p) else amount (withdrawal_limit p))"
    by (auto simp: available_this_period_def amt split: if_splits)
  have exact: "?until = period_start_time p + withdrawal_period_sec p" if "period_start_time p + withdrawal_period_sec p < 2 ^ 32"
    by (rule tps_add_exact[OF that])
  have le: "if ?until \<le> head_block_time d \<and> head_block_time d < period_start_time p + withdrawal_period_sec p
      then amt \<le> amount (withdrawal_limit p) else claimed_this_period p' \<le> amount (withdrawal_limit p)"
    using lim val pc(3) exact time by (auto split: if_splits)
  have le': "claimed_this_period p' \<le> amount (withdrawal_limit p)" if "period_start_time p + withdrawal_period_sec p < 2 ^ 32"
    using le exact[OF that] by (auto split: if_splits)
  have "store_find (withdraw_permissions d') (wpk_withdraw_permission op) = Some p'"
    using adjust_balance_fields[OF d'] adjust_balance_fields[OF e2] e1 p
    by (auto simp: adjust_balance_fields store_find_put_same)
  moreover have "get_balance (d1\<lparr>withdraw_permissions := w\<rparr>) = get_balance d" for w
    using fee_frame_balance[OF frame] fr by (intro ext) (simp add: get_balance_def get_account_balance_def)
  then have "amount (get_balance d' owner a) = amount (get_balance d owner a)
      - (if owner = withdraw_from_account p \<and> a = asset_id (withdrawal_limit p) then amt else 0)
      + (if owner = authorized_account p \<and> a = asset_id (withdrawal_limit p) then amt else 0)
      - (if owner = authorized_account p \<and> a = asset_id (wpk_fee op) then amount (wpk_fee op) else 0)" for owner a
    using adjust_balance_get[OF d', of owner a] adjust_balance_get[OF e2, of owner a]
      adjust_balance_get[OF conjunct2[OF e1[unfolded debit_iff]], of owner a] by (simp add: e aid amt)
  ultimately show ?thesis using e(1-3) aid pc(1-4) le le' by blast
qed

end

text \<open>
  C40: a claim is made by the authorized account from the account that gave the permission, in the asset of
  the limit and before the permission expires. It moves exactly the claimed amount, and the permission records
  the period that contains the current time and what was claimed in it, this claim included. That does not
  exceed the limit, except where the sum of the start and the length of the period reaches \<open>2 ^ 32\<close> seconds and
  the time computed for the end of the period is not after the current time although the period goes on: then
  only the single claim is within the limit.
\<close>

theorem withdraw_claim_limited:
  assumes "fc_safe fc" "withdraw_claim_validate op = Inr ()" "run_withdraw_claim fc req op d = Inr d'"
    and "store_find (withdraw_permissions d) (wpk_withdraw_permission op) = Some p"
    and "head_block_time d < 2 ^ 32" "amt = amount (wpk_amount_to_withdraw op)"
  shows "authorized_account p = wpk_withdraw_to_account op \<and> withdraw_from_account p = wpk_withdraw_from_account op \<and>
    asset_id (wpk_amount_to_withdraw op) = asset_id (withdrawal_limit p) \<and> head_block_time d < wpo_expiration p \<and>
    (\<exists>p'. store_find (withdraw_permissions d') (wpk_withdraw_permission op) = Some p' \<and>
      period_start_time p' \<le> head_block_time d \<and> head_block_time d < period_start_time p' + withdrawal_period_sec p \<and>
      claimed_this_period p' = (if head_block_time d < period_start_time p + withdrawal_period_sec p
        then claimed_this_period p + amt else amt) \<and>
      withdrawal_limit p' = withdrawal_limit p \<and>
      (if tps_add fc (period_start_time p) (withdrawal_period_sec p) \<le> head_block_time d \<and>
          head_block_time d < period_start_time p + withdrawal_period_sec p
       then amt \<le> amount (withdrawal_limit p) else claimed_this_period p' \<le> amount (withdrawal_limit p)) \<and>
      (period_start_time p + withdrawal_period_sec p < 2 ^ 32 \<longrightarrow> claimed_this_period p' \<le> amount (withdrawal_limit p))) \<and>
    (\<forall>owner a. amount (get_balance d' owner a) = amount (get_balance d owner a)
      - (if owner = withdraw_from_account p \<and> a = asset_id (withdrawal_limit p) then amt else 0)
      + (if owner = authorized_account p \<and> a = asset_id (withdrawal_limit p) then amt else 0)
      - (if owner = authorized_account p \<and> a = asset_id (wpk_fee op) then amount (wpk_fee op) else 0))"
  by (rule fc_safe.withdraw_claim_run[OF assms])

definition sample_permission :: "nat \<Rightarrow> withdraw_permission_object" where
  "sample_permission t = \<lparr>withdraw_from_account = 7, authorized_account = 8, withdrawal_limit = ASSET 30 0,
     withdrawal_period_sec = 86400, period_start_time = 1699999000, wpo_expiration = t, claimed_this_period = 12\<rparr>"

definition permission_db :: database where
  "permission_db = (sample_db 1700000000)\<lparr>withdraw_permissions :=
     \<lparr>items = [(0, sample_permission 1700100000), (1, sample_permission 1699999999)], next_id = 2\<rparr>\<rparr>"

definition sample_claim :: withdraw_permission_claim_operation where
  "sample_claim = \<lparr>wpk_fee = ASSET 3 0, wpk_withdraw_permission = 0, wpk_withdraw_from_account = 7,
     wpk_withdraw_to_account = 8, wpk_amount_to_withdraw = ASSET 18 0\<rparr>"

lemma permission_db_facts:
  "store_find (withdraw_permissions permission_db) 0 = Some (sample_permission 1700100000)"
  "store_find (withdraw_permissions permission_db) 1 = Some (sample_permission 1699999999)"
  "head_block_time permission_db = 1700000000" "get_balance permission_db 7 0 = ASSET 50 0"
  "get_balance permission_db 8 0 = ASSET 0 0" "store_wf (withdraw_permissions permission_db)"
  by (simp_all add: permission_db_def store_find_def sample_defs get_balance_def get_account_balance_def
      store_search_def abo_key_def store_wf_def)

theorem withdraw_claim_limited_witness:
  "\<exists>d' p. run_withdraw_claim fc_ref (Some 3) sample_claim permission_db = Inr d' \<and>
    store_find (withdraw_permissions d') 0 = Some p \<and> claimed_this_period p = 30 \<and>
    amount (get_balance d' 7 0) = 32 \<and> amount (get_balance d' 8 0) = 15"
proof -
  have "\<not> isl (run_withdraw_claim fc_ref (Some 3) sample_claim permission_db)"
    by (simp add: run_withdraw_claim_def sample_claim_def withdraw_claim_do_evaluate_def withdraw_claim_do_apply_def
        available_this_period_def permission_claimed_def authorized_def permission_db_def sample_permission_def
        run_eval sample_defs fc_ref_simps cong: eval_congs)
  then obtain d' where run: "run_withdraw_claim fc_ref (Some 3) sample_claim permission_db = Inr d'"
    by (cases "run_withdraw_claim fc_ref (Some 3) sample_claim permission_db") auto
  let ?p = "sample_permission 1700100000"
  have h: "withdraw_claim_validate sample_claim = Inr ()"
    "store_find (withdraw_permissions permission_db) (wpk_withdraw_permission sample_claim) = Some ?p"
    "head_block_time permission_db < 2 ^ 32"
    using permission_db_facts
    by (simp_all add: sample_claim_def withdraw_claim_validate_def sample_permission_def)
  from withdraw_claim_limited[OF fc_ref.fc_safe_axioms h(1) run h(2,3) refl] run permission_db_facts
  show ?thesis by (auto simp: sample_claim_def sample_permission_def)
qed

text \<open>
  The exception is real: when the end of a period wraps around to a time that has passed, the whole limit is
  available again for every claim, whatever was claimed in the period, and the claims add up without bound.
\<close>

lemma wrapped_period_unlimited:
  assumes "fc_safe fc" "tps_add fc (period_start_time p) (withdrawal_period_sec p) \<le> now"
    and "period_start_time p \<le> now" "now < period_start_time p + withdrawal_period_sec p" "now < 2 ^ 32"
    and "in_int64 (claimed_this_period p + amt)"
  shows "available_this_period fc now p = Inr (withdrawal_limit p)"
    "permission_claimed fc now amt p = Inr (p\<lparr>claimed_this_period := claimed_this_period p + amt\<rparr>)"
proof -
  show "available_this_period fc now p = Inr (withdrawal_limit p)" using assms(2) by (simp add: available_this_period_def)
  have "now - period_start_time p < withdrawal_period_sec p" using assms(3,4) by linarith
  then have "(int now - int (period_start_time p)) div int (withdrawal_period_sec p) = 0"
    using assms(3) by (simp flip: of_nat_diff)
  moreover have "tps_add fc (period_start_time p) 0 = period_start_time p"
    using assms(1,3,5) by (simp add: fc_safe.tps_add_exact)
  moreover have "withdrawal_period_sec p \<noteq> 0" using assms(3,4) by linarith
  ultimately show "permission_claimed fc now amt p = Inr (p\<lparr>claimed_this_period := claimed_this_period p + amt\<rparr>)"
    using assms(1,6) by (simp add: permission_claimed_def fc_safe.tps_diff_exact fc_safe.safe_add_Inr ensure_def)
qed

text \<open>A permission for 30 in a period of \<open>3 * 2 ^ 30\<close> seconds that twice allows a claim of 30, and the
  operation that creates such a permission, which is accepted.\<close>

definition century_create :: withdraw_permission_create_operation where
  "century_create = \<lparr>wpc_fee = ASSET 3 0, wpc_withdraw_from_account = 7, wpc_authorized_account = 8,
     wpc_withdrawal_limit = ASSET 30 0, wpc_withdrawal_period_sec = 3221225472, wpc_periods_until_expiration = 2,
     wpc_period_start_time = 1700000001\<rparr>"

definition century_permission :: "share_type \<Rightarrow> withdraw_permission_object" where
  "century_permission claimed = \<lparr>withdraw_from_account = 7, authorized_account = 8, withdrawal_limit = ASSET 30 0,
     withdrawal_period_sec = 3221225472, period_start_time = 1700000001, wpo_expiration = 3847483649, claimed_this_period = claimed\<rparr>"

theorem withdraw_limit_wraps:
  "withdraw_create_validate century_create = Inr ()"
  "withdraw_create_do_evaluate fc_ref century_create fs (sample_db 1700000000) = Inr ()"
  "permission_expiration fc_ref 1700000001 2 3221225472 = wpo_expiration (century_permission 0)"
  "available_this_period fc_ref 1700000005 (century_permission 30) = Inr (ASSET 30 0)"
  "permission_claimed fc_ref 1700000005 30 (century_permission 30) = Inr (century_permission 60)"
  using wrapped_period_unlimited[OF fc_ref.fc_safe_axioms, of "century_permission 30" 1700000005 30]
  by (simp_all add: century_create_def century_permission_def withdraw_create_validate_def withdraw_create_do_evaluate_def
      permission_expiration_def sample_defs store_find_def fc_ref_simps)

text \<open>
  The removal of expired permissions in every block ends, removes exactly the permissions whose
  expiration is not in the future, and changes nothing else.
\<close>

theorem withdraw_permissions_expire:
  assumes "store_wf (withdraw_permissions d)"
  shows "\<exists>w. update_withdraw_permissions d = d\<lparr>withdraw_permissions := w\<rparr> \<and> store_wf w \<and>
    (\<forall>i p. store_find w i = Some p \<longleftrightarrow>
      store_find (withdraw_permissions d) i = Some p \<and> head_block_time d < wpo_expiration p)"
  using purge_spec[OF _ assms, of "\<lambda>t. t \<le> head_block_time d" wpo_expiration]
  by (auto simp: update_withdraw_permissions_def not_le)

theorem withdraw_permissions_expire_witness:
  "store_find (withdraw_permissions (update_withdraw_permissions permission_db)) 0 = Some (sample_permission 1700100000) \<and>
   store_find (withdraw_permissions (update_withdraw_permissions permission_db)) 1 \<noteq> Some (sample_permission 1699999999)"
  using withdraw_permissions_expire[OF permission_db_facts(6)] permission_db_facts
  by (auto simp: sample_permission_def)

end
