(* ===== verification/Vesting_Operations.thy ===== *)
theory Vesting_Operations
  imports Fees
begin

text \<open>
  The operations that create a vesting balance and withdraw from one:
  \<open>libraries/protocol/include/graphene/protocol/vesting.hpp\<close> and
  \<open>libraries/chain/vesting_balance_evaluator.cpp\<close>. The policies themselves are in the theory of vesting
  balances.
\<close>

section \<open>Operations\<close>

record linear_vesting_policy_initializer =
  lvi_begin_timestamp :: time_point_sec
  lvi_vesting_cliff_seconds :: nat
  lvi_vesting_duration_seconds :: nat

record cdd_vesting_policy_initializer =
  cvi_start_claim :: time_point_sec
  cvi_vesting_seconds :: nat

datatype vesting_policy_initializer =
    Linear_initializer linear_vesting_policy_initializer
  | Cdd_initializer cdd_vesting_policy_initializer
  | Instant_initializer

record vesting_balance_create_operation =
  vbc_fee :: asset
  vbc_creator :: account_id_type
  vbc_owner :: account_id_type
  vbc_amount :: asset
  vbc_policy :: vesting_policy_initializer

record vesting_balance_withdraw_operation =
  vbw_fee :: asset
  vbw_vesting_balance :: nat
  vbw_owner :: account_id_type
  vbw_amount :: asset

definition vesting_create_validate :: "vesting_balance_create_operation \<Rightarrow> unit result" where
  "vesting_create_validate op =
     FC_ASSERT (0 \<le> amount (vbc_fee op))
    (FC_ASSERT (0 < amount (vbc_amount op))
    (Inr ()))"

definition vesting_withdraw_validate :: "vesting_balance_withdraw_operation \<Rightarrow> unit result" where
  "vesting_withdraw_validate op =
     FC_ASSERT (0 \<le> amount (vbw_fee op))
    (FC_ASSERT (0 < amount (vbw_amount op))
    (FC_ASSERT (vbw_owner op \<noteq> GRAPHENE_TEMP_ACCOUNT)
    (Inr ())))"

section \<open>Creating a balance\<close>

definition vesting_create_do_evaluate ::
    "vesting_balance_create_operation \<Rightarrow> fee_state \<Rightarrow> database \<Rightarrow> unit result" where
  "vesting_create_do_evaluate op fs d =
     bnd (store_get (accounts d) (vbc_owner op)) (\<lambda>owner.
     bnd (store_get (assets d) (asset_id (vbc_amount op))) (\<lambda>ao.
     FC_ASSERT (\<not> is_transfer_restricted ao)
    (if HARDFORK_CORE_973_TIME \<le> head_block_time d then
       bnd (authorized d (fee_paying_account fs) (asset_id (vbc_amount op))) (\<lambda>ok1. FC_ASSERT ok1
      (bnd (authorized d (vbc_owner op) (asset_id (vbc_amount op))) (\<lambda>ok2. FC_ASSERT ok2
      (Inr ()))))
     else Inr ())))"

text \<open>\<open>init_policy_visitor\<close>.\<close>

fun init_policy :: "share_type \<Rightarrow> time_point_sec \<Rightarrow> vesting_policy_initializer \<Rightarrow> vesting_policy" where
  "init_policy init_balance now (Linear_initializer i) =
     Linear_vesting \<lparr>begin_timestamp = lvi_begin_timestamp i, vesting_cliff_seconds = lvi_vesting_cliff_seconds i,
       vesting_duration_seconds = lvi_vesting_duration_seconds i, begin_balance = init_balance\<rparr>"
| "init_policy init_balance now (Cdd_initializer i) =
     Cdd_vesting \<lparr>vesting_seconds = cvi_vesting_seconds i, coin_seconds_earned = 0, start_claim = cvi_start_claim i,
       coin_seconds_earned_last_update = now\<rparr>"
| "init_policy init_balance now Instant_initializer = Instant_vesting"

definition new_vesting_balance_object ::
    "vesting_balance_create_operation \<Rightarrow> time_point_sec \<Rightarrow> vesting_balance_object" where
  "new_vesting_balance_object op now =
     \<lparr>vbo_owner = vbc_owner op, vbo_balance = vbc_amount op,
      vbo_policy = init_policy (amount (vbc_amount op)) now (vbc_policy op), vbo_balance_type = Vbt_unspecified\<rparr>"

definition vesting_create_do_apply ::
    "fc_lib \<Rightarrow> vesting_balance_create_operation \<Rightarrow> unit \<Rightarrow> fee_state \<Rightarrow> database \<Rightarrow> database result" where
  "vesting_create_do_apply fc op ev fs d =
     bnd (debit fc (vbc_creator op) (vbc_amount op) d) (\<lambda>d.
     Inr (d\<lparr>vesting_balances := store_add (vesting_balances d) (new_vesting_balance_object op (head_block_time d))\<rparr>))"

section \<open>Withdrawing\<close>

definition vesting_withdraw_do_evaluate ::
    "fc_lib \<Rightarrow> vesting_balance_withdraw_operation \<Rightarrow> fee_state \<Rightarrow> database \<Rightarrow> unit result" where
  "vesting_withdraw_do_evaluate fc op fs d =
     bnd (store_get (vesting_balances d) (vbw_vesting_balance op)) (\<lambda>vbo.
     FC_ASSERT (vbw_owner op = vbo_owner vbo)
    (bnd (vbo_is_withdraw_allowed fc (head_block_time d) (vbw_amount op) vbo) (\<lambda>ok.
     FC_ASSERT ok
    (Inr ()))))"

definition vesting_withdraw_do_apply ::
    "fc_lib \<Rightarrow> vesting_balance_withdraw_operation \<Rightarrow> unit \<Rightarrow> fee_state \<Rightarrow> database \<Rightarrow> database result" where
  "vesting_withdraw_do_apply fc op ev fs d =
     bnd (store_get (vesting_balances d) (vbw_vesting_balance op)) (\<lambda>vbo.
     bnd (vbo_withdraw fc (head_block_time d) (vbw_amount op) vbo) (\<lambda>vbo'.
     adjust_balance fc (vbw_owner op) (vbw_amount op)
       (d\<lparr>vesting_balances := store_put (vesting_balances d) (vbw_vesting_balance op) vbo'\<rparr>)))"

definition run_vesting_create ::
    "fc_lib \<Rightarrow> share_type option \<Rightarrow> vesting_balance_create_operation \<Rightarrow> database \<Rightarrow> database result" where
  "run_vesting_create fc req op d = run_operation fc req (vbc_creator op) (vbc_fee op)
     (vesting_create_do_evaluate op) (vesting_create_do_apply fc op) d"

definition run_vesting_withdraw ::
    "fc_lib \<Rightarrow> share_type option \<Rightarrow> vesting_balance_withdraw_operation \<Rightarrow> database \<Rightarrow> database result" where
  "run_vesting_withdraw fc req op d = run_operation fc req (vbw_owner op) (vbw_fee op)
     (vesting_withdraw_do_evaluate fc op) (vesting_withdraw_do_apply fc op) d"

section \<open>Conservation\<close>

context fc_safe
begin

lemma vesting_create_conserves:
  assumes "vesting_create_do_apply fc op ev fs d = Inr d'"
  shows "conserves d d'"
proof -
  from assms obtain d1 where d1: "debit fc (vbc_creator op) (vbc_amount op) d = Inr d1"
    and d': "d' = d1\<lparr>vesting_balances := store_add (vesting_balances d1) (new_vesting_balance_object op (head_block_time d1))\<rparr>"
    by (auto simp: vesting_create_do_apply_def simp del: debit_iff)
  show ?thesis unfolding d'
    by (rule gap_step_then[OF gap_step_debit[OF d1] gap_step_vesting_add])
      (simp add: new_vesting_balance_object_def amt_at_neg)
qed

lemma vbo_withdraw_balance:
  assumes "vbo_withdraw fc now amt v = Inr v'"
  shows "asset_id (vbo_balance v') = asset_id (vbo_balance v)" "asset_id amt = asset_id (vbo_balance v)"
    "amount (vbo_balance v') = amount (vbo_balance v) - amount amt"
  using assms by (auto simp: vbo_withdraw_def)

lemma vesting_withdraw_conserves:
  assumes "vesting_withdraw_do_apply fc op ev fs d = Inr d'"
  shows "conserves d d'"
proof -
  let ?k = "vbw_vesting_balance op"
  from assms obtain v v' where v: "store_find (vesting_balances d) ?k = Some v"
    "vbo_withdraw fc (head_block_time d) (vbw_amount op) v = Inr v'"
    and d': "adjust_balance fc (vbw_owner op) (vbw_amount op)
      (d\<lparr>vesting_balances := store_put (vesting_balances d) ?k v'\<rparr>) = Inr d'"
    by (auto simp: vesting_withdraw_do_apply_def)
  note w = vbo_withdraw_balance[OF v(2)]
  show ?thesis
    by (rule gap_step_then[OF gap_step_vesting_put[OF v(1) w(1)] gap_step_adjust[OF d']]) (simp add: w amt_at_neg)
qed

end

sublocale fc_safe \<subseteq> vesting_create_ev: conserving_evaluator fc vbc_creator vbc_fee vesting_create_validate
    vesting_create_do_evaluate "vesting_create_do_apply fc"
  by unfold_locales (rule vesting_create_conserves)

sublocale fc_safe \<subseteq> vesting_withdraw_ev: conserving_evaluator fc vbw_owner vbw_fee vesting_withdraw_validate
    "vesting_withdraw_do_evaluate fc" "vesting_withdraw_do_apply fc"
  by unfold_locales (rule vesting_withdraw_conserves)

section \<open>Properties\<close>

context fc_safe
begin

lemmas vesting_create_steps = vesting_create_ev.operation_steps
lemmas vesting_withdraw_steps = vesting_withdraw_ev.operation_steps

lemma vesting_withdraw_run:
  assumes "vesting_withdraw_validate op = Inr ()" "run_vesting_withdraw fc req op d = Inr d'"
    and v: "store_find (vesting_balances d) (vbw_vesting_balance op) = Some v"
    and wf: "vbo_wf t v" "t \<le> head_block_time d" "head_block_time d < 2 ^ 32"
  shows "vbw_owner op = vbo_owner v \<and> asset_id (vbw_amount op) = asset_id (vbo_balance v) \<and>
    amount (vbw_amount op) \<le> amount (vbo_balance v) \<and>
    (\<exists>v'. store_find (vesting_balances d') (vbw_vesting_balance op) = Some v' \<and> vbo_wf (head_block_time d) v' \<and>
      vbo_owner v' = vbo_owner v \<and>
      vbo_balance v' = ASSET (amount (vbo_balance v) - amount (vbw_amount op)) (asset_id (vbo_balance v))) \<and>
    (\<forall>owner a. amount (get_balance d' owner a) = amount (get_balance d owner a)
      + (if owner = vbo_owner v \<and> a = asset_id (vbo_balance v) then amount (vbw_amount op) else 0)
      - (if owner = vbo_owner v \<and> a = asset_id (vbw_fee op) then amount (vbw_fee op) else 0))"
proof -
  have val: "0 \<le> amount (vbw_amount op)" using assms(1) by (auto simp: vesting_withdraw_validate_def)
  from assms(2) obtain fs ev d1 d2 where ev: "vesting_withdraw_do_evaluate fc op fs d = Inr ev"
    and frame: "fee_frame d d1" and ap: "vesting_withdraw_do_apply fc op ev fs d1 = Inr d2"
    and d': "adjust_balance fc (vbw_owner op) (ASSET (- amount (vbw_fee op)) (asset_id (vbw_fee op))) d2 = Inr d'"
    unfolding run_vesting_withdraw_def by (rule vesting_withdraw_steps)
  note fr = fee_frame_fields[OF frame]
  from ev v have e: "vbw_owner op = vbo_owner v" "vbo_is_withdraw_allowed fc (head_block_time d) (vbw_amount op) v = Inr True"
    by (auto simp: vesting_withdraw_do_evaluate_def)
  note cov = withdraw_allowed_covered[OF wf e(2)]
  from vbo_withdraw_correct[OF wf val e(2)] obtain v' where
    v': "vbo_withdraw fc (head_block_time d) (vbw_amount op) v = Inr v'" "vbo_wf (head_block_time d) v'"
    "vbo_balance v' = ASSET (amount (vbo_balance v) - amount (vbw_amount op)) (asset_id (vbo_balance v))" by blast
  have ad: "adjust_balance fc (vbw_owner op) (vbw_amount op)
      (d1\<lparr>vesting_balances := store_put (vesting_balances d) (vbw_vesting_balance op) v'\<rparr>) = Inr d2"
    using ap v v'(1) fr by (auto simp: vesting_withdraw_do_apply_def)
  have owner: "vbo_owner v' = vbo_owner v" using v'(1) by (auto simp: vbo_withdraw_def)
  have "get_balance (d1\<lparr>vesting_balances := w\<rparr>) = get_balance d" for w
    using fr by (intro ext) (simp add: get_balance_def get_account_balance_def)
  then have "amount (get_balance d' own a) = amount (get_balance d own a)
      + (if own = vbo_owner v \<and> a = asset_id (vbo_balance v) then amount (vbw_amount op) else 0)
      - (if own = vbo_owner v \<and> a = asset_id (vbw_fee op) then amount (vbw_fee op) else 0)" for own a
    using adjust_balance_get[OF d', of own a] adjust_balance_get[OF ad, of own a] by (simp add: e cov)
  moreover have "store_find (vesting_balances d') (vbw_vesting_balance op) = Some v'"
    using adjust_balance_fields[OF d'] adjust_balance_fields[OF ad] v by (simp add: store_find_put_same)
  ultimately show ?thesis using e(1) cov v'(2,3) owner by blast
qed

end

text \<open>
  A withdrawal from a vesting balance that is applied is made by its owner, in its asset, of no more
  than it holds; the owner receives exactly that amount, the balance shrinks by it, and the balance
  stays consistent with its policy at the current time.
\<close>

theorem vesting_withdraw_exact:
  assumes "fc_safe fc" "vesting_withdraw_validate op = Inr ()" "run_vesting_withdraw fc req op d = Inr d'"
    and "store_find (vesting_balances d) (vbw_vesting_balance op) = Some v"
    and "vbo_wf t v" "t \<le> head_block_time d" "head_block_time d < 2 ^ 32"
  shows "vbw_owner op = vbo_owner v \<and> asset_id (vbw_amount op) = asset_id (vbo_balance v) \<and>
    amount (vbw_amount op) \<le> amount (vbo_balance v) \<and>
    (\<exists>v'. store_find (vesting_balances d') (vbw_vesting_balance op) = Some v' \<and> vbo_wf (head_block_time d) v' \<and>
      vbo_owner v' = vbo_owner v \<and>
      vbo_balance v' = ASSET (amount (vbo_balance v) - amount (vbw_amount op)) (asset_id (vbo_balance v))) \<and>
    (\<forall>owner a. amount (get_balance d' owner a) = amount (get_balance d owner a)
      + (if owner = vbo_owner v \<and> a = asset_id (vbo_balance v) then amount (vbw_amount op) else 0)
      - (if owner = vbo_owner v \<and> a = asset_id (vbw_fee op) then amount (vbw_fee op) else 0))"
  by (rule fc_safe.vesting_withdraw_run[OF assms])

definition sample_linear :: vesting_balance_object where
  "sample_linear = \<lparr>vbo_owner = 7, vbo_balance = ASSET 1000 0, vbo_policy = Linear_vesting
     \<lparr>begin_timestamp = 1600000000, vesting_cliff_seconds = 0, vesting_duration_seconds = 400000000, begin_balance = 1000\<rparr>,
     vbo_balance_type = Vbt_unspecified\<rparr>"

definition vesting_db :: database where
  "vesting_db = (sample_db 1700000000)\<lparr>vesting_balances := \<lparr>items = [(0, sample_linear)], next_id = 1\<rparr>\<rparr>"

definition sample_vesting_withdraw :: vesting_balance_withdraw_operation where
  "sample_vesting_withdraw = \<lparr>vbw_fee = ASSET 3 0, vbw_vesting_balance = 0, vbw_owner = 7, vbw_amount = ASSET 250 0\<rparr>"

theorem vesting_withdraw_exact_witness:
  "\<exists>d' v. run_vesting_withdraw fc_ref (Some 3) sample_vesting_withdraw vesting_db = Inr d' \<and>
    store_find (vesting_balances d') 0 = Some v \<and> vbo_balance v = ASSET 750 0 \<and> amount (get_balance d' 7 0) = 297"
proof -
  have "\<not> isl (run_vesting_withdraw fc_ref (Some 3) sample_vesting_withdraw vesting_db)"
    by (simp add: run_vesting_withdraw_def sample_vesting_withdraw_def vesting_withdraw_do_evaluate_def
        vesting_withdraw_do_apply_def vesting_db_def sample_linear_def vbo_is_withdraw_allowed_def vbo_context_def
        linear_is_withdraw_allowed_def linear_get_allowed_withdraw_def vbo_withdraw_def asset_sub_def u128_def
        u128_mul_def to_int64_def run_eval sample_defs fc_ref_simps cong: eval_congs)
  then obtain d' where run: "run_vesting_withdraw fc_ref (Some 3) sample_vesting_withdraw vesting_db = Inr d'"
    by (cases "run_vesting_withdraw fc_ref (Some 3) sample_vesting_withdraw vesting_db") auto
  have h: "vesting_withdraw_validate sample_vesting_withdraw = Inr ()"
    "store_find (vesting_balances vesting_db) (vbw_vesting_balance sample_vesting_withdraw) = Some sample_linear"
    "vbo_wf 1700000000 sample_linear" "1700000000 \<le> head_block_time vesting_db" "head_block_time vesting_db < 2 ^ 32"
    "get_balance vesting_db 7 0 = ASSET 50 0"
    by (simp_all add: sample_vesting_withdraw_def vesting_withdraw_validate_def vesting_db_def store_find_def sample_defs
        sample_linear_def vbo_wf_def linear_released_def GRAPHENE_MAX_SHARE_SUPPLY_def GRAPHENE_TEMP_ACCOUNT_def
        get_balance_def get_account_balance_def store_search_def abo_key_def)
  from vesting_withdraw_exact[OF fc_ref.fc_safe_axioms h(1) run h(2-5)] run h(6)
  show ?thesis by (auto simp: sample_vesting_withdraw_def sample_linear_def)
qed

end
