(* ===== verification/Tickets.thy ===== *)
theory Tickets
  imports Fees
begin

text \<open>
  The operations on tickets (\<open>libraries/protocol/ticket.cpp\<close>, \<open>libraries/chain/ticket_evaluator.cpp\<close>) and
  \<open>database::process_tickets\<close> (\<open>libraries/chain/db_update.cpp\<close>), the loop that updates the tickets that are
  due. The loop can run forever when the time is the last representable second, so it is a partial function
  whose value \<open>None\<close> means that it does not return; in a well-formed state it always returns. The lists of
  changed objects that the operation reports are not kept.
\<close>

section \<open>Operations\<close>

record ticket_create_operation =
  tkc_fee :: asset
  tkc_account :: account_id_type
  tkc_target_type :: nat
  tkc_amount :: asset

record ticket_update_operation =
  tku_fee :: asset
  tku_ticket :: nat
  tku_account :: account_id_type
  tku_target_type :: nat
  tku_amount_for_new_target :: "asset option"

definition ticket_create_validate :: "ticket_create_operation \<Rightarrow> unit result" where
  "ticket_create_validate op =
     FC_ASSERT (0 \<le> amount (tkc_fee op))
    (FC_ASSERT (tkc_target_type op \<noteq> ticket_type_index Liquid)
    (FC_ASSERT (tkc_target_type op < ticket_type_index Ticket_type_count)
    (FC_ASSERT (0 < amount (tkc_amount op))
    (FC_ASSERT (asset_id (tkc_amount op) = CORE_ASSET)
    (Inr ())))))"

definition ticket_update_validate :: "ticket_update_operation \<Rightarrow> unit result" where
  "ticket_update_validate op =
     FC_ASSERT (0 \<le> amount (tku_fee op))
    (FC_ASSERT (tku_target_type op < ticket_type_index Ticket_type_count)
    (case tku_amount_for_new_target op of
       None \<Rightarrow> Inr ()
     | Some a \<Rightarrow>
         FC_ASSERT (0 < amount a)
        (FC_ASSERT (asset_id a = CORE_ASSET)
        (Inr ()))))"

section \<open>Processing due tickets\<close>

text \<open>The statistics of an account are found under the id of the account (\<open>get_account_stats_by_owner\<close>).
  The state of the loop is the database with the two global sums of the changes so far.\<close>

type_synonym ticket_loop = "database \<times> share_type \<times> share_type"

text \<open>A ticket that has been withdrawn is paid out.\<close>

definition pay_out_ticket :: "fc_lib \<Rightarrow> nat \<Rightarrow> ticket_object \<Rightarrow> database \<Rightarrow> database result" where
  "pay_out_ticket fc i t d =
     bnd (adjust_balance fc (tk_account t) (tk_amount t) d) (\<lambda>d.
     bnd (modify_stats (tk_account t) (\<lambda>s.
            bnd (safe_sub fc (total_core_pol s) (amount (tk_amount t))) (\<lambda>x.
            bnd (safe_sub fc (total_pol_value s) (tk_value t)) (\<lambda>y.
            Inr (s\<lparr>total_core_pol := x, total_pol_value := y\<rparr>)))) d) (\<lambda>d.
     Inr (d\<lparr>tickets := store_del (tickets d) i\<rparr>)))"

record ticket_deltas =
  delta_pob :: share_type
  delta_inactive :: share_type
  delta_inactive_amount :: share_type
  delta_forever_amount :: share_type
  delta_forever_value :: share_type
  delta_other_amount :: share_type
  delta_other_value :: share_type

definition no_deltas :: ticket_deltas where
  "no_deltas = \<lparr>delta_pob = 0, delta_inactive = 0, delta_inactive_amount = 0, delta_forever_amount = 0,
     delta_forever_value = 0, delta_other_amount = 0, delta_other_value = 0\<rparr>"

text \<open>The changes an update from \<open>t\<close> to \<open>t'\<close> makes to the sums.\<close>

definition deltas_of_update :: "fc_lib \<Rightarrow> ticket_object \<Rightarrow> ticket_object \<Rightarrow> ticket_deltas result" where
  "deltas_of_update fc t t' =
     (let a = amount (tk_amount t') in
      if tk_current_type t = Lock_forever then
        bnd (safe_sub fc (tk_value t') (tk_value t)) (\<lambda>dv.
        if tk_value t' = 0 then
          bnd (safe_neg fc a) (\<lambda>na.
          Inr (no_deltas\<lparr>delta_pob := na, delta_inactive := a, delta_inactive_amount := a,
                         delta_forever_amount := na, delta_forever_value := dv\<rparr>))
        else Inr (no_deltas\<lparr>delta_forever_value := dv\<rparr>))
      else if tk_current_type t' = Lock_forever then
        bnd (safe_neg fc a) (\<lambda>na.
        bnd (safe_neg fc (tk_value t)) (\<lambda>nv.
        Inr (no_deltas\<lparr>delta_pob := a, delta_forever_amount := a, delta_forever_value := tk_value t',
                       delta_other_amount := na, delta_other_value := nv\<rparr>)))
      else
        bnd (safe_sub fc (tk_value t') (tk_value t)) (\<lambda>dv.
        Inr (no_deltas\<lparr>delta_other_value := dv\<rparr>)))"

definition stats_add_deltas :: "fc_lib \<Rightarrow> ticket_deltas \<Rightarrow> account_statistics_object \<Rightarrow>
    account_statistics_object result" where
  "stats_add_deltas fc ds s =
     bnd (safe_add fc (total_core_inactive s) (delta_inactive_amount ds)) (\<lambda>inactive.
     bnd (safe_add fc (total_core_pob s) (delta_forever_amount ds)) (\<lambda>pob.
     bnd (safe_add fc (total_core_pol s) (delta_other_amount ds)) (\<lambda>pol.
     bnd (safe_add fc (total_pob_value s) (delta_forever_value ds)) (\<lambda>pobv.
     bnd (safe_add fc (total_pol_value s) (delta_other_value ds)) (\<lambda>polv.
     Inr (s\<lparr>total_core_inactive := inactive, total_core_pob := pob, total_core_pol := pol,
            total_pob_value := pobv, total_pol_value := polv\<rparr>))))))"

text \<open>One round of the loop.\<close>

definition process_ticket :: "fc_lib \<Rightarrow> ticket_version \<Rightarrow> nat \<Rightarrow> ticket_object \<Rightarrow> ticket_loop \<Rightarrow> ticket_loop result" where
  "process_ticket fc version i t st =
     (case st of (d, pob, inactive) \<Rightarrow>
     bnd (store_get (account_stats d) (tk_account t)) (\<lambda>_.
     if tk_status t = Withdrawing \<and> tk_current_type t = Liquid then
       bnd (pay_out_ticket fc i t d) (\<lambda>d. Inr (d, pob, inactive))
     else
       bnd (auto_update fc version t) (\<lambda>t'.
       bnd (deltas_of_update fc t t') (\<lambda>ds.
       bnd (safe_add fc pob (delta_pob ds)) (\<lambda>pob.
       bnd (safe_add fc inactive (delta_inactive ds)) (\<lambda>inactive.
       bnd (modify_stats (tk_account t) (stats_add_deltas fc ds) (d\<lparr>tickets := store_put (tickets d) i t'\<rparr>)) (\<lambda>d.
       Inr (d, pob, inactive))))))))"

partial_function (option) process_due_tickets ::
    "fc_lib \<Rightarrow> ticket_version \<Rightarrow> ticket_loop \<Rightarrow> ticket_loop result option" where
  "process_due_tickets fc version st =
     (case store_first tk_next_auto_update_time (tickets (fst st)) of
        None \<Rightarrow> Some (Inr st)
      | Some (i, t) \<Rightarrow>
          if tk_next_auto_update_time t \<le> head_block_time (fst st) then
            (case process_ticket fc version i t st of
               Inl e \<Rightarrow> Some (Inl e)
             | Inr st' \<Rightarrow> process_due_tickets fc version st')
          else Some (Inr st))"

definition process_tickets :: "fc_lib \<Rightarrow> database \<Rightarrow> database result" where
  "process_tickets fc d =
     (case process_due_tickets fc (ticket_version_at (next_maintenance_time d)) (d, 0, 0) of
        None \<Rightarrow> Inl Does_not_return
      | Some r \<Rightarrow>
          bnd r (\<lambda>(d, pob, inactive).
          if pob \<noteq> 0 \<or> inactive \<noteq> 0 then
            bnd (safe_add fc (total_pob d) pob) (\<lambda>x.
            bnd (safe_add fc (total_inactive d) inactive) (\<lambda>y.
            Inr (d\<lparr>total_pob := x, total_inactive := y\<rparr>)))
          else Inr d))"

section \<open>Evaluators\<close>

definition ticket_create_do_evaluate :: "ticket_create_operation \<Rightarrow> fee_state \<Rightarrow> database \<Rightarrow> unit result" where
  "ticket_create_do_evaluate op fs d = FC_ASSERT (HARDFORK_CORE_2103_TIME \<le> head_block_time d) (Inr ())"

definition ticket_create_do_apply ::
    "fc_lib \<Rightarrow> ticket_create_operation \<Rightarrow> unit \<Rightarrow> fee_state \<Rightarrow> database \<Rightarrow> database result" where
  "ticket_create_do_apply fc op ev fs d =
     bnd (debit fc (tkc_account op) (tkc_amount op) d) (\<lambda>d.
     bnd (ticket_type_cast (int (tkc_target_type op))) (\<lambda>target.
     bnd (init_new fc (head_block_time d) (tkc_account op) target (tkc_amount op)
           (ticket_version_at (next_maintenance_time d))) (\<lambda>t.
     modify_stats (tkc_account op) (\<lambda>s.
       bnd (safe_add fc (total_core_pol s) (amount (tkc_amount op))) (\<lambda>x.
       bnd (safe_add fc (total_pol_value s) (tk_value t)) (\<lambda>y.
       Inr (s\<lparr>total_core_pol := x, total_pol_value := y\<rparr>))))
       (d\<lparr>tickets := store_add (tickets d) t\<rparr>))))"

definition ticket_update_do_evaluate :: "ticket_update_operation \<Rightarrow> fee_state \<Rightarrow> database \<Rightarrow> unit result" where
  "ticket_update_do_evaluate op fs d =
     bnd (store_get (tickets d) (tku_ticket op)) (\<lambda>t.
     FC_ASSERT (tk_account t = tku_account op)
    (FC_ASSERT (tk_current_type t \<noteq> Lock_forever)
    (FC_ASSERT (ticket_type_index (tk_target_type t) \<noteq> tku_target_type op)
    (case tku_amount_for_new_target op of
       None \<Rightarrow> Inr ()
     | Some a \<Rightarrow> bnd (asset_le a (tk_amount t)) (\<lambda>ok. FC_ASSERT ok (Inr ()))))))"

text \<open>Splitting the ticket, and giving the whole ticket its new target: the new index and the change of the
  value.\<close>

definition split_ticket :: "fc_lib \<Rightarrow> ticket_update_operation \<Rightarrow> ticket_object \<Rightarrow> ticket_type \<Rightarrow> asset \<Rightarrow> database \<Rightarrow>
    (database \<times> share_type) result" where
  "split_ticket fc op t target a d =
     (let version = ticket_version_at (next_maintenance_time d) in
     bnd (init_split fc (head_block_time d) t target a version) (\<lambda>new.
     bnd (asset_neg fc a) (\<lambda>na.
     bnd (adjust_amount fc na version t) (\<lambda>t'.
     bnd (safe_add fc (tk_value new) (tk_value t')) (\<lambda>x.
     bnd (safe_sub fc x (tk_value t)) (\<lambda>delta_value.
     Inr (d\<lparr>tickets := store_put (store_add (tickets d) new) (tku_ticket op) t'\<rparr>, delta_value)))))))"

definition retarget_ticket :: "fc_lib \<Rightarrow> ticket_update_operation \<Rightarrow> ticket_object \<Rightarrow> ticket_type \<Rightarrow> database \<Rightarrow>
    (database \<times> share_type) result" where
  "retarget_ticket fc op t target d =
     bnd (update_target_type fc (head_block_time d) target (ticket_version_at (next_maintenance_time d)) t) (\<lambda>t'.
     bnd (safe_sub fc (tk_value t') (tk_value t)) (\<lambda>delta_value.
     Inr (d\<lparr>tickets := store_put (tickets d) (tku_ticket op) t'\<rparr>, delta_value)))"

definition ticket_update_do_apply ::
    "fc_lib \<Rightarrow> ticket_update_operation \<Rightarrow> unit \<Rightarrow> fee_state \<Rightarrow> database \<Rightarrow> database result" where
  "ticket_update_do_apply fc op ev fs d =
     bnd (store_get (tickets d) (tku_ticket op)) (\<lambda>t.
     bnd (ticket_type_cast (int (tku_target_type op))) (\<lambda>target.
     bnd (case tku_amount_for_new_target op of
            None \<Rightarrow> retarget_ticket fc op t target d
          | Some a \<Rightarrow> bnd (asset_less a (tk_amount t)) (\<lambda>part.
              if part then split_ticket fc op t target a d else retarget_ticket fc op t target d)) (\<lambda>(d, delta_value).
     bnd (if delta_value \<noteq> 0 then
            modify_stats (tku_account op) (\<lambda>s.
              bnd (safe_add fc (total_pol_value s) delta_value) (\<lambda>y.
              Inr (s\<lparr>total_pol_value := y\<rparr>))) d
          else Inr d) (\<lambda>d.
     process_tickets fc d))))"

definition run_ticket_create ::
    "fc_lib \<Rightarrow> share_type option \<Rightarrow> ticket_create_operation \<Rightarrow> database \<Rightarrow> database result" where
  "run_ticket_create fc req op d = run_operation fc req (tkc_account op) (tkc_fee op)
     (ticket_create_do_evaluate op) (ticket_create_do_apply fc op) d"

definition run_ticket_update ::
    "fc_lib \<Rightarrow> share_type option \<Rightarrow> ticket_update_operation \<Rightarrow> database \<Rightarrow> database result" where
  "run_ticket_update fc req op d = run_operation fc req (tku_account op) (tku_fee op)
     (ticket_update_do_evaluate op) (ticket_update_do_apply fc op) d"

section \<open>Steps on tickets\<close>

lemma wf_db_tickets: "wf_db d \<Longrightarrow>
    ticket_books (ticket_version_at (next_maintenance_time d)) (tickets d) (account_stats d) (total_pob d) (total_inactive d)"
  by (simp add: wf_defs)

lemma ticket_books_ok: "ticket_books version ts ss p q \<Longrightarrow> store_find ts i = Some t \<Longrightarrow> ticket_ok version t"
  using store_all_find[of "ticket_fits version ss" ts i t] by (simp add: ticket_books_def ticket_fits_def)

lemma ticket_books_fits: "ticket_books version ts ss p q \<Longrightarrow> store_find ts i = Some t \<Longrightarrow>
    \<exists>s. store_find ss (tk_account t) = Some s"
  using store_all_find[of "ticket_fits version ss" ts i t] by (auto simp: ticket_books_def ticket_fits_def)

lemma ticket_books_change:
  assumes "ticket_books version ts ss p q" "store_find ss acc = Some s"
    and "store_wf ts'" "store_all (ticket_fits version ss) ts'"
    and "\<And>f. store_sum f ts' = store_sum f ts + lsum f new - lsum f old"
    and "\<forall>t \<in> set new \<union> set old. tk_account t = acc"
    and "\<And>k. stats_stake s' k = stats_stake s k + lsum (\<lambda>t. ticket_stake t k) new - lsum (\<lambda>t. ticket_stake t k) old"
    and "p' = p + lsum (\<lambda>t. ticket_stake t Core_pob) new - lsum (\<lambda>t. ticket_stake t Core_pob) old"
    and "q' = q + lsum (\<lambda>t. ticket_stake t Core_inactive) new - lsum (\<lambda>t. ticket_stake t Core_inactive) old"
  shows "ticket_books version ts' (store_put ss acc s') p' q'"
proof -
  have "ticket_fits version (store_put ss acc s') = ticket_fits version ss"
    by (intro ext) (auto simp: ticket_fits_def store_find_put)
  then show ?thesis using assms(1,3,4) stake_sums_change[OF _ assms(2,5-9)] by (simp add: ticket_books_def)
qed

lemma tickets_total_sum: "tickets_total ts a = store_sum (\<lambda>t. amt_at (asset_id (tk_amount t)) (amount (tk_amount t)) a) ts"
  unfolding tickets_total_def amt_at_def by (rule arg_cong[where f = "\<lambda>f. store_sum f ts"]) auto

text \<open>The database with the global sums brought up to date.\<close>

definition settle :: "ticket_loop \<Rightarrow> database" where
  "settle st = (case st of (d, pob, inactive) \<Rightarrow>
     d\<lparr>total_pob := total_pob d + pob, total_inactive := total_inactive d + inactive\<rparr>)"

lemma settle_fields [simp]:
  "head_block_time (settle (d, p, q)) = head_block_time d" "next_maintenance_time (settle (d, p, q)) = next_maintenance_time d"
  "tickets (settle (d, p, q)) = tickets d" "account_stats (settle (d, p, q)) = account_stats d"
  "total_pob (settle (d, p, q)) = total_pob d + p" "total_inactive (settle (d, p, q)) = total_inactive d + q"
  by (simp_all add: settle_def)

lemma settle_zero [simp]: "settle (d, 0, 0) = d"
  by (simp add: settle_def)

text \<open>A change of the tickets together with the books.\<close>

lemma gap_step_tickets:
  assumes "store_find (account_stats d) acc = Some s"
    and "pending_fees s' = pending_fees s" "pending_vested_fees s' = pending_vested_fees s"
    and "ticket_books (ticket_version_at (next_maintenance_time d)) (tickets d) (account_stats d)
        (total_pob d + p) (total_inactive d + q) \<Longrightarrow>
      ticket_books (ticket_version_at (next_maintenance_time d)) ts' (store_put (account_stats d) acc s')
        (total_pob d + p') (total_inactive d + q')"
  shows "gap_step (settle (d, p, q)) (settle (d\<lparr>tickets := ts', account_stats := store_put (account_stats d) acc s'\<rparr>, p', q'))
      (\<lambda>a. tickets_total ts' a - tickets_total (tickets d) a)"
    "gap_step (settle (d, p, q)) (settle (d\<lparr>account_stats := store_put (account_stats d) acc s', tickets := ts'\<rparr>, p', q'))
      (\<lambda>a. tickets_total ts' a - tickets_total (tickets d) a)"
  using assms by (auto simp: settle_def gap_step_def gap_defs wf_defs balances_nonneg_def pending_total_def store_sum_put)

lemma adjust_balance_settle:
  assumes "adjust_balance fc account delta d = Inr d'"
  shows "adjust_balance fc account delta (settle (d, p, q)) = Inr (settle (d', p, q))"
  using assms by (auto simp: adjust_balance_def get_account_balance_def settle_def split: option.splits if_splits)

definition ticket_ranks :: "database \<Rightarrow> nat" where
  "ticket_ranks d = sum_list (map (\<lambda>p. ticket_rank (snd p)) (items (tickets d)))"

lemma ticket_ranks_sum: "int (ticket_ranks d) = store_sum (\<lambda>t. int (ticket_rank t)) (tickets d)"
proof -
  have "int (sum_list (map f xs)) = lsum (\<lambda>x. int (f x)) xs" for f :: "'x \<Rightarrow> nat" and xs
    by (induction xs) simp_all
  then show ?thesis by (simp add: ticket_ranks_def store_sum_def)
qed

context fc_safe
begin

lemma update_value_type: "update_value fc version t = Inr t' \<Longrightarrow> tk_current_type t' = tk_current_type t"
  by (auto simp: update_value_Inr split: if_splits)

lemma auto_update_forever:
  assumes "auto_update fc version t = Inr t'"
  shows "tk_current_type t = Lock_forever \<Longrightarrow> tk_status t \<noteq> Charging \<Longrightarrow> tk_current_type t' = Lock_forever"
    "tk_current_type t' = Lock_forever \<Longrightarrow> tk_current_type t \<noteq> Lock_forever \<Longrightarrow> ticket_ok version t \<Longrightarrow>
       tk_value t' = 8 * amount (tk_amount t)"
proof -
  from assms obtain t1 where t1: "(if tk_status t = Charging then auto_update_charging fc version t
      else auto_update_withdrawing fc version t) = Inr t1" and t': "update_value fc version t1 = Inr t'"
    by (auto simp: auto_update_def)
  note same = update_value_type[OF t']
  show "tk_current_type t' = Lock_forever" if "tk_current_type t = Lock_forever" "tk_status t \<noteq> Charging"
    unfolding same using t1 that by (auto simp: auto_update_withdrawing_def split: if_splits)
  show "tk_value t' = 8 * amount (tk_amount t)"
    if "tk_current_type t' = Lock_forever" and "tk_current_type t \<noteq> Lock_forever" "ticket_ok version t"
  proof -
    have fin: "tk_current_type t1 = Lock_forever" "t' = t1" using that(1) same t' by (simp_all add: update_value_Inr)
    have le: "tk_target_type t \<le> Lock_forever" "tk_current_type t \<le> Lock_forever"
      using that(3) by (simp_all add: ticket_ok_def ticket_shape_def)
    show ?thesis
    proof (cases "tk_status t = Charging")
      case True
      then show ?thesis using t1 fin le(1)
        by (auto simp: auto_update_charging_def split: if_splits)
    next
      case False
      from t1 False have "auto_update_withdrawing fc version t = Inr t1" by simp
      then show ?thesis using fin(1) that(2) le(2) unfolding auto_update_withdrawing_def
        by (auto simp: ticket_type_cast_Inr less_eq_ticket_type_def split: if_splits)
    qed
  qed
qed

lemma deltas_stake:
  assumes "deltas_of_update fc t t' = Inr ds" "stats_add_deltas fc ds s = Inr s'"
    and "tk_amount t' = tk_amount t" "tk_current_type t = Lock_forever \<Longrightarrow> tk_current_type t' = Lock_forever \<and> tk_value t \<noteq> 0"
    and "tk_current_type t' = Lock_forever \<Longrightarrow> tk_current_type t \<noteq> Lock_forever \<Longrightarrow> tk_value t' \<noteq> 0"
  shows "stats_stake s' k = stats_stake s k + ticket_stake t' k - ticket_stake t k"
    and "delta_pob ds = ticket_stake t' Core_pob - ticket_stake t Core_pob"
    and "delta_inactive ds = ticket_stake t' Core_inactive - ticket_stake t Core_inactive"
    and "pending_fees s' = pending_fees s" "pending_vested_fees s' = pending_vested_fees s"
proof -
  have s': "stats_stake s' Core_inactive = stats_stake s Core_inactive + delta_inactive_amount ds"
    "stats_stake s' Core_pob = stats_stake s Core_pob + delta_forever_amount ds"
    "stats_stake s' Core_pol = stats_stake s Core_pol + delta_other_amount ds"
    "stats_stake s' Pob_value = stats_stake s Pob_value + delta_forever_value ds"
    "stats_stake s' Pol_value = stats_stake s Pol_value + delta_other_value ds"
    "pending_fees s' = pending_fees s" "pending_vested_fees s' = pending_vested_fees s"
    using assms(2) by (auto simp: stats_add_deltas_def)
  have ds: "delta_inactive_amount ds = ticket_stake t' Core_inactive - ticket_stake t Core_inactive"
    "delta_forever_amount ds = ticket_stake t' Core_pob - ticket_stake t Core_pob"
    "delta_other_amount ds = ticket_stake t' Core_pol - ticket_stake t Core_pol"
    "delta_forever_value ds = ticket_stake t' Pob_value - ticket_stake t Pob_value"
    "delta_other_value ds = ticket_stake t' Pol_value - ticket_stake t Pol_value"
    "delta_pob ds = ticket_stake t' Core_pob - ticket_stake t Core_pob"
    "delta_inactive ds = ticket_stake t' Core_inactive - ticket_stake t Core_inactive"
    using assms(1,3-5) by (auto simp: deltas_of_update_def no_deltas_def split: if_splits)
  show "stats_stake s' k = stats_stake s k + ticket_stake t' k - ticket_stake t k"
    using s'(1-5) ds(1-5) by (cases k) (simp_all del: ticket_stake.simps stats_stake.simps)
  show "delta_pob ds = ticket_stake t' Core_pob - ticket_stake t Core_pob"
    "delta_inactive ds = ticket_stake t' Core_inactive - ticket_stake t Core_inactive"
    "pending_fees s' = pending_fees s" "pending_vested_fees s' = pending_vested_fees s"
    using ds(6,7) s'(6,7) by simp_all
qed

text \<open>One round of the loop: it keeps the settled database well-formed, conserves every asset and brings
  the tickets closer to their rest.\<close>

lemma pay_out_ticket_step:
  assumes "pay_out_ticket fc i t d = Inr d'" "store_find (tickets d) i = Some t"
    and "tk_current_type t = Liquid"
  shows "conserves (settle (d, p, q)) (settle (d', p, q))" and "tickets d' = store_del (tickets d) i"
    "head_block_time d' = head_block_time d" "next_maintenance_time d' = next_maintenance_time d"
proof -
  from assms(1) obtain d1 s where d1: "adjust_balance fc (tk_account t) (tk_amount t) d = Inr d1"
    and s: "store_find (account_stats d1) (tk_account t) = Some s"
    and d': "d' = d1\<lparr>account_stats := store_put (account_stats d1) (tk_account t)
        (s\<lparr>total_core_pol := total_core_pol s - amount (tk_amount t), total_pol_value := total_pol_value s - tk_value t\<rparr>),
      tickets := store_del (tickets d1) i\<rparr>"
    by (auto simp: pay_out_ticket_def elim!: modify_statsE)
  let ?s' = "s\<lparr>total_core_pol := total_core_pol s - amount (tk_amount t), total_pol_value := total_pol_value s - tk_value t\<rparr>"
  obtain bs where bs: "d1 = d\<lparr>account_balances := bs\<rparr>" using adjust_balance_only[OF d1] by blast
  note f = adjust_balance_settle[OF d1, of p q]
  have t1: "store_find (tickets d1) i = Some t" using assms(2) by (simp add: bs)
  show "tickets d' = store_del (tickets d) i" "head_block_time d' = head_block_time d"
    "next_maintenance_time d' = next_maintenance_time d" by (simp_all add: d' bs)
  have stake: "stats_stake ?s' k = stats_stake s k + 0 - ticket_stake t k" for k
    using assms(3) by (cases k) simp_all
  have "gap_step (settle (d1, p, q)) (settle (d', p, q)) (\<lambda>a. tickets_total (store_del (tickets d1) i) a - tickets_total (tickets d1) a)"
    unfolding d' using s
  proof (rule gap_step_tickets(2)[of d1 "tk_account t" s ?s' p q "store_del (tickets d1) i" p q, simplified])
    assume b: "ticket_books (ticket_version_at (next_maintenance_time d1)) (tickets d1)
        (account_stats d1) (total_pob d1 + p) (total_inactive d1 + q)"
    show "ticket_books (ticket_version_at (next_maintenance_time d1)) (store_del (tickets d1) i)
          (store_put (account_stats d1) (tk_account t) ?s') (total_pob d1 + p) (total_inactive d1 + q)"
      using b[unfolded ticket_books_def] assms(3) stake
      by (intro ticket_books_change[OF b s, where new = "[]" and old = "[t]"])
        (simp_all add: store_wf_del store_all_del store_sum_del[OF t1])
  qed
  from gap_step_then[OF gap_step_adjust[OF f] this] show "conserves (settle (d, p, q)) (settle (d', p, q))"
    by (simp add: tickets_total_sum store_sum_del[OF t1])
qed

lemma due_ticket:
  assumes "wf_db (settle (d, p, q))" "store_find (tickets d) i = Some t" "tk_next_auto_update_time t \<le> head_block_time d"
  shows "ticket_ok (ticket_version_at (next_maintenance_time d)) t" "tk_status t \<noteq> Stable"
proof -
  show ok: "ticket_ok (ticket_version_at (next_maintenance_time d)) t"
    using ticket_books_ok[OF wf_db_tickets[OF assms(1)]] assms(2) by simp
  have "head_block_time d < tps_maximum" using assms(1) by (simp add: settle_def wf_db_def)
  then show "tk_status t \<noteq> Stable" using ok assms(3) by (auto simp: ticket_ok_def ticket_shape_def)
qed

lemma update_ticket_step:
  assumes up: "auto_update fc version t = Inr t'" and ds: "deltas_of_update fc t t' = Inr ds"
    and d': "modify_stats (tk_account t) (stats_add_deltas fc ds) (d\<lparr>tickets := store_put (tickets d) i t'\<rparr>) = Inr d'"
    and find: "store_find (tickets d) i = Some t" and ok: "ticket_ok version t" "tk_status t \<noteq> Stable"
    and "\<not> (tk_status t = Withdrawing \<and> tk_current_type t = Liquid)" and v: "version = ticket_version_at (next_maintenance_time d)"
  shows "conserves (settle (d, p, q)) (settle (d', p + delta_pob ds, q + delta_inactive ds))"
    and "tickets d' = store_put (tickets d) i t'" "head_block_time d' = head_block_time d"
      "next_maintenance_time d' = next_maintenance_time d"
proof -
  from d' obtain s s' where s: "store_find (account_stats d) (tk_account t) = Some s" and s': "stats_add_deltas fc ds s = Inr s'"
    and d'_eq: "d' = d\<lparr>tickets := store_put (tickets d) i t', account_stats := store_put (account_stats d) (tk_account t) s'\<rparr>"
    by (auto elim!: modify_statsE)
  show "tickets d' = store_put (tickets d) i t'" "head_block_time d' = head_block_time d"
    "next_maintenance_time d' = next_maintenance_time d" by (simp_all add: d'_eq)
  note t' = auto_update_ok[OF up ok assms(7)]
  have f: "tk_current_type t' = Lock_forever \<and> tk_value t \<noteq> 0" if "tk_current_type t = Lock_forever"
  proof -
    have "tk_status t \<noteq> Charging" using ok(1) that by (auto simp: ticket_ok_def ticket_shape_def)
    with auto_update_forever(1)[OF up that] that ok show ?thesis by (auto simp: ticket_ok_def)
  qed
  have g: "tk_value t' \<noteq> 0" if "tk_current_type t' = Lock_forever" "tk_current_type t \<noteq> Lock_forever"
    using auto_update_forever(2)[OF up that ok(1)] ok(1) by (simp add: ticket_ok_def ticket_shape_def)
  have amt: "tk_amount t' = tk_amount t" and acc: "tk_account t' = tk_account t" using t' by simp_all
  note st = deltas_stake[OF ds s' amt f g]
  have "gap_step (settle (d, p, q)) (settle (d', p + delta_pob ds, q + delta_inactive ds))
      (\<lambda>a. tickets_total (store_put (tickets d) i t') a - tickets_total (tickets d) a)"
    unfolding d'_eq using s st(4,5)
  proof (rule gap_step_tickets(1))
    assume b: "ticket_books (ticket_version_at (next_maintenance_time d)) (tickets d) (account_stats d)
        (total_pob d + p) (total_inactive d + q)"
    show "ticket_books (ticket_version_at (next_maintenance_time d)) (store_put (tickets d) i t')
        (store_put (account_stats d) (tk_account t) s') (total_pob d + (p + delta_pob ds)) (total_inactive d + (q + delta_inactive ds))"
      using b[unfolded ticket_books_def] st(1-3) t' v
      by (intro ticket_books_change[OF b s, where new = "[t']" and old = "[t]"])
        (simp_all add: store_wf_put store_all_put store_sum_put[OF find] ticket_fits_def s del: ticket_stake.simps)
  qed
  then show "conserves (settle (d, p, q)) (settle (d', p + delta_pob ds, q + delta_inactive ds))"
    by (simp add: tickets_total_sum store_sum_put[OF find] amt)
qed

lemma process_ticket_step:
  assumes run: "process_ticket fc version i t (d, p, q) = Inr (d', p', q')"
    and find: "store_find (tickets d) i = Some t" and v: "version = ticket_version_at (next_maintenance_time d)"
    and wf: "wf_db (settle (d, p, q))" and due: "tk_next_auto_update_time t \<le> head_block_time d"
  shows "conserves (settle (d, p, q)) (settle (d', p', q')) \<and> head_block_time d' = head_block_time d \<and>
    next_maintenance_time d' = next_maintenance_time d \<and> ticket_ranks d' < ticket_ranks d"
proof (cases "tk_status t = Withdrawing \<and> tk_current_type t = Liquid")
  case True
  then have "pay_out_ticket fc i t d = Inr d'" and pq: "p' = p" "q' = q"
    using run by (auto simp: process_ticket_def)
  note d' = pay_out_ticket_step[OF this(1) find conjunct2[OF True]]
  have "int (ticket_ranks d') < int (ticket_ranks d)" unfolding ticket_ranks_sum
    using d'(2) True by (simp add: store_sum_del[OF find] ticket_rank_def)
  then show ?thesis using d' by (simp add: pq)
next
  case False
  from run False obtain t' ds where up: "auto_update fc version t = Inr t'" and ds: "deltas_of_update fc t t' = Inr ds"
    and pq: "p' = p + delta_pob ds" "q' = q + delta_inactive ds"
    and d': "modify_stats (tk_account t) (stats_add_deltas fc ds) (d\<lparr>tickets := store_put (tickets d) i t'\<rparr>) = Inr d'"
    by (auto simp: process_ticket_def)
  note ok = due_ticket[OF wf find due, folded v]
  note step = update_ticket_step[OF up ds d' find ok False v]
  have "int (ticket_ranks d') < int (ticket_ranks d)" unfolding ticket_ranks_sum step(2)
    using auto_update_ok[OF up ok False] by (simp add: store_sum_put[OF find])
  then show ?thesis using step by (simp add: pq)
qed

text \<open>The loop returns; when it does not throw, no ticket is due any more.\<close>

lemma process_due_tickets_returns:
  assumes "wf_db (settle st)" "version = ticket_version_at (next_maintenance_time (fst st))"
  shows "\<exists>r. process_due_tickets fc version st = Some r \<and>
    (\<forall>st'. r = Inr st' \<longrightarrow> conserves (settle st) (settle st') \<and>
      store_all (\<lambda>t. head_block_time (fst st') < tk_next_auto_update_time t) (tickets (fst st')))"
  using assms
proof (induction "ticket_ranks (fst st)" arbitrary: st rule: less_induct)
  case less
  obtain d p q where st: "st = (d, p, q)" by (cases st)
  have wft: "store_wf (tickets d)" using wf_db_tickets[OF less.prems(1)] by (simp add: st ticket_books_def)
  show ?case
  proof (cases "store_first tk_next_auto_update_time (tickets d)")
    case None
    then have "items (tickets d) = []" by simp
    then show ?thesis using None by (subst process_due_tickets.simps) (simp add: st store_all_def store_first_def)
  next
    case (Some it)
    obtain i t where it: "it = (i, t)" by (cases it)
    have find: "store_find (tickets d) i = Some t"
      by (rule store_wf_find[OF wft store_first_itemsD[OF Some[unfolded it]]])
    show ?thesis
    proof (cases "tk_next_auto_update_time t \<le> head_block_time d")
      case False
      then have "head_block_time d < tk_next_auto_update_time w" if "(j, w) \<in> set (items (tickets d))" for j w
        using store_first_le[of tk_next_auto_update_time "tickets d" i t j w] Some that by (simp add: it)
      then have "store_all (\<lambda>t. head_block_time d < tk_next_auto_update_time t) (tickets d)"
        by (auto simp: store_all_def list_all_iff)
      then show ?thesis using Some False by (subst process_due_tickets.simps) (simp add: st it)
    next
      case due: True
      show ?thesis
      proof (cases "process_ticket fc version i t st")
        case (Inl e)
        then show ?thesis using Some due by (subst process_due_tickets.simps) (simp add: st it)
      next
        case (Inr st1)
        obtain d1 p1 q1 where st1: "st1 = (d1, p1, q1)" by (cases st1)
        have "version = ticket_version_at (next_maintenance_time d)" using less.prems(2) by (simp add: st)
        note step = process_ticket_step[OF Inr[unfolded st st1] find this less.prems(1)[unfolded st] due]
        then have wf1: "wf_db (settle st1)" using less.prems(1) by (auto simp: st st1 gap_step_def)
        from less.hyps[OF _ wf1] step less.prems(2) obtain r where
          r: "process_due_tickets fc version st1 = Some r"
          "\<forall>st'. r = Inr st' \<longrightarrow> conserves (settle st1) (settle st') \<and>
            store_all (\<lambda>t. head_block_time (fst st') < tk_next_auto_update_time t) (tickets (fst st'))"
          by (auto simp: st st1)
        then have "process_due_tickets fc version st = Some r"
          using Some due Inr by (subst process_due_tickets.simps) (simp add: st it)
        then show ?thesis using r(2) conserves_trans[of "settle st" "settle st1"] step by (auto simp: st st1)
      qed
    qed
  qed
qed

lemma process_tickets_step:
  assumes "wf_db d" "process_tickets fc d = Inr d'"
  shows "conserves d d' \<and> store_all (\<lambda>t. head_block_time d' < tk_next_auto_update_time t) (tickets d')"
proof -
  from process_due_tickets_returns[of "(d, 0, 0)"] assms(1) obtain r where
    r: "process_due_tickets fc (ticket_version_at (next_maintenance_time d)) (d, 0, 0) = Some r"
    "\<And>st'. r = Inr st' \<Longrightarrow> conserves d (settle st') \<and>
      store_all (\<lambda>t. head_block_time (fst st') < tk_next_auto_update_time t) (tickets (fst st'))"
    by auto
  from assms(2) r(1) obtain d1 p q where st: "r = Inr (d1, p, q)" and "d' = settle (d1, p, q)"
    by (auto simp: process_tickets_def settle_def split: if_splits)
  with r(2)[OF st] show ?thesis by simp
qed

lemma process_tickets_conserves: "process_tickets fc d = Inr d' \<Longrightarrow> conserves d d'"
  using process_tickets_step by (blast intro: gap_step_wf)

lemma ticket_create_conserves:
  assumes "ticket_create_validate op = Inr ()" "ticket_create_do_apply fc op ev fs d = Inr d'"
  shows "conserves d d'"
proof -
  from assms(2) obtain d1 target t s where d1: "debit fc (tkc_account op) (tkc_amount op) d = Inr d1"
    and target: "ticket_type_cast (int (tkc_target_type op)) = Inr target"
    and t: "init_new fc (head_block_time d1) (tkc_account op) target (tkc_amount op)
       (ticket_version_at (next_maintenance_time d1)) = Inr t"
    and s: "store_find (account_stats d1) (tkc_account op) = Some s"
    and d': "d' = d1\<lparr>tickets := store_add (tickets d1) t, account_stats := store_put (account_stats d1) (tkc_account op)
        (s\<lparr>total_core_pol := total_core_pol s + amount (tkc_amount op), total_pol_value := total_pol_value s + tk_value t\<rparr>)\<rparr>"
    by (auto simp: ticket_create_do_apply_def simp del: debit_iff elim!: modify_statsE)
  have v: "0 < amount (tkc_amount op)" "asset_id (tkc_amount op) = CORE_ASSET" "target \<noteq> Liquid" "target \<le> Lock_forever"
    using assms(1) target by (auto simp: ticket_create_validate_def ticket_type_cast_Inr ticket_type_ord)
  note ok = init_new_ok[OF t v]
  let ?s' = "s\<lparr>total_core_pol := total_core_pol s + amount (tkc_amount op), total_pol_value := total_pol_value s + tk_value t\<rparr>"
  have stake: "stats_stake ?s' k = stats_stake s k + ticket_stake t k - 0" for k
    using ok by (cases k) simp_all
  have "gap_step (settle (d1, 0, 0)) (settle (d', 0, 0)) (\<lambda>a. tickets_total (store_add (tickets d1) t) a - tickets_total (tickets d1) a)"
    unfolding d' using s
  proof (rule gap_step_tickets(1)[where s' = ?s'])
    assume b: "ticket_books (ticket_version_at (next_maintenance_time d1)) (tickets d1) (account_stats d1)
      (total_pob d1 + 0) (total_inactive d1 + 0)"
    show "ticket_books (ticket_version_at (next_maintenance_time d1)) (store_add (tickets d1) t)
      (store_put (account_stats d1) (tkc_account op) ?s') (total_pob d1 + 0) (total_inactive d1 + 0)"
      using b[unfolded ticket_books_def] ok stake s
      by (intro ticket_books_change[OF b s, where new = "[t]" and old = "[]"])
        (simp_all add: store_wf_add store_all_add ticket_fits_def)
  qed simp_all
  from gap_step_then[OF gap_step_debit[OF d1] this[simplified]] show ?thesis
    using ok by (simp add: tickets_total_sum amt_at_neg)
qed

text \<open>Tickets of one account that are not locked forever change their value, but not their amount.\<close>

lemma ticket_value_step:
  assumes acc: "store_find (tickets d) i = Some t" "tk_account t = acc"
    and step: "(if dv \<noteq> 0 then modify_stats acc (\<lambda>s. bnd (safe_add fc (total_pol_value s) dv) (\<lambda>y. Inr (s\<lparr>total_pol_value := y\<rparr>)))
         (d\<lparr>tickets := ts'\<rparr>) else Inr (d\<lparr>tickets := ts'\<rparr>)) = Inr d'"
    and wf': "ticket_ok (ticket_version_at (next_maintenance_time d)) t \<Longrightarrow> store_wf (tickets d) \<Longrightarrow> store_wf ts'"
    and fits: "\<And>ss. store_find ss acc \<noteq> None \<Longrightarrow> ticket_ok (ticket_version_at (next_maintenance_time d)) t \<Longrightarrow>
      store_all (ticket_fits (ticket_version_at (next_maintenance_time d)) ss) (tickets d) \<Longrightarrow>
      store_all (ticket_fits (ticket_version_at (next_maintenance_time d)) ss) ts'"
    and sums: "\<And>f. store_sum f ts' = store_sum f (tickets d) + lsum f new - f t"
    and new: "\<forall>t' \<in> set new. tk_account t' = acc \<and> tk_current_type t' \<noteq> Lock_forever \<and> asset_id (tk_amount t') = asset_id (tk_amount t)"
      "lsum (\<lambda>t'. amount (tk_amount t')) new = amount (tk_amount t)" "lsum tk_value new = tk_value t + dv"
    and t: "tk_current_type t \<noteq> Lock_forever"
  shows "conserves d d'"
proof (rule gap_step_wf)
  assume wf: "wf_db d"
  from ticket_books_fits[OF wf_db_tickets[OF wf] acc(1)] acc(2) obtain s where
    s: "store_find (account_stats d) acc = Some s" by auto
  let ?s' = "s\<lparr>total_pol_value := total_pol_value s + dv\<rparr>"
  have d': "d' = d\<lparr>tickets := ts', account_stats := store_put (account_stats d) acc ?s'\<rparr>"
    using step s by (auto simp: store_put_same split: if_splits elim!: modify_statsE)
  have none: "lsum (\<lambda>t'. ticket_stake t' k) new = (case k of Core_pol \<Rightarrow> amount (tk_amount t) | Pol_value \<Rightarrow> tk_value t + dv | _ \<Rightarrow> 0)" for k
  proof -
    have "lsum (\<lambda>t'. ticket_stake t' k) new = lsum (\<lambda>t'. case k of Core_pol \<Rightarrow> amount (tk_amount t') | Pol_value \<Rightarrow> tk_value t' | _ \<Rightarrow> 0) new"
      using new(1) by (intro lsum_cong) (cases k; simp)
    moreover have "lsum (\<lambda>_. 0) xs = 0" for xs :: "ticket_object list" by (induction xs) simp_all
    ultimately show ?thesis using new(2,3) by (cases k) simp_all
  qed
  have stake: "stats_stake ?s' k = stats_stake s k + lsum (\<lambda>t'. ticket_stake t' k) new - ticket_stake t k" for k
    unfolding none using t by (cases k) simp_all
  have zero: "ticket_stake t Core_pob = 0" "ticket_stake t Core_inactive = 0" using t by simp_all
  have "gap_step (settle (d, 0, 0)) (settle (d', 0, 0)) (\<lambda>a. tickets_total ts' a - tickets_total (tickets d) a)"
    unfolding d' using s
  proof (rule gap_step_tickets(1)[where s' = ?s'])
    assume b: "ticket_books (ticket_version_at (next_maintenance_time d)) (tickets d) (account_stats d)
      (total_pob d + 0) (total_inactive d + 0)"
    show "ticket_books (ticket_version_at (next_maintenance_time d)) ts'
      (store_put (account_stats d) acc ?s') (total_pob d + 0) (total_inactive d + 0)"
      using b[unfolded ticket_books_def] ticket_books_ok[OF b acc(1)] stake s new(1) acc(2) t sums wf' fits
      by (intro ticket_books_change[OF b s, where new = new and old = "[t]"])
        (auto simp: none zero simp del: ticket_stake.simps stats_stake.simps)
  qed simp_all
  moreover have "tickets_total ts' a = tickets_total (tickets d) a" for a
  proof -
    have "lsum (\<lambda>t'. amt_at (asset_id (tk_amount t')) (amount (tk_amount t')) a) new =
        lsum (\<lambda>t'. amt_at (asset_id (tk_amount t)) (amount (tk_amount t')) a) new"
      using new(1) by (intro lsum_cong) simp
    also have "\<dots> = amt_at (asset_id (tk_amount t)) (lsum (\<lambda>t'. amount (tk_amount t')) new) a"
      by (induction new) (auto simp: amt_at_def)
    finally show ?thesis by (simp add: tickets_total_sum sums new(2))
  qed
  ultimately show "conserves d d'" by simp
qed

lemma retarget_step:
  assumes r: "retarget_ticket fc op t target d = Inr (d1, dv)" and find: "store_find (tickets d) (tku_ticket op) = Some t"
    and t: "tk_account t = tku_account op" "tk_current_type t \<noteq> Lock_forever" and target: "target \<le> Lock_forever"
    and d': "(if dv \<noteq> 0 then modify_stats (tku_account op) (\<lambda>s. bnd (safe_add fc (total_pol_value s) dv) (\<lambda>y.
        Inr (s\<lparr>total_pol_value := y\<rparr>))) d1 else Inr d1) = Inr d'"
  shows "conserves d d'"
proof (rule gap_step_wf)
  assume "wf_db d"
  from ticket_books_ok[OF wf_db_tickets[OF this] find] have shape: "ticket_shape t" by (simp add: ticket_ok_def)
  from r obtain t' where t': "update_target_type fc (head_block_time d) target (ticket_version_at (next_maintenance_time d)) t = Inr t'"
    and dv: "dv = tk_value t' - tk_value t" and d1: "d1 = d\<lparr>tickets := store_put (tickets d) (tku_ticket op) t'\<rparr>"
    by (auto simp: retarget_ticket_def)
  note ok = update_target_type_ok[OF t' shape t(2) target]
  show ?thesis
    by (rule ticket_value_step[OF find t(1) d'[unfolded d1], where new = "[t']"])
      (use ok t dv in \<open>auto simp: store_wf_put store_all_put store_sum_put[OF find] ticket_fits_def\<close>)
qed

lemma split_step:
  assumes r: "split_ticket fc op t target a d = Inr (d1, dv)" and find: "store_find (tickets d) (tku_ticket op) = Some t"
    and t: "tk_account t = tku_account op" "tk_current_type t \<noteq> Lock_forever" and target: "target \<le> Lock_forever"
    and a: "0 < amount a" "asset_id a = CORE_ASSET" "amount a < amount (tk_amount t)"
    and d': "(if dv \<noteq> 0 then modify_stats (tku_account op) (\<lambda>s. bnd (safe_add fc (total_pol_value s) dv) (\<lambda>y.
        Inr (s\<lparr>total_pol_value := y\<rparr>))) d1 else Inr d1) = Inr d'"
  shows "conserves d d'"
proof (rule gap_step_wf)
  assume "wf_db d"
  note b = wf_db_tickets[OF this]
  from ticket_books_ok[OF b find] have tok: "ticket_ok (ticket_version_at (next_maintenance_time d)) t" .
  then have shape: "ticket_shape t" by (simp add: ticket_ok_def)
  have wft: "store_wf (tickets d)" using b by (simp add: ticket_books_def)
  from r obtain new na t' where new: "init_split fc (head_block_time d) t target a (ticket_version_at (next_maintenance_time d)) = Inr new"
    and na: "asset_neg fc a = Inr na" and t': "adjust_amount fc na (ticket_version_at (next_maintenance_time d)) t = Inr t'"
    and dv: "dv = tk_value new + tk_value t' - tk_value t"
    and d1: "d1 = d\<lparr>tickets := store_put (store_add (tickets d) new) (tku_ticket op) t'\<rparr>"
    by (auto simp: split_ticket_def)
  have na': "amount na = - amount a" using na by (auto simp: asset_neg_def)
  note n = init_split_ok[OF new shape t(2) target a(1,2)] and o = adjust_amount_ok[OF t' tok t(2)]
  have old: "store_find (store_add (tickets d) new) (tku_ticket op) = Some t"
    using find wft store_find_itemsD[OF find] by (auto simp: store_find_add) (auto simp: store_wf_def)
  have core: "asset_id (tk_amount t) = CORE_ASSET" using shape by (simp add: ticket_shape_def)
  show ?thesis
    by (rule ticket_value_step[OF find t(1) d'[unfolded d1], where new = "[new, t']"])
      (use n o t dv a na' core in \<open>auto simp: store_wf_put store_wf_add store_all_put store_all_add store_sum_put[OF old] ticket_fits_def\<close>)
qed

lemma ticket_update_conserves:
  assumes "ticket_update_validate op = Inr ()" "ticket_update_do_evaluate op fs d0 = Inr ev" "fee_frame d0 d"
    and "ticket_update_do_apply fc op ev fs d = Inr d'"
  shows "conserves d d'"
proof -
  from assms(4)[unfolded ticket_update_do_apply_def bnd_eq_Inr_iff] obtain t target d1 dv where find: "store_find (tickets d) (tku_ticket op) = Some t"
    and target: "ticket_type_cast (int (tku_target_type op)) = Inr target"
    and up: "(case tku_amount_for_new_target op of
            None \<Rightarrow> retarget_ticket fc op t target d
          | Some a \<Rightarrow> bnd (asset_less a (tk_amount t)) (\<lambda>part.
              if part then split_ticket fc op t target a d else retarget_ticket fc op t target d)) = Inr (d1, dv)"
    and rest: "bnd (if dv \<noteq> 0 then modify_stats (tku_account op) (\<lambda>s. bnd (safe_add fc (total_pol_value s) dv) (\<lambda>y.
        Inr (s\<lparr>total_pol_value := y\<rparr>))) d1 else Inr d1) (process_tickets fc) = Inr d'"
    by (elim exE conjE) (auto simp del: bnd_eq_Inr_iff)
  from rest obtain d2 where d2: "(if dv \<noteq> 0 then modify_stats (tku_account op) (\<lambda>s. bnd (safe_add fc (total_pol_value s) dv) (\<lambda>y.
        Inr (s\<lparr>total_pol_value := y\<rparr>))) d1 else Inr d1) = Inr d2" and d': "process_tickets fc d2 = Inr d'"
    unfolding bnd_eq_Inr_iff by blast
  have t: "tk_account t = tku_account op" "tk_current_type t \<noteq> Lock_forever"
    using assms(2) find fee_frame_fields[OF assms(3)] by (auto simp: ticket_update_do_evaluate_def)
  have le: "target \<le> Lock_forever" using assms(1) target
    by (auto simp: ticket_update_validate_def ticket_type_cast_Inr ticket_type_ord)
  note re = retarget_step[OF _ find t le d2]
  have "conserves d d2"
  proof (cases "tku_amount_for_new_target op")
    case None
    then show ?thesis using up re by simp
  next
    case (Some a)
    then have a: "0 < amount a" "asset_id a = CORE_ASSET" using assms(1) by (auto simp: ticket_update_validate_def)
    show ?thesis
    proof (cases "amount a < amount (tk_amount t)")
      case True
      then have "split_ticket fc op t target a d = Inr (d1, dv)" using up Some by auto
      from split_step[OF this find t le a True d2] show ?thesis .
    next
      case False
      then show ?thesis using up Some re by auto
    qed
  qed
  then show ?thesis using process_tickets_conserves[OF d'] by (rule conserves_trans)
qed

end

sublocale fc_safe \<subseteq> ticket_create_ev: conserving_evaluator fc tkc_account tkc_fee ticket_create_validate
    ticket_create_do_evaluate "ticket_create_do_apply fc"
  by unfold_locales (rule ticket_create_conserves)

sublocale fc_safe \<subseteq> ticket_update_ev: conserving_evaluator fc tku_account tku_fee ticket_update_validate
    ticket_update_do_evaluate "ticket_update_do_apply fc"
  by unfold_locales (rule ticket_update_conserves)

section \<open>What the books say\<close>

lemma store_sum_plus: "store_sum (\<lambda>v. f v + g v) st = store_sum f st + store_sum g st"
proof -
  have "lsum (\<lambda>p. f (snd p) + g (snd p)) xs = lsum (\<lambda>p. f (snd p)) xs + lsum (\<lambda>p. g (snd p)) xs" for xs :: "('x \<times> 'a) list"
    by (induction xs) simp_all
  then show ?thesis by (simp add: store_sum_def)
qed

lemma store_sum_mono:
  assumes "store_all P st" "\<And>v. P v \<Longrightarrow> f v \<le> g v"
  shows "store_sum f st \<le> store_sum g st"
proof -
  have "list_all (\<lambda>p. P (snd p)) xs \<Longrightarrow> lsum (\<lambda>p. f (snd p)) xs \<le> lsum (\<lambda>p. g (snd p)) xs" for xs :: "('x \<times> 'a) list"
    by (induction xs) (auto intro: add_mono assms(2))
  then show ?thesis using assms(1) by (simp add: store_sum_def store_all_def)
qed

lemma ticket_books_voting:
  assumes "ticket_books version ts ss p q" "store_find ss i = Some s"
  shows "total_pol_value s + total_pob_value s = store_sum (\<lambda>t. if tk_account t = i then tk_value t else 0) ts \<and>
    total_core_pol s + total_core_pob s + total_core_inactive s =
      store_sum (\<lambda>t. if tk_account t = i then amount (tk_amount t) else 0) ts \<and>
    total_pol_value s + total_pob_value s \<le> 8 * (total_core_pol s + total_core_pob s) \<and>
    p + q = store_sum (\<lambda>t. if tk_current_type t = Lock_forever then amount (tk_amount t) else 0) ts"
proof -
  define own where "own = (\<lambda>k t. if tk_account t = i then ticket_stake t k else 0)"
  have st: "stats_stake s k = store_sum (own k) ts" for k
    using assms unfolding own_def by (simp add: ticket_books_def stake_sums_def)
  have pq: "p = store_sum (\<lambda>t. ticket_stake t Core_pob) ts" "q = store_sum (\<lambda>t. ticket_stake t Core_inactive) ts"
    using assms(1) by (simp_all add: ticket_books_def stake_sums_def)
  have sums: "stats_stake s Pol_value + stats_stake s Pob_value = store_sum (\<lambda>t. own Pol_value t + own Pob_value t) ts"
    "stats_stake s Core_pol + stats_stake s Core_pob = store_sum (\<lambda>t. own Core_pol t + own Core_pob t) ts"
    "stats_stake s Core_pol + stats_stake s Core_pob + stats_stake s Core_inactive =
      store_sum (\<lambda>t. own Core_pol t + own Core_pob t + own Core_inactive t) ts"
    "p + q = store_sum (\<lambda>t. ticket_stake t Core_pob + ticket_stake t Core_inactive) ts"
    by (simp_all add: st pq store_sum_plus del: stats_stake.simps)
  have eqs: "(\<lambda>t. own Pol_value t + own Pob_value t) = (\<lambda>t. if tk_account t = i then tk_value t else 0)"
    "(\<lambda>t. own Core_pol t + own Core_pob t + own Core_inactive t) = (\<lambda>t. if tk_account t = i then amount (tk_amount t) else 0)"
    "(\<lambda>t. ticket_stake t Core_pob + ticket_stake t Core_inactive) =
      (\<lambda>t. if tk_current_type t = Lock_forever then amount (tk_amount t) else 0)"
    by (auto simp: own_def)
  have "store_sum (\<lambda>t. own Pol_value t + own Pob_value t) ts \<le> store_sum (\<lambda>t. 8 * (own Core_pol t + own Core_pob t)) ts"
  proof (rule store_sum_mono)
    show "store_all (ticket_fits version ss) ts" using assms(1) by (simp add: ticket_books_def)
    show "own Pol_value t + own Pob_value t \<le> 8 * (own Core_pol t + own Core_pob t)" if "ticket_fits version ss t" for t
    proof -
      have ok: "ticket_ok version t" and a: "0 < amount (tk_amount t)"
        using that by (simp_all add: ticket_fits_def ticket_ok_def ticket_shape_def)
      have "value_multiplier ct version \<le> 8" for ct by (cases ct; cases version) simp_all
      then have "amount (tk_amount t) * value_multiplier ct version \<le> amount (tk_amount t) * 8" for ct
        using a by (intro mult_left_mono) simp_all
      moreover have "2 * k * amount (tk_amount t) \<le> 8 * amount (tk_amount t)" if "k \<le> 4" for k
        using a that by (intro mult_right_mono) simp_all
      ultimately show ?thesis using ok by (auto simp: own_def ticket_ok_def mult.commute split: if_splits)
    qed
  qed
  also have "\<dots> = 8 * store_sum (\<lambda>t. own Core_pol t + own Core_pob t) ts"
  proof -
    have "lsum (\<lambda>p. 8 * f (snd p)) xs = 8 * lsum (\<lambda>p. f (snd p)) xs" for f :: "ticket_object \<Rightarrow> int" and xs :: "(nat \<times> ticket_object) list"
      by (induction xs) simp_all
    from this[of "\<lambda>t. own Core_pol t + own Core_pob t"] show ?thesis by (simp add: store_sum_def)
  qed
  finally show ?thesis using sums[unfolded stats_stake.simps] unfolding eqs by simp
qed

section \<open>Properties\<close>

text \<open>
  C32: the loop of \<open>process_tickets\<close> always returns in a well-formed state, and when it does not throw it leaves
  no ticket that is due, a well-formed state in which the statistics of every account and the global
  totals agree with the tickets, and every asset conserved.
\<close>

theorem process_tickets_returns:
  assumes "fc_safe fc" "wf_db d" "balances_nonneg d"
  shows "\<exists>r. process_due_tickets fc (ticket_version_at (next_maintenance_time d)) (d, 0, 0) = Some r \<and>
    (\<forall>d'. process_tickets fc d = Inr d' \<longrightarrow>
      store_all (\<lambda>t. head_block_time d' < tk_next_auto_update_time t) (tickets d') \<and>
      ticket_books (ticket_version_at (next_maintenance_time d')) (tickets d') (account_stats d')
        (total_pob d') (total_inactive d') \<and>
      wf_db d' \<and> balances_nonneg d' \<and> (\<forall>a. supply_gap d' a = supply_gap d a))"
proof -
  from fc_safe.process_due_tickets_returns[OF assms(1), of "(d, 0, 0)"] assms(2) obtain r where
    "process_due_tickets fc (ticket_version_at (next_maintenance_time d)) (d, 0, 0) = Some r" by auto
  moreover have "store_all (\<lambda>t. head_block_time d' < tk_next_auto_update_time t) (tickets d') \<and>
      ticket_books (ticket_version_at (next_maintenance_time d')) (tickets d') (account_stats d')
        (total_pob d') (total_inactive d') \<and>
      wf_db d' \<and> balances_nonneg d' \<and> (\<forall>a. supply_gap d' a = supply_gap d a)" if "process_tickets fc d = Inr d'" for d'
    using fc_safe.process_tickets_step[OF assms(1,2) that] wf_db_tickets[of d'] assms(2,3) by (auto simp: gap_step_def)
  ultimately show ?thesis by blast
qed

definition sample_ticket :: ticket_object where
  "sample_ticket = \<lparr>tk_account = 7, tk_target_type = Lock_360_days, tk_amount = ASSET 10 0, tk_current_type = Lock_180_days,
     tk_status = Charging, tk_value = 20, tk_next_auto_update_time = 1690000000,
     tk_next_type_downgrade_time = tps_maximum\<rparr>"

definition ticket_db :: database where
  "ticket_db = (sample_db 1700000000)\<lparr>tickets := \<lparr>items = [(0, sample_ticket)], next_id = 1\<rparr>,
     account_stats := \<lparr>items = [(7, sample_stats\<lparr>total_core_pol := 10, total_pol_value := 20\<rparr>)], next_id = 8\<rparr>\<rparr>"

lemma ticket_books_sample: "ticket_books Ticket_v2 \<lparr>items = [(0, sample_ticket)], next_id = 1\<rparr>
   \<lparr>items = [(7, sample_stats\<lparr>total_core_pol := 10, total_pol_value := 20\<rparr>)], next_id = 8\<rparr> 0 0"
proof -
  have "stats_stake (sample_stats\<lparr>total_core_pol := 10, total_pol_value := 20\<rparr>) k = ticket_stake sample_ticket k" for k
    by (cases k) (simp_all add: sample_stats_def sample_ticket_def)
  then have "stake_sums \<lparr>items = [(0, sample_ticket)], next_id = 1\<rparr>
      \<lparr>items = [(7, sample_stats\<lparr>total_core_pol := 10, total_pol_value := 20\<rparr>)], next_id = 8\<rparr> 0 0"
    by (auto simp: stake_sums_def store_find_def store_sum_def) (simp_all add: sample_ticket_def)
  then show ?thesis
    by (simp add: ticket_books_def store_wf_def store_all_def ticket_fits_def store_find_def)
      (simp add: sample_ticket_def ticket_ok_def ticket_shape_def ticket_type_ord CORE_ASSET_def)
qed

lemma ticket_db_ok: "wf_db ticket_db" "balances_nonneg ticket_db"
  using ticket_books_sample
  by (simp_all add: ticket_db_def sample_defs wf_defs wf_assets_def store_wf_def store_find_def store_all_def
      CORE_ASSET_def CORE_DYN_def balances_nonneg_def ticket_version_at_def HARDFORK_CORE_2262_PASSED_def
      HARDFORK_CORE_2262_TIME_def)

definition sample_ticket_charged :: ticket_object where
  "sample_ticket_charged = sample_ticket\<lparr>tk_current_type := Lock_360_days, tk_status := Stable, tk_value := 40,
     tk_next_auto_update_time := tps_maximum\<rparr>"

definition ticket_db_charged :: database where
  "ticket_db_charged = ticket_db\<lparr>tickets := \<lparr>items = [(0, sample_ticket_charged)], next_id = 1\<rparr>,
     account_stats := \<lparr>items = [(7, sample_stats\<lparr>total_core_pol := 10, total_pol_value := 40\<rparr>)], next_id = 8\<rparr>\<rparr>"

lemma process_ticket_sample:
  "process_ticket fc_ref Ticket_v2 0 sample_ticket (ticket_db, 0, 0) = Inr (ticket_db_charged, 0, 0)"
proof -
  have up: "auto_update fc_ref Ticket_v2 sample_ticket = Inr sample_ticket_charged"
    by (simp add: auto_update_def auto_update_charging_def update_value_def ticket_type_cast_def ticket_type_ord
        sample_ticket_def sample_ticket_charged_def fc_ref_simps)
  have ds: "deltas_of_update fc_ref sample_ticket sample_ticket_charged = Inr (no_deltas\<lparr>delta_other_value := 20\<rparr>)"
    by (simp add: deltas_of_update_def sample_ticket_def sample_ticket_charged_def fc_ref_simps)
  have "tk_account sample_ticket = 7" "tk_status sample_ticket = Charging"
    "\<And>x y. safe_add fc_ref x y = checked (x + y)" by (simp_all add: sample_ticket_def fc_ref_def)
  then show ?thesis
    by (simp add: process_ticket_def up ds modify_stats_def stats_add_deltas_def no_deltas_def store_get_def store_find_def
        store_put_def ticket_db_def ticket_db_charged_def checked_def in_int64_def sample_stats_def sample_db_def del: bnd_eq_Inr_iff cong: eval_congs)
qed

lemma process_tickets_sample: "process_tickets fc_ref ticket_db = Inr ticket_db_charged"
proof -
  have v: "ticket_version_at (next_maintenance_time ticket_db) = Ticket_v2"
    by (simp add: ticket_version_at_def HARDFORK_CORE_2262_PASSED_def HARDFORK_CORE_2262_TIME_def ticket_db_def sample_db_def)
  have first: "store_first tk_next_auto_update_time (tickets ticket_db) = Some (0, sample_ticket)"
    "tk_next_auto_update_time sample_ticket \<le> head_block_time ticket_db"
    "store_first tk_next_auto_update_time (tickets ticket_db_charged) = Some (0, sample_ticket_charged)"
    "\<not> tk_next_auto_update_time sample_ticket_charged \<le> head_block_time ticket_db_charged"
    by (simp_all add: store_first_def ticket_db_def ticket_db_charged_def sample_ticket_def sample_ticket_charged_def
        sample_db_def tps_maximum_def)
  have "process_due_tickets fc_ref Ticket_v2 (ticket_db_charged, 0, 0) = Some (Inr (ticket_db_charged, 0, 0))"
    by (subst process_due_tickets.simps) (simp add: first)
  then have "process_due_tickets fc_ref Ticket_v2 (ticket_db, 0, 0) = Some (Inr (ticket_db_charged, 0, 0))"
    by (subst process_due_tickets.simps) (simp add: first process_ticket_sample)
  then show ?thesis by (simp add: process_tickets_def v)
qed

theorem process_tickets_returns_witness:
  "process_tickets fc_ref ticket_db = Inr ticket_db_charged \<and> wf_db ticket_db_charged \<and>
     store_all (\<lambda>t. head_block_time ticket_db_charged < tk_next_auto_update_time t) (tickets ticket_db_charged)"
  using process_tickets_returns[OF fc_ref.fc_safe_axioms ticket_db_ok] process_tickets_sample by auto

text \<open>
  C33: a ticket that has just been locked forever loses a quarter of its value in each automatic update: after \<open>n\<close>
  updates it is worth \<open>(8 - 2 n)\<close> times its amount, and after the fourth it is worth nothing and at rest.
\<close>

theorem lock_forever_decay:
  assumes "fc_safe fc" "tk_current_type t = Lock_forever" "tk_status t = Withdrawing" "0 < amount (tk_amount t)"
    and "tk_value t = 8 * amount (tk_amount t)" "in_int64 (8 * amount (tk_amount t))" "n \<le> 4"
  shows "\<exists>t'. fold_res (\<lambda>_. auto_update fc version) [0..<n] t = Inr t' \<and> tk_amount t' = tk_amount t \<and>
    tk_current_type t' = Lock_forever \<and> tk_value t' = 2 * (4 - int n) * amount (tk_amount t) \<and>
    tk_status t' = (if n = 4 then Stable else Withdrawing)"
  using assms(7)
proof (induction n)
  case 0
  then show ?case using assms(2-5) by simp
next
  case (Suc n)
  let ?a = "amount (tk_amount t)"
  from Suc obtain t' where t': "fold_res (\<lambda>_. auto_update fc version) [0..<n] t = Inr t'" "tk_amount t' = tk_amount t"
    "tk_current_type t' = Lock_forever" "tk_value t' = 2 * (4 - int n) * ?a" "tk_status t' = Withdrawing"
    by auto
  have ops: "safe_mul fc ?a 8 = Inr (8 * ?a)" "safe_div fc (8 * ?a) 4 = Inr (2 * ?a)"
    using assms(4,6) fc_safe.safe_mul_iff[OF assms(1), of ?a 8 "8 * ?a"] fc_safe.safe_div_exact[OF assms(1,6)]
    by (simp_all add: mult.commute)
  have "\<exists>t''. auto_update fc version t' = Inr t'' \<and> tk_amount t'' = tk_amount t \<and> tk_current_type t'' = Lock_forever \<and>
    tk_value t'' = 2 * (4 - int (Suc n)) * ?a \<and> tk_status t'' = (if Suc n = 4 then Stable else Withdrawing)"
  proof (cases "n = 3")
    case True
    then have "tk_value t' \<le> 2 * ?a" using t'(4) by simp
    then show ?thesis using True t'(2-5) assms(4) ops
      by (simp add: auto_update_def auto_update_withdrawing_def lock_forever_update_steps_def update_value_def
          del: bnd_eq_Inr_iff)
  next
    case False
    then have "n < 3" using Suc.prems by simp
    have v: "tk_value t' - 2 * ?a = 2 * (4 - int (Suc n)) * ?a" by (simp add: t'(4) algebra_simps)
    have le: "2 * ?a < tk_value t'" using \<open>n < 3\<close> assms(4) by (simp add: t'(4))
    have "2 * (4 - int (Suc n)) * ?a \<le> 8 * ?a" "0 \<le> 2 * (4 - int (Suc n)) * ?a"
      using assms(4) \<open>n < 3\<close> by (simp_all add: mult_right_mono)
    then have "in_int64 (2 * (4 - int (Suc n)) * ?a)" using in_int64_between[OF assms(6)] by blast
    then have "safe_sub fc (tk_value t') (2 * ?a) = Inr (2 * (4 - int (Suc n)) * ?a)"
      using fc_safe.safe_sub_iff[OF assms(1)] v by simp
    then show ?thesis using False t'(2,3,5) assms(4) ops le
      by (simp add: auto_update_def auto_update_withdrawing_def lock_forever_update_steps_def update_value_def
          del: bnd_eq_Inr_iff)
  qed
  with t'(1) show ?case by (auto simp: fold_res_append)
qed

definition sample_forever :: ticket_object where
  "sample_forever = sample_ticket\<lparr>tk_current_type := Lock_forever, tk_target_type := Lock_forever, tk_status := Withdrawing,
     tk_value := 80\<rparr>"

theorem lock_forever_decay_witness:
  "\<exists>t'. fold_res (\<lambda>_. auto_update fc_ref Ticket_v2) [0..<3] sample_forever = Inr t' \<and> tk_value t' = 20"
  using lock_forever_decay[OF fc_ref.fc_safe_axioms, of sample_forever 3 Ticket_v2]
  by (auto simp: sample_forever_def sample_ticket_def in_int64_def)

end
