(* ===== verification/Asset_Operations.thy ===== *)
theory Asset_Operations
  imports Fees
begin

text \<open>
  Operations by which the issuer and the holders of an asset change its supply, its fee pool and its
  accumulated fees, and the change of its issuer: \<open>libraries/protocol/asset_ops.cpp\<close> (validation) and
  \<open>libraries/chain/asset_evaluator.cpp\<close>. A pointer an evaluator keeps between \<open>do_evaluate\<close> and
  \<open>do_apply\<close> is an id. Memos are left out. Creating an asset, updating its options, feeds and
  settlements are not modelled.
\<close>

definition HARDFORK_CORE_BSIP_87_74_COLLATFEE_TIME :: nat where
  "HARDFORK_CORE_BSIP_87_74_COLLATFEE_TIME = 1596117300"

section \<open>Operations\<close>

record asset_issue_operation =
  ais_fee :: asset
  ais_issuer :: account_id_type
  ais_asset_to_issue :: asset
  ais_issue_to_account :: account_id_type

record asset_reserve_operation =
  ars_fee :: asset
  ars_payer :: account_id_type
  ars_amount_to_reserve :: asset

record asset_fund_fee_pool_operation =
  aff_fee :: asset
  aff_from_account :: account_id_type
  aff_asset_id :: asset_id_type
  aff_amount :: share_type

record asset_claim_fees_operation =
  acf_fee :: asset
  acf_issuer :: account_id_type
  acf_amount_to_claim :: asset
  acf_claim_from_asset_id :: "asset_id_type option"

record asset_update_issuer_operation =
  aui_fee :: asset
  aui_issuer :: account_id_type
  aui_asset_to_update :: asset_id_type
  aui_new_issuer :: account_id_type

record asset_claim_pool_operation =
  acp_fee :: asset
  acp_issuer :: account_id_type
  acp_asset_id :: asset_id_type
  acp_amount_to_claim :: asset

definition asset_issue_validate :: "asset_issue_operation \<Rightarrow> unit result" where
  "asset_issue_validate op =
     FC_ASSERT (0 \<le> amount (ais_fee op))
    (FC_ASSERT (amount (ais_asset_to_issue op) \<le> GRAPHENE_MAX_SHARE_SUPPLY)
    (FC_ASSERT (0 < amount (ais_asset_to_issue op))
    (FC_ASSERT (asset_id (ais_asset_to_issue op) \<noteq> 0)
    (Inr ()))))"

definition asset_reserve_validate :: "asset_reserve_operation \<Rightarrow> unit result" where
  "asset_reserve_validate op =
     FC_ASSERT (0 \<le> amount (ars_fee op))
    (FC_ASSERT (amount (ars_amount_to_reserve op) \<le> GRAPHENE_MAX_SHARE_SUPPLY)
    (FC_ASSERT (0 < amount (ars_amount_to_reserve op))
    (Inr ())))"

definition asset_fund_fee_pool_validate :: "asset_fund_fee_pool_operation \<Rightarrow> unit result" where
  "asset_fund_fee_pool_validate op =
     FC_ASSERT (0 \<le> amount (aff_fee op))
    (FC_ASSERT (asset_id (aff_fee op) = CORE_ASSET)
    (FC_ASSERT (0 < aff_amount op)
    (Inr ())))"

definition asset_claim_fees_validate :: "asset_claim_fees_operation \<Rightarrow> unit result" where
  "asset_claim_fees_validate op =
     FC_ASSERT (0 \<le> amount (acf_fee op))
    (FC_ASSERT (0 < amount (acf_amount_to_claim op))
    (FC_ASSERT (acf_claim_from_asset_id op \<noteq> Some (asset_id (acf_amount_to_claim op)))
    (Inr ())))"

definition asset_update_issuer_validate :: "asset_update_issuer_operation \<Rightarrow> unit result" where
  "asset_update_issuer_validate op =
     FC_ASSERT (0 \<le> amount (aui_fee op))
    (FC_ASSERT (aui_issuer op \<noteq> aui_new_issuer op)
    (Inr ()))"

definition asset_claim_pool_validate :: "asset_claim_pool_operation \<Rightarrow> unit result" where
  "asset_claim_pool_validate op =
     FC_ASSERT (0 \<le> amount (acp_fee op))
    (FC_ASSERT (asset_id (acp_fee op) \<noteq> acp_asset_id op)
    (FC_ASSERT (0 < amount (acp_amount_to_claim op))
    (FC_ASSERT (asset_id (acp_amount_to_claim op) = CORE_ASSET)
    (Inr ()))))"

section \<open>Evaluators\<close>

text \<open>The result of an evaluation is the id of the dynamic data of the asset, the pointer
  \<open>asset_dyn_data\<close>.\<close>

definition asset_issue_do_evaluate :: "fc_lib \<Rightarrow> asset_issue_operation \<Rightarrow> fee_state \<Rightarrow> database \<Rightarrow> nat result" where
  "asset_issue_do_evaluate fc op fs d =
     (let aid = asset_id (ais_asset_to_issue op) in
      bnd (store_get (assets d) aid) (\<lambda>a.
      FC_ASSERT (ais_issuer op = issuer a)
     (FC_ASSERT (\<not> is_market_issued a)
     (FC_ASSERT (\<not> is_liquidity_pool_share_asset a)
     (FC_ASSERT (can_create_new_supply a)
     (bnd (store_get (accounts d) (ais_issue_to_account op)) (\<lambda>to_account.
      FC_ASSERT (is_authorized_asset d (ais_issue_to_account op) to_account aid a)
     (bnd (store_get (asset_dyn_data d) (dynamic_asset_data_id a)) (\<lambda>dd.
      bnd (safe_add fc (current_supply dd) (amount (ais_asset_to_issue op))) (\<lambda>new_supply.
      FC_ASSERT (new_supply \<le> max_supply (options a))
     (Inr (dynamic_asset_data_id a))))))))))))"

definition asset_issue_do_apply ::
    "fc_lib \<Rightarrow> asset_issue_operation \<Rightarrow> nat \<Rightarrow> fee_state \<Rightarrow> database \<Rightarrow> database result" where
  "asset_issue_do_apply fc op dyn_id fs d =
     bnd (adjust_balance fc (ais_issue_to_account op) (ais_asset_to_issue op) d) (\<lambda>d.
     modify_dyn dyn_id (\<lambda>data.
       bnd (safe_add fc (current_supply data) (amount (ais_asset_to_issue op))) (\<lambda>x.
       Inr (data\<lparr>current_supply := x\<rparr>))) d)"

definition asset_reserve_do_evaluate :: "asset_reserve_operation \<Rightarrow> fee_state \<Rightarrow> database \<Rightarrow> nat result" where
  "asset_reserve_do_evaluate op fs d =
     (let aid = asset_id (ars_amount_to_reserve op) in
      bnd (store_get (assets d) aid) (\<lambda>a.
      ensure Asset_reserve_invalid_on_mia (\<not> is_market_issued a)
     (bnd (store_get (accounts d) (fee_paying_account fs)) (\<lambda>from_account.
      FC_ASSERT (is_authorized_asset d (fee_paying_account fs) from_account aid a)
     (bnd (store_get (asset_dyn_data d) (dynamic_asset_data_id a)) (\<lambda>dd.
      FC_ASSERT (if \<not> is_liquidity_pool_share_asset a
                 then amount (ars_amount_to_reserve op) \<le> current_supply dd
                 else amount (ars_amount_to_reserve op) < current_supply dd)
     (Inr (dynamic_asset_data_id a))))))))"

definition asset_reserve_do_apply ::
    "fc_lib \<Rightarrow> asset_reserve_operation \<Rightarrow> nat \<Rightarrow> fee_state \<Rightarrow> database \<Rightarrow> database result" where
  "asset_reserve_do_apply fc op dyn_id fs d =
     bnd (debit fc (ars_payer op) (ars_amount_to_reserve op) d) (\<lambda>d.
     modify_dyn dyn_id (\<lambda>data.
       bnd (safe_sub fc (current_supply data) (amount (ars_amount_to_reserve op))) (\<lambda>x.
       Inr (data\<lparr>current_supply := x\<rparr>))) d)"

definition asset_fund_fee_pool_do_evaluate ::
    "asset_fund_fee_pool_operation \<Rightarrow> fee_state \<Rightarrow> database \<Rightarrow> nat result" where
  "asset_fund_fee_pool_do_evaluate op fs d =
     bnd (store_get (assets d) (aff_asset_id op)) (\<lambda>a.
     bnd (store_get (asset_dyn_data d) (dynamic_asset_data_id a)) (\<lambda>_.
     Inr (dynamic_asset_data_id a)))"

definition asset_fund_fee_pool_do_apply ::
    "fc_lib \<Rightarrow> asset_fund_fee_pool_operation \<Rightarrow> nat \<Rightarrow> fee_state \<Rightarrow> database \<Rightarrow> database result" where
  "asset_fund_fee_pool_do_apply fc op dyn_id fs d =
     bnd (debit fc (aff_from_account op) (ASSET (aff_amount op) CORE_ASSET) d) (\<lambda>d.
     modify_dyn dyn_id (\<lambda>data.
       bnd (safe_add fc (fee_pool data) (aff_amount op)) (\<lambda>x. Inr (data\<lparr>fee_pool := x\<rparr>))) d)"

definition can_accumulate_fee :: "database \<Rightarrow> asset_id_type \<Rightarrow> asset_object \<Rightarrow> asset \<Rightarrow> bool result" where
  "can_accumulate_fee d aid a fee =
     (if asset_id fee = aid then Inr True
      else case bitasset_data_id a of
        None \<Rightarrow> Inr False
      | Some k \<Rightarrow> bnd (store_get (bitassets d) k) (\<lambda>bad. Inr (asset_id fee = short_backing_asset bad)))"

text \<open>The id of the container asset: the pointer \<open>container_asset\<close>.\<close>

definition acf_container :: "asset_claim_fees_operation \<Rightarrow> asset_id_type" where
  "acf_container op =
     (case acf_claim_from_asset_id op of Some aid \<Rightarrow> aid | None \<Rightarrow> asset_id (acf_amount_to_claim op))"

definition asset_claim_fees_do_evaluate ::
    "asset_claim_fees_operation \<Rightarrow> fee_state \<Rightarrow> database \<Rightarrow> nat result" where
  "asset_claim_fees_do_evaluate op fs d =
     FC_ASSERT (acf_claim_from_asset_id op = None \<or> HARDFORK_CORE_BSIP_87_74_COLLATFEE_TIME \<le> head_block_time d)
    (bnd (store_get (assets d) (acf_container op)) (\<lambda>container_asset.
     FC_ASSERT (issuer container_asset = acf_issuer op)
    (bnd (can_accumulate_fee d (acf_container op) container_asset (acf_amount_to_claim op)) (\<lambda>ok.
     FC_ASSERT ok
    (bnd (store_get (asset_dyn_data d) (dynamic_asset_data_id container_asset)) (\<lambda>container_ddo.
     FC_ASSERT (if acf_container op = asset_id (acf_amount_to_claim op)
                then amount (acf_amount_to_claim op) \<le> accumulated_fees container_ddo
                else amount (acf_amount_to_claim op) \<le> accumulated_collateral_fees container_ddo)
    (Inr (dynamic_asset_data_id container_asset))))))))"

definition asset_claim_fees_do_apply ::
    "fc_lib \<Rightarrow> asset_claim_fees_operation \<Rightarrow> nat \<Rightarrow> fee_state \<Rightarrow> database \<Rightarrow> database result" where
  "asset_claim_fees_do_apply fc op ddo_id fs d =
     bnd (if acf_container op = asset_id (acf_amount_to_claim op)
          then modify_dyn ddo_id (\<lambda>addo.
                 bnd (safe_sub fc (accumulated_fees addo) (amount (acf_amount_to_claim op))) (\<lambda>x.
                 Inr (addo\<lparr>accumulated_fees := x\<rparr>))) d
          else modify_dyn ddo_id (\<lambda>addo.
                 bnd (safe_sub fc (accumulated_collateral_fees addo) (amount (acf_amount_to_claim op))) (\<lambda>x.
                 Inr (addo\<lparr>accumulated_collateral_fees := x\<rparr>))) d) (\<lambda>d.
     adjust_balance fc (acf_issuer op) (acf_amount_to_claim op) d)"

definition validate_new_issuer :: "database \<Rightarrow> asset_object \<Rightarrow> account_id_type \<Rightarrow> unit result" where
  "validate_new_issuer d a new_issuer =
     FC_ASSERT (store_find (accounts d) new_issuer \<noteq> None)
     (case bitasset_data_id a of
        None \<Rightarrow> Inr ()
      | Some k \<Rightarrow>
          if new_issuer = GRAPHENE_COMMITTEE_ACCOUNT then
            bnd (store_get (bitassets d) k) (\<lambda>bad.
            bnd (store_get (assets d) (short_backing_asset bad)) (\<lambda>backing.
            case bitasset_data_id backing of
              Some k' \<Rightarrow>
                bnd (store_get (bitassets d) k') (\<lambda>bad'.
                bnd (store_get (assets d) (short_backing_asset bad')) (\<lambda>_.
                FC_ASSERT (short_backing_asset bad' = CORE_ASSET) (Inr ())))
            | None \<Rightarrow> FC_ASSERT (short_backing_asset bad = CORE_ASSET) (Inr ())))
          else Inr ())"

definition asset_update_issuer_do_evaluate ::
    "asset_update_issuer_operation \<Rightarrow> fee_state \<Rightarrow> database \<Rightarrow> unit result" where
  "asset_update_issuer_do_evaluate op fs d =
     bnd (store_get (assets d) (aui_asset_to_update op)) (\<lambda>a.
     bnd (validate_new_issuer d a (aui_new_issuer op)) (\<lambda>_.
     FC_ASSERT (aui_issuer op = issuer a) (Inr ())))"

definition asset_update_issuer_do_apply ::
    "asset_update_issuer_operation \<Rightarrow> unit \<Rightarrow> fee_state \<Rightarrow> database \<Rightarrow> database result" where
  "asset_update_issuer_do_apply op ev fs d =
     bnd (store_get (assets d) (aui_asset_to_update op)) (\<lambda>a.
     Inr (d\<lparr>assets := store_put (assets d) (aui_asset_to_update op) (a\<lparr>issuer := aui_new_issuer op\<rparr>)\<rparr>))"

definition asset_claim_pool_do_evaluate ::
    "asset_claim_pool_operation \<Rightarrow> fee_state \<Rightarrow> database \<Rightarrow> unit result" where
  "asset_claim_pool_do_evaluate op fs d =
     bnd (store_get (assets d) (acp_asset_id op)) (\<lambda>a.
     FC_ASSERT (issuer a = acp_issuer op) (Inr ()))"

definition asset_claim_pool_do_apply ::
    "fc_lib \<Rightarrow> asset_claim_pool_operation \<Rightarrow> unit \<Rightarrow> fee_state \<Rightarrow> database \<Rightarrow> database result" where
  "asset_claim_pool_do_apply fc op ev fs d =
     bnd (store_get (assets d) (acp_asset_id op)) (\<lambda>a.
     bnd (store_get (asset_dyn_data d) (dynamic_asset_data_id a)) (\<lambda>addo.
     FC_ASSERT (amount (acp_amount_to_claim op) \<le> fee_pool addo)
    (bnd (modify_dyn (dynamic_asset_data_id a) (\<lambda>addo.
            bnd (safe_sub fc (fee_pool addo) (amount (acp_amount_to_claim op))) (\<lambda>x.
            Inr (addo\<lparr>fee_pool := x\<rparr>))) d) (\<lambda>d.
     adjust_balance fc (acp_issuer op) (acp_amount_to_claim op) d))))"

section \<open>The whole operations\<close>

definition run_asset_issue ::
    "fc_lib \<Rightarrow> share_type option \<Rightarrow> asset_issue_operation \<Rightarrow> database \<Rightarrow> database result" where
  "run_asset_issue fc req op d = run_operation fc req (ais_issuer op) (ais_fee op)
     (asset_issue_do_evaluate fc op) (asset_issue_do_apply fc op) d"

definition run_asset_reserve ::
    "fc_lib \<Rightarrow> share_type option \<Rightarrow> asset_reserve_operation \<Rightarrow> database \<Rightarrow> database result" where
  "run_asset_reserve fc req op d = run_operation fc req (ars_payer op) (ars_fee op)
     (asset_reserve_do_evaluate op) (asset_reserve_do_apply fc op) d"

definition run_asset_fund_fee_pool ::
    "fc_lib \<Rightarrow> share_type option \<Rightarrow> asset_fund_fee_pool_operation \<Rightarrow> database \<Rightarrow> database result" where
  "run_asset_fund_fee_pool fc req op d = run_operation fc req (aff_from_account op) (aff_fee op)
     (asset_fund_fee_pool_do_evaluate op) (asset_fund_fee_pool_do_apply fc op) d"

definition run_asset_claim_fees ::
    "fc_lib \<Rightarrow> share_type option \<Rightarrow> asset_claim_fees_operation \<Rightarrow> database \<Rightarrow> database result" where
  "run_asset_claim_fees fc req op d = run_operation fc req (acf_issuer op) (acf_fee op)
     (asset_claim_fees_do_evaluate op) (asset_claim_fees_do_apply fc op) d"

definition run_asset_update_issuer ::
    "fc_lib \<Rightarrow> share_type option \<Rightarrow> asset_update_issuer_operation \<Rightarrow> database \<Rightarrow> database result" where
  "run_asset_update_issuer fc req op d = run_operation fc req (aui_issuer op) (aui_fee op)
     (asset_update_issuer_do_evaluate op) (asset_update_issuer_do_apply op) d"

definition run_asset_claim_pool ::
    "fc_lib \<Rightarrow> share_type option \<Rightarrow> asset_claim_pool_operation \<Rightarrow> database \<Rightarrow> database result" where
  "run_asset_claim_pool fc req op d = run_operation fc req (acp_issuer op) (acp_fee op)
     (asset_claim_pool_do_evaluate op) (asset_claim_pool_do_apply fc op) d"

section \<open>Conservation\<close>

lemma modify_pool_step:
  assumes "modify_dyn (dynamic_asset_data_id ao) f d = Inr d'" "store_find (assets d) i = Some ao"
    and "\<And>dd dd'. f dd = Inr dd' \<Longrightarrow> dd' = dd\<lparr>fee_pool := fee_pool dd + x\<rparr>"
  shows "gap_step d d' (amt_at CORE_ASSET x)"
proof -
  from assms(1) obtain dd dd' where dd: "store_find (asset_dyn_data d) (dynamic_asset_data_id ao) = Some dd"
    "f dd = Inr dd'" "d' = d\<lparr>asset_dyn_data := store_put (asset_dyn_data d) (dynamic_asset_data_id ao) dd'\<rparr>"
    by (rule modify_dynE)
  with gap_step_dyn[OF assms(2) dd(1), of dd'] assms(3)[OF dd(2)] show ?thesis by simp
qed

text \<open>Fees in the backing asset of a market-issued asset.\<close>

lemma modify_collateral_step:
  assumes "modify_dyn (dynamic_asset_data_id ao) f d = Inr d'" "store_find (assets d) i = Some ao"
    and "bitasset_data_id ao = Some k" "store_find (bitassets d) k = Some bad"
    and "\<And>dd dd'. f dd = Inr dd' \<Longrightarrow> dd' = dd\<lparr>accumulated_collateral_fees := accumulated_collateral_fees dd + x\<rparr>"
  shows "gap_step d d' (amt_at (short_backing_asset bad) x)"
proof -
  from assms(1) obtain dd dd' where dd: "store_find (asset_dyn_data d) (dynamic_asset_data_id ao) = Some dd"
    "f dd = Inr dd'" "d' = d\<lparr>asset_dyn_data := store_put (asset_dyn_data d) (dynamic_asset_data_id ao) dd'\<rparr>"
    by (rule modify_dynE)
  have dd': "dd' = dd\<lparr>accumulated_collateral_fees := accumulated_collateral_fees dd + x\<rparr>" by (rule assms(5)[OF dd(2)])
  have part: "dyn_part (bitassets d) a i ao dd' = dyn_part (bitassets d) a i ao dd + amt_at (short_backing_asset bad) x a"
    for a using assms(3,4) by (simp add: dyn_part_def dd' amt_at_def)
  show ?thesis unfolding gap_step_def
  proof (intro conjI impI allI)
    assume wf: "wf_db d"
    then have wfa: "wf_assets (assets d)" by (simp add: wf_defs)
    show "wf_db d'" using wf by (simp add: dd(3) wf_defs)
    show "supply_gap d' a = supply_gap d a + amt_at (short_backing_asset bad) x a" for a
      by (simp add: dd(3) gap_defs asset_held_put[OF wfa assms(2) dd(1)] asset_supply_put[OF wfa assms(2) dd(1)]
          part) (simp add: dd')
  qed (simp_all add: dd(3) balances_nonneg_def)
qed

context fc_safe
begin

lemma asset_issue_conserves:
  assumes "asset_issue_do_evaluate fc op fs d0 = Inr ev" "fee_frame d0 d" "asset_issue_do_apply fc op ev fs d = Inr d'"
  shows "conserves d d'"
proof -
  let ?a = "ais_asset_to_issue op"
  from assms(1) obtain ao where ao: "store_find (assets d0) (asset_id ?a) = Some ao" "ev = dynamic_asset_data_id ao"
    by (auto simp: asset_issue_do_evaluate_def)
  from assms(3) obtain d1 where d1: "adjust_balance fc (ais_issue_to_account op) ?a d = Inr d1"
    and d2: "modify_dyn (dynamic_asset_data_id ao) (\<lambda>data.
       bnd (safe_add fc (current_supply data) (amount ?a)) (\<lambda>x. Inr (data\<lparr>current_supply := x\<rparr>))) d1 = Inr d'"
    by (auto simp: asset_issue_do_apply_def ao(2))
  have "store_find (assets d1) (asset_id ?a) = Some ao"
    using ao(1) fee_frame_fields[OF assms(2)] adjust_balance_fields[OF d1] by simp
  then have "gap_step d1 d' (amt_at (asset_id ?a) (- amount ?a))" by (rule modify_asset_dyn_step[OF d2]) auto
  with gap_step_adjust[OF d1] show ?thesis by (rule gap_step_then) (simp add: amt_at_def)
qed

lemma asset_reserve_conserves:
  assumes "asset_reserve_do_evaluate op fs d0 = Inr ev" "fee_frame d0 d" "asset_reserve_do_apply fc op ev fs d = Inr d'"
  shows "conserves d d'"
proof -
  let ?a = "ars_amount_to_reserve op"
  from assms(1) obtain ao where ao: "store_find (assets d0) (asset_id ?a) = Some ao" "ev = dynamic_asset_data_id ao"
    by (auto simp: asset_reserve_do_evaluate_def)
  from assms(3) obtain d1 where d1: "debit fc (ars_payer op) ?a d = Inr d1"
    and d2: "modify_dyn (dynamic_asset_data_id ao) (\<lambda>data.
       bnd (safe_sub fc (current_supply data) (amount ?a)) (\<lambda>x. Inr (data\<lparr>current_supply := x\<rparr>))) d1 = Inr d'"
    by (auto simp: asset_reserve_do_apply_def ao(2) simp del: debit_iff)
  have "store_find (assets d1) (asset_id ?a) = Some ao"
    using ao(1) fee_frame_fields[OF assms(2)] adjust_balance_fields[OF conjunct2[OF d1[unfolded debit_iff]]] by simp
  then have "gap_step d1 d' (amt_at (asset_id ?a) (amount ?a))" by (rule modify_asset_dyn_step[OF d2]) auto
  with gap_step_debit[OF d1] show ?thesis by (rule gap_step_then) (simp add: amt_at_def)
qed

lemma asset_fund_fee_pool_conserves:
  assumes "asset_fund_fee_pool_do_evaluate op fs d0 = Inr ev" "fee_frame d0 d"
    "asset_fund_fee_pool_do_apply fc op ev fs d = Inr d'"
  shows "conserves d d'"
proof -
  from assms(1) obtain ao where ao: "store_find (assets d0) (aff_asset_id op) = Some ao" "ev = dynamic_asset_data_id ao"
    by (auto simp: asset_fund_fee_pool_do_evaluate_def)
  from assms(3) obtain d1 where d1: "debit fc (aff_from_account op) (ASSET (aff_amount op) CORE_ASSET) d = Inr d1"
    and d2: "modify_dyn (dynamic_asset_data_id ao) (\<lambda>data.
       bnd (safe_add fc (fee_pool data) (aff_amount op)) (\<lambda>x. Inr (data\<lparr>fee_pool := x\<rparr>))) d1 = Inr d'"
    by (auto simp: asset_fund_fee_pool_do_apply_def ao(2) simp del: debit_iff)
  have "store_find (assets d1) (aff_asset_id op) = Some ao"
    using ao(1) fee_frame_fields[OF assms(2)] adjust_balance_fields[OF conjunct2[OF d1[unfolded debit_iff]]] by simp
  then have "gap_step d1 d' (amt_at CORE_ASSET (aff_amount op))" by (rule modify_pool_step[OF d2]) auto
  with gap_step_debit[OF d1] show ?thesis by (rule gap_step_then) (simp add: amt_at_def)
qed

lemma asset_claim_fees_conserves:
  assumes "asset_claim_fees_do_evaluate op fs d0 = Inr ev" "fee_frame d0 d"
    "asset_claim_fees_do_apply fc op ev fs d = Inr d'"
  shows "conserves d d'"
proof -
  let ?c = "acf_amount_to_claim op" and ?i = "acf_container op"
  from assms(1) obtain ao where ao: "store_find (assets d0) ?i = Some ao" "ev = dynamic_asset_data_id ao"
    "can_accumulate_fee d0 ?i ao ?c = Inr True"
    by (auto simp: asset_claim_fees_do_evaluate_def)
  have aod: "store_find (assets d) ?i = Some ao" using ao(1) fee_frame_fields[OF assms(2)] by simp
  from assms(3) obtain d1 where
    d1: "(if ?i = asset_id ?c
          then modify_dyn (dynamic_asset_data_id ao) (\<lambda>addo.
                 bnd (safe_sub fc (accumulated_fees addo) (amount ?c)) (\<lambda>x. Inr (addo\<lparr>accumulated_fees := x\<rparr>))) d
          else modify_dyn (dynamic_asset_data_id ao) (\<lambda>addo.
                 bnd (safe_sub fc (accumulated_collateral_fees addo) (amount ?c)) (\<lambda>x.
                 Inr (addo\<lparr>accumulated_collateral_fees := x\<rparr>))) d) = Inr d1"
    and d2: "adjust_balance fc (acf_issuer op) ?c d1 = Inr d'"
    by (auto simp: asset_claim_fees_do_apply_def ao(2))
  have "gap_step d d1 (amt_at (asset_id ?c) (- amount ?c))"
  proof (cases "?i = asset_id ?c")
    case True
    then have m: "modify_dyn (dynamic_asset_data_id ao) (\<lambda>addo.
        bnd (safe_sub fc (accumulated_fees addo) (amount ?c)) (\<lambda>x. Inr (addo\<lparr>accumulated_fees := x\<rparr>))) d = Inr d1"
      using d1 by (simp only: if_True simp_thms)
    have "gap_step d d1 (amt_at ?i (- amount ?c))" by (rule modify_asset_dyn_step[OF m aod]) auto
    then show ?thesis by (simp only: True)
  next
    case False
    with ao(3) obtain k bad where k: "bitasset_data_id ao = Some k" "store_find (bitassets d) k = Some bad"
      "asset_id ?c = short_backing_asset bad"
      using fee_frame_fields[OF assms(2)] by (auto simp: can_accumulate_fee_def split: option.splits)
    from False d1 have m: "modify_dyn (dynamic_asset_data_id ao) (\<lambda>addo.
        bnd (safe_sub fc (accumulated_collateral_fees addo) (amount ?c)) (\<lambda>x.
        Inr (addo\<lparr>accumulated_collateral_fees := x\<rparr>))) d = Inr d1" by (simp only: if_False simp_thms)
    have "gap_step d d1 (amt_at (short_backing_asset bad) (- amount ?c))"
      by (rule modify_collateral_step[OF m aod k(1,2)]) auto
    then show ?thesis by (simp only: k(3))
  qed
  then show ?thesis using gap_step_adjust[OF d2] by (rule gap_step_then) (simp add: amt_at_def)
qed

lemma asset_update_issuer_conserves:
  assumes "asset_update_issuer_do_apply op ev fs d = Inr d'"
  shows "conserves d d'"
  using assms by (auto simp: asset_update_issuer_do_apply_def intro!: gap_step_asset_link)

lemma asset_claim_pool_conserves:
  assumes "asset_claim_pool_validate op = Inr ()" "asset_claim_pool_do_apply fc op ev fs d = Inr d'"
  shows "conserves d d'"
proof -
  let ?c = "acp_amount_to_claim op"
  from assms(2) obtain a d1 where a: "store_find (assets d) (acp_asset_id op) = Some a"
    and d1: "modify_dyn (dynamic_asset_data_id a) (\<lambda>addo.
            bnd (safe_sub fc (fee_pool addo) (amount ?c)) (\<lambda>x. Inr (addo\<lparr>fee_pool := x\<rparr>))) d = Inr d1"
    and d2: "adjust_balance fc (acp_issuer op) ?c d1 = Inr d'"
    by (auto simp: asset_claim_pool_do_apply_def)
  have core: "asset_id ?c = CORE_ASSET" using assms(1) by (simp add: asset_claim_pool_validate_def)
  have "gap_step d d1 (amt_at CORE_ASSET (- amount ?c))" by (rule modify_pool_step[OF d1 a]) auto
  then show ?thesis using gap_step_adjust[OF d2] by (rule gap_step_then) (simp add: core amt_at_def)
qed

end

sublocale fc_safe \<subseteq> asset_issue_ev: conserving_evaluator fc ais_issuer ais_fee asset_issue_validate
    "asset_issue_do_evaluate fc" "asset_issue_do_apply fc"
  by unfold_locales (rule asset_issue_conserves)

sublocale fc_safe \<subseteq> asset_reserve_ev: conserving_evaluator fc ars_payer ars_fee asset_reserve_validate
    asset_reserve_do_evaluate "asset_reserve_do_apply fc"
  by unfold_locales (rule asset_reserve_conserves)

sublocale fc_safe \<subseteq> asset_fund_fee_pool_ev: conserving_evaluator fc aff_from_account aff_fee
    asset_fund_fee_pool_validate asset_fund_fee_pool_do_evaluate "asset_fund_fee_pool_do_apply fc"
  by unfold_locales (rule asset_fund_fee_pool_conserves)

sublocale fc_safe \<subseteq> asset_claim_fees_ev: conserving_evaluator fc acf_issuer acf_fee asset_claim_fees_validate
    asset_claim_fees_do_evaluate "asset_claim_fees_do_apply fc"
  by unfold_locales (rule asset_claim_fees_conserves)

sublocale fc_safe \<subseteq> asset_update_issuer_ev: conserving_evaluator fc aui_issuer aui_fee asset_update_issuer_validate
    asset_update_issuer_do_evaluate asset_update_issuer_do_apply
  by unfold_locales (rule asset_update_issuer_conserves)

sublocale fc_safe \<subseteq> asset_claim_pool_ev: conserving_evaluator fc acp_issuer acp_fee asset_claim_pool_validate
    asset_claim_pool_do_evaluate "asset_claim_pool_do_apply fc"
  by unfold_locales (rule asset_claim_pool_conserves)

section \<open>Properties\<close>

context fc_safe
begin

lemmas asset_issue_steps = asset_issue_ev.operation_steps
lemmas asset_reserve_steps = asset_reserve_ev.operation_steps

lemma asset_issue_applied:
  assumes "run_asset_issue fc req op d = Inr d'"
  defines "a \<equiv> ais_asset_to_issue op"
  shows "\<exists>ao dd dd'. store_find (assets d) (asset_id a) = Some ao \<and> issuer ao = ais_issuer op \<and>
    \<not> is_market_issued ao \<and> \<not> is_liquidity_pool_share_asset ao \<and> can_create_new_supply ao \<and>
    store_find (asset_dyn_data d) (dynamic_asset_data_id ao) = Some dd \<and>
    store_find (asset_dyn_data d') (dynamic_asset_data_id ao) = Some dd' \<and>
    current_supply dd' = current_supply dd + amount a \<and> current_supply dd' \<le> max_supply (options ao) \<and>
    authorized d (ais_issue_to_account op) (asset_id a) = Inr True"
    and "amount (get_balance d' owner b) = amount (get_balance d owner b)
      + (if owner = ais_issue_to_account op \<and> b = asset_id a then amount a else 0)
      - (if owner = ais_issuer op \<and> b = asset_id (ais_fee op) then amount (ais_fee op) else 0)"
proof -
  from assms(1) obtain fs ev d1 d2 where ev: "asset_issue_do_evaluate fc op fs d = Inr ev" and frame: "fee_frame d d1"
    and ap: "asset_issue_do_apply fc op ev fs d1 = Inr d2"
    and d': "adjust_balance fc (ais_issuer op) (ASSET (- amount (ais_fee op)) (asset_id (ais_fee op))) d2 = Inr d'"
    unfolding run_asset_issue_def by (rule asset_issue_steps)
  from ev obtain ao dd where ao: "store_find (assets d) (asset_id a) = Some ao" "ev = dynamic_asset_data_id ao"
    "issuer ao = ais_issuer op" "\<not> is_market_issued ao" "\<not> is_liquidity_pool_share_asset ao" "can_create_new_supply ao"
    and dd: "store_find (asset_dyn_data d) (dynamic_asset_data_id ao) = Some dd"
      "current_supply dd + amount a \<le> max_supply (options ao)"
    and auth: "authorized d (ais_issue_to_account op) (asset_id a) = Inr True"
    by (auto simp: asset_issue_do_evaluate_def a_def authorized_def)
  from ap obtain e where e: "adjust_balance fc (ais_issue_to_account op) a d1 = Inr e"
    and m: "modify_dyn (dynamic_asset_data_id ao) (\<lambda>data.
       bnd (safe_add fc (current_supply data) (amount a)) (\<lambda>x. Inr (data\<lparr>current_supply := x\<rparr>))) e = Inr d2"
    by (auto simp: asset_issue_do_apply_def ao(2) a_def)
  from m obtain dd1 where dd1: "store_find (asset_dyn_data e) (dynamic_asset_data_id ao) = Some dd1"
    and d2: "d2 = e\<lparr>asset_dyn_data := store_put (asset_dyn_data e) (dynamic_asset_data_id ao)
        (dd1\<lparr>current_supply := current_supply dd1 + amount a\<rparr>)\<rparr>"
    by (rule modify_dynE) auto
  have "current_supply dd1 = current_supply dd"
    using fee_frame_supply[OF frame, of "dynamic_asset_data_id ao" dd1] dd1 dd(1) adjust_balance_fields[OF e] by auto
  moreover have "store_find (asset_dyn_data d') (dynamic_asset_data_id ao) =
      Some (dd1\<lparr>current_supply := current_supply dd1 + amount a\<rparr>)"
    using adjust_balance_fields[OF d'] d2 dd1 by (simp add: store_find_put_same)
  ultimately show "\<exists>ao dd dd'. store_find (assets d) (asset_id a) = Some ao \<and> issuer ao = ais_issuer op \<and>
    \<not> is_market_issued ao \<and> \<not> is_liquidity_pool_share_asset ao \<and> can_create_new_supply ao \<and>
    store_find (asset_dyn_data d) (dynamic_asset_data_id ao) = Some dd \<and>
    store_find (asset_dyn_data d') (dynamic_asset_data_id ao) = Some dd' \<and>
    current_supply dd' = current_supply dd + amount a \<and> current_supply dd' \<le> max_supply (options ao) \<and>
    authorized d (ais_issue_to_account op) (asset_id a) = Inr True"
    using ao dd auth by fastforce
  have "get_balance d2 = get_balance e" by (intro ext) (simp add: d2 get_balance_def get_account_balance_def)
  then show "amount (get_balance d' owner b) = amount (get_balance d owner b)
      + (if owner = ais_issue_to_account op \<and> b = asset_id a then amount a else 0)
      - (if owner = ais_issuer op \<and> b = asset_id (ais_fee op) then amount (ais_fee op) else 0)"
    using adjust_balance_get[OF d', of owner b] adjust_balance_get[OF e, of owner b] fee_frame_balance[OF frame] by simp
qed

end

text \<open>
  C34: issuing an asset is possible only for its issuer, and neither for a market-issued asset nor for the
  share asset of a liquidity pool nor when new supply is disabled. The supply grows by exactly the issued
  amount and stays within the maximum supply of the asset; the receiver, who is authorized for the asset,
  gets exactly this amount, and no other balance changes but by the fee of the issuer.
\<close>

theorem asset_issue_bounded:
  assumes "fc_safe fc" "run_asset_issue fc req op d = Inr d'"
  shows "(\<exists>ao dd dd'. store_find (assets d) (asset_id (ais_asset_to_issue op)) = Some ao \<and> issuer ao = ais_issuer op \<and>
    \<not> is_market_issued ao \<and> \<not> is_liquidity_pool_share_asset ao \<and> can_create_new_supply ao \<and>
    store_find (asset_dyn_data d) (dynamic_asset_data_id ao) = Some dd \<and>
    store_find (asset_dyn_data d') (dynamic_asset_data_id ao) = Some dd' \<and>
    current_supply dd' = current_supply dd + amount (ais_asset_to_issue op) \<and>
    current_supply dd' \<le> max_supply (options ao) \<and>
    authorized d (ais_issue_to_account op) (asset_id (ais_asset_to_issue op)) = Inr True) \<and>
   (\<forall>owner b. amount (get_balance d' owner b) = amount (get_balance d owner b)
      + (if owner = ais_issue_to_account op \<and> b = asset_id (ais_asset_to_issue op)
         then amount (ais_asset_to_issue op) else 0)
      - (if owner = ais_issuer op \<and> b = asset_id (ais_fee op) then amount (ais_fee op) else 0))"
  using fc_safe.asset_issue_applied[OF assms] by blast

definition sample_issue :: asset_issue_operation where
  "sample_issue = \<lparr>ais_fee = ASSET 3 0, ais_issuer = 7, ais_asset_to_issue = ASSET 60 1, ais_issue_to_account = 8\<rparr>"

theorem asset_issue_bounded_witness:
  "\<exists>d'. run_asset_issue fc_ref (Some 3) sample_issue (sample_db 100) = Inr d' \<and> amount (get_balance d' 8 1) = 100"
proof -
  have "\<not> isl (run_asset_issue fc_ref (Some 3) sample_issue (sample_db 100))"
    by (simp add: run_asset_issue_def sample_issue_def asset_issue_do_evaluate_def asset_issue_do_apply_def
        is_market_issued_def is_liquidity_pool_share_asset_def can_create_new_supply_def run_eval sample_defs fc_ref_simps
        cong: eval_congs)
  then obtain d' where run: "run_asset_issue fc_ref (Some 3) sample_issue (sample_db 100) = Inr d'"
    by (cases "run_asset_issue fc_ref (Some 3) sample_issue (sample_db 100)") auto
  have "amount (get_balance (sample_db 100) 8 1) = 40"
    by (simp add: sample_defs get_balance_def get_account_balance_def store_search_def abo_key_def)
  with asset_issue_bounded[OF fc_ref.fc_safe_axioms run] run show ?thesis by (simp add: sample_issue_def)
qed

end
