(* ===== verification/Authority.thy ===== *)
theory Authority
  imports Chain_Objects
begin

text \<open>
  Authorities and signatures: \<open>libraries/protocol/include/graphene/protocol/authority.hpp\<close> and the part
  of \<open>libraries/protocol/transaction.cpp\<close> that decides whether the keys that signed a transaction
  authorize it (\<open>sign_state\<close>, \<open>verify_authority\<close>, \<open>get_signature_keys\<close>).

  The callbacks \<open>get_active\<close>, \<open>get_owner\<close> and \<open>get_custom\<close> are arguments here as they are in the code; a
  callback may throw. Public keys and addresses are numbers. The five addresses derived from a key are
  hashes computed by \<open>fc\<close>, an argument. A \<open>flat_map\<close> is an association list in key order, a
  \<open>flat_set\<close> a sorted list; weights are added as the \<open>uint32_t\<close> they are. The map of rejected custom
  authorities, which only serves the message of an exception, is left out.

  The theory shows that \<open>verify_authority\<close> is sound (what it accepts is authorized in a specification
  that knows no recursion depth, cache or order) and complete up to the recursion depth (whatever is
  authorized within the depth is accepted unless a signature is superfluous).
\<close>

section \<open>Flat maps and flat sets\<close>

fun fm_put :: "nat \<Rightarrow> 'v \<Rightarrow> (nat \<times> 'v) list \<Rightarrow> (nat \<times> 'v) list" where
  "fm_put k v [] = [(k, v)]"
| "fm_put k v ((k', v') # r) =
     (if k < k' then (k, v) # (k', v') # r else if k = k' then (k, v) # r else (k', v') # fm_put k v r)"

definition fs_union :: "nat list \<Rightarrow> nat list \<Rightarrow> nat list" where
  "fs_union xs ys = fold insort_insert ys xs"

lemma set_fm_put: "set (fm_put k v m) \<subseteq> insert (k, v) (set m)"
  by (induction m) (auto split: if_splits)

lemma map_of_fm_put [simp]: "map_of (fm_put k v m) = (map_of m)(k \<mapsto> v)"
  by (induction m) auto

lemma keys_fm_put [simp]: "fst ` set (fm_put k v m) = insert k (fst ` set m)"
  using map_of_fm_put[of k v m] by (simp flip: dom_map_of_conv_image_fst)

lemma set_fs_union [simp]: "set (fs_union xs ys) = set xs \<union> set ys"
  unfolding fs_union_def by (induction ys arbitrary: xs) (auto simp: set_insort_insert)

section \<open>Authorities and the state of a check\<close>

record authority =
  weight_threshold :: nat
  account_auths :: "(account_id_type \<times> nat) list"
  key_auths :: "(nat \<times> nat) list"
  address_auths :: "(nat \<times> nat) list"

text \<open>The members of \<open>sign_state\<close> that do not change, and those that do. Of the two address maps, which
  are built when they are first used, the first is of the available keys.\<close>

record sign_ctx =
  get_active :: "account_id_type \<Rightarrow> authority option result"
  get_owner :: "account_id_type \<Rightarrow> authority option result"
  allow_non_immediate_owner :: bool
  max_recursion :: nat
  available_keys :: "nat list"
  addresses_of :: "nat \<Rightarrow> nat list"

record sign_state =
  provided_signatures :: "(nat \<times> bool) list"
  approved_by :: "account_id_type list"
  address_sigs :: "((nat \<times> nat) list \<times> (nat \<times> nat) list) option"

definition add_authority_key :: "nat \<Rightarrow> nat \<Rightarrow> authority \<Rightarrow> authority" where
  "add_authority_key k w au = au\<lparr>key_auths := fm_put k w (key_auths au)\<rparr>"

definition add_authority_address :: "nat \<Rightarrow> nat \<Rightarrow> authority \<Rightarrow> authority" where
  "add_authority_address k w au = au\<lparr>address_auths := fm_put k w (address_auths au)\<rparr>"

definition add_authority_account :: "nat \<Rightarrow> nat \<Rightarrow> authority \<Rightarrow> authority" where
  "add_authority_account k w au = au\<lparr>account_auths := fm_put k w (account_auths au)\<rparr>"

definition is_impossible :: "authority \<Rightarrow> bool" where
  "is_impossible au \<longleftrightarrow>
     (sum_list (map snd (account_auths au)) + sum_list (map snd (key_auths au)) +
      sum_list (map snd (address_auths au))) mod 2 ^ 64 < weight_threshold au"

definition init_sign_state :: "nat list \<Rightarrow> sign_state" where
  "init_sign_state sigs = \<lparr>provided_signatures = fold (\<lambda>k. fm_put k False) sigs [],
     approved_by = [GRAPHENE_TEMP_ACCOUNT], address_sigs = None\<rparr>"

definition mark_used :: "nat \<Rightarrow> sign_state \<Rightarrow> sign_state" where
  "mark_used k s = s\<lparr>provided_signatures := fm_put k True (provided_signatures s)\<rparr>"

definition signed_by :: "sign_ctx \<Rightarrow> nat \<Rightarrow> sign_state \<Rightarrow> (bool \<times> sign_state) result" where
  "signed_by ctx k s =
     (case map_of (provided_signatures s) k of
        None \<Rightarrow> if k \<in> set (available_keys ctx) then Inr (True, mark_used k s) else Inr (False, s)
      | Some _ \<Rightarrow> Inr (True, mark_used k s))"

definition address_map :: "(nat \<Rightarrow> nat list) \<Rightarrow> nat list \<Rightarrow> (nat \<times> nat) list" where
  "address_map adrs ks = fold (\<lambda>k m. fold (\<lambda>a. fm_put a k) (adrs k) m) ks []"

definition address_maps :: "sign_ctx \<Rightarrow> sign_state \<Rightarrow> (nat \<times> nat) list \<times> (nat \<times> nat) list" where
  "address_maps ctx s =
     (case address_sigs s of
        None \<Rightarrow> (address_map (addresses_of ctx) (available_keys ctx),
                 address_map (addresses_of ctx) (map fst (provided_signatures s)))
      | Some p \<Rightarrow> p)"

text \<open>An address that belongs to no known key makes the code use the end iterator of the map.\<close>

definition signed_by_address :: "sign_ctx \<Rightarrow> nat \<Rightarrow> sign_state \<Rightarrow> (bool \<times> sign_state) result" where
  "signed_by_address ctx a s =
     (let (av, pr) = address_maps ctx s;
          s1 = s\<lparr>address_sigs := Some (av, pr)\<rparr>
      in case map_of pr a of
           Some k \<Rightarrow> Inr (True, mark_used k s1)
         | None \<Rightarrow>
             (case map_of av a of
                Some k \<Rightarrow> if k \<in> set (available_keys ctx) then Inr (True, mark_used k s1) else Inr (False, s1)
              | None \<Rightarrow> Inl Undefined_behaviour))"

section \<open>Checking an authority\<close>

text \<open>One of the loops that add up weights until the threshold is reached: the result says whether the
  loop returned early, and carries the total.\<close>

fun weigh :: "('k \<Rightarrow> sign_state \<Rightarrow> (bool \<times> sign_state) result) \<Rightarrow> nat \<Rightarrow> ('k \<times> nat) list \<Rightarrow> nat \<Rightarrow>
    sign_state \<Rightarrow> (bool \<times> nat \<times> sign_state) result" where
  "weigh f thr [] total_weight s = Inr (False, total_weight, s)"
| "weigh f thr ((k, w) # r) total_weight s =
     bnd (f k s) (\<lambda>(b, s1).
     if b then
       let total_weight' = (total_weight + w) mod 2 ^ 32
       in if thr \<le> total_weight' then Inr (True, total_weight', s1) else weigh f thr r total_weight' s1
     else weigh f thr r total_weight s1)"

definition check_with :: "sign_ctx \<Rightarrow> (account_id_type \<Rightarrow> sign_state \<Rightarrow> (bool \<times> sign_state) result) \<Rightarrow>
    authority option \<Rightarrow> sign_state \<Rightarrow> (bool \<times> sign_state) result" where
  "check_with ctx account au s =
     (case au of
        None \<Rightarrow> Inr (False, s)
      | Some auth \<Rightarrow>
          bnd (weigh (signed_by ctx) (weight_threshold auth) (key_auths auth) 0 s) (\<lambda>(early, total_weight, s).
          if early then Inr (True, s)
          else
            bnd (weigh (signed_by_address ctx) (weight_threshold auth) (address_auths auth) total_weight s)
            (\<lambda>(early, total_weight, s).
            if early then Inr (True, s)
            else
              bnd (weigh account (weight_threshold auth) (account_auths auth) total_weight s) (\<lambda>(early, total_weight, s).
              Inr (early \<or> weight_threshold auth \<le> total_weight, s)))))"

text \<open>The active authority of an account, or its owner authority where that is allowed, checked by
  \<open>check\<close>.\<close>

definition check_active_or_owner :: "sign_ctx \<Rightarrow>
    (authority option \<Rightarrow> sign_state \<Rightarrow> (bool \<times> sign_state) result) \<Rightarrow> account_id_type \<Rightarrow> sign_state \<Rightarrow>
    (bool \<times> sign_state) result" where
  "check_active_or_owner ctx check a s =
     bnd (get_active ctx a) (\<lambda>act.
     bnd (check act s) (\<lambda>(b, s).
     if b then Inr (True, s)
     else if allow_non_immediate_owner ctx then bnd (get_owner ctx a) (\<lambda>own. check own s)
     else Inr (False, s)))"

definition nested_account :: "sign_ctx \<Rightarrow>
    (authority option \<Rightarrow> sign_state \<Rightarrow> (bool \<times> sign_state) result) \<Rightarrow> account_id_type \<Rightarrow> sign_state \<Rightarrow>
    (bool \<times> sign_state) result" where
  "nested_account ctx check a s =
     (if a \<in> set (approved_by s) then Inr (True, s)
      else
        bnd (check_active_or_owner ctx check a s) (\<lambda>(b, s).
        Inr (b, if b then s\<lparr>approved_by := insort_insert a (approved_by s)\<rparr> else s)))"

text \<open>The argument is the number of levels left, \<open>max_recursion - depth\<close>.\<close>

primrec check_authority :: "sign_ctx \<Rightarrow> nat \<Rightarrow> authority option \<Rightarrow> sign_state \<Rightarrow>
    (bool \<times> sign_state) result" where
  "check_authority ctx 0 = check_with ctx (\<lambda>a s. Inr (a \<in> set (approved_by s), s))"
| "check_authority ctx (Suc n) = check_with ctx (nested_account ctx (check_authority ctx n))"

definition check_account :: "sign_ctx \<Rightarrow> account_id_type \<Rightarrow> sign_state \<Rightarrow> (bool \<times> sign_state) result" where
  "check_account ctx a s =
     (if a \<in> set (approved_by s) then Inr (True, s)
      else check_active_or_owner ctx (check_authority ctx (max_recursion ctx)) a s)"

definition remove_unused_signatures :: "sign_state \<Rightarrow> bool \<times> sign_state" where
  "remove_unused_signatures s =
     (filter (\<lambda>p. \<not> snd p) (provided_signatures s) \<noteq> [],
      s\<lparr>provided_signatures := filter snd (provided_signatures s)\<rparr>)"

section \<open>Verifying the authority of operations\<close>

fun any_authority :: "sign_ctx \<Rightarrow> authority list \<Rightarrow> sign_state \<Rightarrow> (bool \<times> sign_state) result" where
  "any_authority ctx [] s = Inr (False, s)"
| "any_authority ctx (au # aus) s =
     bnd (check_authority ctx (max_recursion ctx) (Some au) s) (\<lambda>(b, s).
     if b then Inr (True, s) else any_authority ctx aus s)"

text \<open>The loop that erases the accounts a custom authority speaks for.\<close>

fun erase_custom :: "sign_ctx \<Rightarrow> (account_id_type \<Rightarrow> authority list) \<Rightarrow> account_id_type list \<Rightarrow> sign_state \<Rightarrow>
    (account_id_type list \<times> sign_state) result" where
  "erase_custom ctx custom [] s = Inr ([], s)"
| "erase_custom ctx custom (a # as) s =
     bnd (any_authority ctx (custom a) s) (\<lambda>(b, s).
     bnd (erase_custom ctx custom as s) (\<lambda>(rest, s).
     Inr (if b then rest else a # rest, s)))"

record required_auths =
  required_active :: "account_id_type list"
  required_owner :: "account_id_type list"
  required_other :: "authority list"

text \<open>\<open>reqs op\<close> is what \<open>operation_get_required_authorities\<close> inserts for the operation.\<close>

fun collect_required :: "sign_ctx \<Rightarrow> ('op \<Rightarrow> required_auths) \<Rightarrow> (account_id_type \<Rightarrow> 'op \<Rightarrow> authority list) \<Rightarrow>
    'op list \<Rightarrow> required_auths \<Rightarrow> sign_state \<Rightarrow> (required_auths \<times> sign_state) result" where
  "collect_required ctx reqs get_custom [] r s = Inr (r, s)"
| "collect_required ctx reqs get_custom (op # ops) r s =
     bnd (erase_custom ctx (\<lambda>a. get_custom a op) (fs_union [] (required_active (reqs op))) s) (\<lambda>(acts, s).
     collect_required ctx reqs get_custom ops
       \<lparr>required_active = fs_union (required_active r) acts,
        required_owner = fs_union (required_owner r) (required_owner (reqs op)),
        required_other = required_other r @ required_other (reqs op)\<rparr> s)"

fun check_all :: "error \<Rightarrow> ('x \<Rightarrow> sign_state \<Rightarrow> (bool \<times> sign_state) result) \<Rightarrow> 'x list \<Rightarrow> sign_state \<Rightarrow>
    sign_state result" where
  "check_all e f [] s = Inr s"
| "check_all e f (x # xs) s = bnd (f x s) (\<lambda>(b, s). ensure e b (check_all e f xs s))"

definition check_other :: "sign_ctx \<Rightarrow> authority \<Rightarrow> sign_state \<Rightarrow> (bool \<times> sign_state) result" where
  "check_other ctx au s = check_authority ctx (max_recursion ctx) (Some au) s"

definition check_owner :: "sign_ctx \<Rightarrow> account_id_type list \<Rightarrow> account_id_type \<Rightarrow> sign_state \<Rightarrow>
    (bool \<times> sign_state) result" where
  "check_owner ctx owner_approvals a s =
     (if a \<in> set owner_approvals then Inr (True, s)
      else bnd (get_owner ctx a) (\<lambda>own. check_authority ctx (max_recursion ctx) own s))"

definition check_active :: "sign_ctx \<Rightarrow> account_id_type \<Rightarrow> sign_state \<Rightarrow> (bool \<times> sign_state) result" where
  "check_active ctx a s =
     bnd (check_account ctx a s) (\<lambda>(b, s).
     if b then Inr (True, s)
     else bnd (get_owner ctx a) (\<lambda>own. check_authority ctx (max_recursion ctx) own s))"

definition verify_authority :: "sign_ctx \<Rightarrow> ('op \<Rightarrow> required_auths) \<Rightarrow>
    (account_id_type \<Rightarrow> 'op \<Rightarrow> authority list) \<Rightarrow> bool \<Rightarrow> account_id_type list \<Rightarrow> account_id_type list \<Rightarrow>
    'op list \<Rightarrow> nat list \<Rightarrow> unit result" where
  "verify_authority ctx reqs get_custom allow_committee active_approvals owner_approvals ops sigs =
     (let s0 = init_sign_state sigs;
          s = s0\<lparr>approved_by := fs_union (fs_union (approved_by s0) active_approvals) owner_approvals\<rparr>
      in
      bnd (collect_required ctx reqs get_custom ops
             \<lparr>required_active = [], required_owner = [], required_other = []\<rparr> s) (\<lambda>(r, s).
      ensure Invalid_committee_approval
        (allow_committee \<or> GRAPHENE_COMMITTEE_ACCOUNT \<notin> set (required_active r))
     (bnd (check_all Tx_missing_other_auth (check_other ctx) (required_other r) s) (\<lambda>s.
      bnd (check_all Tx_missing_owner_auth (check_owner ctx owner_approvals) (required_owner r) s) (\<lambda>s.
      bnd (check_all Tx_missing_active_auth (check_active ctx) (required_active r) s) (\<lambda>s.
      ensure Tx_irrelevant_sig (\<not> fst (remove_unused_signatures s)) (Inr ())))))))"

text \<open>The keys that signed: \<open>recover\<close> is the constructor of \<open>fc::ecc::public_key\<close> from a signature and
  the digest of the transaction.\<close>

fun get_signature_keys :: "('sig \<Rightarrow> nat) \<Rightarrow> 'sig list \<Rightarrow> nat list \<Rightarrow> nat list result" where
  "get_signature_keys recover [] ks = Inr ks"
| "get_signature_keys recover (g # gs) ks =
     ensure Tx_duplicate_sig (recover g \<notin> set ks)
       (get_signature_keys recover gs (insort_insert (recover g) ks))"

section \<open>What authorizes an account\<close>

text \<open>
  The specification: an account is approved when it is given, or when its active authority (or, where
  allowed, its owner authority) is satisfied; an authority is satisfied when the weights of the keys,
  addresses and approved accounts reach its threshold. There is no bound on the nesting.
\<close>

definition wsum :: "('k \<Rightarrow> bool) \<Rightarrow> ('k \<times> nat) list \<Rightarrow> nat" where
  "wsum P xs = sum_list (map snd (filter (\<lambda>p. P (fst p)) xs))"

definition auth_weight :: "sign_ctx \<Rightarrow> nat set \<Rightarrow> account_id_type set \<Rightarrow> authority \<Rightarrow> nat" where
  "auth_weight ctx K S au = wsum (\<lambda>k. k \<in> K) (key_auths au) +
     wsum (\<lambda>a. \<exists>k\<in>K. a \<in> set (addresses_of ctx k)) (address_auths au) + wsum (\<lambda>a. a \<in> S) (account_auths au)"

inductive approved :: "sign_ctx \<Rightarrow> nat set \<Rightarrow> account_id_type set \<Rightarrow> account_id_type \<Rightarrow> bool"
  and satisfied :: "sign_ctx \<Rightarrow> nat set \<Rightarrow> account_id_type set \<Rightarrow> authority \<Rightarrow> bool"
  for ctx K A where
  approved_given: "a \<in> A \<Longrightarrow> approved ctx K A a"
| approved_active: "get_active ctx a = Inr (Some au) \<Longrightarrow> satisfied ctx K A au \<Longrightarrow> approved ctx K A a"
| approved_owner: "allow_non_immediate_owner ctx \<Longrightarrow> get_owner ctx a = Inr (Some au) \<Longrightarrow>
    satisfied ctx K A au \<Longrightarrow> approved ctx K A a"
| satisfied_weight: "\<forall>a\<in>S. approved ctx K A a \<Longrightarrow> weight_threshold au \<le> auth_weight ctx K S au \<Longrightarrow>
    satisfied ctx K A au"

text \<open>The same with at most \<open>n\<close> levels of nesting.\<close>

definition approved_by_level :: "sign_ctx \<Rightarrow> (authority \<Rightarrow> bool) \<Rightarrow> account_id_type \<Rightarrow> bool" where
  "approved_by_level ctx sat a \<longleftrightarrow>
     (case get_active ctx a of Inr (Some au) \<Rightarrow> sat au | _ \<Rightarrow> False) \<or>
     (allow_non_immediate_owner ctx \<and> (case get_owner ctx a of Inr (Some au) \<Rightarrow> sat au | _ \<Rightarrow> False))"

primrec satisfied_within :: "sign_ctx \<Rightarrow> nat set \<Rightarrow> account_id_type set \<Rightarrow> nat \<Rightarrow> authority \<Rightarrow> bool" where
  "satisfied_within ctx K A 0 au \<longleftrightarrow> weight_threshold au \<le> auth_weight ctx K A au"
| "satisfied_within ctx K A (Suc n) au \<longleftrightarrow> weight_threshold au \<le>
     auth_weight ctx K (A \<union> {a. approved_by_level ctx (satisfied_within ctx K A n) a}) au"

lemma wsum_simps [simp]: "wsum P [] = 0" "wsum P (p # xs) = (if P (fst p) then snd p else 0) + wsum P xs"
  by (simp_all add: wsum_def)

lemma wsum_mono: "(\<And>k. P k \<Longrightarrow> Q k) \<Longrightarrow> wsum P xs \<le> wsum Q xs"
  by (induction xs) (auto intro: add_mono)

text \<open>The bounded specification implies the unbounded one.\<close>

lemma satisfied_within_satisfied: "satisfied_within ctx K A n au \<Longrightarrow> satisfied ctx K A au"
proof (induction n arbitrary: au)
  case 0
  then show ?case by (auto intro!: satisfied_weight[of A] approved_given)
next
  case (Suc n)
  let ?S = "A \<union> {a. approved_by_level ctx (satisfied_within ctx K A n) a}"
  have "approved ctx K A a" if "a \<in> ?S" for a
    using that Suc.IH
    by (auto simp: approved_by_level_def intro: approved_given approved_active approved_owner
        split: sum.splits option.splits)
  then show ?case using Suc.prems by (auto intro!: satisfied_weight[of ?S])
qed

text \<open>More keys approve more.\<close>

lemma auth_weight_mono:
  assumes "K \<subseteq> L" "S \<subseteq> T"
  shows "auth_weight ctx K S au \<le> auth_weight ctx L T au"
  unfolding auth_weight_def by (intro add_mono wsum_mono) (use assms in blast)+

lemma approved_mono: "approved ctx K A a \<Longrightarrow> K \<subseteq> L \<Longrightarrow> approved ctx L A a"
  and satisfied_mono: "satisfied ctx K A au \<Longrightarrow> K \<subseteq> L \<Longrightarrow> satisfied ctx L A au"
proof (induction rule: approved_satisfied.inducts)
  case (satisfied_weight S au)
  then show ?case
    using auth_weight_mono[of K L S S ctx au] by (intro approved_satisfied.satisfied_weight[of S]) auto
qed (auto intro: approved_given approved_active approved_owner)

section \<open>Soundness\<close>

text \<open>The keys a check has relied on so far.\<close>

definition used :: "sign_state \<Rightarrow> nat set" where
  "used s = {k. map_of (provided_signatures s) k = Some True}"

lemma used_mark_used [simp]: "used (mark_used k s) = insert k (used s)"
  by (auto simp: used_def mark_used_def)

lemma used_update [simp]: "used (s\<lparr>approved_by := as\<rparr>) = used s" "used (s\<lparr>address_sigs := m\<rparr>) = used s"
  by (simp_all add: used_def)

lemma fm_put_sorted: "sorted_wrt (<) (map fst m) \<Longrightarrow> sorted_wrt (<) (map fst (fm_put k v m))"
proof (induction m)
  case (Cons p m)
  obtain k' v' where p: "p = (k', v')" by force
  have "\<forall>y\<in>fst ` set (fm_put k v m). k' < y" if "k' < k"
    unfolding keys_fm_put using that Cons.prems by (simp add: p)
  with Cons show ?case by (auto simp: p)
qed simp

definition maps_ok :: "sign_ctx \<Rightarrow> nat set \<Rightarrow> (nat \<times> nat) list \<Rightarrow> bool" where
  "maps_ok ctx K m \<longleftrightarrow> (\<forall>(a, k)\<in>set m. k \<in> K \<and> a \<in> set (addresses_of ctx k))"

text \<open>What holds of the state of a check for the keys \<open>K\<close> and the given accounts \<open>A\<close>: the accounts it
  remembers are approved by the keys it has marked as used.\<close>

definition sound_state :: "sign_ctx \<Rightarrow> nat set \<Rightarrow> account_id_type set \<Rightarrow> sign_state \<Rightarrow> bool" where
  "sound_state ctx K A s \<longleftrightarrow> fst ` set (provided_signatures s) \<subseteq> K \<and> set (available_keys ctx) \<subseteq> K \<and>
     sorted_wrt (<) (map fst (provided_signatures s)) \<and> (\<forall>a\<in>set (approved_by s). approved ctx (used s) A a) \<and>
     (\<forall>av pr. address_sigs s = Some (av, pr) \<longrightarrow> maps_ok ctx K av \<and> maps_ok ctx K pr)"

lemma used_subset: "sound_state ctx K A s \<Longrightarrow> used s \<subseteq> K"
proof
  fix k assume "sound_state ctx K A s" "k \<in> used s"
  then have "(k, True) \<in> set (provided_signatures s)" "fst ` set (provided_signatures s) \<subseteq> K"
    by (auto simp: sound_state_def used_def dest: map_of_SomeD)
  then show "k \<in> K" by force
qed

text \<open>A step that keeps the state sound, forgets no key, and when it says yes has established \<open>Q\<close> for the
  keys used so far.\<close>

definition grants :: "sign_ctx \<Rightarrow> nat set \<Rightarrow> account_id_type set \<Rightarrow> (nat set \<Rightarrow> bool) \<Rightarrow> sign_state \<Rightarrow> bool \<Rightarrow>
    sign_state \<Rightarrow> bool" where
  "grants ctx K A Q s b s' \<longleftrightarrow> sound_state ctx K A s' \<and> used s \<subseteq> used s' \<and> (b \<longrightarrow> Q (used s'))"

lemma grantsI: "sound_state ctx K A s' \<Longrightarrow> used s \<subseteq> used s' \<Longrightarrow> (b \<Longrightarrow> Q (used s')) \<Longrightarrow> grants ctx K A Q s b s'"
  by (simp add: grants_def)

lemma grantsD:
  "grants ctx K A Q s b s' \<Longrightarrow> sound_state ctx K A s'" "grants ctx K A Q s b s' \<Longrightarrow> used s \<subseteq> used s'"
  "grants ctx K A Q s b s' \<Longrightarrow> b \<Longrightarrow> Q (used s')"
  by (simp_all add: grants_def)

text \<open>A weighing loop never counts more than the members of which its test says yes.\<close>

lemma weigh_sound:
  assumes step: "\<And>k s b s'. sound_state ctx K A s \<Longrightarrow> f k s = Inr (b, s') \<Longrightarrow> grants ctx K A (\<lambda>U. Q U k) s b s'"
    and mono: "\<And>k U V. Q U k \<Longrightarrow> U \<subseteq> V \<Longrightarrow> Q V k"
    and "sound_state ctx K A s" "weigh f thr xs total_weight s = Inr (b, total_weight', s')"
  shows "grants ctx K A (\<lambda>_. thr \<le> total_weight') s b s' \<and> total_weight' \<le> total_weight + wsum (Q (used s')) xs"
  using assms(3,4)
proof (induction xs arbitrary: total_weight s)
  case (Cons p xs)
  obtain k w where p: "p = (k, w)" by force
  from Cons.prems(2) obtain c s1 where f: "f k s = Inr (c, s1)" by (auto simp: p)
  note st = step[OF Cons.prems(1) f]
  show ?case
  proof (cases "c \<and> thr \<le> (total_weight + w) mod 2 ^ 32")
    case True
    have "(total_weight + w) mod 2 ^ 32 \<le> total_weight + w" by simp
    with True f Cons.prems(2) grantsD(3)[OF st] grantsD(1,2)[OF st] show ?thesis
      by (auto simp: p Let_def grants_def simp del: mod_less_eq_dividend)
  next
    case False
    define t where "t = (if c then (total_weight + w) mod 2 ^ 32 else total_weight)"
    have rest: "weigh f thr xs t s1 = Inr (b, total_weight', s')"
      using False f Cons.prems(2) by (auto simp: p t_def Let_def split: if_splits)
    note ih = Cons.IH[OF grantsD(1)[OF st] rest]
    have "t \<le> total_weight + (if Q (used s') k then w else 0)"
      using grantsD(3)[OF st] mono[of "used s1" k "used s'"] grantsD(2)[OF conjunct1[OF ih]] by (auto simp: t_def)
    with ih grantsD(2)[OF st] show ?thesis by (auto simp: p grants_def)
  qed
qed (simp add: grants_def)

lemma fold_fm_put_ok: "maps_ok ctx K m \<Longrightarrow> k \<in> K \<Longrightarrow> set adrs \<subseteq> set (addresses_of ctx k) \<Longrightarrow>
    maps_ok ctx K (fold (\<lambda>a. fm_put a k) adrs m)"
proof (induction adrs arbitrary: m)
  case (Cons a adrs)
  have "maps_ok ctx K (fm_put a k m)"
    using Cons.prems set_fm_put[of a k m] by (fastforce simp: maps_ok_def)
  with Cons show ?case by simp
qed simp

lemma address_map_ok: "set ks \<subseteq> K \<Longrightarrow> maps_ok ctx K (address_map (addresses_of ctx) ks)"
proof -
  have "set ks \<subseteq> K \<Longrightarrow> maps_ok ctx K m \<Longrightarrow>
      maps_ok ctx K (fold (\<lambda>k m. fold (\<lambda>a. fm_put a k) (addresses_of ctx k) m) ks m)" for m
    by (induction ks arbitrary: m) (auto intro: fold_fm_put_ok)
  from this[of "[]"] show "set ks \<subseteq> K \<Longrightarrow> ?thesis" by (simp add: address_map_def maps_ok_def)
qed

lemma address_maps_ok: "sound_state ctx K A s \<Longrightarrow> address_maps ctx s = (av, pr) \<Longrightarrow>
    maps_ok ctx K av \<and> maps_ok ctx K pr"
  by (auto simp: address_maps_def sound_state_def image_image intro!: address_map_ok split: option.splits)

lemma maps_okD: "maps_ok ctx K m \<Longrightarrow> map_of m a = Some k \<Longrightarrow> k \<in> K \<and> a \<in> set (addresses_of ctx k)"
  by (auto simp: maps_ok_def dest: map_of_SomeD)

lemma sound_mark_used:
  assumes "sound_state ctx K A s" "k \<in> K"
  shows "sound_state ctx K A (mark_used k s)"
proof -
  have "approved ctx (used (mark_used k s)) A a" if "a \<in> set (approved_by s)" for a
    using assms(1) that by (auto simp: sound_state_def intro: approved_mono)
  then show ?thesis using assms fm_put_sorted[of "provided_signatures s" k True]
    by (auto simp: sound_state_def mark_used_def)
qed

lemma signed_by_sound:
  assumes "sound_state ctx K A s" "signed_by ctx k s = Inr (b, s')"
  shows "grants ctx K A (\<lambda>U. k \<in> U) s b s'"
proof -
  have "k \<in> K" if "map_of (provided_signatures s) k = Some c" for c
    using map_of_SomeD[OF that] assms(1) by (force simp: sound_state_def)
  moreover have "k \<in> set (available_keys ctx) \<Longrightarrow> k \<in> K" using assms(1) by (auto simp: sound_state_def)
  ultimately show ?thesis
    using assms by (auto simp: grants_def signed_by_def sound_mark_used[OF assms(1)]
        split: option.splits if_splits)
qed

lemma signed_by_address_sound:
  assumes "sound_state ctx K A s" "signed_by_address ctx a s = Inr (b, s')"
  shows "grants ctx K A (\<lambda>U. \<exists>k\<in>U. a \<in> set (addresses_of ctx k)) s b s'"
proof -
  obtain av pr where m: "address_maps ctx s = (av, pr)" by force
  note ok = address_maps_ok[OF assms(1) m]
  have s1: "sound_state ctx K A (s\<lparr>address_sigs := Some (av, pr)\<rparr>)"
    using assms(1) ok by (simp add: sound_state_def)
  show ?thesis
    using assms(2) m s1 ok maps_okD[of ctx K pr a] maps_okD[of ctx K av a]
    by (auto simp: grants_def signed_by_address_def intro: sound_mark_used[OF s1] split: option.splits if_splits)
qed

definition grants_authority :: "sign_ctx \<Rightarrow> nat set \<Rightarrow> account_id_type set \<Rightarrow> authority option \<Rightarrow> sign_state \<Rightarrow> bool \<Rightarrow>
    sign_state \<Rightarrow> bool" where
  "grants_authority ctx K A au s b s' \<longleftrightarrow>
     grants ctx K A (\<lambda>U. \<exists>auth. au = Some auth \<and> satisfied ctx U A auth) s b s'"

lemma check_with_sound:
  assumes account: "\<And>a s b s'. sound_state ctx K A s \<Longrightarrow> account a s = Inr (b, s') \<Longrightarrow>
      grants ctx K A (\<lambda>U. approved ctx U A a) s b s'"
    and "sound_state ctx K A s" "check_with ctx account au s = Inr (b, s')"
  shows "grants_authority ctx K A au s b s'"
proof (cases au)
  case None
  then show ?thesis using assms(2,3) by (auto simp: check_with_def grants_authority_def grants_def)
next
  case (Some auth)
  let ?thr = "weight_threshold auth" and ?adr = "\<lambda>U a. \<exists>k\<in>U. a \<in> set (addresses_of ctx k)"
  have sat: "satisfied ctx U A auth"
    if "?thr \<le> wsum (\<lambda>k. k \<in> U) (key_auths auth) + wsum (?adr U) (address_auths auth) + wsum (approved ctx U A) (account_auths auth)" for U
    using that by (intro satisfied_weight[of "Collect (approved ctx U A)"]) (simp_all add: auth_weight_def)
  have grow: "wsum (\<lambda>k. k \<in> U) xs \<le> wsum (\<lambda>k. k \<in> V) xs" "wsum (?adr U) xs \<le> wsum (?adr V) xs" if "U \<subseteq> V" for U V xs
    by (rule wsum_mono, use that in blast)+
  from assms(3) Some obtain e1 t1 s1 where w1: "weigh (signed_by ctx) ?thr (key_auths auth) 0 s = Inr (e1, t1, s1)"
    by (auto simp: check_with_def)
  have r1: "grants ctx K A (\<lambda>_. ?thr \<le> t1) s e1 s1 \<and> t1 \<le> 0 + wsum (\<lambda>k. k \<in> used s1) (key_auths auth)"
    by (rule weigh_sound[where Q = "\<lambda>U k. k \<in> U", OF signed_by_sound _ assms(2) w1]) auto
  show ?thesis
  proof (cases e1)
    case True
    then show ?thesis using assms(3) Some w1 r1 sat[of "used s1"] by (auto simp: check_with_def grants_authority_def grants_def)
  next
    case False
    with assms(3) Some w1 obtain e2 t2 s2 where
      w2: "weigh (signed_by_address ctx) ?thr (address_auths auth) t1 s1 = Inr (e2, t2, s2)"
      by (auto simp: check_with_def)
    have r2: "grants ctx K A (\<lambda>_. ?thr \<le> t2) s1 e2 s2 \<and> t2 \<le> t1 + wsum (?adr (used s2)) (address_auths auth)"
      by (rule weigh_sound[where Q = ?adr, OF signed_by_address_sound _ grantsD(1)[OF conjunct1[OF r1]] w2]) auto
    note g2 = grantsD(2)[OF conjunct1[OF r2]] and g1 = grantsD(2)[OF conjunct1[OF r1]]
    show ?thesis
    proof (cases e2)
      case True
      then have "s' = s2" using assms(3) Some w1 w2 False by (simp add: check_with_def)
      then show ?thesis using True Some r1 r2 sat[of "used s2"] grow(1)[OF g2, of "key_auths auth"]
        by (auto simp: grants_authority_def grants_def)
    next
      case nearly: False
      with assms(3) Some w1 w2 False obtain e3 t3 where
        w3: "weigh account ?thr (account_auths auth) t2 s2 = Inr (e3, t3, s')" and b: "b = (e3 \<or> ?thr \<le> t3)"
        by (auto simp: check_with_def)
      have r3: "grants ctx K A (\<lambda>_. ?thr \<le> t3) s2 e3 s' \<and> t3 \<le> t2 + wsum (approved ctx (used s') A) (account_auths auth)"
        by (rule weigh_sound[where Q = "\<lambda>U a. approved ctx U A a", OF account approved_mono grantsD(1)[OF conjunct1[OF r2]] w3]) auto
      note g3 = grantsD(2)[OF conjunct1[OF r3]]
      have "?thr \<le> t3" if b using that b r3 by (auto simp: grants_def)
      moreover have "wsum (\<lambda>k. k \<in> used s1) (key_auths auth) \<le> wsum (\<lambda>k. k \<in> used s') (key_auths auth)"
        by (rule grow(1)) (use g2 g3 in blast)
      ultimately have "satisfied ctx (used s') A auth" if b
        using that r1 r2 r3 grow(2)[OF g3, of "address_auths auth"] by (intro sat) linarith
      then show ?thesis using Some r3 g1 g2 by (auto simp: grants_authority_def grants_def)
    qed
  qed
qed

lemma check_active_or_owner_sound:
  assumes check: "\<And>au s b s'. sound_state ctx K A s \<Longrightarrow> check au s = Inr (b, s') \<Longrightarrow> grants_authority ctx K A au s b s'"
    and "sound_state ctx K A s" "check_active_or_owner ctx check a s = Inr (b, s')"
  shows "grants ctx K A (\<lambda>U. approved ctx U A a) s b s'"
proof -
  from assms(3) obtain act b1 s1 where act: "get_active ctx a = Inr act" and c1: "check act s = Inr (b1, s1)"
    by (auto simp: check_active_or_owner_def)
  note r1 = check[OF assms(2) c1, unfolded grants_authority_def]
  show ?thesis
  proof (cases "b1 \<or> \<not> allow_non_immediate_owner ctx")
    case True
    then show ?thesis using assms(3) act c1 r1
      by (auto simp: check_active_or_owner_def grants_def intro: approved_active split: if_splits)
  next
    case False
    with assms(3) act c1 obtain own where own: "get_owner ctx a = Inr own" and c2: "check own s1 = Inr (b, s')"
      by (auto simp: check_active_or_owner_def)
    show ?thesis using check[OF grantsD(1)[OF r1] c2] grantsD(2)[OF r1] own False
      by (auto simp: grants_authority_def grants_def intro: approved_owner)
  qed
qed

lemma check_authority_sound:
  assumes "sound_state ctx K A s" "check_authority ctx n au s = Inr (b, s')"
  shows "grants_authority ctx K A au s b s'"
  using assms
proof (induction n arbitrary: au s b s')
  case 0
  show ?case
    by (rule check_with_sound[OF _ 0(1) 0(2)[unfolded check_authority.simps]]) (auto simp: grants_def sound_state_def)
next
  case (Suc n)
  have nested: "grants ctx K A (\<lambda>U. approved ctx U A a) t c t'"
    if t: "sound_state ctx K A t" and run: "nested_account ctx (check_authority ctx n) a t = Inr (c, t')" for a t c t'
  proof (cases "a \<in> set (approved_by t)")
    case True
    then show ?thesis using t run by (auto simp: nested_account_def grants_def sound_state_def)
  next
    case False
    with run obtain t1 where c: "check_active_or_owner ctx (check_authority ctx n) a t = Inr (c, t1)"
      and t': "t' = (if c then t1\<lparr>approved_by := insort_insert a (approved_by t1)\<rparr> else t1)"
      by (auto simp: nested_account_def)
    have "grants ctx K A (\<lambda>U. approved ctx U A a) t c t1"
      by (rule check_active_or_owner_sound[OF _ t c]) (rule Suc.IH)
    then show ?thesis by (auto simp: t' grants_def sound_state_def set_insort_insert)
  qed
  show ?case by (rule check_with_sound[OF nested Suc.prems(1) Suc.prems(2)[unfolded check_authority.simps]])
qed

lemma check_account_sound:
  assumes "sound_state ctx K A s" "check_account ctx a s = Inr (b, s')"
  shows "grants ctx K A (\<lambda>U. approved ctx U A a) s b s'"
proof (cases "a \<in> set (approved_by s)")
  case True
  then show ?thesis using assms by (auto simp: check_account_def grants_def sound_state_def)
next
  case False
  with assms(2) have "check_active_or_owner ctx (check_authority ctx (max_recursion ctx)) a s = Inr (b, s')"
    by (simp add: check_account_def)
  with assms(1) show ?thesis by (intro check_active_or_owner_sound[OF check_authority_sound])
qed

lemma any_authority_sound:
  assumes "sound_state ctx K A s" "any_authority ctx aus s = Inr (b, s')"
  shows "grants ctx K A (\<lambda>U. \<exists>au\<in>set aus. satisfied ctx U A au) s b s'"
  using assms
proof (induction aus arbitrary: s)
  case (Cons au aus)
  then obtain c s1 where c: "check_authority ctx (max_recursion ctx) (Some au) s = Inr (c, s1)" by auto
  from check_authority_sound[OF Cons.prems(1) c] Cons.IH[of s1] Cons.prems(2) c show ?case
    by (auto simp: grants_authority_def grants_def split: if_splits)
qed (simp add: grants_def)

lemma erase_custom_sound:
  assumes "sound_state ctx K A s" "erase_custom ctx custom as s = Inr (rest, s')"
  shows "grants ctx K A (\<lambda>U. \<forall>a\<in>set as. a \<in> set rest \<or> (\<exists>au\<in>set (custom a). satisfied ctx U A au)) s True s'"
  using assms
proof (induction as arbitrary: s rest)
  case (Cons a as)
  then obtain c s1 rest1 where c: "any_authority ctx (custom a) s = Inr (c, s1)"
    and e: "erase_custom ctx custom as s1 = Inr (rest1, s')" and rest: "rest = (if c then rest1 else a # rest1)"
    by auto
  note r = any_authority_sound[OF Cons.prems(1) c]
  note ih = Cons.IH[OF grantsD(1)[OF r] e]
  from ih r rest show ?case by (auto simp: grants_def intro: satisfied_mono)
qed (simp add: grants_def)

definition covers :: "sign_ctx \<Rightarrow> nat set \<Rightarrow> account_id_type set \<Rightarrow> (account_id_type \<Rightarrow> authority list) \<Rightarrow>
    required_auths \<Rightarrow> required_auths \<Rightarrow> bool" where
  "covers ctx K A custom r q \<longleftrightarrow>
     (\<forall>a\<in>set (required_active q). a \<in> set (required_active r) \<or> (\<exists>au\<in>set (custom a). satisfied ctx K A au)) \<and>
     set (required_owner q) \<subseteq> set (required_owner r) \<and> set (required_other q) \<subseteq> set (required_other r)"

lemma covers_mono: "covers ctx K A custom r q \<Longrightarrow> K \<subseteq> L \<Longrightarrow> covers ctx L A custom r q"
  unfolding covers_def by (blast intro: satisfied_mono)

lemma collect_required_sound:
  assumes "sound_state ctx K A s" "collect_required ctx reqs get_custom ops r s = Inr (r', s')"
  shows "set (required_active r) \<subseteq> set (required_active r') \<and>
    set (required_owner r) \<subseteq> set (required_owner r') \<and> set (required_other r) \<subseteq> set (required_other r') \<and>
    grants ctx K A (\<lambda>U. \<forall>op\<in>set ops. covers ctx U A (\<lambda>a. get_custom a op) r' (reqs op)) s True s'"
  using assms
proof (induction ops arbitrary: r s)
  case (Cons op ops)
  let ?r = "\<lambda>acts. \<lparr>required_active = fs_union (required_active r) acts,
      required_owner = fs_union (required_owner r) (required_owner (reqs op)),
      required_other = required_other r @ required_other (reqs op)\<rparr>"
  from Cons.prems(2) obtain acts s1 where
    e: "erase_custom ctx (\<lambda>a. get_custom a op) (fs_union [] (required_active (reqs op))) s = Inr (acts, s1)"
    and c: "collect_required ctx reqs get_custom ops (?r acts) s1 = Inr (r', s')"
    by auto
  note er = erase_custom_sound[OF Cons.prems(1) e]
  from Cons.IH[OF grantsD(1)[OF er] c]
  have ih: "set (required_active r) \<union> set acts \<subseteq> set (required_active r')"
    "set (required_owner r) \<union> set (required_owner (reqs op)) \<subseteq> set (required_owner r')"
    "set (required_other r) \<union> set (required_other (reqs op)) \<subseteq> set (required_other r')"
    and g: "grants ctx K A (\<lambda>U. \<forall>op\<in>set ops. covers ctx U A (\<lambda>a. get_custom a op) r' (reqs op)) s1 True s'" by simp_all
  have "a \<in> set acts \<or> (\<exists>au\<in>set (get_custom a op). satisfied ctx (used s1) A au)"
    if "a \<in> set (required_active (reqs op))" for a
    using grantsD(3)[OF er] that by simp
  with ih have "covers ctx (used s1) A (\<lambda>a. get_custom a op) r' (reqs op)" unfolding covers_def by blast
  from covers_mono[OF this grantsD(2)[OF g]] ih g grantsD(2)[OF er] show ?case by (auto simp: grants_def)
qed (simp add: grants_def)

lemma check_all_sound:
  assumes step: "\<And>x s b s'. sound_state ctx K A s \<Longrightarrow> f x s = Inr (b, s') \<Longrightarrow> grants ctx K A (\<lambda>U. Q U x) s b s'"
    and mono: "\<And>x U V. Q U x \<Longrightarrow> U \<subseteq> V \<Longrightarrow> Q V x"
    and "sound_state ctx K A s" "check_all e f xs s = Inr s'"
  shows "grants ctx K A (\<lambda>U. \<forall>x\<in>set xs. Q U x) s True s'"
  using assms(3,4)
proof (induction xs arbitrary: s)
  case (Cons x xs)
  then obtain s1 where f: "f x s = Inr (True, s1)" and rest: "check_all e f xs s1 = Inr s'" by auto
  note st = step[OF Cons.prems(1) f]
  note ih = Cons.IH[OF grantsD(1)[OF st] rest]
  from mono[of "used s1" x "used s'"] ih st show ?case by (auto simp: grants_def)
qed (simp add: grants_def)

definition owner_satisfied :: "sign_ctx \<Rightarrow> nat set \<Rightarrow> account_id_type set \<Rightarrow> account_id_type \<Rightarrow> bool" where
  "owner_satisfied ctx K A a \<longleftrightarrow> (\<exists>au. get_owner ctx a = Inr (Some au) \<and> satisfied ctx K A au)"

lemma owner_satisfied_mono: "owner_satisfied ctx K A a \<Longrightarrow> K \<subseteq> L \<Longrightarrow> owner_satisfied ctx L A a"
  by (auto simp: owner_satisfied_def intro: satisfied_mono)

lemma check_owner_sound:
  assumes "sound_state ctx K A s" "check_owner ctx owner_approvals a s = Inr (b, s')"
  shows "grants ctx K A (\<lambda>U. a \<in> set owner_approvals \<or> owner_satisfied ctx U A a) s b s'"
proof (cases "a \<in> set owner_approvals")
  case True
  then show ?thesis using assms by (auto simp: check_owner_def grants_def)
next
  case False
  with assms(2) obtain own where o: "get_owner ctx a = Inr own"
    and c: "check_authority ctx (max_recursion ctx) own s = Inr (b, s')" by (auto simp: check_owner_def)
  from check_authority_sound[OF assms(1) c] o show ?thesis
    by (auto simp: grants_authority_def grants_def owner_satisfied_def)
qed

lemma check_active_sound:
  assumes "sound_state ctx K A s" "check_active ctx a s = Inr (b, s')"
  shows "grants ctx K A (\<lambda>U. approved ctx U A a \<or> owner_satisfied ctx U A a) s b s'"
proof -
  from assms(2) obtain c s1 where c: "check_account ctx a s = Inr (c, s1)" by (auto simp: check_active_def)
  note r = check_account_sound[OF assms(1) c]
  show ?thesis
  proof (cases c)
    case True
    then show ?thesis using assms(2) c r by (auto simp: check_active_def grants_def)
  next
    case False
    with assms(2) c obtain own where o: "get_owner ctx a = Inr own"
      and d: "check_authority ctx (max_recursion ctx) own s1 = Inr (b, s')" by (auto simp: check_active_def)
    from check_authority_sound[OF grantsD(1)[OF r] d] grantsD(2)[OF r] o show ?thesis
      by (auto simp: grants_authority_def grants_def owner_satisfied_def)
  qed
qed

lemma init_sign_state_keys: "fst ` set (provided_signatures (init_sign_state sigs)) = set sigs"
proof -
  have "fst ` set (fold (\<lambda>k. fm_put k False) sigs m) = fst ` set m \<union> set sigs" for m
    by (induction sigs arbitrary: m) auto
  then show ?thesis by (simp add: init_sign_state_def)
qed

lemma init_sign_state_sorted: "sorted_wrt (<) (map fst (provided_signatures (init_sign_state sigs)))"
proof -
  have "sorted_wrt (<) (map fst m) \<Longrightarrow> sorted_wrt (<) (map fst (fold (\<lambda>k. fm_put k False) sigs m))" for m :: "(nat \<times> bool) list"
    by (induction sigs arbitrary: m) (simp_all add: fm_put_sorted)
  from this[of "[]"] show ?thesis by (simp add: init_sign_state_def)
qed

abbreviation initial_state :: "nat list \<Rightarrow> account_id_type list \<Rightarrow> account_id_type list \<Rightarrow> sign_state" where
  "initial_state sigs acts owns \<equiv>
     (init_sign_state sigs)\<lparr>approved_by := fs_union (fs_union (approved_by (init_sign_state sigs)) acts) owns\<rparr>"

lemma initial_sound:
  assumes "available_keys ctx = []"
  shows "sound_state ctx (set sigs) (insert GRAPHENE_TEMP_ACCOUNT (set as \<union> set os)) (initial_state sigs as os)"
proof -
  have "address_sigs (init_sign_state sigs) = None" "approved_by (init_sign_state sigs) = [GRAPHENE_TEMP_ACCOUNT]"
    by (simp_all add: init_sign_state_def)
  then show ?thesis using init_sign_state_keys[of sigs] init_sign_state_sorted[of sigs] assms
    by (auto simp: sound_state_def intro: approved_given)
qed

text \<open>The steps of a verification that succeeds.\<close>

lemma verify_authority_steps:
  assumes "verify_authority ctx reqs get_custom allow_committee acts owns ops sigs = Inr ()"
  obtains r s s1 s2 s3 where
    "collect_required ctx reqs get_custom ops \<lparr>required_active = [], required_owner = [], required_other = []\<rparr>
       (initial_state sigs acts owns) = Inr (r, s)"
    "allow_committee \<or> GRAPHENE_COMMITTEE_ACCOUNT \<notin> set (required_active r)"
    "check_all Tx_missing_other_auth (check_other ctx) (required_other r) s = Inr s1"
    "check_all Tx_missing_owner_auth (check_owner ctx owns) (required_owner r) s1 = Inr s2"
    "check_all Tx_missing_active_auth (check_active ctx) (required_active r) s2 = Inr s3"
    "\<forall>p\<in>set (provided_signatures s3). snd p"
  using assms by (auto simp: verify_authority_def remove_unused_signatures_def filter_empty_conv)

text \<open>What an operation requires is given by the keys \<open>K\<close> and the approving accounts.\<close>

definition authorizes :: "sign_ctx \<Rightarrow> ('op \<Rightarrow> required_auths) \<Rightarrow> (account_id_type \<Rightarrow> 'op \<Rightarrow> authority list) \<Rightarrow>
    account_id_type list \<Rightarrow> nat set \<Rightarrow> account_id_type set \<Rightarrow> 'op \<Rightarrow> bool" where
  "authorizes ctx reqs get_custom owns K A op \<longleftrightarrow>
     (\<forall>a\<in>set (required_active (reqs op)). approved ctx K A a \<or> owner_satisfied ctx K A a \<or>
       (\<exists>au\<in>set (get_custom a op). satisfied ctx K A au)) \<and>
     (\<forall>a\<in>set (required_owner (reqs op)). a \<in> set owns \<or> owner_satisfied ctx K A a) \<and>
     (\<forall>au\<in>set (required_other (reqs op)). satisfied ctx K A au)"

lemma authorizes_mono: "authorizes ctx reqs get_custom owns K A op \<Longrightarrow> K \<subseteq> L \<Longrightarrow> authorizes ctx reqs get_custom owns L A op"
  unfolding authorizes_def by (blast intro: approved_mono satisfied_mono owner_satisfied_mono)

text \<open>The keys that the checks marked as used authorize every operation by themselves.\<close>

lemma checks_authorize:
  fixes sigs acts owns
  defines "K \<equiv> set sigs" and "A \<equiv> insert GRAPHENE_TEMP_ACCOUNT (set acts \<union> set owns)"
  assumes "available_keys ctx = []"
    and r: "collect_required ctx reqs get_custom ops \<lparr>required_active = [], required_owner = [], required_other = []\<rparr>
       (initial_state sigs acts owns) = Inr (r, s)"
    and other: "check_all Tx_missing_other_auth (check_other ctx) (required_other r) s = Inr s1"
    and owner: "check_all Tx_missing_owner_auth (check_owner ctx owns) (required_owner r) s1 = Inr s2"
    and active: "check_all Tx_missing_active_auth (check_active ctx) (required_active r) s2 = Inr s3"
  shows "sound_state ctx K A s3" "\<forall>op\<in>set ops. authorizes ctx reqs get_custom owns (used s3) A op \<and>
    covers ctx (used s3) A (\<lambda>a. get_custom a op) r (reqs op)"
proof -
  note c = collect_required_sound[OF initial_sound[OF assms(3)] r, folded K_def A_def, THEN conjunct2, THEN conjunct2, THEN conjunct2]
  have o1: "grants ctx K A (\<lambda>U. \<forall>au\<in>set (required_other r). satisfied ctx U A au) s True s1"
    by (rule check_all_sound[where Q = "\<lambda>U au. satisfied ctx U A au", OF _ satisfied_mono grantsD(1)[OF c] other])
      (auto simp: check_other_def grants_authority_def dest: check_authority_sound)
  have o2: "grants ctx K A (\<lambda>U. \<forall>a\<in>set (required_owner r). a \<in> set owns \<or> owner_satisfied ctx U A a) s1 True s2"
    by (rule check_all_sound[where Q = "\<lambda>U a. a \<in> set owns \<or> owner_satisfied ctx U A a", OF check_owner_sound _ grantsD(1)[OF o1] owner])
      (auto intro: owner_satisfied_mono)
  have o3: "grants ctx K A (\<lambda>U. \<forall>a\<in>set (required_active r). approved ctx U A a \<or> owner_satisfied ctx U A a) s2 True s3"
    by (rule check_all_sound[where Q = "\<lambda>U a. approved ctx U A a \<or> owner_satisfied ctx U A a", OF check_active_sound _ grantsD(1)[OF o2] active])
      (auto intro: owner_satisfied_mono approved_mono)
  show "sound_state ctx K A s3" by (rule grantsD(1)[OF o3])
  have sub: "used s \<subseteq> used s3" "used s1 \<subseteq> used s3" "used s2 \<subseteq> used s3"
    using grantsD(2)[OF o1] grantsD(2)[OF o2] grantsD(2)[OF o3] by auto
  have cov: "covers ctx (used s3) A (\<lambda>a. get_custom a op) r (reqs op)" if "op \<in> set ops" for op
    using grantsD(3)[OF c] that by (auto intro: covers_mono[OF _ sub(1)])
  have sat: "satisfied ctx (used s3) A au" if "au \<in> set (required_other r)" for au
    using grantsD(3)[OF o1] that by (auto intro: satisfied_mono[OF _ sub(2)])
  have own: "a \<in> set owns \<or> owner_satisfied ctx (used s3) A a" if "a \<in> set (required_owner r)" for a
    using grantsD(3)[OF o2] that by (auto intro: owner_satisfied_mono[OF _ sub(3)])
  have act: "approved ctx (used s3) A a \<or> owner_satisfied ctx (used s3) A a" if "a \<in> set (required_active r)" for a
    using grantsD(3)[OF o3] that by simp
  show "\<forall>op\<in>set ops. authorizes ctx reqs get_custom owns (used s3) A op \<and> covers ctx (used s3) A (\<lambda>a. get_custom a op) r (reqs op)"
    using cov sat own act unfolding authorizes_def covers_def by blast
qed

section \<open>Completeness\<close>

text \<open>
  Authorities for which a check cannot fail to return: no addresses, weights that add up within 32
  bits, and members among the accounts \<open>D\<close>, whose authorities can be looked up and are of this kind too.
\<close>

definition plain :: "account_id_type set \<Rightarrow> authority \<Rightarrow> bool" where
  "plain D au \<longleftrightarrow> address_auths au = [] \<and> fst ` set (account_auths au) \<subseteq> D \<and>
     wsum (\<lambda>_. True) (key_auths au) + wsum (\<lambda>_. True) (account_auths au) < 2 ^ 32"

definition closed_ctx :: "sign_ctx \<Rightarrow> account_id_type set \<Rightarrow> bool" where
  "closed_ctx ctx D \<longleftrightarrow> (\<forall>a\<in>D. \<exists>act own. get_active ctx a = Inr (Some act) \<and> plain D act \<and>
     get_owner ctx a = Inr (Some own) \<and> plain D own)"

definition complete_state :: "sign_ctx \<Rightarrow> nat set \<Rightarrow> account_id_type set \<Rightarrow> sign_state \<Rightarrow> bool" where
  "complete_state ctx K A s \<longleftrightarrow>
     fst ` set (provided_signatures s) \<union> set (available_keys ctx) = K \<and> A \<subseteq> set (approved_by s)"

text \<open>A step that returns, keeps \<open>I\<close>, and says yes where \<open>Q\<close> holds.\<close>

definition yields :: "(sign_state \<Rightarrow> bool) \<Rightarrow> bool \<Rightarrow> (bool \<times> sign_state) result \<Rightarrow> bool" where
  "yields I q m \<longleftrightarrow> (\<exists>b s. m = Inr (b, s) \<and> I s \<and> (q \<longrightarrow> b))"

lemma weigh_complete:
  assumes step: "\<And>k s. k \<in> fst ` set xs \<Longrightarrow> I s \<Longrightarrow> yields I (Q k) (f k s)"
    and "I s" "t + wsum (\<lambda>_. True) xs < 2 ^ 32"
  shows "\<exists>b t' s'. weigh f thr xs t s = Inr (b, t', s') \<and> I s' \<and> (b \<or> t + wsum Q xs \<le> t') \<and>
    t' \<le> t + wsum (\<lambda>_. True) xs"
  using assms
proof (induction xs arbitrary: t s)
  case (Cons p xs)
  obtain k w where p: "p = (k, w)" by force
  have "yields I (Q k) (f k s)" by (rule Cons.prems(1)) (use Cons.prems(2) p in auto)
  then obtain b s1 where f: "f k s = Inr (b, s1)" and s1: "I s1" "Q k \<longrightarrow> b" by (auto simp: yields_def)
  have tw: "(t + w) mod 2 ^ 32 = t + w" using Cons.prems(3) p by simp
  have step': "\<And>k s. k \<in> fst ` set xs \<Longrightarrow> I s \<Longrightarrow> yields I (Q k) (f k s)" by (rule Cons.prems(1)) auto
  show ?case
  proof (cases b)
    case True
    have "t + w + wsum (\<lambda>_. True) xs < 2 ^ 32" using Cons.prems(3) p by simp
    from Cons.IH[OF step' s1(1) this] f True s1 tw show ?thesis by (auto simp: p)
  next
    case False
    have "t + wsum (\<lambda>_. True) xs < 2 ^ 32" using Cons.prems(3) p by simp
    from Cons.IH[OF step' s1(1) this] f False s1 show ?thesis by (auto simp: p)
  qed
qed auto

lemma signed_by_complete:
  assumes "complete_state ctx K A s"
  shows "yields (complete_state ctx K A) (k \<in> K) (signed_by ctx k s)"
proof -
  have "complete_state ctx K A (mark_used k s)" if "k \<in> K"
    using assms that by (auto simp: complete_state_def mark_used_def)
  moreover have "k \<in> fst ` set (provided_signatures s)" if "map_of (provided_signatures s) k = Some c" for c
    using map_of_SomeD[OF that] by force
  ultimately show ?thesis
    using assms by (auto simp: yields_def signed_by_def complete_state_def map_of_eq_None_iff split: option.split)
qed

lemma check_with_complete:
  assumes account: "\<And>a s. a \<in> D \<Longrightarrow> complete_state ctx K A s \<Longrightarrow>
      yields (complete_state ctx K A) (a \<in> S) (account a s)"
    and "complete_state ctx K A s" "plain D auth"
  shows "yields (complete_state ctx K A) (weight_threshold auth \<le> auth_weight ctx K S auth)
    (check_with ctx account (Some auth) s)"
proof -
  let ?I = "complete_state ctx K A" and ?thr = "weight_threshold auth"
  have member: "\<And>a s. a \<in> fst ` set (account_auths auth) \<Longrightarrow> ?I s \<Longrightarrow> yields ?I (a \<in> S) (account a s)"
    by (rule account) (use assms(3) in \<open>auto simp: plain_def\<close>)
  have small: "0 + wsum (\<lambda>_. True) (key_auths auth) < 2 ^ 32" using assms(3) by (simp add: plain_def)
  from weigh_complete[where I = ?I and Q = "\<lambda>k. k \<in> K" and f = "signed_by ctx" and thr = ?thr, OF signed_by_complete assms(2) small]
  obtain e1 t1 s1 where w1: "weigh (signed_by ctx) ?thr (key_auths auth) 0 s = Inr (e1, t1, s1)" and s1: "?I s1"
    and t1: "e1 \<or> wsum (\<lambda>k. k \<in> K) (key_auths auth) \<le> t1" "t1 \<le> wsum (\<lambda>_. True) (key_auths auth)" by auto
  have "t1 + wsum (\<lambda>_. True) (account_auths auth) < 2 ^ 32" using assms(3) t1(2) by (simp add: plain_def)
  from weigh_complete[where I = ?I and Q = "\<lambda>a. a \<in> S" and f = account and thr = ?thr, OF member s1 this]
  obtain e3 t3 s3 where w3: "weigh account ?thr (account_auths auth) t1 s1 = Inr (e3, t3, s3)" and s3: "?I s3"
    and t3: "e3 \<or> t1 + wsum (\<lambda>a. a \<in> S) (account_auths auth) \<le> t3" by auto
  have "address_auths auth = []" using assms(3) by (simp add: plain_def)
  with w1 w3 s1 s3 t1 t3 show ?thesis
    by (auto simp: yields_def check_with_def auth_weight_def)
qed

lemma check_active_or_owner_complete:
  assumes check: "\<And>au s. plain D au \<Longrightarrow> complete_state ctx K A s \<Longrightarrow>
      yields (complete_state ctx K A) (sat au) (check (Some au) s)"
    and "closed_ctx ctx D" "a \<in> D" "complete_state ctx K A s"
  shows "yields (complete_state ctx K A) (approved_by_level ctx sat a) (check_active_or_owner ctx check a s)"
proof -
  from assms(2,3) obtain act own where act: "get_active ctx a = Inr (Some act)" "plain D act"
    and own: "get_owner ctx a = Inr (Some own)" "plain D own" by (auto simp: closed_ctx_def)
  from check[OF act(2) assms(4)] obtain b s1 where c: "check (Some act) s = Inr (b, s1)"
    and s1: "complete_state ctx K A s1" "sat act \<longrightarrow> b" by (auto simp: yields_def)
  from check[OF own(2) s1(1)] act own c s1 show ?thesis
    by (auto simp: yields_def check_active_or_owner_def approved_by_level_def)
qed

lemma check_authority_complete:
  assumes "closed_ctx ctx D"
  shows "complete_state ctx K A s \<Longrightarrow> plain D au \<Longrightarrow>
    yields (complete_state ctx K A) (satisfied_within ctx K A n au) (check_authority ctx n (Some au) s)"
proof (induction n arbitrary: au s)
  case 0
  have "yields (complete_state ctx K A) (a \<in> A) (Inr (a \<in> set (approved_by t), t))"
    if "complete_state ctx K A t" for a t
    using that by (auto simp: yields_def complete_state_def)
  from check_with_complete[OF this 0] show ?case by simp
next
  case (Suc n)
  let ?S = "A \<union> {a. approved_by_level ctx (satisfied_within ctx K A n) a}"
  have nested: "yields (complete_state ctx K A) (a \<in> ?S) (nested_account ctx (check_authority ctx n) a t)"
    if a: "a \<in> D" and t: "complete_state ctx K A t" for a t
  proof (cases "a \<in> set (approved_by t)")
    case True
    then show ?thesis using t by (auto simp: yields_def nested_account_def)
  next
    case False
    with t have A: "a \<notin> A" by (auto simp: complete_state_def)
    from check_active_or_owner_complete[where sat = "satisfied_within ctx K A n" and check = "check_authority ctx n",
        OF Suc.IH assms a t]
    obtain b t1 where b: "check_active_or_owner ctx (check_authority ctx n) a t = Inr (b, t1)"
      and t1: "complete_state ctx K A t1" "approved_by_level ctx (satisfied_within ctx K A n) a \<longrightarrow> b"
      by (auto simp: yields_def)
    have "complete_state ctx K A (t1\<lparr>approved_by := insort_insert a (approved_by t1)\<rparr>)"
      using t1(1) by (auto simp: complete_state_def set_insort_insert)
    with False A b t1 show ?thesis by (simp add: yields_def nested_account_def)
  qed
  show ?case using check_with_complete[OF nested Suc.prems] by simp
qed

text \<open>The loops over accounts and authorities return, and say yes where the members do.\<close>

lemma any_authority_complete:
  assumes "closed_ctx ctx D" "complete_state ctx K A s" "\<forall>au\<in>set aus. plain D au"
  shows "yields (complete_state ctx K A) (\<exists>au\<in>set aus. satisfied_within ctx K A (max_recursion ctx) au) (any_authority ctx aus s)"
  using assms(2,3)
proof (induction aus arbitrary: s)
  case (Cons au aus)
  then obtain b s1 where "check_authority ctx (max_recursion ctx) (Some au) s = Inr (b, s1)" "complete_state ctx K A s1"
    "satisfied_within ctx K A (max_recursion ctx) au \<longrightarrow> b"
    using check_authority_complete[OF assms(1) Cons.prems(1), of au "max_recursion ctx"] by (auto simp: yields_def)
  with Cons.IH[of s1] Cons.prems(2) show ?case by (auto simp: yields_def)
qed (auto simp: yields_def)

text \<open>The accounts that are left to check: no custom authority speaks for them.\<close>

definition custom_within :: "sign_ctx \<Rightarrow> nat set \<Rightarrow> account_id_type set \<Rightarrow> authority list \<Rightarrow> bool" where
  "custom_within ctx K A aus \<longleftrightarrow> (\<exists>au\<in>set aus. satisfied_within ctx K A (max_recursion ctx) au)"

lemma erase_custom_complete:
  assumes "closed_ctx ctx D" "complete_state ctx K A s" "\<forall>a. \<forall>au\<in>set (custom a). plain D au"
  shows "\<exists>rest s'. erase_custom ctx custom as s = Inr (rest, s') \<and> complete_state ctx K A s' \<and>
    set rest \<subseteq> {a \<in> set as. \<not> custom_within ctx K A (custom a)}"
  using assms(2)
proof (induction as arbitrary: s)
  case (Cons a as)
  then obtain b s1 where b: "any_authority ctx (custom a) s = Inr (b, s1)" "complete_state ctx K A s1"
    and no: "custom_within ctx K A (custom a) \<longrightarrow> b"
    using any_authority_complete[OF assms(1) Cons.prems, of "custom a"] assms(3) by (auto simp: yields_def custom_within_def)
  from Cons.IH[OF b(2)] b(1) no show ?case by (cases b) auto
qed simp

lemma collect_required_complete:
  assumes "closed_ctx ctx D" "complete_state ctx K A s" "\<forall>a op. \<forall>au\<in>set (get_custom a op). plain D au"
  shows "\<exists>r' s'. collect_required ctx reqs get_custom ops r s = Inr (r', s') \<and> complete_state ctx K A s' \<and>
    set (required_active r') \<subseteq> set (required_active r) \<union>
      (\<Union>op\<in>set ops. {a \<in> set (required_active (reqs op)). \<not> custom_within ctx K A (get_custom a op)}) \<and>
    set (required_owner r') = set (required_owner r) \<union> (\<Union>op\<in>set ops. set (required_owner (reqs op))) \<and>
    set (required_other r') = set (required_other r) \<union> (\<Union>op\<in>set ops. set (required_other (reqs op)))"
  using assms(2)
proof (induction ops arbitrary: r s)
  case (Cons op ops)
  let ?left = "\<lambda>op. {a \<in> set (required_active (reqs op)). \<not> custom_within ctx K A (get_custom a op)}"
  from assms(3) have "\<forall>a. \<forall>au\<in>set (get_custom a op). plain D au" by blast
  from erase_custom_complete[OF assms(1) Cons.prems this, of "fs_union [] (required_active (reqs op))"]
  obtain acts s1 where e: "erase_custom ctx (\<lambda>a. get_custom a op) (fs_union [] (required_active (reqs op))) s = Inr (acts, s1)"
    and s1: "complete_state ctx K A s1" and acts: "set acts \<subseteq> ?left op" by auto
  define r1 where "r1 = \<lparr>required_active = fs_union (required_active r) acts,
      required_owner = fs_union (required_owner r) (required_owner (reqs op)),
      required_other = required_other r @ required_other (reqs op)\<rparr>"
  from Cons.IH[OF s1, of r1] obtain r' s' where
    c: "collect_required ctx reqs get_custom ops r1 s1 = Inr (r', s')" "complete_state ctx K A s'"
    and sets: "set (required_active r') \<subseteq> set (required_active r1) \<union> (\<Union>op\<in>set ops. ?left op)"
      "set (required_owner r') = set (required_owner r1) \<union> (\<Union>op\<in>set ops. set (required_owner (reqs op)))"
      "set (required_other r') = set (required_other r1) \<union> (\<Union>op\<in>set ops. set (required_other (reqs op)))" by blast
  have run: "collect_required ctx reqs get_custom (op # ops) r s = Inr (r', s')" using e c(1) by (simp add: r1_def)
  have "set (required_active r') \<subseteq> set (required_active r) \<union> (\<Union>op\<in>set (op # ops). ?left op)"
    using sets(1) acts by (auto simp: r1_def)
  moreover have "set (required_owner r') = set (required_owner r) \<union> (\<Union>op\<in>set (op # ops). set (required_owner (reqs op)))"
    using sets(2) by (simp add: r1_def Un_assoc)
  moreover have "set (required_other r') = set (required_other r) \<union> (\<Union>op\<in>set (op # ops). set (required_other (reqs op)))"
    using sets(3) by (simp add: r1_def Un_assoc)
  ultimately show ?case using run c(2) by blast
qed simp

lemma check_all_complete:
  assumes "\<And>x s. x \<in> set xs \<Longrightarrow> I s \<Longrightarrow> yields I True (f x s)" "I s"
  shows "\<exists>s'. check_all e f xs s = Inr s' \<and> I s'"
  using assms
proof (induction xs arbitrary: s)
  case (Cons x xs)
  have "yields I True (f x s)" by (rule Cons.prems(1)) (use Cons.prems(2) in auto)
  then obtain s1 where f: "f x s = Inr (True, s1)" and s1: "I s1" by (auto simp: yields_def)
  have "\<exists>s'. check_all e f xs s1 = Inr s' \<and> I s'" by (rule Cons.IH[OF Cons.prems(1) s1]) auto
  with f show ?case by simp
qed simp

lemma initial_complete:
  assumes "available_keys ctx = []"
  shows "complete_state ctx (set sigs) (insert GRAPHENE_TEMP_ACCOUNT (set as \<union> set os)) (initial_state sigs as os)"
  using init_sign_state_keys[of sigs] assms by (auto simp: complete_state_def init_sign_state_def)

definition owner_within :: "sign_ctx \<Rightarrow> nat set \<Rightarrow> account_id_type set \<Rightarrow> account_id_type \<Rightarrow> bool" where
  "owner_within ctx K A a \<longleftrightarrow>
     (\<exists>au. get_owner ctx a = Inr (Some au) \<and> satisfied_within ctx K A (max_recursion ctx) au)"

definition active_within :: "sign_ctx \<Rightarrow> nat set \<Rightarrow> account_id_type set \<Rightarrow> account_id_type \<Rightarrow> bool" where
  "active_within ctx K A a \<longleftrightarrow>
     a \<in> A \<or> approved_by_level ctx (satisfied_within ctx K A (max_recursion ctx)) a \<or> owner_within ctx K A a"

lemma owner_lookup_complete:
  assumes "closed_ctx ctx D" "a \<in> D" "complete_state ctx K A s" "owner_within ctx K A a"
  shows "yields (complete_state ctx K A) True
    (bnd (get_owner ctx a) (\<lambda>own. check_authority ctx (max_recursion ctx) own s))"
proof -
  from assms(1,2,4) obtain au where "get_owner ctx a = Inr (Some au)" "plain D au"
    "satisfied_within ctx K A (max_recursion ctx) au" by (auto simp: owner_within_def closed_ctx_def)
  with check_authority_complete[OF assms(1,3), of au "max_recursion ctx"] show ?thesis by (simp add: yields_def)
qed

lemma check_account_complete:
  assumes "closed_ctx ctx D" "a \<in> D" "complete_state ctx K A s"
  shows "yields (complete_state ctx K A)
    (a \<in> A \<or> approved_by_level ctx (satisfied_within ctx K A (max_recursion ctx)) a) (check_account ctx a s)"
proof (cases "a \<in> set (approved_by s)")
  case True
  then show ?thesis using assms(3) by (auto simp: yields_def check_account_def)
next
  case False
  with assms(3) have A: "a \<notin> A" by (auto simp: complete_state_def)
  have "yields (complete_state ctx K A) (approved_by_level ctx (satisfied_within ctx K A (max_recursion ctx)) a)
      (check_active_or_owner ctx (check_authority ctx (max_recursion ctx)) a s)"
    by (rule check_active_or_owner_complete[OF _ assms]) (rule check_authority_complete[OF assms(1)])
  with False A show ?thesis by (simp add: check_account_def)
qed

lemma check_active_complete:
  assumes "closed_ctx ctx D" "a \<in> D" "complete_state ctx K A s" "active_within ctx K A a"
  shows "yields (complete_state ctx K A) True (check_active ctx a s)"
proof -
  from check_account_complete[OF assms(1-3)] obtain b s1 where c: "check_account ctx a s = Inr (b, s1)"
    and s1: "complete_state ctx K A s1"
    and b: "a \<in> A \<or> approved_by_level ctx (satisfied_within ctx K A (max_recursion ctx)) a \<longrightarrow> b"
    by (auto simp: yields_def)
  show ?thesis
  proof (cases b)
    case True
    then show ?thesis using c s1 by (auto simp: check_active_def yields_def)
  next
    case False
    with b assms(4) have "owner_within ctx K A a" by (auto simp: active_within_def)
    from owner_lookup_complete[OF assms(1,2) s1 this] c False show ?thesis by (simp add: check_active_def)
  qed
qed

lemma verify_authority_parts:
  fixes sigs acts owns
  defines "K \<equiv> set sigs" and "A \<equiv> insert GRAPHENE_TEMP_ACCOUNT (set acts \<union> set owns)"
  assumes "available_keys ctx = []"
    and "verify_authority ctx reqs get_custom allow_committee acts owns ops sigs = Inr ()" "op \<in> set ops"
  shows "(\<forall>a\<in>set (required_active (reqs op)). approved ctx K A a \<or> owner_satisfied ctx K A a \<or>
      (\<exists>au\<in>set (get_custom a op). satisfied ctx K A au)) \<and>
    (\<forall>a\<in>set (required_owner (reqs op)). a \<in> set owns \<or> owner_satisfied ctx K A a) \<and>
    (\<forall>au\<in>set (required_other (reqs op)). satisfied ctx K A au) \<and>
    (GRAPHENE_COMMITTEE_ACCOUNT \<in> set (required_active (reqs op)) \<longrightarrow> allow_committee \<or>
      (\<exists>au\<in>set (get_custom GRAPHENE_COMMITTEE_ACCOUNT op). satisfied ctx K A au))"
proof -
  obtain r s s1 s2 s3 where
    r: "collect_required ctx reqs get_custom ops \<lparr>required_active = [], required_owner = [], required_other = []\<rparr>
       (initial_state sigs acts owns) = Inr (r, s)"
    and committee: "allow_committee \<or> GRAPHENE_COMMITTEE_ACCOUNT \<notin> set (required_active r)"
    and checks: "check_all Tx_missing_other_auth (check_other ctx) (required_other r) s = Inr s1"
      "check_all Tx_missing_owner_auth (check_owner ctx owns) (required_owner r) s1 = Inr s2"
      "check_all Tx_missing_active_auth (check_active ctx) (required_active r) s2 = Inr s3"
    by (rule verify_authority_steps[OF assms(4)])
  note ch = checks_authorize[OF assms(3) r checks, folded K_def A_def]
  note sub = used_subset[OF ch(1)]
  have "authorizes ctx reqs get_custom owns K A op" "covers ctx K A (\<lambda>a. get_custom a op) r (reqs op)"
    using ch(2) assms(5) by (auto intro: authorizes_mono[OF _ sub] covers_mono[OF _ sub])
  then show ?thesis using committee unfolding authorizes_def covers_def by blast
qed

text \<open>The checks of a verification succeed when everything required is given within the depth.\<close>

lemma verify_checks_complete:
  fixes sigs acts owns
  defines "K \<equiv> set sigs" and "A \<equiv> insert GRAPHENE_TEMP_ACCOUNT (set acts \<union> set owns)"
  assumes "available_keys ctx = []" and "closed_ctx ctx D" "\<forall>a op. \<forall>au\<in>set (get_custom a op). plain D au"
    and "\<forall>op\<in>set ops. (\<forall>a\<in>set (required_active (reqs op)). a \<in> D \<and> active_within ctx K A a \<or>
        custom_within ctx K A (get_custom a op)) \<and>
      (\<forall>a\<in>set (required_owner (reqs op)). a \<in> set owns \<or> a \<in> D \<and> owner_within ctx K A a) \<and>
      (\<forall>au\<in>set (required_other (reqs op)). plain D au \<and> satisfied_within ctx K A (max_recursion ctx) au)"
  shows "\<exists>r s s1 s2 s3. collect_required ctx reqs get_custom ops \<lparr>required_active = [], required_owner = [], required_other = []\<rparr>
       (initial_state sigs acts owns) = Inr (r, s) \<and>
     set (required_active r) \<subseteq> (\<Union>op\<in>set ops. {a \<in> set (required_active (reqs op)). \<not> custom_within ctx K A (get_custom a op)}) \<and>
     check_all Tx_missing_other_auth (check_other ctx) (required_other r) s = Inr s1 \<and>
     check_all Tx_missing_owner_auth (check_owner ctx owns) (required_owner r) s1 = Inr s2 \<and>
     check_all Tx_missing_active_auth (check_active ctx) (required_active r) s2 = Inr s3"
proof -
  let ?I = "complete_state ctx K A"
  from collect_required_complete[OF assms(4) initial_complete[OF assms(3), of sigs acts owns] assms(5), of reqs ops
      "\<lparr>required_active = [], required_owner = [], required_other = []\<rparr>"]
  obtain r s where
    r: "collect_required ctx reqs get_custom ops \<lparr>required_active = [], required_owner = [], required_other = []\<rparr>
       (initial_state sigs acts owns) = Inr (r, s)" and s: "?I s"
    and act: "set (required_active r) \<subseteq> (\<Union>op\<in>set ops. {a \<in> set (required_active (reqs op)). \<not> custom_within ctx K A (get_custom a op)})"
    and own: "set (required_owner r) = (\<Union>op\<in>set ops. set (required_owner (reqs op)))"
    and oth: "set (required_other r) = (\<Union>op\<in>set ops. set (required_other (reqs op)))"
    by (auto simp: K_def A_def)
  have "\<exists>s1. check_all Tx_missing_other_auth (check_other ctx) (required_other r) s = Inr s1 \<and> ?I s1"
  proof (rule check_all_complete[where I = ?I, OF _ s])
    fix au t assume "au \<in> set (required_other r)" "?I t"
    with check_authority_complete[OF assms(4), of K A t au "max_recursion ctx"] assms(6) oth
    show "yields ?I True (check_other ctx au t)" by (auto simp: check_other_def)
  qed
  then obtain s1 where o1: "check_all Tx_missing_other_auth (check_other ctx) (required_other r) s = Inr s1"
    and s1: "?I s1" by blast
  have "\<exists>s2. check_all Tx_missing_owner_auth (check_owner ctx owns) (required_owner r) s1 = Inr s2 \<and> ?I s2"
  proof (rule check_all_complete[where I = ?I, OF _ s1])
    fix a t assume "a \<in> set (required_owner r)" "?I t"
    moreover have "a \<in> set owns \<or> a \<in> D \<and> owner_within ctx K A a"
      using \<open>a \<in> set (required_owner r)\<close> assms(6) own by blast
    ultimately show "yields ?I True (check_owner ctx owns a t)"
      using owner_lookup_complete[OF assms(4), of a K A t]
      by (cases "a \<in> set owns") (auto simp: check_owner_def yields_def)
  qed
  then obtain s2 where o2: "check_all Tx_missing_owner_auth (check_owner ctx owns) (required_owner r) s1 = Inr s2"
    and s2: "?I s2" by blast
  have "\<exists>s3. check_all Tx_missing_active_auth (check_active ctx) (required_active r) s2 = Inr s3 \<and> ?I s3"
  proof (rule check_all_complete[where I = ?I, OF _ s2])
    fix a t assume a: "a \<in> set (required_active r)" and t: "?I t"
    from a act assms(6) have "a \<in> D" "active_within ctx K A a" by blast+
    from check_active_complete[OF assms(4) this(1) t this(2)] show "yields ?I True (check_active ctx a t)" .
  qed
  then show ?thesis using r act o1 o2 by blast
qed

text \<open>A signature that was not used is not among the keys the checks rely on.\<close>

lemma unused_signature:
  assumes "sound_state ctx K A s" "fst (remove_unused_signatures s)"
  shows "\<exists>k\<in>K. used s \<subseteq> K - {k}"
proof -
  from assms(2) obtain k where k: "(k, False) \<in> set (provided_signatures s)"
    by (auto simp: remove_unused_signatures_def filter_empty_conv)
  have "distinct (map fst (provided_signatures s))"
    using assms(1) by (simp add: sound_state_def strict_sorted_iff)
  from map_of_is_SomeI[OF this k] have "k \<notin> used s" unfolding used_def mem_Collect_eq by simp
  moreover have "k \<in> K" using assms(1) k by (force simp: sound_state_def)
  ultimately show ?thesis using used_subset[OF assms(1)] by blast
qed

section \<open>Properties\<close>

text \<open>
  C3: \<open>verify_authority\<close> accepts only what is authorized: when it returns, every account an operation
  requires to be active is approved through the given approvals and the signing keys (through a chain of
  active and, where allowed, owner authorities whose weights reach their thresholds), has its owner
  authority satisfied, or has a viable custom authority satisfied; every account required as owner gave
  its owner approval or has its owner authority satisfied; every other required authority is satisfied;
  and the committee account is required only where that is allowed or a custom authority speaks for it.
\<close>

theorem verify_authority_sound:
  fixes sigs acts owns
  defines "K \<equiv> set sigs" and "A \<equiv> insert GRAPHENE_TEMP_ACCOUNT (set acts \<union> set owns)"
  assumes "available_keys ctx = []"
    and "verify_authority ctx reqs get_custom allow_committee acts owns ops sigs = Inr ()" "op \<in> set ops"
  shows "(\<forall>a\<in>set (required_active (reqs op)). approved ctx K A a \<or> owner_satisfied ctx K A a \<or>
      (\<exists>au\<in>set (get_custom a op). satisfied ctx K A au)) \<and>
    (\<forall>a\<in>set (required_owner (reqs op)). a \<in> set owns \<or> owner_satisfied ctx K A a) \<and>
    (\<forall>au\<in>set (required_other (reqs op)). satisfied ctx K A au) \<and>
    (GRAPHENE_COMMITTEE_ACCOUNT \<in> set (required_active (reqs op)) \<longrightarrow> allow_committee \<or>
      (\<exists>au\<in>set (get_custom GRAPHENE_COMMITTEE_ACCOUNT op). satisfied ctx K A au))"
  unfolding K_def A_def by (rule verify_authority_parts[OF assms(3-5)])

text \<open>
  C39: \<open>verify_authority\<close> does not refuse what is authorized. Let the authorities it may consult have no
  addresses, weights within 32 bits and members that exist, and let what every operation requires be given with
  at most \<open>max_recursion\<close> levels of nesting: each active account is approved or has a satisfied custom authority,
  each owner account gave its owner approval or has its owner authority satisfied, each other authority is
  satisfied. Then \<open>verify_authority\<close> accepts, unless one of two things is the case: an operation requires the
  committee account where that is not allowed and no custom authority of the committee account is satisfied; or
  a signature is superfluous, that is, without it the other signatures authorize every operation already.
\<close>

theorem verify_authority_complete:
  fixes sigs acts owns
  defines "K \<equiv> set sigs" and "A \<equiv> insert GRAPHENE_TEMP_ACCOUNT (set acts \<union> set owns)"
  assumes "available_keys ctx = []" and "closed_ctx ctx D" "\<forall>a op. \<forall>au\<in>set (get_custom a op). plain D au"
    and "\<forall>op\<in>set ops. (\<forall>a\<in>set (required_active (reqs op)). a \<in> D \<and> active_within ctx K A a \<or>
        custom_within ctx K A (get_custom a op)) \<and>
      (\<forall>a\<in>set (required_owner (reqs op)). a \<in> set owns \<or> a \<in> D \<and> owner_within ctx K A a) \<and>
      (\<forall>au\<in>set (required_other (reqs op)). plain D au \<and> satisfied_within ctx K A (max_recursion ctx) au)"
  shows "verify_authority ctx reqs get_custom allow_committee acts owns ops sigs = Inr () \<or>
    verify_authority ctx reqs get_custom allow_committee acts owns ops sigs = Inl Invalid_committee_approval \<and>
      \<not> allow_committee \<and> (\<exists>op\<in>set ops. GRAPHENE_COMMITTEE_ACCOUNT \<in> set (required_active (reqs op)) \<and>
        \<not> custom_within ctx K A (get_custom GRAPHENE_COMMITTEE_ACCOUNT op)) \<or>
    verify_authority ctx reqs get_custom allow_committee acts owns ops sigs = Inl Tx_irrelevant_sig \<and>
      (\<exists>k\<in>set sigs. \<forall>op\<in>set ops. authorizes ctx reqs get_custom owns (K - {k}) A op)"
proof -
  obtain r s s1 s2 s3 where
    r: "collect_required ctx reqs get_custom ops \<lparr>required_active = [], required_owner = [], required_other = []\<rparr>
       (initial_state sigs acts owns) = Inr (r, s)"
    and act: "set (required_active r) \<subseteq> (\<Union>op\<in>set ops. {a \<in> set (required_active (reqs op)). \<not> custom_within ctx K A (get_custom a op)})"
    and checks: "check_all Tx_missing_other_auth (check_other ctx) (required_other r) s = Inr s1"
      "check_all Tx_missing_owner_auth (check_owner ctx owns) (required_owner r) s1 = Inr s2"
      "check_all Tx_missing_active_auth (check_active ctx) (required_active r) s2 = Inr s3"
    using verify_checks_complete[OF assms(3-6)[unfolded K_def A_def]] unfolding K_def A_def by blast
  note ch = checks_authorize[OF assms(3) r checks, folded K_def A_def]
  show ?thesis
  proof (cases "allow_committee \<or> GRAPHENE_COMMITTEE_ACCOUNT \<notin> set (required_active r)")
    case True
    then have ver: "verify_authority ctx reqs get_custom allow_committee acts owns ops sigs =
        ensure Tx_irrelevant_sig (\<not> fst (remove_unused_signatures s3)) (Inr ())"
      unfolding verify_authority_def Let_def r bnd_Inr split_conv checks by (simp add: ensure_def)
    have "\<exists>k\<in>set sigs. \<forall>op\<in>set ops. authorizes ctx reqs get_custom owns (K - {k}) A op" if "fst (remove_unused_signatures s3)"
      using unused_signature[OF ch(1) that] ch(2) unfolding K_def by (blast intro: authorizes_mono)
    then show ?thesis using ver by (auto simp: ensure_def)
  next
    case False
    then have "verify_authority ctx reqs get_custom allow_committee acts owns ops sigs = Inl Invalid_committee_approval"
      unfolding verify_authority_def Let_def r bnd_Inr split_conv by (simp add: ensure_def)
    then show ?thesis using False act by blast
  qed
qed

text \<open>Account 7 is controlled by two of the three keys 1, 2, 3; account 8 by account 7.\<close>

definition multisig :: authority where
  "multisig = \<lparr>weight_threshold = 2, account_auths = [], key_auths = [(1, 1), (2, 1), (3, 1)],
     address_auths = []\<rparr>"

definition delegated :: authority where
  "delegated = \<lparr>weight_threshold = 1, account_auths = [(7, 1)], key_auths = [], address_auths = []\<rparr>"

definition sample_ctx :: sign_ctx where
  "sample_ctx = \<lparr>get_active = (\<lambda>a. if a = 7 then Inr (Some multisig) else if a = 8 then Inr (Some delegated)
       else Inl Fc_exception),
     get_owner = (\<lambda>a. if a = 7 then Inr (Some multisig) else if a = 8 then Inr (Some delegated)
       else Inl Fc_exception),
     allow_non_immediate_owner = True, max_recursion = 1, available_keys = [], addresses_of = (\<lambda>k. [k])\<rparr>"

definition sample_reqs :: "nat \<Rightarrow> required_auths" where
  "sample_reqs a = \<lparr>required_active = [a], required_owner = [], required_other = []\<rparr>"

lemmas authority_eval = verify_authority_def init_sign_state_def fs_union_def check_active_def check_account_def
  check_active_or_owner_def nested_account_def check_with_def signed_by_def mark_used_def
  remove_unused_signatures_def insort_insert_key_def account_constants
  sample_ctx_def sample_reqs_def multisig_def delegated_def

theorem verify_authority_sound_witness:
  "approved sample_ctx {1, 3} {GRAPHENE_TEMP_ACCOUNT} 8 \<or> owner_satisfied sample_ctx {1, 3} {GRAPHENE_TEMP_ACCOUNT} 8"
proof -
  have run: "verify_authority sample_ctx sample_reqs (\<lambda>_ _. []) False [] [] [8] [1, 3] = Inr ()"
    by (simp add: authority_eval del: bnd_eq_Inr_iff ensure_eq_Inr_iff cong: eval_congs)
  have "available_keys sample_ctx = []" by (simp add: sample_ctx_def)
  from verify_authority_sound[OF this run, of 8] show ?thesis by (simp add: sample_reqs_def insert_commute)
qed

text \<open>One key alone approves neither of the accounts.\<close>

lemma single_key_unapproved:
  "approved sample_ctx {k} {GRAPHENE_TEMP_ACCOUNT} a \<Longrightarrow> a \<noteq> 7 \<and> a \<noteq> 8"
  "satisfied sample_ctx {k} {GRAPHENE_TEMP_ACCOUNT} au \<Longrightarrow> au \<noteq> multisig \<and> au \<noteq> delegated"
proof (induction rule: approved_satisfied.inducts)
  case (satisfied_weight S au)
  have "auth_weight sample_ctx {k} S multisig \<le> 1" by (simp add: auth_weight_def multisig_def)
  moreover have "auth_weight sample_ctx {k} S delegated = 0"
    using satisfied_weight(1) by (auto simp: auth_weight_def delegated_def)
  moreover have "weight_threshold multisig = 2" "weight_threshold delegated = 1" by (simp_all add: multisig_def delegated_def)
  ultimately show ?case using satisfied_weight(2) by auto
qed (auto simp: sample_ctx_def account_constants split: if_splits)

theorem verify_authority_complete_witness:
  "verify_authority sample_ctx sample_reqs (\<lambda>_ _. []) False [] [] [8] [1, 3] = Inr ()"
proof -
  have "\<forall>op\<in>set [8]. (\<forall>a\<in>set (required_active (sample_reqs op)). a \<in> {7, 8} \<and>
        active_within sample_ctx (set [1, 3]) (insert GRAPHENE_TEMP_ACCOUNT (set [] \<union> set [])) a \<or>
        custom_within sample_ctx (set [1, 3]) (insert GRAPHENE_TEMP_ACCOUNT (set [] \<union> set [])) []) \<and>
      (\<forall>a\<in>set (required_owner (sample_reqs op)). a \<in> set [] \<or> a \<in> {7, 8} \<and>
        owner_within sample_ctx (set [1, 3]) (insert GRAPHENE_TEMP_ACCOUNT (set [] \<union> set [])) a) \<and>
      (\<forall>au\<in>set (required_other (sample_reqs op)). plain {7, 8} au \<and> satisfied_within sample_ctx
        (set [1, 3]) (insert GRAPHENE_TEMP_ACCOUNT (set [] \<union> set [])) (max_recursion sample_ctx) au)"
    by (simp add: sample_reqs_def active_within_def approved_by_level_def sample_ctx_def auth_weight_def
        multisig_def delegated_def)
  moreover have "closed_ctx sample_ctx {7, 8}"
    by (simp add: closed_ctx_def sample_ctx_def plain_def multisig_def delegated_def)
  moreover have "available_keys sample_ctx = []" by (simp add: sample_ctx_def)
  moreover have "\<not> authorizes sample_ctx sample_reqs (\<lambda>_ _. []) [] {k} {GRAPHENE_TEMP_ACCOUNT} 8" for k
  proof -
    have "\<not> approved sample_ctx {k} {GRAPHENE_TEMP_ACCOUNT} 8" using single_key_unapproved(1)[of k 8] by blast
    moreover have "get_owner sample_ctx 8 = Inr (Some delegated)" by (simp add: sample_ctx_def)
    then have "\<not> owner_satisfied sample_ctx {k} {GRAPHENE_TEMP_ACCOUNT} 8"
      using single_key_unapproved(2)[of k delegated] by (auto simp: owner_satisfied_def)
    ultimately show ?thesis by (simp add: authorizes_def sample_reqs_def)
  qed
  ultimately show ?thesis
    using verify_authority_complete[of sample_ctx "{7, 8}" "\<lambda>_ _. []" "[8]" sample_reqs "[1, 3]" "[]" "[]" False]
    by (auto simp: sample_reqs_def account_constants insert_Diff_if)
qed

text \<open>
  A state of the code that is not defined: an authority with an address that belongs to none of the
  signing keys makes \<open>sign_state::signed_by( const address& )\<close> use the end iterator of the map it searched,
  instead of answering that the address did not sign.
\<close>

theorem unknown_address_undefined:
  "signed_by_address sample_ctx 9 (init_sign_state [1]) = Inl Undefined_behaviour"
  by (simp add: signed_by_address_def address_maps_def address_map_def init_sign_state_def sample_ctx_def)

end
