(* ===== verification/Operations.thy ===== *)
theory Operations
  imports Liquidity_Pool Transfers Asset_Operations Samet_Fund Htlc Credit_Offer Withdraw_Permission Vesting_Operations
    Tickets Authority
begin

text \<open>
  The tagged union \<open>operation\<close> (\<open>libraries/protocol/include/graphene/protocol/operations.hpp\<close>) with the
  operations whose evaluators are modelled, the visitors over it (\<open>libraries/protocol/operations.cpp\<close>), and
  \<open>database::apply_operation\<close> (\<open>libraries/chain/db_block.cpp\<close>), the dispatch to the evaluator of the
  operation. The members of the union whose evaluators are not modelled are left out; for a tag without an
  evaluator \<open>apply_operation\<close> throws. The records of applied operations kept for the history plugins are
  left out.
\<close>

section \<open>The union of operations\<close>

datatype operation =
    Transfer transfer_operation
  | Override_transfer override_transfer_operation
  | Asset_issue asset_issue_operation
  | Asset_reserve asset_reserve_operation
  | Asset_fund_fee_pool asset_fund_fee_pool_operation
  | Asset_claim_fees asset_claim_fees_operation
  | Asset_claim_pool asset_claim_pool_operation
  | Asset_update_issuer asset_update_issuer_operation
  | Withdraw_permission_create withdraw_permission_create_operation
  | Withdraw_permission_update withdraw_permission_update_operation
  | Withdraw_permission_claim withdraw_permission_claim_operation
  | Withdraw_permission_delete withdraw_permission_delete_operation
  | Vesting_balance_create vesting_balance_create_operation
  | Vesting_balance_withdraw vesting_balance_withdraw_operation
  | Htlc_create htlc_create_operation
  | Htlc_redeem htlc_redeem_operation
  | Htlc_extend htlc_extend_operation
  | Liquidity_pool_create liquidity_pool_create_operation
  | Liquidity_pool_delete liquidity_pool_delete_operation
  | Liquidity_pool_deposit liquidity_pool_deposit_operation
  | Liquidity_pool_withdraw liquidity_pool_withdraw_operation
  | Liquidity_pool_exchange liquidity_pool_exchange_operation
  | Samet_fund_create samet_fund_create_operation
  | Samet_fund_delete samet_fund_delete_operation
  | Samet_fund_update samet_fund_update_operation
  | Samet_fund_borrow samet_fund_borrow_operation
  | Samet_fund_repay samet_fund_repay_operation
  | Credit_offer_create credit_offer_create_operation
  | Credit_offer_delete credit_offer_delete_operation
  | Credit_offer_update credit_offer_update_operation
  | Credit_offer_accept credit_offer_accept_operation
  | Credit_deal_repay credit_deal_repay_operation
  | Liquidity_pool_update liquidity_pool_update_operation
  | Credit_deal_update credit_deal_update_operation
  | Ticket_create ticket_create_operation
  | Ticket_update ticket_update_operation

section \<open>Visitors\<close>

primrec operation_validate :: "operation \<Rightarrow> unit result" where
  "operation_validate (Transfer op) = transfer_validate op"
| "operation_validate (Override_transfer op) = override_transfer_validate op"
| "operation_validate (Asset_issue op) = asset_issue_validate op"
| "operation_validate (Asset_reserve op) = asset_reserve_validate op"
| "operation_validate (Asset_fund_fee_pool op) = asset_fund_fee_pool_validate op"
| "operation_validate (Asset_claim_fees op) = asset_claim_fees_validate op"
| "operation_validate (Asset_claim_pool op) = asset_claim_pool_validate op"
| "operation_validate (Asset_update_issuer op) = asset_update_issuer_validate op"
| "operation_validate (Withdraw_permission_create op) = withdraw_create_validate op"
| "operation_validate (Withdraw_permission_update op) = withdraw_update_validate op"
| "operation_validate (Withdraw_permission_claim op) = withdraw_claim_validate op"
| "operation_validate (Withdraw_permission_delete op) = withdraw_delete_validate op"
| "operation_validate (Vesting_balance_create op) = vesting_create_validate op"
| "operation_validate (Vesting_balance_withdraw op) = vesting_withdraw_validate op"
| "operation_validate (Htlc_create op) = htlc_create_validate op"
| "operation_validate (Htlc_redeem op) = htlc_redeem_validate op"
| "operation_validate (Htlc_extend op) = htlc_extend_validate op"
| "operation_validate (Liquidity_pool_create op) = lp_create_validate op"
| "operation_validate (Liquidity_pool_delete op) = lp_delete_validate op"
| "operation_validate (Liquidity_pool_deposit op) = lp_deposit_validate op"
| "operation_validate (Liquidity_pool_withdraw op) = lp_withdraw_validate op"
| "operation_validate (Liquidity_pool_exchange op) = lp_exchange_validate op"
| "operation_validate (Samet_fund_create op) = samet_create_validate op"
| "operation_validate (Samet_fund_delete op) = samet_delete_validate op"
| "operation_validate (Samet_fund_update op) = samet_update_validate op"
| "operation_validate (Samet_fund_borrow op) = samet_borrow_validate op"
| "operation_validate (Samet_fund_repay op) = samet_repay_validate op"
| "operation_validate (Credit_offer_create op) = credit_offer_create_validate op"
| "operation_validate (Credit_offer_delete op) = credit_offer_delete_validate op"
| "operation_validate (Credit_offer_update op) = credit_offer_update_validate op"
| "operation_validate (Credit_offer_accept op) = credit_offer_accept_validate op"
| "operation_validate (Credit_deal_repay op) = credit_deal_repay_validate op"
| "operation_validate (Liquidity_pool_update op) = lp_update_validate op"
| "operation_validate (Credit_deal_update op) = credit_deal_update_validate op"
| "operation_validate (Ticket_create op) = ticket_create_validate op"
| "operation_validate (Ticket_update op) = ticket_update_validate op"

primrec op_fee_payer :: "operation \<Rightarrow> account_id_type" where
  "op_fee_payer (Transfer op) = tr_from op"
| "op_fee_payer (Override_transfer op) = ot_issuer op"
| "op_fee_payer (Asset_issue op) = ais_issuer op"
| "op_fee_payer (Asset_reserve op) = ars_payer op"
| "op_fee_payer (Asset_fund_fee_pool op) = aff_from_account op"
| "op_fee_payer (Asset_claim_fees op) = acf_issuer op"
| "op_fee_payer (Asset_claim_pool op) = acp_issuer op"
| "op_fee_payer (Asset_update_issuer op) = aui_issuer op"
| "op_fee_payer (Withdraw_permission_create op) = wpc_withdraw_from_account op"
| "op_fee_payer (Withdraw_permission_update op) = wpu_withdraw_from_account op"
| "op_fee_payer (Withdraw_permission_claim op) = wpk_withdraw_to_account op"
| "op_fee_payer (Withdraw_permission_delete op) = wpd_withdraw_from_account op"
| "op_fee_payer (Vesting_balance_create op) = vbc_creator op"
| "op_fee_payer (Vesting_balance_withdraw op) = vbw_owner op"
| "op_fee_payer (Htlc_create op) = hc_from op"
| "op_fee_payer (Htlc_redeem op) = hr_redeemer op"
| "op_fee_payer (Htlc_extend op) = he_update_issuer op"
| "op_fee_payer (Liquidity_pool_create op) = lpc_account op"
| "op_fee_payer (Liquidity_pool_delete op) = lpdel_account op"
| "op_fee_payer (Liquidity_pool_deposit op) = lpd_account op"
| "op_fee_payer (Liquidity_pool_withdraw op) = lpw_account op"
| "op_fee_payer (Liquidity_pool_exchange op) = lpx_account op"
| "op_fee_payer (Samet_fund_create op) = sfc_owner_account op"
| "op_fee_payer (Samet_fund_delete op) = sfd_owner_account op"
| "op_fee_payer (Samet_fund_update op) = sfu_owner_account op"
| "op_fee_payer (Samet_fund_borrow op) = sfb_borrower op"
| "op_fee_payer (Samet_fund_repay op) = sfr_account op"
| "op_fee_payer (Credit_offer_create op) = coc_owner_account op"
| "op_fee_payer (Credit_offer_delete op) = cod_owner_account op"
| "op_fee_payer (Credit_offer_update op) = cou_owner_account op"
| "op_fee_payer (Credit_offer_accept op) = coa_borrower op"
| "op_fee_payer (Credit_deal_repay op) = cdr_account op"
| "op_fee_payer (Liquidity_pool_update op) = lpu_account op"
| "op_fee_payer (Credit_deal_update op) = cdu_account op"
| "op_fee_payer (Ticket_create op) = tkc_account op"
| "op_fee_payer (Ticket_update op) = tku_account op"

text \<open>Of the modelled operations only the change of the issuer of an asset overrides one of
  \<open>get_required_active_authorities\<close>, \<open>get_required_owner_authorities\<close> and \<open>get_required_authorities\<close>.\<close>

definition operation_get_required_authorities :: "operation \<Rightarrow> required_auths" where
  "operation_get_required_authorities op =
     \<lparr>required_active = [op_fee_payer op],
      required_owner = (case op of Asset_update_issuer o' \<Rightarrow> [aui_issuer o'] | _ \<Rightarrow> []), required_other = []\<rparr>"

section \<open>Applying an operation\<close>

text \<open>\<open>fees op\<close> is the fee the schedule of the chain requires for the operation, \<open>None\<close> when the check is
  skipped.\<close>

primrec apply_operation :: "fc_lib \<Rightarrow> (operation \<Rightarrow> share_type option) \<Rightarrow> operation \<Rightarrow> database \<Rightarrow> database result" where
  "apply_operation fc fees (Transfer op) d = run_transfer fc (fees (Transfer op)) op d"
| "apply_operation fc fees (Override_transfer op) d = run_override_transfer fc (fees (Override_transfer op)) op d"
| "apply_operation fc fees (Asset_issue op) d = run_asset_issue fc (fees (Asset_issue op)) op d"
| "apply_operation fc fees (Asset_reserve op) d = run_asset_reserve fc (fees (Asset_reserve op)) op d"
| "apply_operation fc fees (Asset_fund_fee_pool op) d = run_asset_fund_fee_pool fc (fees (Asset_fund_fee_pool op)) op d"
| "apply_operation fc fees (Asset_claim_fees op) d = run_asset_claim_fees fc (fees (Asset_claim_fees op)) op d"
| "apply_operation fc fees (Asset_claim_pool op) d = run_asset_claim_pool fc (fees (Asset_claim_pool op)) op d"
| "apply_operation fc fees (Asset_update_issuer op) d = run_asset_update_issuer fc (fees (Asset_update_issuer op)) op d"
| "apply_operation fc fees (Withdraw_permission_create op) d = run_withdraw_create fc (fees (Withdraw_permission_create op)) op d"
| "apply_operation fc fees (Withdraw_permission_update op) d = run_withdraw_update fc (fees (Withdraw_permission_update op)) op d"
| "apply_operation fc fees (Withdraw_permission_claim op) d = run_withdraw_claim fc (fees (Withdraw_permission_claim op)) op d"
| "apply_operation fc fees (Withdraw_permission_delete op) d = run_withdraw_delete fc (fees (Withdraw_permission_delete op)) op d"
| "apply_operation fc fees (Vesting_balance_create op) d = run_vesting_create fc (fees (Vesting_balance_create op)) op d"
| "apply_operation fc fees (Vesting_balance_withdraw op) d = run_vesting_withdraw fc (fees (Vesting_balance_withdraw op)) op d"
| "apply_operation fc fees (Htlc_create op) d = run_htlc_create fc (fees (Htlc_create op)) op d"
| "apply_operation fc fees (Htlc_redeem op) d = run_htlc_redeem fc (fees (Htlc_redeem op)) op d"
| "apply_operation fc fees (Htlc_extend op) d = run_htlc_extend fc (fees (Htlc_extend op)) op d"
| "apply_operation fc fees (Liquidity_pool_create op) d = run_lp_create fc (fees (Liquidity_pool_create op)) op d"
| "apply_operation fc fees (Liquidity_pool_delete op) d = run_lp_delete fc (fees (Liquidity_pool_delete op)) op d"
| "apply_operation fc fees (Liquidity_pool_deposit op) d = run_lp_deposit fc (fees (Liquidity_pool_deposit op)) op d"
| "apply_operation fc fees (Liquidity_pool_withdraw op) d = run_lp_withdraw fc (fees (Liquidity_pool_withdraw op)) op d"
| "apply_operation fc fees (Liquidity_pool_exchange op) d = run_lp_exchange fc (fees (Liquidity_pool_exchange op)) op d"
| "apply_operation fc fees (Samet_fund_create op) d = run_samet_create fc (fees (Samet_fund_create op)) op d"
| "apply_operation fc fees (Samet_fund_delete op) d = run_samet_delete fc (fees (Samet_fund_delete op)) op d"
| "apply_operation fc fees (Samet_fund_update op) d = run_samet_update fc (fees (Samet_fund_update op)) op d"
| "apply_operation fc fees (Samet_fund_borrow op) d = run_samet_borrow fc (fees (Samet_fund_borrow op)) op d"
| "apply_operation fc fees (Samet_fund_repay op) d = run_samet_repay fc (fees (Samet_fund_repay op)) op d"
| "apply_operation fc fees (Credit_offer_create op) d = run_credit_offer_create fc (fees (Credit_offer_create op)) op d"
| "apply_operation fc fees (Credit_offer_delete op) d = run_credit_offer_delete fc (fees (Credit_offer_delete op)) op d"
| "apply_operation fc fees (Credit_offer_update op) d = run_credit_offer_update fc (fees (Credit_offer_update op)) op d"
| "apply_operation fc fees (Credit_offer_accept op) d = run_credit_offer_accept fc (fees (Credit_offer_accept op)) op d"
| "apply_operation fc fees (Credit_deal_repay op) d = run_credit_deal_repay fc (fees (Credit_deal_repay op)) op d"
| "apply_operation fc fees (Liquidity_pool_update op) d = run_lp_update fc (fees (Liquidity_pool_update op)) op d"
| "apply_operation fc fees (Credit_deal_update op) d = run_credit_deal_update fc (fees (Credit_deal_update op)) op d"
| "apply_operation fc fees (Ticket_create op) d = run_ticket_create fc (fees (Ticket_create op)) op d"
| "apply_operation fc fees (Ticket_update op) d = run_ticket_update fc (fees (Ticket_update op)) op d"

context fc_safe
begin

text \<open>Every validated operation conserves every asset.\<close>

lemma apply_operation_conserves:
  assumes "operation_validate op = Inr ()" "apply_operation fc fees op d = Inr d'"
  shows "conserves d d'"
proof (cases op)
  case (Transfer x)
  show ?thesis by (rule transfer_ev.operation_conserves[OF assms[unfolded Transfer operation_validate.simps
      apply_operation.simps run_transfer_def]])
next
  case (Override_transfer x)
  show ?thesis by (rule override_ev.operation_conserves[OF assms[unfolded Override_transfer operation_validate.simps
      apply_operation.simps run_override_transfer_def]])
next
  case (Asset_issue x)
  show ?thesis by (rule asset_issue_ev.operation_conserves[OF assms[unfolded Asset_issue operation_validate.simps
      apply_operation.simps run_asset_issue_def]])
next
  case (Asset_reserve x)
  show ?thesis by (rule asset_reserve_ev.operation_conserves[OF assms[unfolded Asset_reserve operation_validate.simps
      apply_operation.simps run_asset_reserve_def]])
next
  case (Asset_fund_fee_pool x)
  show ?thesis by (rule asset_fund_fee_pool_ev.operation_conserves[OF assms[unfolded Asset_fund_fee_pool operation_validate.simps
      apply_operation.simps run_asset_fund_fee_pool_def]])
next
  case (Asset_claim_fees x)
  show ?thesis by (rule asset_claim_fees_ev.operation_conserves[OF assms[unfolded Asset_claim_fees operation_validate.simps
      apply_operation.simps run_asset_claim_fees_def]])
next
  case (Asset_claim_pool x)
  show ?thesis by (rule asset_claim_pool_ev.operation_conserves[OF assms[unfolded Asset_claim_pool operation_validate.simps
      apply_operation.simps run_asset_claim_pool_def]])
next
  case (Asset_update_issuer x)
  show ?thesis by (rule asset_update_issuer_ev.operation_conserves[OF assms[unfolded Asset_update_issuer operation_validate.simps
      apply_operation.simps run_asset_update_issuer_def]])
next
  case (Withdraw_permission_create x)
  show ?thesis by (rule withdraw_create_ev.operation_conserves[OF assms[unfolded Withdraw_permission_create operation_validate.simps
      apply_operation.simps run_withdraw_create_def]])
next
  case (Withdraw_permission_update x)
  show ?thesis by (rule withdraw_update_ev.operation_conserves[OF assms[unfolded Withdraw_permission_update operation_validate.simps
      apply_operation.simps run_withdraw_update_def]])
next
  case (Withdraw_permission_claim x)
  show ?thesis by (rule withdraw_claim_ev.operation_conserves[OF assms[unfolded Withdraw_permission_claim operation_validate.simps
      apply_operation.simps run_withdraw_claim_def]])
next
  case (Withdraw_permission_delete x)
  show ?thesis by (rule withdraw_delete_ev.operation_conserves[OF assms[unfolded Withdraw_permission_delete operation_validate.simps
      apply_operation.simps run_withdraw_delete_def]])
next
  case (Vesting_balance_create x)
  show ?thesis by (rule vesting_create_ev.operation_conserves[OF assms[unfolded Vesting_balance_create operation_validate.simps
      apply_operation.simps run_vesting_create_def]])
next
  case (Vesting_balance_withdraw x)
  show ?thesis by (rule vesting_withdraw_ev.operation_conserves[OF assms[unfolded Vesting_balance_withdraw operation_validate.simps
      apply_operation.simps run_vesting_withdraw_def]])
next
  case (Htlc_create x)
  show ?thesis by (rule htlc_create_ev.operation_conserves[OF assms[unfolded Htlc_create operation_validate.simps
      apply_operation.simps run_htlc_create_def]])
next
  case (Htlc_redeem x)
  show ?thesis by (rule htlc_redeem_ev.operation_conserves[OF assms[unfolded Htlc_redeem operation_validate.simps
      apply_operation.simps run_htlc_redeem_def]])
next
  case (Htlc_extend x)
  show ?thesis by (rule htlc_extend_ev.operation_conserves[OF assms[unfolded Htlc_extend operation_validate.simps
      apply_operation.simps run_htlc_extend_def]])
next
  case (Liquidity_pool_create x)
  show ?thesis by (rule lp_create_ev.operation_conserves[OF assms[unfolded Liquidity_pool_create operation_validate.simps
      apply_operation.simps run_lp_create_def]])
next
  case (Liquidity_pool_delete x)
  show ?thesis by (rule lp_delete_ev.operation_conserves[OF assms[unfolded Liquidity_pool_delete operation_validate.simps
      apply_operation.simps run_lp_delete_def]])
next
  case (Liquidity_pool_deposit x)
  show ?thesis by (rule lp_deposit_ev.operation_conserves[OF assms[unfolded Liquidity_pool_deposit operation_validate.simps
      apply_operation.simps run_lp_deposit_def]])
next
  case (Liquidity_pool_withdraw x)
  show ?thesis by (rule lp_withdraw_ev.operation_conserves[OF assms[unfolded Liquidity_pool_withdraw operation_validate.simps
      apply_operation.simps run_lp_withdraw_def]])
next
  case (Liquidity_pool_exchange x)
  show ?thesis by (rule lp_exchange_ev.operation_conserves[OF assms[unfolded Liquidity_pool_exchange operation_validate.simps
      apply_operation.simps run_lp_exchange_def]])
next
  case (Samet_fund_create x)
  show ?thesis by (rule samet_create_ev.operation_conserves[OF assms[unfolded Samet_fund_create operation_validate.simps
      apply_operation.simps run_samet_create_def]])
next
  case (Samet_fund_delete x)
  show ?thesis by (rule samet_delete_ev.operation_conserves[OF assms[unfolded Samet_fund_delete operation_validate.simps
      apply_operation.simps run_samet_delete_def]])
next
  case (Samet_fund_update x)
  show ?thesis by (rule samet_update_ev.operation_conserves[OF assms[unfolded Samet_fund_update operation_validate.simps
      apply_operation.simps run_samet_update_def]])
next
  case (Samet_fund_borrow x)
  show ?thesis by (rule samet_borrow_ev.operation_conserves[OF assms[unfolded Samet_fund_borrow operation_validate.simps
      apply_operation.simps run_samet_borrow_def]])
next
  case (Samet_fund_repay x)
  show ?thesis by (rule samet_repay_ev.operation_conserves[OF assms[unfolded Samet_fund_repay operation_validate.simps
      apply_operation.simps run_samet_repay_def]])
next
  case (Credit_offer_create x)
  show ?thesis by (rule credit_offer_create_ev.operation_conserves[OF assms[unfolded Credit_offer_create operation_validate.simps
      apply_operation.simps run_credit_offer_create_def]])
next
  case (Credit_offer_delete x)
  show ?thesis by (rule credit_offer_delete_ev.operation_conserves[OF assms[unfolded Credit_offer_delete operation_validate.simps
      apply_operation.simps run_credit_offer_delete_def]])
next
  case (Credit_offer_update x)
  show ?thesis by (rule credit_offer_update_ev.operation_conserves[OF assms[unfolded Credit_offer_update operation_validate.simps
      apply_operation.simps run_credit_offer_update_def]])
next
  case (Credit_offer_accept x)
  show ?thesis by (rule credit_offer_accept_ev.operation_conserves[OF assms[unfolded Credit_offer_accept operation_validate.simps
      apply_operation.simps run_credit_offer_accept_def]])
next
  case (Credit_deal_repay x)
  show ?thesis by (rule credit_deal_repay_ev.operation_conserves[OF assms[unfolded Credit_deal_repay operation_validate.simps
      apply_operation.simps run_credit_deal_repay_def]])
next
  case (Liquidity_pool_update x)
  show ?thesis by (rule lp_update_ev.operation_conserves[OF assms[unfolded Liquidity_pool_update operation_validate.simps
      apply_operation.simps run_lp_update_def]])
next
  case (Credit_deal_update x)
  show ?thesis by (rule credit_deal_update_ev.operation_conserves[OF assms[unfolded Credit_deal_update operation_validate.simps
      apply_operation.simps run_credit_deal_update_def]])
next
  case (Ticket_create x)
  show ?thesis by (rule ticket_create_ev.operation_conserves[OF assms[unfolded Ticket_create operation_validate.simps
      apply_operation.simps run_ticket_create_def]])
next
  case (Ticket_update x)
  show ?thesis by (rule ticket_update_ev.operation_conserves[OF assms[unfolded Ticket_update operation_validate.simps
      apply_operation.simps run_ticket_update_def]])
qed

end

end
