(* ===== verification/Fork_Database.thy ===== *)
theory Fork_Database
  imports Prelude "HOL-Library.Word"
begin

text \<open>
  Blocks and the fork database: \<open>libraries/protocol/block.cpp\<close> and \<open>libraries/chain/fork_database.cpp\<close>.

  A \<open>fork_item\<close> is shared between the index of the database, its head pointer and its callers, and points to
  the item of the previous block with a weak pointer. The objects are therefore kept in a list, their address
  is their position, and the index holds addresses; a weak pointer can be locked while its object is in the
  index or is the head. What \<open>fc\<close> computes (the hash and the signing key of a block, and the shift and the
  population count of \<open>fc::uint128_t\<close>) are fields of \<open>block_lib\<close>. The loops that follow the pointers are partial functions; in every state the operations reach they return.
\<close>

section \<open>Blocks\<close>

text \<open>The first word of a block id is the number of the block (in big-endian order), the others are words of
  the hash.\<close>

record block_id_type =
  id_num :: nat
  id_hash :: "nat list"

definition null_block_id :: block_id_type where
  "null_block_id = \<lparr>id_num = 0, id_hash = [0, 0, 0, 0]\<rparr>"

record 't signed_block =
  blk_previous :: block_id_type
  blk_timestamp :: nat
  blk_witness :: nat
  blk_transaction_merkle_root :: "nat list"
  blk_witness_signature :: "nat list"
  blk_transactions :: "'t list"

record 't block_lib =
  block_hash :: "'t signed_block \<Rightarrow> nat list"
  block_signee :: "'t signed_block \<Rightarrow> nat"
  uint128_shl :: "128 word \<Rightarrow> nat \<Rightarrow> 128 word"
  uint128_popcount :: "128 word \<Rightarrow> nat"

definition num_from_id :: "block_id_type \<Rightarrow> nat" where
  "num_from_id i = id_num i"

definition block_num :: "'t signed_block \<Rightarrow> nat" where
  "block_num b = (num_from_id (blk_previous b) + 1) mod 2 ^ 32"

definition block_id :: "'t block_lib \<Rightarrow> 't signed_block \<Rightarrow> block_id_type" where
  "block_id lib b = \<lparr>id_num = block_num b, id_hash = block_hash lib b\<rparr>"

section \<open>The fork database\<close>

record 't fork_item =
  fi_prev :: "nat option"
  fi_num :: nat
  fi_id :: block_id_type
  fi_data :: "'t signed_block"
  fi_scheduled_witnesses :: "(nat \<times> nat) list option"
  fi_next_block_aslot :: nat
  fi_next_block_time :: nat

record 't fork_database =
  fd_items :: "'t fork_item list"
  fd_index :: "nat list"
  fd_head :: "nat option"
  fd_max_size :: nat

definition fork_item_of :: "'t block_lib \<Rightarrow> 't signed_block \<Rightarrow> 't fork_item" where
  "fork_item_of lib b = \<lparr>fi_prev = None, fi_num = block_num b, fi_id = block_id lib b, fi_data = b,
     fi_scheduled_witnesses = None, fi_next_block_aslot = 0, fi_next_block_time = 0\<rparr>"

definition new_fork_database :: "'t fork_database" where
  "new_fork_database = \<lparr>fd_items = [], fd_index = [], fd_head = None, fd_max_size = 1024\<rparr>"

text \<open>The object behind an address, and \<open>lock\<close> of a weak pointer.\<close>

definition fork_item_at :: "'t fork_database \<Rightarrow> nat \<Rightarrow> 't fork_item" where
  "fork_item_at fd a = fd_items fd ! a"

definition lock :: "'t fork_database \<Rightarrow> nat option \<Rightarrow> nat option" where
  "lock fd p =
     (case p of None \<Rightarrow> None
      | Some a \<Rightarrow> if a \<in> set (fd_index fd) \<or> fd_head fd = Some a then Some a else None)"

definition find_block :: "'t fork_database \<Rightarrow> block_id_type \<Rightarrow> nat option" where
  "find_block fd i = find (\<lambda>a. fi_id (fork_item_at fd a) = i) (fd_index fd)"

text \<open>Allocating an object, and \<open>insert\<close> into the index, whose ids are unique.\<close>

definition alloc_item :: "'t fork_item \<Rightarrow> 't fork_database \<Rightarrow> nat \<times> 't fork_database" where
  "alloc_item it fd = (length (fd_items fd), fd\<lparr>fd_items := fd_items fd @ [it]\<rparr>)"

definition insert_item :: "nat \<Rightarrow> 't fork_database \<Rightarrow> 't fork_database" where
  "insert_item a fd =
     (case find_block fd (fi_id (fork_item_at fd a)) of
        None \<Rightarrow> fd\<lparr>fd_index := fd_index fd @ [a]\<rparr>
      | Some _ \<Rightarrow> fd)"

text \<open>Erasing from the beginning of the order by number while the number is too small.\<close>

definition erase_below :: "int \<Rightarrow> 't fork_database \<Rightarrow> 't fork_database" where
  "erase_below n fd = fd\<lparr>fd_index := filter (\<lambda>a. n \<le> int (fi_num (fork_item_at fd a))) (fd_index fd)\<rparr>"

definition fork_reset :: "'t fork_database \<Rightarrow> 't fork_database" where
  "fork_reset fd = fd\<lparr>fd_head := None, fd_index := []\<rparr>"

definition fork_pop_block :: "'t fork_database \<Rightarrow> 't fork_database result" where
  "fork_pop_block fd =
     (case fd_head fd of
        None \<Rightarrow> Inl Assert_exception
      | Some h \<Rightarrow>
          (case lock fd (fi_prev (fork_item_at fd h)) of
             None \<Rightarrow> Inl Assert_exception
           | Some p \<Rightarrow> Inr (fd\<lparr>fd_head := Some p\<rparr>)))"

definition fork_start_block :: "'t block_lib \<Rightarrow> 't signed_block \<Rightarrow> 't fork_database \<Rightarrow> 't fork_database" where
  "fork_start_block lib b fd =
     (case alloc_item (fork_item_of lib b) fd of (a, fd) \<Rightarrow> (insert_item a fd)\<lparr>fd_head := Some a\<rparr>)"

text \<open>The pointer of a pushed item: the indexed item of its previous block.\<close>

definition link_item :: "'t fork_database \<Rightarrow> 't signed_block \<Rightarrow> nat option result" where
  "link_item fd b =
     (if fd_head fd \<noteq> None \<and> blk_previous b \<noteq> null_block_id then
        (case find_block fd (blk_previous b) of
           None \<Rightarrow> Inl Unlinkable_block_exception
         | Some p \<Rightarrow> Inr (Some p))
      else Inr None)"

definition fork_push_block :: "'t block_lib \<Rightarrow> 't signed_block \<Rightarrow> 't fork_database \<Rightarrow> 't fork_database result" where
  "fork_push_block lib b fd =
     FC_ASSERT (case fd_head fd of None \<Rightarrow> True
                | Some h \<Rightarrow> max 0 (int (fi_num (fork_item_at fd h)) - int (fd_max_size fd)) < int (block_num b))
    (bnd (link_item fd b) (\<lambda>prev.
     case alloc_item ((fork_item_of lib b)\<lparr>fi_prev := prev\<rparr>) fd of (a, fd) \<Rightarrow>
     let fd = insert_item a fd in
     (case fd_head fd of
        None \<Rightarrow> Inr (fd\<lparr>fd_head := Some a\<rparr>)
      | Some h \<Rightarrow>
          if fi_num (fork_item_at fd h) < block_num b then
            Inr (erase_below (int (block_num b) - min (int (fd_max_size fd)) (int (block_num b))) (fd\<lparr>fd_head := Some a\<rparr>))
          else Inr fd)))"

definition fork_set_max_size :: "nat \<Rightarrow> 't fork_database \<Rightarrow> 't fork_database" where
  "fork_set_max_size s fd =
     (case fd_head fd of
        None \<Rightarrow> fd\<lparr>fd_max_size := s\<rparr>
      | Some h \<Rightarrow> erase_below (max 0 (int (fi_num (fork_item_at fd h)) - int s)) (fd\<lparr>fd_max_size := s\<rparr>))"

definition is_known_block :: "'t fork_database \<Rightarrow> block_id_type \<Rightarrow> bool" where
  "is_known_block fd i \<longleftrightarrow> find_block fd i \<noteq> None"

definition fetch_block :: "'t fork_database \<Rightarrow> block_id_type \<Rightarrow> nat option" where
  "fetch_block fd i = find_block fd i"

definition fetch_block_by_number :: "'t fork_database \<Rightarrow> nat \<Rightarrow> nat list" where
  "fetch_block_by_number fd n = filter (\<lambda>a. fi_num (fork_item_at fd a) = n) (fd_index fd)"

definition fork_set_head :: "nat option \<Rightarrow> 't fork_database \<Rightarrow> 't fork_database" where
  "fork_set_head h fd = fd\<lparr>fd_head := h\<rparr>"

definition fork_remove :: "block_id_type \<Rightarrow> 't fork_database \<Rightarrow> 't fork_database" where
  "fork_remove i fd =
     (let fd = fd\<lparr>fd_index := filter (\<lambda>a. fi_id (fork_item_at fd a) \<noteq> i) (fd_index fd)\<rparr> in
      case fd_head fd of
        None \<Rightarrow> fd
      | Some h \<Rightarrow>
          if fi_id (fork_item_at fd h) = i
          then (case fork_pop_block fd of Inl _ \<Rightarrow> fd\<lparr>fd_head := None\<rparr> | Inr fd' \<Rightarrow> fd')
          else fd)"

text \<open>The loops of \<open>fetch_branch_from\<close>: going down one branch to a height, and down both branches until
  their blocks have the same previous block.\<close>

partial_function (option) descend_branch ::
    "'t fork_database \<Rightarrow> nat \<Rightarrow> nat \<Rightarrow> nat list \<Rightarrow> (nat \<times> nat list) result option" where
  "descend_branch fd n a branch =
     (if n < block_num (fi_data (fork_item_at fd a)) then
        (case lock fd (fi_prev (fork_item_at fd a)) of
           None \<Rightarrow> Some (Inl Assert_exception)
         | Some p \<Rightarrow> descend_branch fd n p (branch @ [a]))
      else Some (Inr (a, branch)))"

partial_function (option) meet_branches ::
    "'t fork_database \<Rightarrow> nat \<Rightarrow> nat \<Rightarrow> nat list \<Rightarrow> nat list \<Rightarrow> (nat list \<times> nat list) result option" where
  "meet_branches fd a b first second =
     (if blk_previous (fi_data (fork_item_at fd a)) \<noteq> blk_previous (fi_data (fork_item_at fd b)) then
        (case lock fd (fi_prev (fork_item_at fd a)) of
           None \<Rightarrow> Some (Inl Assert_exception)
         | Some p \<Rightarrow>
             (case lock fd (fi_prev (fork_item_at fd b)) of
                None \<Rightarrow> Some (Inl Assert_exception)
              | Some q \<Rightarrow> meet_branches fd p q (first @ [a]) (second @ [b])))
      else Some (Inr (first @ [a], second @ [b])))"

text \<open>A loop that does not return makes the caller not return.\<close>

definition returned :: "'a result option \<Rightarrow> 'a result" where
  "returned r = (case r of None \<Rightarrow> Inl Does_not_return | Some x \<Rightarrow> x)"

definition fetch_branch_from :: "'t fork_database \<Rightarrow> block_id_type \<Rightarrow> block_id_type \<Rightarrow> (nat list \<times> nat list) result" where
  "fetch_branch_from fd first second =
     (case find_block fd first of
        None \<Rightarrow> Inl Assert_exception
      | Some a \<Rightarrow>
          (case find_block fd second of
             None \<Rightarrow> Inl Assert_exception
           | Some b \<Rightarrow>
               bnd (returned (descend_branch fd (block_num (fi_data (fork_item_at fd b))) a [])) (\<lambda>(a, as).
               bnd (returned (descend_branch fd (block_num (fi_data (fork_item_at fd a))) b [])) (\<lambda>(b, bs).
               returned (meet_branches fd a b as bs)))))"

section \<open>Consistency\<close>

text \<open>Every object describes its block, and its pointer leads to an older object, the one of the previous
  block; the ids in the index are unique.\<close>

definition item_ok :: "'t block_lib \<Rightarrow> 't fork_item list \<Rightarrow> nat \<Rightarrow> bool" where
  "item_ok lib its a \<longleftrightarrow> fi_num (its ! a) = block_num (fi_data (its ! a)) \<and> fi_id (its ! a) = block_id lib (fi_data (its ! a)) \<and>
     (case fi_prev (its ! a) of None \<Rightarrow> True
      | Some p \<Rightarrow> p < a \<and> fi_id (its ! p) = blk_previous (fi_data (its ! a)) \<and> fi_num (its ! a) = Suc (fi_num (its ! p)))"

definition fork_wf :: "'t block_lib \<Rightarrow> 't fork_database \<Rightarrow> bool" where
  "fork_wf lib fd \<longleftrightarrow>
     (\<forall>a < length (fd_items fd). item_ok lib (fd_items fd) a) \<and>
     (\<forall>a \<in> set (fd_index fd). a < length (fd_items fd)) \<and>
     (case fd_head fd of None \<Rightarrow> True | Some h \<Rightarrow> h < length (fd_items fd)) \<and>
     distinct (map (\<lambda>a. fi_id (fork_item_at fd a)) (fd_index fd))"

text \<open>The steps the chain database takes: the head is only ever set to an item of the database.\<close>

inductive fork_step :: "'t block_lib \<Rightarrow> 't fork_database \<Rightarrow> 't fork_database \<Rightarrow> bool" for lib where
  fork_reset: "fork_step lib fd (fork_reset fd)"
| fork_start: "fork_step lib fd (fork_start_block lib b fd)"
| fork_push: "fork_push_block lib b fd = Inr fd' \<Longrightarrow> fork_step lib fd fd'"
| fork_pop: "fork_pop_block fd = Inr fd' \<Longrightarrow> fork_step lib fd fd'"
| fork_size: "fork_step lib fd (fork_set_max_size s fd)"
| fork_head: "h < length (fd_items fd) \<Longrightarrow> fork_step lib fd (fork_set_head (Some h) fd)"
| fork_rem: "fork_step lib fd (fork_remove i fd)"

inductive_cases fork_stepE: "fork_step lib fd fd'"

lemma item_ok_append: "a < length its \<Longrightarrow> item_ok lib its a \<Longrightarrow> item_ok lib (its @ [it]) a"
  by (auto simp: item_ok_def nth_append split: option.splits)

lemma find_block_Some: "find_block fd i = Some a \<Longrightarrow> a \<in> set (fd_index fd) \<and> fi_id (fork_item_at fd a) = i"
  unfolding find_block_def by (auto dest: find_SomeD)

lemma find_block_None: "find_block fd i = None \<longleftrightarrow> (\<forall>a \<in> set (fd_index fd). fi_id (fork_item_at fd a) \<noteq> i)"
  by (auto simp: find_block_def find_None_iff)

lemma lock_Some: "lock fd p = Some a \<longleftrightarrow> p = Some a \<and> (a \<in> set (fd_index fd) \<or> fd_head fd = Some a)"
  by (auto simp: lock_def split: option.splits if_splits)

lemma fork_wf_cong:
  assumes "fork_wf lib fd" "fd_items fd' = fd_items fd" "set (fd_index fd') \<subseteq> set (fd_index fd)"
    and "distinct (map (\<lambda>a. fi_id (fork_item_at fd a)) (fd_index fd'))"
    and "case fd_head fd' of None \<Rightarrow> True | Some h \<Rightarrow> h < length (fd_items fd)"
  shows "fork_wf lib fd'"
  using assms by (cases "fd_head fd'") (auto simp: fork_wf_def fork_item_at_def)

lemma fork_wf_filter:
  assumes "fork_wf lib fd"
  shows "distinct (map (\<lambda>a. fi_id (fork_item_at fd a)) (filter P (fd_index fd)))"
  using assms by (auto simp: fork_wf_def intro: distinct_map_filter)

text \<open>Allocating a consistent item, inserting it and making it the head.\<close>

lemma fork_wf_alloc:
  assumes "fork_wf lib fd" "alloc_item it fd = (a, fd')" "item_ok lib (fd_items fd @ [it]) (length (fd_items fd))"
  shows "fork_wf lib fd'" "a = length (fd_items fd)" "a < length (fd_items fd')" "fork_item_at fd' a = it"
    "fd_index fd' = fd_index fd" "fd_head fd' = fd_head fd" "b < length (fd_items fd) \<Longrightarrow> fork_item_at fd' b = fork_item_at fd b"
proof -
  have fd': "a = length (fd_items fd)" "fd' = fd\<lparr>fd_items := fd_items fd @ [it]\<rparr>" using assms(2) by (auto simp: alloc_item_def)
  have eq: "map (\<lambda>a. fi_id (fork_item_at fd' a)) (fd_index fd) = map (\<lambda>a. fi_id (fork_item_at fd a)) (fd_index fd)"
    using assms(1) by (auto simp: fork_wf_def fd'(2) fork_item_at_def nth_append)
  have idx: "fd_index fd' = fd_index fd" by (simp add: fd')
  have ids: "distinct (map (\<lambda>a. fi_id (fork_item_at fd' a)) (fd_index fd'))"
    unfolding idx eq using assms(1) by (simp add: fork_wf_def)
  show "fork_wf lib fd'" unfolding fork_wf_def
  proof (intro conjI ids)
    show "\<forall>a<length (fd_items fd'). item_ok lib (fd_items fd') a"
      using assms(1,3) by (auto simp: fork_wf_def fd' less_Suc_eq item_ok_append)
  qed (use assms(1) in \<open>auto simp: fork_wf_def fd' split: option.splits\<close>)
  show "a = length (fd_items fd)" "a < length (fd_items fd')" "fork_item_at fd' a = it" "fd_index fd' = fd_index fd"
    "fd_head fd' = fd_head fd" by (simp_all add: fd' fork_item_at_def nth_append)
  show "b < length (fd_items fd) \<Longrightarrow> fork_item_at fd' b = fork_item_at fd b"
    by (simp add: fd' fork_item_at_def nth_append)
qed

lemma fork_wf_insert: "fork_wf lib fd \<Longrightarrow> a < length (fd_items fd) \<Longrightarrow> fork_wf lib (insert_item a fd)"
  by (auto simp: insert_item_def fork_wf_def fork_item_at_def find_block_None split: option.splits)

lemma insert_item_fields [simp]: "fd_items (insert_item a fd) = fd_items fd" "fd_head (insert_item a fd) = fd_head fd"
  "fd_max_size (insert_item a fd) = fd_max_size fd"
  by (simp_all add: insert_item_def split: option.splits)

lemma fork_wf_head: "fork_wf lib fd \<Longrightarrow> a < length (fd_items fd) \<Longrightarrow> fork_wf lib (fd\<lparr>fd_head := Some a\<rparr>)"
  by (rule fork_wf_cong) (auto simp: fork_wf_def)

lemma fork_wf_erase: "fork_wf lib fd \<Longrightarrow> fork_wf lib (erase_below n fd)"
  by (rule fork_wf_cong) (auto simp: erase_below_def fork_wf_filter, simp add: fork_wf_def)

text \<open>The item of a pushed block is consistent: the check of its number excludes that the number wrapped
  around.\<close>

lemma pushed_item_ok:
  assumes wf: "fork_wf lib fd" and link: "link_item fd b = Inr prev" and num: "fd_head fd \<noteq> None \<Longrightarrow> 0 < block_num b"
  shows "item_ok lib (fd_items fd @ [(fork_item_of lib b)\<lparr>fi_prev := prev\<rparr>]) (length (fd_items fd))"
proof (cases prev)
  case None
  then show ?thesis by (simp add: item_ok_def fork_item_of_def)
next
  case (Some p)
  with link have head: "fd_head fd \<noteq> None" and find: "find_block fd (blk_previous b) = Some p"
    by (auto simp: link_item_def split: if_splits option.splits)
  from find_block_Some[OF find] wf have p: "p < length (fd_items fd)" "fi_id (fd_items fd ! p) = blk_previous b"
    by (auto simp: fork_wf_def fork_item_at_def)
  with wf have "fi_num (fd_items fd ! p) = id_num (blk_previous b)"
    unfolding fork_wf_def item_ok_def by (metis block_id_def block_id_type.select_convs(1))
  moreover have "block_num b = Suc (id_num (blk_previous b))"
  proof -
    have eq: "block_num b = Suc (id_num (blk_previous b)) mod 2 ^ 32" by (simp add: block_num_def num_from_id_def)
    have "id_num (blk_previous b) < 2 ^ 32"
      using calculation wf p(1) mod_less_divisor[of "2 ^ 32"] unfolding fork_wf_def item_ok_def block_num_def
      by (metis zero_less_numeral zero_less_power)
    then show ?thesis using num[OF head] eq by (cases "Suc (id_num (blk_previous b)) = 2 ^ 32") simp_all
  qed
  ultimately show ?thesis using p Some by (simp add: item_ok_def fork_item_of_def nth_append)
qed

lemma fork_push_wf:
  assumes wf: "fork_wf lib fd" and push: "fork_push_block lib b fd = Inr fd'"
  shows "fork_wf lib fd'"
proof -
  from push obtain prev where num: "case fd_head fd of None \<Rightarrow> True
      | Some h \<Rightarrow> max 0 (int (fi_num (fork_item_at fd h)) - int (fd_max_size fd)) < int (block_num b)"
    and link: "link_item fd b = Inr prev" by (auto simp: fork_push_block_def)
  obtain a fd1 where al: "alloc_item ((fork_item_of lib b)\<lparr>fi_prev := prev\<rparr>) fd = (a, fd1)" by fastforce
  have "item_ok lib (fd_items fd @ [(fork_item_of lib b)\<lparr>fi_prev := prev\<rparr>]) (length (fd_items fd))"
    by (rule pushed_item_ok[OF wf link]) (use num in \<open>auto split: option.splits\<close>)
  note fd1 = fork_wf_alloc[OF wf al this]
  have wf2: "fork_wf lib (insert_item a fd1)" and a: "a < length (fd_items (insert_item a fd1))"
    using fork_wf_insert[OF fd1(1,3)] fd1(3) by simp_all
  note ok = wf2 fork_wf_head[OF wf2 a] fork_wf_erase[OF fork_wf_head[OF wf2 a]]
  show ?thesis using push num link al ok
    by (auto simp: fork_push_block_def split: option.splits if_splits)
qed

lemma fork_pop_wf:
  assumes "fork_wf lib fd" "fork_pop_block fd = Inr fd'"
  shows "fork_wf lib fd'"
proof -
  from assms(2) obtain h p where p: "fd_head fd = Some h" "p \<in> set (fd_index fd) \<or> fd_head fd = Some p"
    "fd' = fd\<lparr>fd_head := Some p\<rparr>"
    by (auto simp: fork_pop_block_def lock_Some split: option.splits)
  then have "p < length (fd_items fd)" using assms(1) by (auto simp: fork_wf_def)
  then show ?thesis unfolding p(3) by (rule fork_wf_head[OF assms(1)])
qed

lemma fork_remove_wf:
  assumes "fork_wf lib fd"
  shows "fork_wf lib (fork_remove i fd)"
proof -
  let ?fd = "fd\<lparr>fd_index := filter (\<lambda>a. fi_id (fork_item_at fd a) \<noteq> i) (fd_index fd)\<rparr>"
  have wf: "fork_wf lib ?fd"
    by (rule fork_wf_cong[OF assms]) (use assms in \<open>auto simp: fork_wf_filter fork_wf_def\<close>)
  have "fork_wf lib (?fd\<lparr>fd_head := None\<rparr>)"
    by (rule fork_wf_cong[OF wf]) (use fork_wf_filter[OF assms] in \<open>simp_all add: fork_item_at_def\<close>)
  then show ?thesis using wf fork_pop_wf[OF wf] by (auto simp: fork_remove_def split: option.split sum.split)
qed

lemma fork_step_wf:
  assumes "fork_step lib fd fd'" "fork_wf lib fd"
  shows "fork_wf lib fd'"
  using assms(1)
proof cases
  case fork_reset
  then show ?thesis using assms(2) by (auto simp: fork_reset_def fork_wf_def)
next
  case (fork_start b)
  obtain a fd1 where al: "alloc_item (fork_item_of lib b) fd = (a, fd1)" by fastforce
  have "item_ok lib (fd_items fd @ [fork_item_of lib b]) (length (fd_items fd))"
    by (simp add: item_ok_def fork_item_of_def)
  note fd1 = fork_wf_alloc[OF assms(2) al this]
  show ?thesis using fork_wf_head[OF fork_wf_insert[OF fd1(1,3)]] fd1(3) al
    by (simp add: fork_start fork_start_block_def)
next
  case (fork_push b)
  then show ?thesis using fork_push_wf assms(2) by blast
next
  case fork_pop
  then show ?thesis by (rule fork_pop_wf[OF assms(2)])
next
  case (fork_size s)
  have "fork_wf lib (fd\<lparr>fd_max_size := s\<rparr>)" using assms(2) by (cases "fd_head fd") (simp_all add: fork_wf_def fork_item_at_def)
  then show ?thesis by (simp add: fork_size fork_set_max_size_def fork_wf_erase split: option.split)
next
  case (fork_head h)
  then show ?thesis using fork_wf_head[OF assms(2)] by (simp add: fork_set_head_def)
next
  case (fork_rem i)
  then show ?thesis using fork_remove_wf[OF assms(2)] by simp
qed

section \<open>Branches\<close>

text \<open>A branch: every item points to the next.\<close>

fun linked :: "'t fork_database \<Rightarrow> nat list \<Rightarrow> bool" where
  "linked fd (a # b # as) \<longleftrightarrow> fi_prev (fork_item_at fd a) = Some b \<and> linked fd (b # as)"
| "linked fd _ \<longleftrightarrow> True"

abbreviation num_at :: "'t fork_database \<Rightarrow> nat \<Rightarrow> nat" where
  "num_at fd a \<equiv> fi_num (fork_item_at fd a)"

abbreviation previous_at :: "'t fork_database \<Rightarrow> nat \<Rightarrow> block_id_type" where
  "previous_at fd a \<equiv> blk_previous (fi_data (fork_item_at fd a))"

lemma fork_prev:
  assumes "fork_wf lib fd" "a < length (fd_items fd)" "fi_prev (fork_item_at fd a) = Some p"
  shows "p < a" "p < length (fd_items fd)" "num_at fd a = Suc (num_at fd p)" "fi_id (fork_item_at fd p) = previous_at fd a"
  using assms by (auto simp: fork_wf_def item_ok_def fork_item_at_def)

lemma fork_num: "fork_wf lib fd \<Longrightarrow> a < length (fd_items fd) \<Longrightarrow> block_num (fi_data (fork_item_at fd a)) = num_at fd a"
  by (simp add: fork_wf_def item_ok_def fork_item_at_def)

lemma descend_branch_spec:
  assumes "fork_wf lib fd" "a < length (fd_items fd)"
  shows "\<exists>r. descend_branch fd n a branch = Some r \<and> r \<noteq> Inl Does_not_return \<and> (\<forall>a' branch'. r = Inr (a', branch') \<longrightarrow>
    (\<exists>xs. branch' = branch @ xs \<and> hd (xs @ [a']) = a \<and> linked fd (xs @ [a']) \<and> (\<forall>x \<in> set xs. n < num_at fd x) \<and>
      num_at fd a' = min (num_at fd a) n \<and> a' < length (fd_items fd)))"
  using assms(2)
proof (induction a arbitrary: branch rule: less_induct)
  case (less a)
  note num = fork_num[OF assms(1) less.prems]
  show ?case
  proof (cases "n < num_at fd a")
    case False
    then show ?thesis using less.prems by (subst descend_branch.simps) (simp add: num min_def)
  next
    case True
    show ?thesis
    proof (cases "lock fd (fi_prev (fork_item_at fd a))")
      case None
      then show ?thesis using True by (subst descend_branch.simps) (simp add: num)
    next
      case (Some p)
      then have "fi_prev (fork_item_at fd a) = Some p" by (simp add: lock_Some)
      note p = fork_prev[OF assms(1) less.prems this]
      from less.IH[OF p(1,2), of "branch @ [a]"] obtain r where r: "descend_branch fd n p (branch @ [a]) = Some r" "r \<noteq> Inl Does_not_return"
        "\<And>a' branch'. r = Inr (a', branch') \<Longrightarrow> \<exists>xs. branch' = (branch @ [a]) @ xs \<and> hd (xs @ [a']) = p \<and>
          linked fd (xs @ [a']) \<and> (\<forall>x \<in> set xs. n < num_at fd x) \<and> num_at fd a' = min (num_at fd p) n \<and>
          a' < length (fd_items fd)" by blast
      have "\<exists>ys. branch' = branch @ ys \<and> hd (ys @ [a']) = a \<and> linked fd (ys @ [a']) \<and>
          (\<forall>x \<in> set ys. n < num_at fd x) \<and> num_at fd a' = min (num_at fd a) n \<and> a' < length (fd_items fd)"
        if "r = Inr (a', branch')" for a' branch'
      proof -
        from r(3)[OF that] obtain xs where xs: "branch' = (branch @ [a]) @ xs" "hd (xs @ [a']) = p" "linked fd (xs @ [a'])"
          "\<forall>x \<in> set xs. n < num_at fd x" "num_at fd a' = min (num_at fd p) n" "a' < length (fd_items fd)" by blast
        have "linked fd (a # xs @ [a'])"
          using xs(2,3) Some by (cases xs) (auto simp: lock_Some)
        then show ?thesis using xs True p(3) by (intro exI[of _ "a # xs"]) auto
      qed
      then show ?thesis using r(1,2) Some True by (subst descend_branch.simps) (simp add: num)
    qed
  qed
qed

lemma meet_branches_spec:
  assumes "fork_wf lib fd" "a < length (fd_items fd)" "b < length (fd_items fd)" "num_at fd a = num_at fd b"
  shows "\<exists>r. meet_branches fd a b first second = Some r \<and> r \<noteq> Inl Does_not_return \<and> (\<forall>first' second'. r = Inr (first', second') \<longrightarrow>
    (\<exists>xs ys a' b'. first' = first @ xs @ [a'] \<and> second' = second @ ys @ [b'] \<and> hd (xs @ [a']) = a \<and> hd (ys @ [b']) = b \<and>
      linked fd (xs @ [a']) \<and> linked fd (ys @ [b']) \<and> previous_at fd a' = previous_at fd b' \<and> num_at fd a' = num_at fd b' \<and>
      (\<forall>x \<in> set xs. num_at fd a' < num_at fd x \<and> num_at fd x \<le> num_at fd a) \<and>
      (\<forall>y \<in> set ys. num_at fd a' < num_at fd y \<and> num_at fd y \<le> num_at fd a) \<and>
      (\<forall>x \<in> set xs. \<forall>y \<in> set ys. num_at fd x = num_at fd y \<longrightarrow> previous_at fd x \<noteq> previous_at fd y)))"
  using assms(2-4)
proof (induction a arbitrary: b first second rule: less_induct)
  case (less a)
  show ?case
  proof (cases "previous_at fd a = previous_at fd b")
    case True
    then show ?thesis using less.prems by (subst meet_branches.simps) auto
  next
    case False
    show ?thesis
    proof (cases "lock fd (fi_prev (fork_item_at fd a)) = None \<or> lock fd (fi_prev (fork_item_at fd b)) = None")
      case True
      then show ?thesis using False by (subst meet_branches.simps) (auto split: option.split)
    next
      case both: False
      then obtain p q where pq: "lock fd (fi_prev (fork_item_at fd a)) = Some p" "lock fd (fi_prev (fork_item_at fd b)) = Some q"
        by auto
      then have prevs: "fi_prev (fork_item_at fd a) = Some p" "fi_prev (fork_item_at fd b) = Some q" by (simp_all add: lock_Some)
      note p = fork_prev[OF assms(1) less.prems(1) prevs(1)] and q = fork_prev[OF assms(1) less.prems(2) prevs(2)]
      have "num_at fd p = num_at fd q" using p(3) q(3) less.prems(3) by simp
      from less.IH[OF p(1,2) q(2) this, of "first @ [a]" "second @ [b]"] obtain r where
        r: "meet_branches fd p q (first @ [a]) (second @ [b]) = Some r" "r \<noteq> Inl Does_not_return"
        "\<And>first' second'. r = Inr (first', second') \<Longrightarrow> (\<exists>xs ys a' b'. first' = (first @ [a]) @ xs @ [a'] \<and>
          second' = (second @ [b]) @ ys @ [b'] \<and> hd (xs @ [a']) = p \<and> hd (ys @ [b']) = q \<and>
          linked fd (xs @ [a']) \<and> linked fd (ys @ [b']) \<and> previous_at fd a' = previous_at fd b' \<and> num_at fd a' = num_at fd b' \<and>
          (\<forall>x \<in> set xs. num_at fd a' < num_at fd x \<and> num_at fd x \<le> num_at fd p) \<and>
          (\<forall>y \<in> set ys. num_at fd a' < num_at fd y \<and> num_at fd y \<le> num_at fd p) \<and>
          (\<forall>x \<in> set xs. \<forall>y \<in> set ys. num_at fd x = num_at fd y \<longrightarrow> previous_at fd x \<noteq> previous_at fd y))"
        by blast
      have "\<exists>xs ys a' b'. first' = first @ xs @ [a'] \<and> second' = second @ ys @ [b'] \<and> hd (xs @ [a']) = a \<and> hd (ys @ [b']) = b \<and>
          linked fd (xs @ [a']) \<and> linked fd (ys @ [b']) \<and> previous_at fd a' = previous_at fd b' \<and> num_at fd a' = num_at fd b' \<and>
          (\<forall>x \<in> set xs. num_at fd a' < num_at fd x \<and> num_at fd x \<le> num_at fd a) \<and>
          (\<forall>y \<in> set ys. num_at fd a' < num_at fd y \<and> num_at fd y \<le> num_at fd a) \<and>
          (\<forall>x \<in> set xs. \<forall>y \<in> set ys. num_at fd x = num_at fd y \<longrightarrow> previous_at fd x \<noteq> previous_at fd y)"
        if "r = Inr (first', second')" for first' second'
      proof -
        from r(3)[OF that] obtain xs ys a' b' where xs: "first' = (first @ [a]) @ xs @ [a']" "second' = (second @ [b]) @ ys @ [b']"
          "hd (xs @ [a']) = p" "hd (ys @ [b']) = q" "linked fd (xs @ [a'])" "linked fd (ys @ [b'])"
          "previous_at fd a' = previous_at fd b'" "num_at fd a' = num_at fd b'"
          "\<forall>x \<in> set xs. num_at fd a' < num_at fd x \<and> num_at fd x \<le> num_at fd p"
          "\<forall>y \<in> set ys. num_at fd a' < num_at fd y \<and> num_at fd y \<le> num_at fd p"
          "\<forall>x \<in> set xs. \<forall>y \<in> set ys. num_at fd x = num_at fd y \<longrightarrow> previous_at fd x \<noteq> previous_at fd y" by blast
        have link: "linked fd (a # xs @ [a'])" "linked fd (b # ys @ [b'])"
          using xs(3,5) xs(4,6) prevs by (cases xs; cases ys; simp_all)+
        have low: "num_at fd a' \<le> num_at fd p" using xs(3,9) by (cases xs) auto
        have "previous_at fd x \<noteq> previous_at fd y"
          if xy: "x \<in> set (a # xs)" "y \<in> set (b # ys)" "num_at fd x = num_at fd y" for x y
        proof -
          have "num_at fd z < num_at fd a" if "z \<in> set xs \<union> set ys" for z
            using that xs(9,10) p(3) by (metis Un_iff le_imp_less_Suc)
          then consider "x = a" "y = b" | "x \<in> set xs" "y \<in> set ys"
            using xy less.prems(3) by (metis UnI1 UnI2 nat_neq_iff set_ConsD)
          then show ?thesis using xy(3) xs(11) False by cases auto
        qed
        then show ?thesis using xs link low p(3) less.prems(3)
          by (intro exI[of _ "a # xs"] exI[of _ "b # ys"] exI[of _ a'] exI[of _ b']) auto
      qed
      then show ?thesis using r(1,2) pq False by (subst meet_branches.simps) simp
    qed
  qed
qed

lemma linked_join:
  assumes "linked fd (xs @ [c])" "linked fd zs" "zs \<noteq> []" "hd zs = c"
  shows "linked fd (xs @ zs)"
  using assms
proof (induction xs)
  case (Cons x xs)
  then show ?case by (cases xs; cases zs) auto
qed simp

lemma hd_join: "hd (xs @ [c]) = a \<Longrightarrow> zs \<noteq> [] \<Longrightarrow> hd zs = c \<Longrightarrow> hd (xs @ zs) = a"
  by (cases xs) auto

lemma linked_nums:
  assumes "fork_wf lib fd" "linked fd (a # as)" "a < length (fd_items fd)"
  shows "\<forall>x \<in> set (a # as). num_at fd x \<le> num_at fd a"
  using assms(2,3)
proof (induction as arbitrary: a)
  case (Cons b as)
  from Cons.prems have "fi_prev (fork_item_at fd a) = Some b" by simp
  note b = fork_prev[OF assms(1) Cons.prems(2) this]
  from Cons.IH[OF _ b(2)] Cons.prems(1) have "\<forall>x \<in> set (b # as). num_at fd x \<le> num_at fd b" by simp
  then show ?case using b(3) by auto
qed simp

text \<open>Two branches that lead back to the same previous block and share no other block.\<close>

definition branches_meet :: "'t fork_database \<Rightarrow> nat \<Rightarrow> nat \<Rightarrow> nat list \<Rightarrow> nat list \<Rightarrow> bool" where
  "branches_meet fd a b as bs \<longleftrightarrow>
     as \<noteq> [] \<and> bs \<noteq> [] \<and> hd as = a \<and> hd bs = b \<and> linked fd as \<and> linked fd bs \<and>
     previous_at fd (last as) = previous_at fd (last bs) \<and> num_at fd (last as) = num_at fd (last bs) \<and>
     set (butlast as) \<inter> set bs = {} \<and> set as \<inter> set (butlast bs) = {}"

lemma branches_meet_join:
  assumes wf: "fork_wf lib fd" "a < length (fd_items fd)" "b < length (fd_items fd)"
    and A: "hd (xs1 @ [a1]) = a" "linked fd (xs1 @ [a1])" "\<forall>x \<in> set xs1. num_at fd b < num_at fd x"
      "num_at fd a1 = min (num_at fd a) (num_at fd b)"
    and B: "hd (ys1 @ [b1]) = b" "linked fd (ys1 @ [b1])" "\<forall>y \<in> set ys1. num_at fd a1 < num_at fd y"
    and M: "hd (xs @ [a']) = a1" "hd (ys @ [b']) = b1" "linked fd (xs @ [a'])" "linked fd (ys @ [b'])"
      "previous_at fd a' = previous_at fd b'" "num_at fd a' = num_at fd b'"
      "\<forall>x \<in> set xs. num_at fd a' < num_at fd x \<and> num_at fd x \<le> num_at fd a1"
      "\<forall>y \<in> set ys. num_at fd a' < num_at fd y \<and> num_at fd y \<le> num_at fd a1"
      "\<forall>x \<in> set xs. \<forall>y \<in> set ys. num_at fd x = num_at fd y \<longrightarrow> previous_at fd x \<noteq> previous_at fd y"
  shows "branches_meet fd a b (xs1 @ xs @ [a']) (ys1 @ ys @ [b'])"
proof -
  have link: "linked fd (xs1 @ xs @ [a'])" "linked fd (ys1 @ ys @ [b'])"
    by (rule linked_join[OF A(2) M(3) _ M(1)], simp, rule linked_join[OF B(2) M(4) _ M(2)], simp)
  have hds: "hd (xs1 @ xs @ [a']) = a" "hd (ys1 @ ys @ [b']) = b"
    by (rule hd_join[OF A(1) _ M(1)], simp, rule hd_join[OF B(1) _ M(2)], simp)
  have le: "\<forall>x \<in> set (xs1 @ xs @ [a']). num_at fd x \<le> num_at fd a" "\<forall>y \<in> set (ys1 @ ys @ [b']). num_at fd y \<le> num_at fd b"
    using linked_nums[OF wf(1), of a "tl (xs1 @ xs @ [a'])"] linked_nums[OF wf(1), of b "tl (ys1 @ ys @ [b'])"] link hds wf(2,3)
    by (metis append_is_Nil_conv list.collapse not_Cons_self2)+
  have "z \<notin> set (ys1 @ ys @ [b'])" if "z \<in> set (xs1 @ xs)" for z
  proof
    assume z: "z \<in> set (ys1 @ ys @ [b'])"
    then have "z \<notin> set xs1" using A(3) le(2) by (metis linorder_not_le)
    then have "z \<in> set xs" using that by simp
    then have "num_at fd a' < num_at fd z" "num_at fd z \<le> num_at fd a1" "z \<notin> set ys" using M(7,9) by blast+
    then show False using z B(3) M(6) by auto
  qed
  moreover have "z \<notin> set (xs1 @ xs @ [a'])" if "z \<in> set (ys1 @ ys)" for z
  proof
    assume z: "z \<in> set (xs1 @ xs @ [a'])"
    have "num_at fd z \<le> num_at fd a" "num_at fd z \<le> num_at fd b" using z that le by auto
    then have "num_at fd z \<le> num_at fd a1" using A(4) by simp
    then have "z \<notin> set ys1" using B(3) by (metis linorder_not_le)
    then have y: "z \<in> set ys" using that by simp
    then have "num_at fd a' < num_at fd z" "z \<notin> set xs" using M(8,9) by blast+
    moreover have "z \<notin> set xs1" using A(3) \<open>num_at fd z \<le> num_at fd b\<close> by (metis linorder_not_le)
    ultimately show False using z by auto
  qed
  ultimately have "set (xs1 @ xs) \<inter> set (ys1 @ ys @ [b']) = {} \<and> set (xs1 @ xs @ [a']) \<inter> set (ys1 @ ys) = {}"
    unfolding disjoint_iff by blast
  moreover have "butlast (xs1 @ xs @ [a']) = xs1 @ xs" "butlast (ys1 @ ys @ [b']) = ys1 @ ys" by (simp_all add: butlast_append)
  ultimately have "set (butlast (xs1 @ xs @ [a'])) \<inter> set (ys1 @ ys @ [b']) = {}"
    "set (xs1 @ xs @ [a']) \<inter> set (butlast (ys1 @ ys @ [b'])) = {}" by simp_all
  then show ?thesis unfolding branches_meet_def using link hds M(5,6) by simp
qed

lemma fetch_branch_from_returns:
  assumes "fork_wf lib fd"
  shows "fetch_branch_from fd i j \<noteq> Inl Does_not_return"
proof
  assume run: "fetch_branch_from fd i j = Inl Does_not_return"
  then obtain a b where ab: "find_block fd i = Some a" "find_block fd j = Some b"
    by (auto simp: fetch_branch_from_def split: option.splits)
  have len: "a < length (fd_items fd)" "b < length (fd_items fd)" using ab[THEN find_block_Some] assms by (auto simp: fork_wf_def)
  have d: "returned (descend_branch fd n c []) \<noteq> Inl Does_not_return" if "c < length (fd_items fd)" for n c
    using descend_branch_spec[OF assms that, of n "[]"] by (auto simp: returned_def)
  have m: "returned (meet_branches fd a1 b1 xs ys) \<noteq> Inl Does_not_return"
    if "returned (descend_branch fd (num_at fd b) a []) = Inr (a1, xs)" "returned (descend_branch fd (num_at fd a1) b []) = Inr (b1, ys)"
    for a1 b1 xs ys
  proof -
    have a1: "a1 < length (fd_items fd)" "num_at fd a1 = min (num_at fd a) (num_at fd b)"
      using descend_branch_spec[OF assms len(1), of "num_at fd b" "[]"] that(1) by (auto simp: returned_def)
    have b1: "b1 < length (fd_items fd)" "num_at fd b1 = min (num_at fd b) (num_at fd a1)"
      using descend_branch_spec[OF assms len(2), of "num_at fd a1" "[]"] that(2) by (auto simp: returned_def)
    have "num_at fd a1 = num_at fd b1" using a1(2) b1(2) by simp
    from meet_branches_spec[OF assms a1(1) b1(1) this, of xs ys] show ?thesis by (auto simp: returned_def)
  qed
  have a1: "a1 < length (fd_items fd)" if "returned (descend_branch fd (num_at fd b) a []) = Inr (a1, xs)" for a1 xs
    using descend_branch_spec[OF assms len(1), of "num_at fd b" "[]"] that by (auto simp: returned_def)
  from run ab d[OF len(1), of "num_at fd b"] obtain a1 xs where
    1: "returned (descend_branch fd (num_at fd b) a []) = Inr (a1, xs)"
    by (cases "returned (descend_branch fd (num_at fd b) a [])") (auto simp: fetch_branch_from_def fork_num[OF assms len(2)])
  from run ab 1 d[OF len(2), of "num_at fd a1"] obtain b1 ys where
    2: "returned (descend_branch fd (num_at fd a1) b []) = Inr (b1, ys)"
    by (cases "returned (descend_branch fd (num_at fd a1) b [])")
      (auto simp: fetch_branch_from_def fork_num[OF assms len(2)] fork_num[OF assms a1[OF 1]])
  from run ab m[OF 1 2] 1 2 show False
    by (simp add: fetch_branch_from_def fork_num[OF assms len(2)] fork_num[OF assms a1[OF 1]])
qed

lemma fetch_branch_from_spec:
  assumes wf: "fork_wf lib fd" and run: "fetch_branch_from fd i j = Inr (as, bs)"
  shows "\<exists>a b. find_block fd i = Some a \<and> find_block fd j = Some b \<and> branches_meet fd a b as bs"
proof -
  from run obtain a b a1 xs1 b1 ys1 where ab: "find_block fd i = Some a" "find_block fd j = Some b"
    and d1: "returned (descend_branch fd (block_num (fi_data (fork_item_at fd b))) a []) = Inr (a1, xs1)"
    and d2: "returned (descend_branch fd (block_num (fi_data (fork_item_at fd a1))) b []) = Inr (b1, ys1)"
    and m: "returned (meet_branches fd a1 b1 xs1 ys1) = Inr (as, bs)"
    by (auto simp: fetch_branch_from_def split: option.splits)
  have len: "a < length (fd_items fd)" "b < length (fd_items fd)" using ab[THEN find_block_Some] wf by (auto simp: fork_wf_def)
  from descend_branch_spec[OF wf len(1), of "num_at fd b" "[]"] d1
  have A: "hd (xs1 @ [a1]) = a" "linked fd (xs1 @ [a1])" "\<forall>x \<in> set xs1. num_at fd b < num_at fd x"
    "num_at fd a1 = min (num_at fd a) (num_at fd b)" "a1 < length (fd_items fd)"
    by (auto simp: returned_def fork_num[OF wf len(2)])
  from descend_branch_spec[OF wf len(2), of "num_at fd a1" "[]"] d2
  have B: "hd (ys1 @ [b1]) = b" "linked fd (ys1 @ [b1])" "\<forall>y \<in> set ys1. num_at fd a1 < num_at fd y"
    "num_at fd b1 = min (num_at fd b) (num_at fd a1)" "b1 < length (fd_items fd)"
    by (auto simp: returned_def fork_num[OF wf A(5)])
  have "num_at fd a1 = num_at fd b1" using A(4) B(4) by simp
  from meet_branches_spec[OF wf A(5) B(5) this, of xs1 ys1] m obtain xs ys a' b' where
    s: "as = xs1 @ xs @ [a']" "bs = ys1 @ ys @ [b']" and
    M: "hd (xs @ [a']) = a1" "hd (ys @ [b']) = b1" "linked fd (xs @ [a'])" "linked fd (ys @ [b'])"
      "previous_at fd a' = previous_at fd b'" "num_at fd a' = num_at fd b'"
      "\<forall>x \<in> set xs. num_at fd a' < num_at fd x \<and> num_at fd x \<le> num_at fd a1"
      "\<forall>y \<in> set ys. num_at fd a' < num_at fd y \<and> num_at fd y \<le> num_at fd a1"
      "\<forall>x \<in> set xs. \<forall>y \<in> set ys. num_at fd x = num_at fd y \<longrightarrow> previous_at fd x \<noteq> previous_at fd y"
    by (auto simp: returned_def)
  from branches_meet_join[OF wf len A(1-4) B(1-3) M] ab show ?thesis unfolding s by blast
qed

section \<open>Reachable states\<close>

abbreviation fork_steps :: "'t block_lib \<Rightarrow> 't fork_database \<Rightarrow> 't fork_database \<Rightarrow> bool" where
  "fork_steps lib \<equiv> (fork_step lib)\<^sup>*\<^sup>*"

lemma fork_reachable_wf: "fork_steps lib new_fork_database fd \<Longrightarrow> fork_wf lib fd"
  by (induction rule: rtranclp_induct) (simp add: new_fork_database_def fork_wf_def, rule fork_step_wf)

text \<open>What a push does: the new item is allocated at the end of the heap and linked to the item of its
  previous block.\<close>

lemma fork_push_item:
  assumes "fork_push_block lib b fd = Inr fd'"
  obtains prev where "link_item fd b = Inr prev"
    "fd_items fd' = fd_items fd @ [(fork_item_of lib b)\<lparr>fi_prev := prev\<rparr>]" "fd_max_size fd' = fd_max_size fd"
proof -
  from assms obtain prev where "link_item fd b = Inr prev" by (auto simp: fork_push_block_def)
  with assms show thesis
    by (intro that[of prev]) (auto simp: fork_push_block_def alloc_item_def erase_below_def split: option.splits if_splits)
qed

lemma fork_push_result:
  assumes "fork_wf lib fd" "fork_push_block lib b fd = Inr fd'"
  obtains prev fd1 where "link_item fd b = Inr prev"
    "fd1 = insert_item (length (fd_items fd)) (fd\<lparr>fd_items := fd_items fd @ [(fork_item_of lib b)\<lparr>fi_prev := prev\<rparr>]\<rparr>)"
    "fd' = (case fd_head fd of None \<Rightarrow> fd1\<lparr>fd_head := Some (length (fd_items fd))\<rparr>
      | Some h \<Rightarrow> if num_at fd h < block_num b
          then erase_below (int (block_num b) - min (int (fd_max_size fd)) (int (block_num b))) (fd1\<lparr>fd_head := Some (length (fd_items fd))\<rparr>)
          else fd1)"
proof -
  from assms(2) obtain prev where link: "link_item fd b = Inr prev" by (auto simp: fork_push_block_def)
  let ?fd1 = "insert_item (length (fd_items fd)) (fd\<lparr>fd_items := fd_items fd @ [(fork_item_of lib b)\<lparr>fi_prev := prev\<rparr>]\<rparr>)"
  have "num_at ?fd1 h = num_at fd h" if "fd_head fd = Some h" for h
    using assms(1) that by (simp add: fork_wf_def fork_item_at_def nth_append)
  then show thesis using assms(2) link
    by (intro that[OF link refl]) (auto simp: fork_push_block_def alloc_item_def Let_def split: if_splits option.splits)
qed

lemma fork_push_head:
  assumes "fork_wf lib fd" "fork_push_block lib b fd = Inr fd'"
  shows "fd_head fd' = (case fd_head fd of None \<Rightarrow> Some (length (fd_items fd))
    | Some h \<Rightarrow> if num_at fd h < block_num b then Some (length (fd_items fd)) else Some h)"
  by (rule fork_push_result[OF assms]) (auto simp: erase_below_def split: option.splits)

text \<open>What is found after an item was inserted, and after items were erased.\<close>

lemma find_block_inserted:
  assumes "fork_wf lib fd" "fi_id it = i"
  shows "find_block (insert_item (length (fd_items fd)) (fd\<lparr>fd_items := fd_items fd @ [it]\<rparr>)) j =
    (case find_block fd j of Some a \<Rightarrow> Some a | None \<Rightarrow> if j = i then Some (length (fd_items fd)) else None)"
proof -
  let ?n = "length (fd_items fd)" and ?fd1 = "fd\<lparr>fd_items := fd_items fd @ [it]\<rparr>"
  have at: "fork_item_at ?fd1 ?n = it" "\<And>x. x \<in> set (fd_index fd) \<Longrightarrow> fork_item_at ?fd1 x = fork_item_at fd x"
    using assms(1) by (auto simp: fork_item_at_def nth_append fork_wf_def)
  have same: "find_block ?fd1 k = find_block fd k" for k
    unfolding find_block_def using at(2) by (auto intro: find_cong)
  show ?thesis
  proof (cases "find_block fd i")
    case None
    then have ins: "insert_item ?n ?fd1 = ?fd1\<lparr>fd_index := fd_index fd @ [?n]\<rparr>" using at(1) same assms(2) by (simp add: insert_item_def)
    have "find_block (insert_item ?n ?fd1) j = (case find (\<lambda>a. fi_id (fork_item_at ?fd1 a) = j) (fd_index fd) of
        Some a \<Rightarrow> Some a | None \<Rightarrow> if fi_id (fork_item_at ?fd1 ?n) = j then Some ?n else None)"
      unfolding ins find_block_def by (simp add: find_append fork_item_at_def split: option.splits)
    then show ?thesis using at(1) same[of j] assms(2) by (auto simp: find_block_def split: option.splits)
  next
    case (Some a)
    then show ?thesis using at(1) same assms(2) by (auto simp: insert_item_def split: option.splits)
  qed
qed

lemma find_block_erased:
  assumes "\<And>x. x \<in> set (fd_index fd) \<Longrightarrow> num_at fd x = id_num (fi_id (fork_item_at fd x))"
  shows "find_block (erase_below n fd) j = (if n \<le> int (id_num j) then find_block fd j else None)"
proof -
  have at: "fork_item_at (erase_below n fd) = fork_item_at fd" by (simp add: fun_eq_iff erase_below_def fork_item_at_def)
  have "find (\<lambda>a. fi_id (fork_item_at fd a) = j) (filter (\<lambda>a. n \<le> int (num_at fd a)) xs) =
      (if n \<le> int (id_num j) then find (\<lambda>a. fi_id (fork_item_at fd a) = j) xs else None)"
    if "set xs \<subseteq> set (fd_index fd)" for xs
    using that assms by (induction xs) auto
  from this[of "fd_index fd"] show ?thesis unfolding find_block_def at by (simp add: erase_below_def)
qed

text \<open>The blocks that are found after a push: the earlier ones and the pushed one, less those that a new head
  leaves too far behind.\<close>

lemma fork_push_find:
  assumes "fork_wf lib fd" "fork_push_block lib b fd = Inr fd'"
  shows "find_block fd' i =
    (if \<exists>h. fd_head fd = Some h \<and> num_at fd h < block_num b \<and> id_num i + fd_max_size fd < block_num b then None
     else case find_block fd i of Some a \<Rightarrow> Some a
       | None \<Rightarrow> if i = block_id lib b then Some (length (fd_items fd)) else None)"
proof -
  from fork_push_result[OF assms] obtain prev fd1 where
    fd1: "fd1 = insert_item (length (fd_items fd)) (fd\<lparr>fd_items := fd_items fd @ [(fork_item_of lib b)\<lparr>fi_prev := prev\<rparr>]\<rparr>)"
    and fd': "fd' = (case fd_head fd of None \<Rightarrow> fd1\<lparr>fd_head := Some (length (fd_items fd))\<rparr>
      | Some h \<Rightarrow> if num_at fd h < block_num b
          then erase_below (int (block_num b) - min (int (fd_max_size fd)) (int (block_num b))) (fd1\<lparr>fd_head := Some (length (fd_items fd))\<rparr>)
          else fd1)" by blast
  let ?fd2 = "fd1\<lparr>fd_head := Some (length (fd_items fd))\<rparr>"
  have same: "find_block ?fd2 i = find_block fd1 i" by (simp add: find_block_def fork_item_at_def)
  have ins: "find_block fd1 i = (case find_block fd i of Some a \<Rightarrow> Some a
      | None \<Rightarrow> if i = block_id lib b then Some (length (fd_items fd)) else None)"
    unfolding fd1 by (rule find_block_inserted[OF assms(1)]) (simp add: fork_item_of_def)
  have "num_at ?fd2 x = id_num (fi_id (fork_item_at ?fd2 x))" if "x \<in> set (fd_index ?fd2)" for x
    using that assms(1)
    by (auto simp: fd1 insert_item_def fork_item_at_def fork_item_of_def block_id_def fork_wf_def item_ok_def nth_append
        split: option.splits if_splits)
  note er = find_block_erased[OF this]
  show ?thesis
  proof (cases "\<exists>h. fd_head fd = Some h \<and> num_at fd h < block_num b")
    case True
    then have "fd' = erase_below (int (block_num b) - min (int (fd_max_size fd)) (int (block_num b))) ?fd2" using fd' by auto
    moreover have "int (block_num b) - min (int (fd_max_size fd)) (int (block_num b)) \<le> int (id_num i) \<longleftrightarrow>
        \<not> id_num i + fd_max_size fd < block_num b" by linarith
    moreover have "(\<exists>h. fd_head fd = Some h \<and> num_at fd h < block_num b \<and> id_num i + fd_max_size fd < block_num b) \<longleftrightarrow>
        id_num i + fd_max_size fd < block_num b" using True by blast
    ultimately show ?thesis using er same ins by simp
  next
    case False
    then have "fd' = ?fd2 \<or> fd' = fd1" using fd' by (auto split: option.splits)
    then show ?thesis using same ins False by auto
  qed
qed

section \<open>Properties\<close>

text \<open>Blocks for the examples: a first block, two blocks on top of it and one on top of the second of them.\<close>

definition sample_block_lib :: "nat block_lib" where
  "sample_block_lib = \<lparr>block_hash = (\<lambda>b. blk_witness b # blk_transactions b), block_signee = blk_witness, uint128_shl = (\<lambda>w n. push_bit n w),
     uint128_popcount = (\<lambda>w. length (filter (bit w) [0..<128]))\<rparr>"

definition sample_block :: "block_id_type \<Rightarrow> nat \<Rightarrow> nat signed_block" where
  "sample_block prev n = \<lparr>blk_previous = prev, blk_timestamp = n, blk_witness = n, blk_transaction_merkle_root = [],
     blk_witness_signature = [], blk_transactions = []\<rparr>"

definition sample_genesis :: block_id_type where "sample_genesis = \<lparr>id_num = 4, id_hash = [1, 2]\<rparr>"

definition sample_b0 :: "nat signed_block" where "sample_b0 = sample_block sample_genesis 0"
definition sample_b1 :: "nat signed_block" where "sample_b1 = sample_block (block_id sample_block_lib sample_b0) 1"
definition sample_b2 :: "nat signed_block" where "sample_b2 = sample_block (block_id sample_block_lib sample_b0) 2"
definition sample_b3 :: "nat signed_block" where "sample_b3 = sample_block (block_id sample_block_lib sample_b2) 3"

lemmas sample_block_defs = sample_block_lib_def sample_block_def sample_genesis_def sample_b0_def sample_b1_def
  sample_b2_def sample_b3_def block_id_def block_num_def num_from_id_def

definition sample_item :: "nat option \<Rightarrow> nat signed_block \<Rightarrow> nat fork_item" where
  "sample_item p b = (fork_item_of sample_block_lib b)\<lparr>fi_prev := p\<rparr>"

definition sample_forks2 :: "nat fork_database" where
  "sample_forks2 = \<lparr>fd_items = [sample_item None sample_b0, sample_item (Some 0) sample_b1, sample_item (Some 0) sample_b2],
     fd_index = [0, 1, 2], fd_head = Some 1, fd_max_size = 1024\<rparr>"

definition sample_forks :: "nat fork_database" where
  "sample_forks = \<lparr>fd_items = [sample_item None sample_b0, sample_item (Some 0) sample_b1, sample_item (Some 0) sample_b2,
       sample_item (Some 2) sample_b3],
     fd_index = [0, 1, 2, 3], fd_head = Some 3, fd_max_size = 1024\<rparr>"

lemmas fork_eval = sample_forks2_def sample_forks_def sample_item_def sample_block_defs fork_push_block_def link_item_def find_block_def
  insert_item_def alloc_item_def fork_item_of_def fork_item_at_def erase_below_def fork_start_block_def null_block_id_def
  new_fork_database_def

lemma sample_forks2_reachable: "fork_steps sample_block_lib new_fork_database sample_forks2"
proof -
  let ?fd0 = "fork_start_block sample_block_lib sample_b0 new_fork_database"
  let ?fd1 = "\<lparr>fd_items = [sample_item None sample_b0, sample_item (Some 0) sample_b1], fd_index = [0, 1], fd_head = Some 1, fd_max_size = 1024\<rparr>"
  have "fork_push_block sample_block_lib sample_b1 ?fd0 = Inr ?fd1" by (simp add: fork_eval)
  moreover have "fork_push_block sample_block_lib sample_b2 ?fd1 = Inr sample_forks2" by (simp add: fork_eval)
  ultimately show ?thesis
    by (meson fork_start fork_push rtranclp.rtrancl_into_rtrancl rtranclp.rtrancl_refl)
qed

lemma sample_forks_push: "fork_push_block sample_block_lib sample_b3 sample_forks2 = Inr sample_forks"
  by (simp add: fork_eval)

lemma sample_forks_reachable: "fork_steps sample_block_lib new_fork_database sample_forks"
  using sample_forks2_reachable fork_push[OF sample_forks_push] by (rule rtranclp.rtrancl_into_rtrancl)

text \<open>
  C7: In every state the operations of the fork database reach, \<open>fork_database::fetch_branch_from\<close> returns, and
  the two branches it returns start with the given blocks, follow the links to previous blocks, end with
  blocks at the same height that have the same previous block, and have no other block in common.
\<close>

theorem fetch_branch_from_correct:
  assumes "fork_steps lib new_fork_database fd"
  shows "fetch_branch_from fd i j \<noteq> Inl Does_not_return \<and>
    (\<forall>as bs. fetch_branch_from fd i j = Inr (as, bs) \<longrightarrow>
      (\<exists>a b. find_block fd i = Some a \<and> find_block fd j = Some b \<and> branches_meet fd a b as bs))"
  using fetch_branch_from_returns[OF fork_reachable_wf[OF assms]] fetch_branch_from_spec[OF fork_reachable_wf[OF assms]]
  by blast

theorem fetch_branch_from_correct_witness:
  "fetch_branch_from sample_forks (block_id sample_block_lib sample_b3) (block_id sample_block_lib sample_b1) = Inr ([3, 2], [1]) \<and>
   (\<exists>a b. find_block sample_forks (block_id sample_block_lib sample_b3) = Some a \<and>
      find_block sample_forks (block_id sample_block_lib sample_b1) = Some b \<and> branches_meet sample_forks a b [3, 2] [1])"
proof -
  have ids: "find_block sample_forks (block_id sample_block_lib sample_b3) = Some 3"
    "find_block sample_forks (block_id sample_block_lib sample_b1) = Some 1" by (simp_all add: fork_eval)
  have d: "descend_branch sample_forks (block_num (fi_data (fork_item_at sample_forks 1))) 3 [] = Some (Inr (2, [3]))"
    "descend_branch sample_forks (block_num (fi_data (fork_item_at sample_forks 2))) 1 [] = Some (Inr (1, []))"
    by (subst descend_branch.simps, simp add: fork_eval lock_def, subst descend_branch.simps, simp add: fork_eval)
      (subst descend_branch.simps, simp add: fork_eval)
  have m: "meet_branches sample_forks 2 1 [3] [] = Some (Inr ([3, 2], [1]))"
    by (subst meet_branches.simps) (simp add: fork_eval)
  have run: "fetch_branch_from sample_forks (block_id sample_block_lib sample_b3) (block_id sample_block_lib sample_b1) = Inr ([3, 2], [1])"
    unfolding fetch_branch_from_def ids by (simp add: d m returned_def del: One_nat_def)
  then show ?thesis using fetch_branch_from_correct[OF sample_forks_reachable] by blast
qed

text \<open>
  C16: Pushing a block into the fork database, in every state the operations reach. The push allocates one new
  item for the block and changes no other item. The item points to the item of the previous block, which is
  known (it points nowhere exactly when the database had no head or the block has no previous block). The
  item becomes the head exactly when there was no head or its number is greater than that of the head;
  otherwise the head stays. Afterwards a block is found where it was found before, the pushed block is
  found at the new item unless it was known already, and the only blocks no longer found are those more than the
  maximum size below a new head that replaced a lower one.
\<close>

theorem fork_push_longest:
  assumes "fork_steps lib new_fork_database fd" "fork_push_block lib b fd = Inr fd'" "n = length (fd_items fd)"
  shows "fi_data (fork_item_at fd' n) = b \<and> fi_id (fork_item_at fd' n) = block_id lib b \<and>
    length (fd_items fd') = Suc n \<and> (\<forall>a < n. fork_item_at fd' a = fork_item_at fd a) \<and>
    (if fd_head fd = None \<or> blk_previous b = null_block_id then fi_prev (fork_item_at fd' n) = None
     else \<exists>p. find_block fd (blk_previous b) = Some p \<and> fi_prev (fork_item_at fd' n) = Some p) \<and>
    fd_head fd' = (case fd_head fd of None \<Rightarrow> Some n | Some h \<Rightarrow> if num_at fd h < block_num b then Some n else Some h) \<and>
    (\<forall>i. find_block fd' i =
      (if \<exists>h. fd_head fd = Some h \<and> num_at fd h < block_num b \<and> id_num i + fd_max_size fd < block_num b then None
       else case find_block fd i of Some a \<Rightarrow> Some a | None \<Rightarrow> if i = block_id lib b then Some n else None))"
proof -
  note wf = fork_reachable_wf[OF assms(1)]
  from assms(2) obtain prev where link: "link_item fd b = Inr prev"
    and items: "fd_items fd' = fd_items fd @ [(fork_item_of lib b)\<lparr>fi_prev := prev\<rparr>]" by (rule fork_push_item)
  have new: "fork_item_at fd' n = (fork_item_of lib b)\<lparr>fi_prev := prev\<rparr>"
    and old: "\<forall>a < n. fork_item_at fd' a = fork_item_at fd a" "length (fd_items fd') = Suc n"
    by (simp_all add: fork_item_at_def items nth_append assms(3))
  have data: "fi_data (fork_item_at fd' n) = b" "fi_id (fork_item_at fd' n) = block_id lib b"
    by (simp_all add: new fork_item_of_def)
  have "if fd_head fd = None \<or> blk_previous b = null_block_id then prev = None
     else \<exists>p. find_block fd (blk_previous b) = Some p \<and> prev = Some p"
    using link by (auto simp: link_item_def split: option.splits if_splits)
  then have link': "if fd_head fd = None \<or> blk_previous b = null_block_id then fi_prev (fork_item_at fd' n) = None
     else \<exists>p. find_block fd (blk_previous b) = Some p \<and> fi_prev (fork_item_at fd' n) = Some p" by (simp add: new)
  show ?thesis
    by (intro conjI data old link' fork_push_head[OF wf assms(2), folded assms(3)] allI fork_push_find[OF wf assms(2), folded assms(3)])
qed

theorem fork_push_longest_witness:
  "fork_push_block sample_block_lib sample_b3 sample_forks2 = Inr sample_forks \<and>
   fd_head sample_forks = Some (length (fd_items sample_forks2)) \<and>
   fi_prev (fork_item_at sample_forks (length (fd_items sample_forks2))) = find_block sample_forks2 (blk_previous sample_b3)"
proof -
  have h: "fd_head sample_forks2 = Some 1" "num_at sample_forks2 1 < block_num sample_b3" "blk_previous sample_b3 \<noteq> null_block_id"
    by (simp_all add: fork_eval)
  from fork_push_longest[OF sample_forks2_reachable sample_forks_push refl] h sample_forks_push show ?thesis by auto
qed

end
