(* ===== verification/Witness_Schedule.thy ===== *)
theory Witness_Schedule
  imports Fees Fork_Database "HOL-Library.Multiset"
begin

unbundle bit_operations_syntax

text \<open>
  Slots, the witness schedule and the properties of the chain that every block updates:
  \<open>libraries/chain/db_witness_schedule.cpp\<close>, the first part of \<open>libraries/chain/db_update.cpp\<close>, and
  \<open>database::validate_block_header\<close>, \<open>update_witnesses\<close> and \<open>verify_signing_witness\<close> (\<open>db_block.cpp\<close>): the
  last two check a block against the schedule cached with its parent in the fork database.

  The record \<open>block_state\<close> adds to the database the \<open>dynamic_global_property_object\<close> (whose fields \<open>time\<close>,
  \<open>next_maintenance_time\<close>, \<open>witness_budget\<close>, \<open>total_pob\<close> and \<open>total_inactive\<close> are in \<open>database\<close>), the set of
  active witnesses, the shuffled witnesses, the checkpoints (in the order of their numbers), the size limit
  of the undo history and the fork database. Machine integers wrap where the code lets them; a division by
  the number of witnesses and an access to a vector are undefined when there is no witness. The block
  interval is positive (\<open>chain_parameters::validate\<close>).
\<close>

section \<open>State\<close>

record dynamic_global_property_object =
  head_block_number :: nat
  head_block_id :: block_id_type
  current_witness :: nat
  recently_missed_count :: nat
  current_aslot :: nat
  recent_slots_filled :: "128 word"
  dynamic_flags :: "32 word"
  last_irreversible_block_num :: nat

record 't block_state =
  bs_db :: database
  bs_dgp :: dynamic_global_property_object
  active_witnesses :: "nat list"
  current_shuffled_witnesses :: "nat list"
  checkpoints :: "(nat \<times> block_id_type) list"
  undo_max_size :: nat
  bs_fork_db :: "'t fork_database"

definition dgp_maintenance_flag :: "32 word" where "dgp_maintenance_flag = 1"

definition GRAPHENE_RECENTLY_MISSED_COUNT_INCREMENT :: nat where "GRAPHENE_RECENTLY_MISSED_COUNT_INCREMENT = 4"
definition GRAPHENE_RECENTLY_MISSED_COUNT_DECREMENT :: nat where "GRAPHENE_RECENTLY_MISSED_COUNT_DECREMENT = 3"
definition GRAPHENE_MAX_UNDO_HISTORY :: nat where "GRAPHENE_MAX_UNDO_HISTORY = 10000"
definition GRAPHENE_IRREVERSIBLE_THRESHOLD :: nat where "GRAPHENE_IRREVERSIBLE_THRESHOLD = 7000"

definition skip_witness_signature :: nat where "skip_witness_signature = 1"
definition skip_undo_history_check :: nat where "skip_undo_history_check = 512"
definition skip_witness_schedule_check :: nat where "skip_witness_schedule_check = 1024"

section \<open>Slots\<close>

definition get_scheduled_witness :: "'t block_state \<Rightarrow> nat \<Rightarrow> nat result" where
  "get_scheduled_witness s slot_num =
     (let ws = current_shuffled_witnesses s; aslot = (current_aslot (bs_dgp s) + slot_num) mod 2 ^ 64
      in if ws = [] then Inl Undefined_behaviour else Inr (ws ! (aslot mod length ws)))"

definition get_slot_time :: "fc_lib \<Rightarrow> 't block_state \<Rightarrow> nat \<Rightarrow> time_point_sec" where
  "get_slot_time fc s slot_num =
     (if slot_num = 0 then 0
      else
        let interval = block_interval (parameters (bs_db s)) in
        if head_block_number (bs_dgp s) = 0
        then tps_add fc (head_block_time (bs_db s)) (slot_num * interval mod 2 ^ 32)
        else
          let head_slot_time = head_block_time (bs_db s) div interval * interval;
              slot_num = (if dynamic_flags (bs_dgp s) AND dgp_maintenance_flag \<noteq> 0
                then (slot_num + maintenance_skip_slots (parameters (bs_db s))) mod 2 ^ 32 else slot_num)
          in tps_add fc head_slot_time (slot_num * interval mod 2 ^ 32))"

definition get_slot_at_time :: "fc_lib \<Rightarrow> 't block_state \<Rightarrow> time_point_sec \<Rightarrow> nat" where
  "get_slot_at_time fc s when =
     (let first_slot_time = get_slot_time fc s 1
      in if when < first_slot_time then 0
         else (nat (tps_diff fc when first_slot_time) div block_interval (parameters (bs_db s)) + 1) mod 2 ^ 32)"

section \<open>The schedule\<close>

definition modify_witness :: "nat \<Rightarrow> (witness_object \<Rightarrow> witness_object) \<Rightarrow> database \<Rightarrow> database result" where
  "modify_witness w f d =
     bnd (store_get (witnesses d) w) (\<lambda>wit. Inr (d\<lparr>witnesses := store_put (witnesses d) w (f wit)\<rparr>))"

definition charge_missed_slot :: "nat \<Rightarrow> 't block_state \<Rightarrow> 't block_state result" where
  "charge_missed_slot i s =
     bnd (get_scheduled_witness s (i + 1)) (\<lambda>w.
     bnd (modify_witness w (\<lambda>wit. wit\<lparr>total_missed := to_int64 (total_missed wit + 1)\<rparr>) (bs_db s)) (\<lambda>d.
     Inr (s\<lparr>bs_db := d\<rparr>)))"

definition update_witness_missed_blocks ::
    "fc_lib \<Rightarrow> 't signed_block \<Rightarrow> 't block_state \<Rightarrow> (nat \<times> 't block_state) result" where
  "update_witness_missed_blocks fc b s =
     (let missed = get_slot_at_time fc s (blk_timestamp b) in
      FC_ASSERT (missed \<noteq> 0)
      (let missed = missed - 1 in
       if missed < length (current_shuffled_witnesses s)
       then bnd (fold_res charge_missed_slot [0..<missed] s) (\<lambda>s. Inr (missed, s))
       else Inr (missed, s)))"

definition witness_participation_rate :: "'t block_lib \<Rightarrow> 't block_state \<Rightarrow> nat" where
  "witness_participation_rate lib s =
     nat GRAPHENE_100_PERCENT * uint128_popcount lib (recent_slots_filled (bs_dgp s)) mod 2 ^ 64 div 128"

text \<open>The random number of a position: a generator on 64-bit words.\<close>

definition schedule_random :: "time_point_sec \<Rightarrow> nat \<Rightarrow> nat" where
  "schedule_random now i =
     (let now_hi = push_bit 32 (of_nat now :: 64 word);
          k = now_hi + of_nat i * 2685821657736338717;
          k = k XOR drop_bit 12 k;
          k = k XOR push_bit 25 k;
          k = k XOR drop_bit 27 k;
          k = k * 2685821657736338717
      in unat k)"

definition shuffle_step :: "time_point_sec \<Rightarrow> nat \<Rightarrow> nat list \<Rightarrow> nat list" where
  "shuffle_step now i ws =
     (let jmax = length ws - i; j = i + schedule_random now i mod jmax
      in ws[i := ws ! j, j := ws ! i])"

definition update_witness_schedule :: "'t block_state \<Rightarrow> 't block_state result" where
  "update_witness_schedule s =
     (if active_witnesses s = [] then Inl Undefined_behaviour
      else if head_block_number (bs_dgp s) mod length (active_witnesses s) = 0
      then Inr (s\<lparr>current_shuffled_witnesses :=
        fold (shuffle_step (head_block_time (bs_db s))) [0..<length (active_witnesses s)] (active_witnesses s)\<rparr>)
      else Inr s)"

section \<open>Applying a block\<close>

definition validate_block_header ::
    "fc_lib \<Rightarrow> 't block_lib \<Rightarrow> nat \<Rightarrow> 't signed_block \<Rightarrow> 't block_state \<Rightarrow> witness_object result" where
  "validate_block_header fc lib skip b s =
     FC_ASSERT (head_block_id (bs_dgp s) = blk_previous b)
     (FC_ASSERT (head_block_time (bs_db s) < blk_timestamp b)
     (bnd (store_get (witnesses (bs_db s)) (blk_witness b)) (\<lambda>witness.
      FC_ASSERT (skip AND skip_witness_signature \<noteq> 0 \<or> block_signee lib b = signing_key witness)
      (if skip AND skip_witness_schedule_check = 0 then
         let slot_num = get_slot_at_time fc s (blk_timestamp b) in
         FC_ASSERT (0 < slot_num)
         (bnd (get_scheduled_witness s slot_num) (\<lambda>scheduled.
          FC_ASSERT (blk_witness b = scheduled) (Inr witness)))
       else Inr witness))))"

text \<open>The schedule after a block, which \<open>update_witnesses\<close> keeps in its item of the fork database, and the check
  of the signing witness that \<open>verify_signing_witness\<close> makes with it before the block is applied.\<close>

fun witness_keys :: "database \<Rightarrow> nat list \<Rightarrow> (nat \<times> nat) list result" where
  "witness_keys d [] = Inr []"
| "witness_keys d (w # ws) =
     bnd (store_get (witnesses d) w) (\<lambda>wit. bnd (witness_keys d ws) (\<lambda>ks. Inr ((w, signing_key wit) # ks)))"

definition update_witnesses :: "fc_lib \<Rightarrow> 't block_state \<Rightarrow> 't fork_item \<Rightarrow> 't fork_item result" where
  "update_witnesses fc s fork_entry =
     (if fi_scheduled_witnesses fork_entry \<noteq> None then Inr fork_entry
      else
        bnd (witness_keys (bs_db s) (current_shuffled_witnesses s)) (\<lambda>ks.
        Inr (fork_entry\<lparr>fi_next_block_aslot := (current_aslot (bs_dgp s) + 1) mod 2 ^ 64,
          fi_next_block_time := get_slot_time fc s 1, fi_scheduled_witnesses := Some ks\<rparr>)))"

definition verify_signing_witness ::
    "fc_lib \<Rightarrow> 't block_lib \<Rightarrow> nat \<Rightarrow> 't signed_block \<Rightarrow> 't fork_item \<Rightarrow> unit result" where
  "verify_signing_witness fc lib interval new_block fork_entry =
     FC_ASSERT (fi_next_block_time fork_entry \<le> blk_timestamp new_block)
     (let slot_num = nat (tps_diff fc (blk_timestamp new_block) (fi_next_block_time fork_entry)) div interval mod 2 ^ 32 in
      case fi_scheduled_witnesses fork_entry of
        None \<Rightarrow> Inl Undefined_behaviour
      | Some ks \<Rightarrow>
          if ks = [] then Inl Undefined_behaviour
          else
            let scheduled_witness = ks ! ((fi_next_block_aslot fork_entry + slot_num) mod 2 ^ 64 mod length ks) in
            FC_ASSERT (blk_witness new_block = fst scheduled_witness)
            (FC_ASSERT (block_signee lib new_block = snd scheduled_witness) (Inr ())))"

definition next_missed_count :: "'t block_state \<Rightarrow> nat \<Rightarrow> nat \<Rightarrow> nat" where
  "next_missed_count s num missed =
     (let count = recently_missed_count (bs_dgp s) in
      if num = 1 then 0
      else if checkpoints s \<noteq> [] \<and> num \<le> fst (last (checkpoints s)) then 0
      else if missed \<noteq> 0 then (count + GRAPHENE_RECENTLY_MISSED_COUNT_INCREMENT * missed) mod 2 ^ 32
      else if GRAPHENE_RECENTLY_MISSED_COUNT_INCREMENT < count then count - GRAPHENE_RECENTLY_MISSED_COUNT_DECREMENT
      else if 0 < count then count - 1
      else count)"

definition update_global_dynamic_data ::
    "'t block_lib \<Rightarrow> nat \<Rightarrow> 't signed_block \<Rightarrow> nat \<Rightarrow> 't block_state \<Rightarrow> 't block_state result" where
  "update_global_dynamic_data lib skip b missed s =
     (let dgp = bs_dgp s; num = block_num b;
          dgp' = dgp\<lparr>recently_missed_count := next_missed_count s num missed, head_block_number := num,
            head_block_id := block_id lib b, current_witness := blk_witness b,
            recent_slots_filled := uint128_shl lib (uint128_shl lib (recent_slots_filled dgp) 1 + 1) missed,
            current_aslot := (current_aslot dgp + (missed + 1) mod 2 ^ 32) mod 2 ^ 64\<rparr>;
          s = s\<lparr>bs_dgp := dgp', bs_db := (bs_db s)\<lparr>head_block_time := blk_timestamp b\<rparr>\<rparr>;
          pending = (num + 2 ^ 32 - last_irreversible_block_num dgp) mod 2 ^ 32
      in FC_ASSERT (skip AND skip_undo_history_check \<noteq> 0 \<or> pending < GRAPHENE_MAX_UNDO_HISTORY)
        (Inr (s\<lparr>undo_max_size := (pending + 1) mod 2 ^ 32,
                bs_fork_db := fork_set_max_size ((pending + 1) mod 2 ^ 32) (bs_fork_db s)\<rparr>)))"

text \<open>The part of \<open>update_signing_witness\<close> that works on the database: the pay of the witness, taken from the
  budget, and the record of the block it confirmed.\<close>

definition pay_signing_witness :: "fc_lib \<Rightarrow> nat \<Rightarrow> nat \<Rightarrow> nat \<Rightarrow> database \<Rightarrow> database result" where
  "pay_signing_witness fc w aslot num d =
     (let witness_pay = min (witness_pay_per_block (parameters d)) (witness_budget d) in
      bnd (safe_sub fc (witness_budget d) witness_pay) (\<lambda>budget.
      bnd (deposit_witness_pay fc w witness_pay (d\<lparr>witness_budget := budget\<rparr>))
      (modify_witness w (\<lambda>wit. wit\<lparr>last_aslot := aslot, last_confirmed_block_num := num\<rparr>))))"

definition update_signing_witness :: "fc_lib \<Rightarrow> nat \<Rightarrow> 't signed_block \<Rightarrow> 't block_state \<Rightarrow> 't block_state result" where
  "update_signing_witness fc w b s =
     (let new_block_aslot = (current_aslot (bs_dgp s) + get_slot_at_time fc s (blk_timestamp b)) mod 2 ^ 64 in
      bnd (pay_signing_witness fc w new_block_aslot (block_num b) (bs_db s)) (\<lambda>d. Inr (s\<lparr>bs_db := d\<rparr>)))"

text \<open>The numbers of the blocks that the active witnesses have confirmed last, and the one that
  \<open>std::nth_element\<close> moves to the position of the threshold.\<close>

fun confirmed_nums :: "database \<Rightarrow> nat list \<Rightarrow> nat list result" where
  "confirmed_nums d [] = Inr []"
| "confirmed_nums d (w # ws) =
     bnd (store_get (witnesses d) w) (\<lambda>wit. bnd (confirmed_nums d ws) (\<lambda>ns. Inr (last_confirmed_block_num wit # ns)))"

definition update_last_irreversible_block :: "'t block_state \<Rightarrow> 't block_state result" where
  "update_last_irreversible_block s =
     bnd (confirmed_nums (bs_db s) (active_witnesses s)) (\<lambda>nums.
     let offset = (nat GRAPHENE_100_PERCENT - GRAPHENE_IRREVERSIBLE_THRESHOLD) * length nums div nat GRAPHENE_100_PERCENT in
     if nums = [] then Inl Undefined_behaviour
     else
       let n = sort nums ! offset in
       Inr (if last_irreversible_block_num (bs_dgp s) < n
            then s\<lparr>bs_dgp := (bs_dgp s)\<lparr>last_irreversible_block_num := n\<rparr>\<rparr> else s))"

definition update_maintenance_flag :: "bool \<Rightarrow> 't block_state \<Rightarrow> 't block_state" where
  "update_maintenance_flag new_maintenance_flag s =
     s\<lparr>bs_dgp := (bs_dgp s)\<lparr>dynamic_flags := (dynamic_flags (bs_dgp s) AND NOT dgp_maintenance_flag) OR
       (if new_maintenance_flag then dgp_maintenance_flag else 0)\<rparr>\<rparr>"

section \<open>Slots and times\<close>

text \<open>The beginning of the slots, and the times of slots that fit into 32 bits.\<close>

definition slot_base :: "'t block_state \<Rightarrow> nat" where
  "slot_base s =
     (let interval = block_interval (parameters (bs_db s)) in
      if head_block_number (bs_dgp s) = 0 then head_block_time (bs_db s)
      else head_block_time (bs_db s) div interval * interval +
        (if dynamic_flags (bs_dgp s) AND dgp_maintenance_flag \<noteq> 0
         then maintenance_skip_slots (parameters (bs_db s)) * interval else 0))"

definition slot_fits :: "'t block_state \<Rightarrow> nat \<Rightarrow> bool" where
  "slot_fits s n \<longleftrightarrow>
     head_block_time (bs_db s) + (n + maintenance_skip_slots (parameters (bs_db s))) * block_interval (parameters (bs_db s)) < 2 ^ 32"

lemma slot_base_le:
  "slot_base s \<le> head_block_time (bs_db s) + maintenance_skip_slots (parameters (bs_db s)) * block_interval (parameters (bs_db s))"
  by (simp add: slot_base_def Let_def trans_le_add1)

context fc_safe
begin

lemma get_slot_time_base:
  assumes "0 < n" "slot_fits s n" "0 < block_interval (parameters (bs_db s))"
  shows "get_slot_time fc s n = slot_base s + n * block_interval (parameters (bs_db s))"
proof -
  let ?i = "block_interval (parameters (bs_db s))" and ?k = "maintenance_skip_slots (parameters (bs_db s))"
  have fits: "head_block_time (bs_db s) + (n + ?k) * ?i < 2 ^ 32" using assms(2) by (simp add: slot_fits_def)
  have le: "head_block_time (bs_db s) div ?i * ?i \<le> head_block_time (bs_db s)" by simp
  have small: "n * ?i < 2 ^ 32" "(n + ?k) * ?i < 2 ^ 32" using fits by (simp_all add: distrib_right)
  then have "n + ?k < 2 ^ 32" using assms(3) by (metis less_le_trans mult.right_neutral mult_le_mono2 not_less nat_less_le Suc_leI One_nat_def)
  then have mods: "n * ?i mod 4294967296 = n * ?i" "(n + ?k) mod 4294967296 = n + ?k" "(n + ?k) * ?i mod 4294967296 = (n + ?k) * ?i"
    using small by simp_all
  have adds: "tps_add fc (head_block_time (bs_db s)) (n * ?i) = head_block_time (bs_db s) + n * ?i"
    "tps_add fc (head_block_time (bs_db s) div ?i * ?i) (n * ?i) = head_block_time (bs_db s) div ?i * ?i + n * ?i"
    "tps_add fc (head_block_time (bs_db s) div ?i * ?i) ((n + ?k) * ?i) = head_block_time (bs_db s) div ?i * ?i + (n + ?k) * ?i"
    by (rule tps_add_exact, use fits le in \<open>unfold distrib_right, linarith\<close>)+
  show ?thesis using assms(1) mods adds
    by (cases "dynamic_flags (bs_dgp s) AND dgp_maintenance_flag = 0")
      (simp_all add: get_slot_time_def slot_base_def Let_def distrib_right)
qed

lemma get_slot_at_time_base:
  assumes "slot_fits s 1" "0 < block_interval (parameters (bs_db s))" "t < 2 ^ 32"
  shows "get_slot_at_time fc s t = (t - slot_base s) div block_interval (parameters (bs_db s))"
proof -
  let ?i = "block_interval (parameters (bs_db s))"
  have first: "get_slot_time fc s 1 = slot_base s + ?i" using get_slot_time_base[OF _ assms(1,2)] by simp
  show ?thesis
  proof (cases "t < slot_base s + ?i")
    case True
    then show ?thesis using assms(2) by (simp add: get_slot_at_time_def first[unfolded One_nat_def])
  next
    case False
    have "nat (int t - int (slot_base s + ?i)) = t - slot_base s - ?i" using False by simp
    moreover have "(t - slot_base s - ?i) div ?i + 1 = (t - slot_base s) div ?i"
      using False assms(2) by (simp add: le_div_geq)
    moreover have "(t - slot_base s) div ?i < 2 ^ 32" using assms(3) by (meson div_le_dividend diff_le_self le_less_trans)
    ultimately show ?thesis using False by (simp add: get_slot_at_time_def first[unfolded One_nat_def])
  qed
qed

lemma slot_interval:
  assumes "0 < block_interval (parameters (bs_db s))" "0 < n" "slot_fits s n"
  shows "get_slot_time fc s n \<le> t \<Longrightarrow> t < get_slot_time fc s n + block_interval (parameters (bs_db s)) \<Longrightarrow> t < 2 ^ 32 \<Longrightarrow>
      get_slot_at_time fc s t = n"
    and "t < get_slot_time fc s 1 \<Longrightarrow> get_slot_at_time fc s t = 0"
    and "get_slot_time fc s n < 2 ^ 32"
proof -
  let ?i = "block_interval (parameters (bs_db s))"
  have "(1 + k) * ?i \<le> (n + k) * ?i" for k using assms(2) by (intro mult_le_mono1) simp
  then have fits: "slot_fits s 1" using assms(3) unfolding slot_fits_def by (meson add_left_mono le_less_trans)
  note times = get_slot_time_base[OF assms(2,3,1)] get_slot_time_base[OF zero_less_one fits assms(1)]
  show "get_slot_at_time fc s t = n" if "get_slot_time fc s n \<le> t" "t < get_slot_time fc s n + ?i" "t < 2 ^ 32"
  proof -
    have "(t - slot_base s) div ?i = n" by (rule div_nat_eqI) (use that times(1) in \<open>simp_all add: mult.commute\<close>)
    then show ?thesis using get_slot_at_time_base[OF fits assms(1) that(3)] by simp
  qed
  show "get_slot_at_time fc s t = 0" if "t < get_slot_time fc s 1" using that by (simp add: get_slot_at_time_def)
  show "get_slot_time fc s n < 2 ^ 32"
    using assms(3) slot_base_le[of s] times(1) unfolding slot_fits_def distrib_right by linarith
qed

end

section \<open>Rounds\<close>

lemma shuffle_step_mset:
  assumes "i < length ws"
  shows "mset (shuffle_step now i ws) = mset ws" "length (shuffle_step now i ws) = length ws"
proof -
  have "i + schedule_random now i mod (length ws - i) < length ws"
    using mod_less_divisor[of "length ws - i" "schedule_random now i"] assms by linarith
  then show "mset (shuffle_step now i ws) = mset ws" using assms mset_swap[of "i + schedule_random now i mod (length ws - i)" ws i]
    by (simp add: shuffle_step_def Let_def)
qed (simp add: shuffle_step_def Let_def)

lemma shuffle_mset:
  assumes "\<forall>i \<in> set is. i < length ws"
  shows "mset (fold (shuffle_step now) is ws) = mset ws"
  using assms by (induction "is" arbitrary: ws) (auto simp: shuffle_step_mset)

text \<open>A run of as many slots as there are shuffled witnesses visits each of them once.\<close>

lemma scheduled_window:
  assumes "current_shuffled_witnesses s \<noteq> []" "current_aslot (bs_dgp s) + first + length (current_shuffled_witnesses s) \<le> 2 ^ 64"
  shows "map (get_scheduled_witness s) [first..<first + length (current_shuffled_witnesses s)] =
    map Inr (rotate (current_aslot (bs_dgp s) + first) (current_shuffled_witnesses s))"
proof (rule nth_equalityI)
  let ?ws = "current_shuffled_witnesses s"
  fix i assume "i < length (map (get_scheduled_witness s) [first..<first + length ?ws])"
  then have i: "i < length ?ws" by simp
  then have "(current_aslot (bs_dgp s) + (first + i)) mod 2 ^ 64 = current_aslot (bs_dgp s) + first + i"
    using assms(2) by simp
  then show "map (get_scheduled_witness s) [first..<first + length ?ws] ! i =
      map Inr (rotate (current_aslot (bs_dgp s) + first) ?ws) ! i"
    using i assms(1) by (simp add: get_scheduled_witness_def nth_rotate add.commute)
qed simp

lemma update_schedule_mset:
  assumes "update_witness_schedule s = Inr s'" "head_block_number (bs_dgp s) mod length (active_witnesses s) = 0"
  shows "mset (current_shuffled_witnesses s') = mset (active_witnesses s)" "bs_dgp s' = bs_dgp s" "active_witnesses s \<noteq> []"
proof -
  have "mset (fold (shuffle_step (head_block_time (bs_db s))) [0..<length (active_witnesses s)] (active_witnesses s)) =
      mset (active_witnesses s)" by (rule shuffle_mset) simp
  with assms show "mset (current_shuffled_witnesses s') = mset (active_witnesses s)" "bs_dgp s' = bs_dgp s"
    "active_witnesses s \<noteq> []"
    by (auto simp: update_witness_schedule_def split: if_splits)
qed

section \<open>Missed blocks\<close>

lemma charge_missed_slot_find:
  assumes "charge_missed_slot i s = Inr s'"
  obtains w wit where "get_scheduled_witness s (i + 1) = Inr w" "store_find (witnesses (bs_db s)) w = Some wit"
    "bs_dgp s' = bs_dgp s" "current_shuffled_witnesses s' = current_shuffled_witnesses s"
    "\<And>v. store_find (witnesses (bs_db s')) v =
      (if v = w then Some (wit\<lparr>total_missed := to_int64 (total_missed wit + 1)\<rparr>) else store_find (witnesses (bs_db s)) v)"
  using assms by (auto simp: charge_missed_slot_def modify_witness_def store_find_put intro!: that)

text \<open>The witnesses of a list of slots, when no witness has two of them, are charged one missed block each.\<close>

definition charged :: "'t block_state \<Rightarrow> nat list \<Rightarrow> nat \<Rightarrow> witness_object option" where
  "charged s is w =
     (if \<exists>i \<in> set is. get_scheduled_witness s (i + 1) = Inr w
      then map_option (\<lambda>wit. wit\<lparr>total_missed := to_int64 (total_missed wit + 1)\<rparr>) (store_find (witnesses (bs_db s)) w)
      else store_find (witnesses (bs_db s)) w)"

lemma charge_slots:
  assumes "fold_res charge_missed_slot is s = Inr s'" "distinct (map (\<lambda>i. get_scheduled_witness s (i + 1)) is)"
  shows "store_find (witnesses (bs_db s')) v = charged s is v"
  using assms
proof (induction "is" arbitrary: s)
  case (Cons i "is")
  from Cons.prems(1) obtain s1 where s1: "charge_missed_slot i s = Inr s1" "fold_res charge_missed_slot is s1 = Inr s'" by auto
  from s1(1) obtain w wit where w: "get_scheduled_witness s (i + 1) = Inr w" "store_find (witnesses (bs_db s)) w = Some wit"
    "bs_dgp s1 = bs_dgp s" "current_shuffled_witnesses s1 = current_shuffled_witnesses s"
    "\<And>v. store_find (witnesses (bs_db s1)) v =
      (if v = w then Some (wit\<lparr>total_missed := to_int64 (total_missed wit + 1)\<rparr>) else store_find (witnesses (bs_db s)) v)"
    by (rule charge_missed_slot_find) blast
  have same: "get_scheduled_witness s1 = get_scheduled_witness s" using w(3,4) by (simp add: get_scheduled_witness_def fun_eq_iff)
  have "Inr w \<notin> set (map (\<lambda>i. get_scheduled_witness s (i + 1)) is)" using Cons.prems(2) w(1) by simp
  then have "\<not> (\<exists>j \<in> set is. get_scheduled_witness s (j + 1) = Inr w)" by (metis (no_types, lifting) image_eqI list.set_map)
  moreover have "store_find (witnesses (bs_db s')) v = charged s1 is v"
    by (rule Cons.IH[OF s1(2)]) (use Cons.prems(2) same in simp)
  ultimately show ?case using w(1,2,5) by (auto simp: charged_def same)
qed (simp add: charged_def)

section \<open>The check ahead of a block\<close>

lemma witness_keys_spec:
  "witness_keys d ws = Inr ks \<Longrightarrow> length ks = length ws \<and>
    (\<forall>i < length ws. \<exists>wit. store_find (witnesses d) (ws ! i) = Some wit \<and> ks ! i = (ws ! i, signing_key wit))"
proof (induction ws arbitrary: ks)
  case (Cons w ws)
  from Cons.prems obtain wit ks' where ks: "store_find (witnesses d) w = Some wit" "witness_keys d ws = Inr ks'"
    "ks = (w, signing_key wit) # ks'" by auto
  from Cons.IH[OF ks(2)] ks(1,3) show ?case by (auto simp: less_Suc_eq_0_disj)
qed simp

lemma slot_after_first:
  assumes "fc_safe fc" "get_slot_time fc s 1 \<le> t" "t < tps_maximum"
  defines "x \<equiv> nat (tps_diff fc t (get_slot_time fc s 1)) div block_interval (parameters (bs_db s))"
  shows "x mod 2 ^ 32 = x" "get_slot_at_time fc s t = x + 1"
proof -
  have "nat (tps_diff fc t (get_slot_time fc s 1)) \<le> t" using fc_safe.tps_diff_exact[OF assms(1)] by simp
  then have "x \<le> t" unfolding x_def by (rule le_trans[OF div_le_dividend])
  then have "x + 1 < 2 ^ 32" using assms(3) by (simp add: tps_maximum_def)
  then show "x mod 2 ^ 32 = x" "get_slot_at_time fc s t = x + 1"
    using assms(2) by (simp_all add: get_slot_at_time_def x_def)
qed

text \<open>Both checks look at the same entry of the shuffled witnesses.\<close>

lemma verify_iff:
  assumes "fc_safe fc" "update_witnesses fc s it = Inr it'" "fi_scheduled_witnesses it = None" "blk_timestamp b < tps_maximum"
  shows "verify_signing_witness fc lib (block_interval (parameters (bs_db s))) b it' = Inr () \<longleftrightarrow>
    0 < get_slot_at_time fc s (blk_timestamp b) \<and>
    (\<exists>w wit. get_scheduled_witness s (get_slot_at_time fc s (blk_timestamp b)) = Inr w \<and> blk_witness b = w \<and>
      store_find (witnesses (bs_db s)) w = Some wit \<and> block_signee lib b = signing_key wit)"
proof -
  let ?ws = "current_shuffled_witnesses s" and ?t = "blk_timestamp b"
  from assms(2,3) obtain ks where ks: "witness_keys (bs_db s) ?ws = Inr ks"
    and it': "fi_next_block_aslot it' = (current_aslot (bs_dgp s) + 1) mod 2 ^ 64"
      "fi_next_block_time it' = get_slot_time fc s 1" "fi_scheduled_witnesses it' = Some ks"
    by (auto simp: update_witnesses_def)
  note keys = witness_keys_spec[OF ks]
  show ?thesis
  proof (cases "get_slot_time fc s 1 \<le> ?t \<and> ?ws \<noteq> []")
    case True
    let ?x = "nat (tps_diff fc ?t (get_slot_time fc s 1)) div block_interval (parameters (bs_db s))"
    have slot: "?x mod 2 ^ 32 = ?x" "get_slot_at_time fc s ?t = ?x + 1"
      using slot_after_first[OF assms(1) conjunct1[OF True] assms(4)] by simp_all
    let ?i = "(current_aslot (bs_dgp s) + (?x + 1)) mod 2 ^ 64 mod length ?ws"
    have i: "((current_aslot (bs_dgp s) + 1) mod 2 ^ 64 + ?x) mod 2 ^ 64 mod length ks = ?i"
      unfolding mod_add_left_eq conjunct1[OF keys] by (simp only: add.assoc add.commute[of 1])
    have "?i < length ?ws" using True by simp
    with keys obtain wit where wit: "store_find (witnesses (bs_db s)) (?ws ! ?i) = Some wit" "ks ! ?i = (?ws ! ?i, signing_key wit)"
      by blast
    have "ks \<noteq> []" using keys True by auto
    then have "verify_signing_witness fc lib (block_interval (parameters (bs_db s))) b it' = Inr () \<longleftrightarrow>
        blk_witness b = ?ws ! ?i \<and> block_signee lib b = signing_key wit"
      using True unfolding verify_signing_witness_def Let_def it' slot(1) option.case i wit(2) by auto
    moreover have "get_scheduled_witness s (get_slot_at_time fc s ?t) = Inr (?ws ! ?i)"
      using True unfolding get_scheduled_witness_def Let_def slot(2) by simp
    ultimately show ?thesis using wit(1) slot(2) by auto
  next
    case False
    then show ?thesis using keys by (auto simp: verify_signing_witness_def it' get_slot_at_time_def get_scheduled_witness_def)
  qed
qed

section \<open>Irreversible blocks\<close>

lemma confirmed_nums_length: "confirmed_nums d ws = Inr ns \<Longrightarrow> length ns = length ws"
  by (induction ws arbitrary: ns) auto

text \<open>How many elements of a sorted list are at least a given one.\<close>

lemma sorted_count_ge:
  fixes xs :: "'a :: linorder list"
  assumes "sorted xs" "k < length xs"
  shows "length xs - k \<le> length (filter (\<lambda>x. xs ! k \<le> x) xs)"
proof -
  have "filter (\<lambda>x. xs ! k \<le> x) (drop k xs) = drop k xs"
    by (rule filter_True) (use assms in \<open>auto simp: in_set_conv_nth sorted_iff_nth_mono\<close>)
  then have "length (filter (\<lambda>x. xs ! k \<le> x) (drop k xs)) = length xs - k" by simp
  moreover have "length (filter (\<lambda>x. xs ! k \<le> x) xs) =
      length (filter (\<lambda>x. xs ! k \<le> x) (take k xs)) + length (filter (\<lambda>x. xs ! k \<le> x) (drop k xs))"
    by (metis append_take_drop_id filter_append length_append)
  ultimately show ?thesis by simp
qed

lemma sorted_count_gt:
  fixes xs :: "'a :: linorder list"
  assumes "sorted xs" "k < length xs" "xs ! k < m"
  shows "length (filter (\<lambda>x. m \<le> x) xs) \<le> length xs - Suc k"
proof -
  have "filter (\<lambda>x. m \<le> x) (take (Suc k) xs) = []"
    using assms by (auto simp: filter_empty_conv in_set_conv_nth sorted_iff_nth_mono) (metis le_less_trans less_Suc_eq_le less_le_trans not_less)
  moreover have "length (filter (\<lambda>x. m \<le> x) xs) =
      length (filter (\<lambda>x. m \<le> x) (take (Suc k) xs)) + length (filter (\<lambda>x. m \<le> x) (drop (Suc k) xs))"
    by (metis append_take_drop_id filter_append length_append)
  moreover have "length (filter (\<lambda>x. m \<le> x) (drop (Suc k) xs)) \<le> length xs - Suc k"
    by (metis length_drop length_filter_le)
  ultimately show ?thesis by simp
qed

lemma length_filter_sort: "length (filter P (sort xs)) = length (filter P xs)"
  by (metis mset_filter mset_sort size_mset)

text \<open>The number of active witnesses that have confirmed a block number, and that seven of ten have.\<close>

definition confirmations :: "'t block_state \<Rightarrow> nat \<Rightarrow> nat" where
  "confirmations s n = length (filter (\<lambda>w. case store_find (witnesses (bs_db s)) w of
     None \<Rightarrow> False | Some wit \<Rightarrow> n \<le> last_confirmed_block_num wit) (active_witnesses s))"

lemma confirmations_nums:
  assumes "confirmed_nums (bs_db s) (active_witnesses s) = Inr ns"
  shows "confirmations s n = length (filter (\<lambda>x. n \<le> x) ns)"
proof -
  have "length (filter (\<lambda>w. case store_find (witnesses d) w of None \<Rightarrow> False | Some wit \<Rightarrow> n \<le> last_confirmed_block_num wit) ws) =
      length (filter (\<lambda>x. n \<le> x) ns)" if "confirmed_nums d ws = Inr ns" for d ws ns
    using that
  proof (induction ws arbitrary: ns)
    case (Cons w ws)
    then show ?case by (auto simp: store_get_def split: option.splits)
  qed simp
  then show ?thesis using assms by (simp add: confirmations_def)
qed

lemma irreversible_threshold:
  fixes ns :: "nat list"
  assumes "ns \<noteq> []" "k = 3000 * length ns div 10000"
  shows "7 * length ns \<le> 10 * length (filter (\<lambda>x. sort ns ! k \<le> x) ns)"
    and "7 * length ns \<le> 10 * length (filter (\<lambda>x. m \<le> x) ns) \<Longrightarrow> m \<le> sort ns ! k"
proof -
  have k: "k < length (sort ns)" "10 * k \<le> 3 * length ns" "3 * length ns < 10 * Suc k"
    using assms less_mult_imp_div_less[of "3 * length ns" "length ns" 10] by auto
  show "7 * length ns \<le> 10 * length (filter (\<lambda>x. sort ns ! k \<le> x) ns)"
    using sorted_count_ge[OF sorted_sort k(1)] k(2) by (simp add: length_filter_sort)
  show "m \<le> sort ns ! k" if "7 * length ns \<le> 10 * length (filter (\<lambda>x. m \<le> x) ns)"
  proof (rule ccontr)
    assume "\<not> m \<le> sort ns ! k"
    then have "length (filter (\<lambda>x. m \<le> x) ns) \<le> length ns - Suc k"
      using sorted_count_gt[OF sorted_sort k(1), of m] by (simp add: length_filter_sort)
    then show False using that k(1,3) by simp
  qed
qed

section \<open>The pay of a witness\<close>

lemma gap_step_budget: "gap_step d (d\<lparr>witness_budget := b\<rparr>) (amt_at CORE_ASSET (b - witness_budget d))"
  by (simp add: gap_step_def gap_defs wf_defs balances_nonneg_def budget_total_def amt_at_def)

context fc_safe
begin

lemma gap_step_witness_pay:
  assumes "deposit_witness_pay fc w amt d = Inr d'"
  shows "gap_step d d' (amt_at CORE_ASSET amt)"
proof (cases "amt = 0")
  case True
  then show ?thesis using assms gap_step_refl by (auto simp: deposit_witness_pay_def)
next
  case False
  with assms obtain wit vb d1 where lazy: "deposit_lazy_vesting fc (pay_vb wit) amt
      (witness_pay_vesting_seconds (parameters d)) Vbt_witness (witness_account wit) True d = Inr (vb, d1)"
    and d': "d' = (case vb of None \<Rightarrow> d1 | Some vbid \<Rightarrow> d1\<lparr>witnesses := store_put (witnesses d1) w (wit\<lparr>pay_vb := Some vbid\<rparr>)\<rparr>)"
    by (auto simp: deposit_witness_pay_def split: option.splits)
  have "conserves d1 d'" by (cases vb) (auto simp: d' gap_step_refl)
  from gap_step_then[OF gap_step_deposit_lazy[OF lazy] this] show ?thesis by simp
qed

lemma pay_signing_witness_conserves:
  assumes "pay_signing_witness fc w aslot num d = Inr d'"
  shows "conserves d d'"
proof -
  let ?pay = "min (witness_pay_per_block (parameters d)) (witness_budget d)"
  from assms obtain d1 x where d1: "deposit_witness_pay fc w ?pay (d\<lparr>witness_budget := witness_budget d - ?pay\<rparr>) = Inr d1"
    and d': "d' = d1\<lparr>witnesses := x\<rparr>"
    by (auto simp: pay_signing_witness_def modify_witness_def Let_def)
  have "gap_step d d1 (\<lambda>_. 0)"
    by (rule gap_step_then[OF gap_step_budget gap_step_witness_pay[OF d1]]) (simp add: amt_at_def)
  then show ?thesis unfolding d' by (rule conserves_trans[OF _ gap_step_other(2)])
qed

lemma update_signing_witness_conserves:
  "update_signing_witness fc w b s = Inr s' \<Longrightarrow> conserves (bs_db s) (bs_db s')"
  by (auto simp: update_signing_witness_def Let_def intro: pay_signing_witness_conserves)

lemma update_witness_missed_conserves:
  assumes "update_witness_missed_blocks fc b s = Inr (missed, s')"
  shows "conserves (bs_db s) (bs_db s')"
proof -
  have step: "conserves (bs_db s) (bs_db t')" if "conserves (bs_db s) (bs_db t)" "charge_missed_slot i t = Inr t'" for i t t'
  proof -
    have "\<exists>x. bs_db t' = (bs_db t)\<lparr>witnesses := x\<rparr>" using that(2) by (auto simp: charge_missed_slot_def modify_witness_def)
    then show ?thesis using conserves_trans[OF that(1) gap_step_other(2)] by auto
  qed
  have "conserves (bs_db s) (bs_db t')" if "fold_res charge_missed_slot is s = Inr t'" for "is" t'
    by (rule fold_res_invariant[OF _ _ that, where P = "\<lambda>t. conserves (bs_db s) (bs_db t)"]) (use step gap_step_refl in auto)
  then show ?thesis using assms gap_step_refl by (auto simp: update_witness_missed_blocks_def Let_def split: if_splits)
qed

end

section \<open>Properties\<close>

definition sample_witness :: "nat \<Rightarrow> witness_object" where
  "sample_witness n = \<lparr>witness_account = 7, pay_vb = None, last_aslot = 0, signing_key = n, total_missed = 0,
     last_confirmed_block_num = n\<rparr>"

definition sample_block_state :: "nat block_state" where
  "sample_block_state = \<lparr>bs_db = (sample_db 100)\<lparr>witness_budget := 10,
       witnesses := \<lparr>items = [(1, sample_witness 4), (2, sample_witness 6), (3, sample_witness 5)], next_id = 4\<rparr>\<rparr>,
     bs_dgp = \<lparr>head_block_number = 6, head_block_id = sample_genesis, current_witness = 1, recently_missed_count = 0,
       current_aslot = 7, recent_slots_filled = 1, dynamic_flags = 1, last_irreversible_block_num = 2\<rparr>,
     active_witnesses = [1, 2, 3], current_shuffled_witnesses = [2, 3, 1], checkpoints = [], undo_max_size = 10,
     bs_fork_db = new_fork_database\<rparr>"

lemmas sample_schedule_defs = sample_block_state_def sample_witness_def sample_defs

text \<open>
  C13: \<open>database::get_slot_at_time\<close> is the inverse of \<open>database::get_slot_time\<close>: the times from the time of a
  slot up to the next are exactly in that slot, also over the gap of a maintenance block, and the times
  before the first slot are in slot 0, for all slots whose time can be represented.
\<close>

theorem slot_time_roundtrip:
  assumes "fc_safe fc" "0 < block_interval (parameters (bs_db s))" "0 < n" "slot_fits s n"
  shows "get_slot_at_time fc s (get_slot_time fc s n) = n \<and>
    (\<forall>t < 2 ^ 32. get_slot_time fc s n \<le> t \<and> t < get_slot_time fc s n + block_interval (parameters (bs_db s)) \<longrightarrow>
      get_slot_at_time fc s t = n) \<and>
    (\<forall>t < get_slot_time fc s 1. get_slot_at_time fc s t = 0)"
  using fc_safe.slot_interval[OF assms] assms(2) by simp

theorem slot_time_roundtrip_witness:
  "get_slot_time fc_ref sample_block_state 2 = 125 \<and> get_slot_at_time fc_ref sample_block_state 125 = 2 \<and>
   get_slot_at_time fc_ref sample_block_state 129 = 2"
proof -
  have hyps: "0 < block_interval (parameters (bs_db sample_block_state))" "slot_fits sample_block_state 2"
    by (simp_all add: slot_fits_def sample_schedule_defs)
  have t: "get_slot_time fc_ref sample_block_state 2 = 125"
    by (simp add: get_slot_time_def sample_schedule_defs dgp_maintenance_flag_def fc_ref_def)
  have "block_interval (parameters (bs_db sample_block_state)) = 5" by (simp add: sample_schedule_defs)
  with t slot_time_roundtrip[OF fc_ref.fc_safe_axioms hyps(1) _ hyps(2)] show ?thesis by simp
qed

text \<open>
  C8: At the beginning of a round \<open>database::update_witness_schedule\<close> permutes the active witnesses, so that in
  every run of as many consecutive slots as there are active witnesses each of them is scheduled once.
\<close>

theorem schedule_round_fair:
  assumes "update_witness_schedule s = Inr s'"
    and "head_block_number (bs_dgp s) mod length (active_witnesses s) = 0"
    and "current_aslot (bs_dgp s) + first + length (active_witnesses s) \<le> 2 ^ 64"
  shows "mset (map (get_scheduled_witness s') [first..<first + length (active_witnesses s)]) =
    mset (map Inr (active_witnesses s))"
proof -
  note u = update_schedule_mset[OF assms(1,2)]
  have len: "length (current_shuffled_witnesses s') = length (active_witnesses s)" using u(1) by (metis size_mset)
  then have ne: "current_shuffled_witnesses s' \<noteq> []" using u(3) by auto
  have "mset (rotate n (current_shuffled_witnesses s')) = mset (active_witnesses s)" for n using u(1)
    by (metis append_take_drop_id mset_append rotate_drop_take union_commute)
  moreover have "map (get_scheduled_witness s') [first..<first + length (active_witnesses s)] =
      map Inr (rotate (current_aslot (bs_dgp s) + first) (current_shuffled_witnesses s'))"
    using scheduled_window[OF ne, of first] u(2) assms(3) len by simp
  ultimately show ?thesis by (simp only: mset_map)
qed

theorem schedule_round_fair_witness:
  "\<exists>s'. update_witness_schedule sample_block_state = Inr s' \<and>
    mset (map (get_scheduled_witness s') [5..<8]) = {#Inr 1, Inr 2, Inr 3#}"
proof -
  obtain s' where s': "update_witness_schedule sample_block_state = Inr s'"
    by (simp add: update_witness_schedule_def sample_block_state_def)
  have "head_block_number (bs_dgp sample_block_state) mod length (active_witnesses sample_block_state) = 0"
    "current_aslot (bs_dgp sample_block_state) + 5 + length (active_witnesses sample_block_state) \<le> 2 ^ 64"
    "active_witnesses sample_block_state = [1, 2, 3]" by (simp_all add: sample_block_state_def)
  with schedule_round_fair[OF s', of 5] s' show ?thesis by auto
qed

text \<open>
  C15: \<open>database::update_witness_missed_blocks\<close> returns the number of slots between the head block and the new
  block, and when these are fewer than a round adds one missed block to each witness that was scheduled in
  them and changes no other witness; after a longer gap no witness is charged.
\<close>

theorem missed_blocks_charged:
  assumes "update_witness_missed_blocks fc b s = Inr (missed, s')" "distinct (current_shuffled_witnesses s)"
    and "current_aslot (bs_dgp s) + 1 + length (current_shuffled_witnesses s) \<le> 2 ^ 64"
  shows "get_slot_at_time fc s (blk_timestamp b) = missed + 1 \<and>
    (\<forall>w. store_find (witnesses (bs_db s')) w =
      (if missed < length (current_shuffled_witnesses s) \<and> (\<exists>i. 1 \<le> i \<and> i \<le> missed \<and> get_scheduled_witness s i = Inr w)
       then map_option (\<lambda>wit. wit\<lparr>total_missed := to_int64 (total_missed wit + 1)\<rparr>) (store_find (witnesses (bs_db s)) w)
       else store_find (witnesses (bs_db s)) w))"
proof (cases "missed < length (current_shuffled_witnesses s)")
  case True
  let ?n = "length (current_shuffled_witnesses s)"
  from assms(1) True have run: "fold_res charge_missed_slot [0..<missed] s = Inr s'"
    and slot: "get_slot_at_time fc s (blk_timestamp b) = missed + 1"
    by (auto simp: update_witness_missed_blocks_def Let_def split: if_splits)
  have "current_shuffled_witnesses s \<noteq> []" using True by auto
  from scheduled_window[OF this assms(3)] have win: "distinct (map (get_scheduled_witness s) [1..<1 + ?n])"
    using assms(2) by (simp add: distinct_map)
  have "map (\<lambda>i. get_scheduled_witness s (i + 1)) [0..<missed] = take missed (map (get_scheduled_witness s) [1..<1 + ?n])"
    using True by (intro nth_equalityI) (simp_all add: add.commute)
  then have "distinct (map (\<lambda>i. get_scheduled_witness s (i + 1)) [0..<missed])" using win by (metis distinct_take)
  from charge_slots[OF run this] have find: "store_find (witnesses (bs_db s')) w = charged s [0..<missed] w" for w .
  have "(\<exists>i \<in> set [0..<missed]. get_scheduled_witness s (i + 1) = Inr w) \<longleftrightarrow>
      (\<exists>i. 1 \<le> i \<and> i \<le> missed \<and> get_scheduled_witness s i = Inr w)" for w
    by (metis One_nat_def Suc_eq_plus1 Suc_le_D Suc_le_eq Suc_less_eq atLeastLessThan_iff atLeast_upt le_imp_less_Suc
        set_upt zero_le le_add2)
  then show ?thesis using slot True find by (simp add: charged_def)
next
  case False
  then show ?thesis using assms(1) by (auto simp: update_witness_missed_blocks_def Let_def split: if_splits)
qed

theorem missed_blocks_charged_witness:
  "\<exists>s'. update_witness_missed_blocks fc_ref (sample_block sample_genesis 130) sample_block_state = Inr (2, s') \<and>
     map_option total_missed (store_find (witnesses (bs_db s')) 1) = Some 1 \<and>
     map_option total_missed (store_find (witnesses (bs_db s')) 3) = Some 0"
proof -
  let ?s = sample_block_state and ?b = "sample_block sample_genesis 130"
  have slot: "get_slot_at_time fc_ref ?s (blk_timestamp ?b) = 3"
    by (simp add: get_slot_at_time_def get_slot_time_def sample_schedule_defs sample_block_def dgp_maintenance_flag_def fc_ref_def)
  have sched: "get_scheduled_witness ?s 1 = Inr 1" "get_scheduled_witness ?s 2 = Inr 2"
    by (simp_all add: get_scheduled_witness_def sample_block_state_def)
  have len: "length (current_shuffled_witnesses ?s) = 3" by (simp add: sample_block_state_def)
  have "\<exists>s'. fold_res charge_missed_slot [0..<2] ?s = Inr s'"
    by (simp add: upt_rec charge_missed_slot_def modify_witness_def get_scheduled_witness_def sample_schedule_defs store_get_def
        store_find_def store_put_def)
  then obtain s' where "fold_res charge_missed_slot [0..<2] ?s = Inr s'" by blast
  with slot len have run: "update_witness_missed_blocks fc_ref ?b ?s = Inr (2, s')"
    by (simp add: update_witness_missed_blocks_def)
  have "distinct (current_shuffled_witnesses ?s)" "current_aslot (bs_dgp ?s) + 1 + length (current_shuffled_witnesses ?s) \<le> 2 ^ 64"
    by (simp_all add: sample_block_state_def)
  note charged = missed_blocks_charged[OF run this, THEN conjunct2, rule_format]
  have not3: "\<not> (\<exists>i. 1 \<le> i \<and> i \<le> 2 \<and> get_scheduled_witness ?s i = Inr 3)"
  proof
    assume "\<exists>i. 1 \<le> i \<and> i \<le> 2 \<and> get_scheduled_witness ?s i = Inr 3"
    then obtain i where i: "1 \<le> i" "i \<le> 2" "get_scheduled_witness ?s i = Inr 3" by blast
    from i(1,2) have "i = 1 \<or> i = 2" by linarith
    then show False using i(3) sched by auto
  qed
  have yes1: "\<exists>i. 1 \<le> i \<and> i \<le> 2 \<and> get_scheduled_witness ?s i = Inr 1" using sched(1) by (intro exI[of _ 1]) simp
  have "store_find (witnesses (bs_db ?s)) 1 = Some (sample_witness 4)" "store_find (witnesses (bs_db ?s)) 3 = Some (sample_witness 5)"
    by (simp_all add: sample_block_state_def store_find_def)
  then show ?thesis using run charged[of 1] charged[of 3] not3 yes1 len by (simp add: sample_witness_def to_int64_def)
qed

text \<open>
  C10: The check of the signing witness that a node makes before it applies a recent block, with the schedule
  cached in the fork database by \<open>database::update_witnesses\<close>, agrees with the check of the block header against
  the state: for a block on top of the current head with a later time, \<open>verify_signing_witness\<close> succeeds exactly
  when \<open>validate_block_header\<close> does.
\<close>

theorem early_witness_check_agrees:
  assumes "fc_safe fc" "update_witnesses fc s it = Inr it'" "fi_scheduled_witnesses it = None"
    and "blk_timestamp b < tps_maximum" "head_block_id (bs_dgp s) = blk_previous b" "head_block_time (bs_db s) < blk_timestamp b"
  shows "verify_signing_witness fc lib (block_interval (parameters (bs_db s))) b it' = Inr () \<longleftrightarrow>
    (\<exists>witness. validate_block_header fc lib 0 b s = Inr witness)"
  unfolding verify_iff[OF assms(1-4)]
  using assms(5,6) by (auto simp: validate_block_header_def Let_def)

theorem early_witness_check_agrees_witness:
  "\<exists>it' witness. update_witnesses fc_ref sample_block_state (fork_item_of sample_block_lib sample_b0) = Inr it' \<and>
     verify_signing_witness fc_ref sample_block_lib 5 (sample_block sample_genesis 120\<lparr>blk_witness := 1\<rparr>) it' = Inl Assert_exception \<and>
     verify_signing_witness fc_ref (sample_block_lib\<lparr>block_signee := \<lambda>_. 4\<rparr>) 5 (sample_block sample_genesis 120\<lparr>blk_witness := 1\<rparr>) it' = Inr () \<and>
     validate_block_header fc_ref (sample_block_lib\<lparr>block_signee := \<lambda>_. 4\<rparr>) 0 (sample_block sample_genesis 120\<lparr>blk_witness := 1\<rparr>)
       sample_block_state = Inr witness"
proof -
  let ?b = "sample_block sample_genesis 120\<lparr>blk_witness := 1\<rparr>" and ?lib = "sample_block_lib\<lparr>block_signee := \<lambda>_. 4\<rparr>"
  let ?it' = "(fork_item_of sample_block_lib sample_b0)\<lparr>fi_next_block_aslot := 8, fi_next_block_time := 120,
    fi_scheduled_witnesses := Some [(2, 6), (3, 5), (1, 4)]\<rparr>"
  have upd: "update_witnesses fc_ref sample_block_state (fork_item_of sample_block_lib sample_b0) = Inr ?it'"
    by (simp add: update_witnesses_def fork_item_of_def sample_schedule_defs store_get_def store_find_def get_slot_time_def
        dgp_maintenance_flag_def fc_ref_def)
  have ver: "verify_signing_witness fc_ref ?lib 5 ?b ?it' = Inr ()"
    "verify_signing_witness fc_ref sample_block_lib 5 ?b ?it' = Inl Assert_exception"
    by (simp_all add: verify_signing_witness_def fork_item_of_def sample_block_def sample_block_lib_def fc_ref_def)
  have h: "fi_scheduled_witnesses (fork_item_of sample_block_lib sample_b0) = None" "blk_timestamp ?b < tps_maximum"
    "head_block_id (bs_dgp sample_block_state) = blk_previous ?b" "head_block_time (bs_db sample_block_state) < blk_timestamp ?b"
    "block_interval (parameters (bs_db sample_block_state)) = 5"
    by (simp_all add: fork_item_of_def sample_block_def sample_schedule_defs)
  from early_witness_check_agrees[OF fc_ref.fc_safe_axioms upd h(1-4), of ?lib] ver(1) h(5) obtain witness where
    "validate_block_header fc_ref ?lib 0 ?b sample_block_state = Inr witness" by auto
  with upd ver show ?thesis by blast
qed

text \<open>
  C9: \<open>database::update_last_irreversible_block\<close> never moves the last irreversible block back; a block number
  it moves to has been confirmed by at least seven of ten active witnesses, and every number that at least
  seven of ten have confirmed is irreversible afterwards.
\<close>

theorem irreversible_block_supported:
  assumes "update_last_irreversible_block s = Inr s'"
  shows "last_irreversible_block_num (bs_dgp s) \<le> last_irreversible_block_num (bs_dgp s') \<and>
    (last_irreversible_block_num (bs_dgp s') \<noteq> last_irreversible_block_num (bs_dgp s) \<longrightarrow>
      7 * length (active_witnesses s) \<le> 10 * confirmations s (last_irreversible_block_num (bs_dgp s'))) \<and>
    (\<forall>n. 7 * length (active_witnesses s) \<le> 10 * confirmations s n \<longrightarrow> n \<le> last_irreversible_block_num (bs_dgp s'))"
proof -
  from assms obtain ns where ns: "confirmed_nums (bs_db s) (active_witnesses s) = Inr ns" "ns \<noteq> []"
    and s': "last_irreversible_block_num (bs_dgp s') = max (last_irreversible_block_num (bs_dgp s))
      (sort ns ! (3000 * length ns div 10000))"
    by (auto simp: update_last_irreversible_block_def Let_def GRAPHENE_100_PERCENT_def GRAPHENE_IRREVERSIBLE_THRESHOLD_def
        split: if_splits)
  have "length ns = length (active_witnesses s)" using confirmed_nums_length[OF ns(1)] .
  with irreversible_threshold[OF ns(2) refl] have
    t: "7 * length (active_witnesses s) \<le> 10 * confirmations s (sort ns ! (3000 * length ns div 10000))"
    "\<And>n. 7 * length (active_witnesses s) \<le> 10 * confirmations s n \<Longrightarrow> n \<le> sort ns ! (3000 * length ns div 10000)"
    unfolding confirmations_nums[OF ns(1)] by simp_all
  show ?thesis unfolding s'
  proof (intro conjI impI allI)
    show "n \<le> max (last_irreversible_block_num (bs_dgp s)) (sort ns ! (3000 * length ns div 10000))"
      if "7 * length (active_witnesses s) \<le> 10 * confirmations s n" for n using t(2)[OF that] by (rule max.coboundedI2)
  qed (use t(1) in \<open>auto simp: max_def split: if_splits\<close>)
qed

theorem irreversible_block_supported_witness:
  "\<exists>s'. update_last_irreversible_block sample_block_state = Inr s' \<and> last_irreversible_block_num (bs_dgp s') = 4 \<and>
     7 * 3 \<le> 10 * confirmations sample_block_state 4"
proof -
  obtain s' where run: "update_last_irreversible_block sample_block_state = Inr s'"
    and n: "last_irreversible_block_num (bs_dgp s') = 4"
    by (simp add: update_last_irreversible_block_def sample_schedule_defs store_get_def store_find_def
        GRAPHENE_100_PERCENT_def GRAPHENE_IRREVERSIBLE_THRESHOLD_def)
  from irreversible_block_supported[OF run] run n show ?thesis by (auto simp: sample_block_state_def)
qed

end
