(* ===== verification/Limit_Order.thy ===== *)
theory Limit_Order
  imports Fees
begin

text \<open>
  Limit orders: \<open>limit_order_object\<close> (\<open>market_object.hpp\<close>), the cancellation of an order with the refund of its
  deferred fee, the removal of orders that are too small (\<open>libraries/chain/db_market.cpp\<close>), and the amounts
  for which two limit orders are matched.

  The fee of a cancellation is the one the fee schedule has for \<open>limit_order_cancel_operation\<close>, an argument.
  Filling an order, which can create further orders by itself, the matching with call orders and settlement
  requests and the loop over the book are not modelled.
\<close>

definition HARDFORK_CORE_184_TIME :: nat where "HARDFORK_CORE_184_TIME = 1532008920"
definition HARDFORK_CORE_342_TIME :: nat where "HARDFORK_CORE_342_TIME = 1532008920"
definition HARDFORK_CORE_604_TIME :: nat where "HARDFORK_CORE_604_TIME = 1532008920"

section \<open>Orders\<close>

definition amount_for_sale :: "limit_order_object \<Rightarrow> asset" where
  "amount_for_sale ord = ASSET (lo_for_sale ord) (asset_id (base (lo_sell_price ord)))"

definition amount_to_receive :: "limit_order_object \<Rightarrow> asset result" where
  "amount_to_receive ord = asset_mul (amount_for_sale ord) (lo_sell_price ord)"

definition sell_asset_id :: "limit_order_object \<Rightarrow> asset_id_type" where
  "sell_asset_id ord = asset_id (base (lo_sell_price ord))"

definition receive_asset_id :: "limit_order_object \<Rightarrow> asset_id_type" where
  "receive_asset_id ord = asset_id (quote (lo_sell_price ord))"

definition get_market :: "limit_order_object \<Rightarrow> asset_id_type \<times> asset_id_type" where
  "get_market ord =
     (let tmp = (sell_asset_id ord, receive_asset_id ord) in if snd tmp < fst tmp then (snd tmp, fst tmp) else tmp)"

section \<open>Cancelling an order\<close>

text \<open>Removing an order from the book; the take profit order it is linked with is unlinked.\<close>

definition cleanup_and_remove_limit_order :: "nat \<Rightarrow> database \<Rightarrow> database result" where
  "cleanup_and_remove_limit_order i d =
     bnd (store_get (limit_orders d) i) (\<lambda>ord.
     bnd (case lo_take_profit_order_id ord of
            None \<Rightarrow> Inr d
          | Some t \<Rightarrow>
              bnd (store_get (limit_orders d) t) (\<lambda>tp.
              Inr (d\<lparr>limit_orders := store_put (limit_orders d) t (tp\<lparr>lo_take_profit_order_id := None\<rparr>)\<rparr>))) (\<lambda>d.
     Inr (d\<lparr>limit_orders := store_del (limit_orders d) i\<rparr>)))"

text \<open>The part of the cancellation fee that is taken from the originally paid fee, rounded up.\<close>

definition cancel_fee_amount :: "share_type \<Rightarrow> share_type \<Rightarrow> share_type \<Rightarrow> share_type" where
  "cancel_fee_amount paid core_cancel_fee deferred =
     to_int64 (u128_sub (u128_add (u128_mul (u128 paid) (u128 core_cancel_fee)) (u128 deferred)) 1 div u128 deferred)"

text \<open>The deduction of a cancellation fee, with the deferred fees that are left.\<close>

definition deduct_cancel_fee ::
    "fc_lib \<Rightarrow> share_type \<Rightarrow> limit_order_object \<Rightarrow> database \<Rightarrow> (share_type \<times> asset \<times> database) result" where
  "deduct_cancel_fee fc fee ord d =
     (let paid = lo_deferred_paid_fee ord;
          core_cancel_fee = (if lo_deferred_fee ord < fee then lo_deferred_fee ord else fee)
      in if 0 < lo_deferred_fee ord \<and> 0 < core_cancel_fee then
        bnd (modify_stats (lo_seller ord)
               (stats_pay_fee fc core_cancel_fee (cashback_vesting_threshold (parameters d))) d) (\<lambda>d.
        bnd (safe_sub fc (lo_deferred_fee ord) core_cancel_fee) (\<lambda>deferred_fee.
        if amount paid = 0 then Inr (deferred_fee, paid, d)
        else
          let x = cancel_fee_amount (amount paid) core_cancel_fee (lo_deferred_fee ord) in
          bnd (store_get (assets d) (asset_id paid)) (\<lambda>ao.
          bnd (modify_dyn (dynamic_asset_data_id ao) (\<lambda>dd.
                 bnd (safe_add fc (accumulated_fees dd) x) (\<lambda>y. Inr (dd\<lparr>accumulated_fees := y\<rparr>))) d) (\<lambda>d.
          bnd (safe_sub fc (amount paid) x) (\<lambda>rest. Inr (deferred_fee, ASSET rest (asset_id paid), d))))))
      else Inr (lo_deferred_fee ord, paid, d))"

definition refund_fee :: "fc_lib \<Rightarrow> limit_order_object \<Rightarrow> share_type \<Rightarrow> asset \<Rightarrow> database \<Rightarrow> database result" where
  "refund_fee fc ord deferred_fee deferred_paid_fee d =
     (if amount (lo_deferred_paid_fee ord) = 0
      then adjust_balance fc (lo_seller ord) (ASSET deferred_fee CORE_ASSET) d
      else
        bnd (adjust_balance fc (lo_seller ord) deferred_paid_fee d) (\<lambda>d.
        bnd (store_get (assets d) (asset_id deferred_paid_fee)) (\<lambda>ao.
        modify_dyn (dynamic_asset_data_id ao) (\<lambda>dd.
          bnd (safe_add fc (fee_pool dd) deferred_fee) (\<lambda>y. Inr (dd\<lparr>fee_pool := y\<rparr>))) d)))"

definition release_core_in_orders :: "fc_lib \<Rightarrow> limit_order_object \<Rightarrow> database \<Rightarrow> database result" where
  "release_core_in_orders fc ord d =
     (if asset_id (amount_for_sale ord) = CORE_ASSET
      then modify_stats (lo_seller ord) (\<lambda>s.
        bnd (safe_sub fc (total_core_in_orders s) (lo_for_sale ord)) (\<lambda>x. Inr (s\<lparr>total_core_in_orders := x\<rparr>))) d
      else Inr d)"

definition cancel_limit_order ::
    "fc_lib \<Rightarrow> share_type \<Rightarrow> nat \<Rightarrow> bool \<Rightarrow> bool \<Rightarrow> database \<Rightarrow> database result" where
  "cancel_limit_order fc fee i create_virtual_op skip_cancel_fee d =
     bnd (store_get (limit_orders d) i) (\<lambda>ord.
     bnd (if create_virtual_op \<and> \<not> skip_cancel_fee then deduct_cancel_fee fc fee ord d
          else Inr (lo_deferred_fee ord, lo_deferred_paid_fee ord, d)) (\<lambda>(deferred_fee, deferred_paid_fee, d).
     bnd (release_core_in_orders fc ord d) (\<lambda>d.
     bnd (adjust_balance fc (lo_seller ord) (amount_for_sale ord) d) (\<lambda>d.
     bnd (refund_fee fc ord deferred_fee deferred_paid_fee d)
     (cleanup_and_remove_limit_order i)))))"

text \<open>Removing an order for which the seller would receive nothing.\<close>

definition maybe_cull_small_order :: "fc_lib \<Rightarrow> share_type \<Rightarrow> nat \<Rightarrow> database \<Rightarrow> (bool \<times> database) result" where
  "maybe_cull_small_order fc fee i d =
     bnd (store_get (limit_orders d) i) (\<lambda>ord.
     bnd (amount_to_receive ord) (\<lambda>r.
     if amount r = 0 then
       bnd (if 0 < lo_deferred_fee ord \<and> head_block_time d \<le> HARDFORK_CORE_604_TIME
            then cancel_limit_order fc fee i True True d
            else cancel_limit_order fc fee i True False d) (\<lambda>d. Inr (True, d))
     else Inr (False, d)))"

section \<open>Matching two orders\<close>

record matched =
  m_taker_pays :: asset
  m_taker_receives :: asset
  m_maker_pays :: asset
  m_maker_receives :: asset
  m_cull_taker :: bool

text \<open>The amounts of \<open>match_limit_normal_limit\<close>, up to the calls that fill the orders; \<open>None\<close> when the taker
  would pay something for nothing, in which case nothing is exchanged.\<close>

definition match_limit_amounts ::
    "time_point_sec \<Rightarrow> limit_order_object \<Rightarrow> limit_order_object \<Rightarrow> price \<Rightarrow> matched option result" where
  "match_limit_amounts maint_time taker maker match_price =
     FC_ASSERT (\<not> lo_is_settled_debt maker)
     (FC_ASSERT (\<not> lo_is_settled_debt taker)
     (let taker_for_sale = amount_for_sale taker;
          maker_for_sale = amount_for_sale maker;
          before_core_hardfork_342 = (maint_time \<le> HARDFORK_CORE_342_TIME)
      in
      bnd (asset_mul maker_for_sale match_price) (\<lambda>limit.
      bnd (asset_le taker_for_sale limit) (\<lambda>taker_smaller.
      bnd (if taker_smaller then
             bnd (asset_mul taker_for_sale match_price) (\<lambda>taker_receives.
             if amount taker_receives = 0 \<and> HARDFORK_CORE_184_TIME < maint_time then Inr None
             else if before_core_hardfork_342 then Inr (Some (taker_receives, taker_for_sale, False))
             else bnd (multiply_and_round_up taker_receives match_price) (\<lambda>maker_receives.
               Inr (Some (taker_receives, maker_receives, True))))
           else
             bnd (asset_mul maker_for_sale match_price) (\<lambda>maker_receives.
             if before_core_hardfork_342 then Inr (Some (maker_for_sale, maker_receives, False))
             else bnd (multiply_and_round_up maker_receives match_price) (\<lambda>taker_receives.
               Inr (Some (taker_receives, maker_receives, False))))) (\<lambda>r.
      case r of
        None \<Rightarrow> Inr None
      | Some (taker_receives, maker_receives, cull) \<Rightarrow>
          FC_ASSERT (\<not> before_core_hardfork_342 \<or> maker_receives = taker_for_sale \<or> taker_receives = maker_for_sale)
          (Inr (Some \<lparr>m_taker_pays = maker_receives, m_taker_receives = taker_receives,
            m_maker_pays = taker_receives, m_maker_receives = maker_receives, m_cull_taker = cull\<rparr>)))))))"

section \<open>Conservation\<close>

lemma gap_step_order_del:
  assumes "store_find (limit_orders d) i = Some ord"
  shows "gap_step d (d\<lparr>limit_orders := store_del (limit_orders d) i\<rparr>) (\<lambda>a. - order_part ord a)"
  using assms by (auto simp: gap_step_def gap_defs wf_defs balances_nonneg_def orders_total_def store_sum_del)

lemma gap_step_order_put:
  assumes "store_find (limit_orders d) i = Some ord"
  shows "gap_step d (d\<lparr>limit_orders := store_put (limit_orders d) i ord'\<rparr>) (\<lambda>a. order_part ord' a - order_part ord a)"
  using assms by (auto simp: gap_step_def gap_defs wf_defs balances_nonneg_def orders_total_def store_sum_put)

lemma order_part_unlink [simp]: "order_part (ord\<lparr>lo_take_profit_order_id := x\<rparr>) = order_part ord"
  by (simp add: order_part_def fun_eq_iff)

lemma cleanup_gap:
  assumes "cleanup_and_remove_limit_order i d = Inr d'" "store_find (limit_orders d) i = Some ord"
  shows "gap_step d d' (\<lambda>a. - order_part ord a)"
proof (cases "lo_take_profit_order_id ord")
  case None
  then show ?thesis using assms gap_step_order_del[OF assms(2)] by (auto simp: cleanup_and_remove_limit_order_def)
next
  case (Some t)
  with assms obtain tp where tp: "store_find (limit_orders d) t = Some tp"
    and d': "d' = (let d1 = d\<lparr>limit_orders := store_put (limit_orders d) t (tp\<lparr>lo_take_profit_order_id := None\<rparr>)\<rparr>
      in d1\<lparr>limit_orders := store_del (limit_orders d1) i\<rparr>)"
    by (auto simp: cleanup_and_remove_limit_order_def)
  let ?d1 = "d\<lparr>limit_orders := store_put (limit_orders d) t (tp\<lparr>lo_take_profit_order_id := None\<rparr>)\<rparr>"
  have 1: "gap_step d ?d1 (\<lambda>a. 0)" using gap_step_order_put[OF tp, of "tp\<lparr>lo_take_profit_order_id := None\<rparr>"] by simp
  obtain ord' where ord': "store_find (limit_orders ?d1) i = Some ord'" "\<And>a. order_part ord' a = order_part ord a"
    using assms(2) tp by (cases "i = t") (auto simp: store_find_put)
  show ?thesis unfolding d' Let_def by (rule gap_step_then[OF 1 gap_step_order_del[OF ord'(1)]]) (simp add: ord'(2))
qed

context fc_safe
begin

lemma stats_pay_fee_gap:
  assumes "modify_stats k (stats_pay_fee fc x threshold) d = Inr d'"
  shows "gap_step d d' (amt_at CORE_ASSET x)"
  by (rule modify_stats_step[OF assms]) (auto simp: stats_pay_fee_def split: if_splits)

lemma fee_pool_gap:
  assumes "modify_dyn (dynamic_asset_data_id ao) (\<lambda>dd. bnd (safe_add fc (fee_pool dd) x) (\<lambda>y. Inr (dd\<lparr>fee_pool := y\<rparr>))) d = Inr d'"
    and "store_find (assets d) i = Some ao"
  shows "gap_step d d' (amt_at CORE_ASSET x)"
  using assms(1)
proof (rule modify_dynE)
  fix dd dd' assume dd: "store_find (asset_dyn_data d) (dynamic_asset_data_id ao) = Some dd"
    "bnd (safe_add fc (fee_pool dd) x) (\<lambda>y. Inr (dd\<lparr>fee_pool := y\<rparr>)) = Inr dd'"
    "d' = d\<lparr>asset_dyn_data := store_put (asset_dyn_data d) (dynamic_asset_data_id ao) dd'\<rparr>"
  then show ?thesis using gap_step_dyn[OF assms(2) dd(1), of dd'] by auto
qed

text \<open>The cases of the deduction: nothing to deduct, a fee paid in the core asset, a fee paid in another asset.\<close>

lemma deduct_cancel_fee_cases:
  assumes run: "deduct_cancel_fee fc fee ord d = Inr (deferred_fee, paid, d')"
    and c: "c = (if lo_deferred_fee ord < fee then lo_deferred_fee ord else fee)" and p: "p = lo_deferred_paid_fee ord"
  obtains (none) "\<not> (0 < lo_deferred_fee ord \<and> 0 < c)" "deferred_fee = lo_deferred_fee ord" "paid = p" "d' = d"
  | (core) "0 < lo_deferred_fee ord" "0 < c" "amount p = 0" "deferred_fee = lo_deferred_fee ord - c" "paid = p"
      "modify_stats (lo_seller ord) (stats_pay_fee fc c (cashback_vesting_threshold (parameters d))) d = Inr d'"
  | (other) d1 ao x where "0 < lo_deferred_fee ord" "0 < c" "amount p \<noteq> 0" "deferred_fee = lo_deferred_fee ord - c"
      "modify_stats (lo_seller ord) (stats_pay_fee fc c (cashback_vesting_threshold (parameters d))) d = Inr d1"
      "store_find (assets d1) (asset_id p) = Some ao" "x = cancel_fee_amount (amount p) c (lo_deferred_fee ord)"
      "modify_dyn (dynamic_asset_data_id ao) (\<lambda>dd. bnd (safe_add fc (accumulated_fees dd) x)
        (\<lambda>y. Inr (dd\<lparr>accumulated_fees := y\<rparr>))) d1 = Inr d'" "paid = ASSET (amount p - x) (asset_id p)"
proof (cases "0 < lo_deferred_fee ord \<and> 0 < c")
  case False
  then show thesis using run by (intro none) (auto simp: deduct_cancel_fee_def Let_def c[symmetric] p[symmetric])
next
  case True
  show thesis
  proof (cases "amount p = 0")
    case z: True
    then show thesis using run True by (intro core) (auto simp: deduct_cancel_fee_def Let_def c[symmetric] p[symmetric])
  next
    case False
    then show thesis using run True
      by (auto simp: deduct_cancel_fee_def Let_def c[symmetric] p[symmetric] intro!: other[OF _ _ False])
  qed
qed

lemma deduct_cancel_fee_gap:
  assumes "deduct_cancel_fee fc fee ord d = Inr (deferred_fee, paid, d')"
  shows "gap_step d d' (\<lambda>a. amt_at CORE_ASSET (lo_deferred_fee ord - deferred_fee) a +
      amt_at (asset_id (lo_deferred_paid_fee ord)) (amount (lo_deferred_paid_fee ord) - amount paid) a) \<and>
    asset_id paid = asset_id (lo_deferred_paid_fee ord) \<and> (amount (lo_deferred_paid_fee ord) = 0 \<longrightarrow> amount paid = 0)"
  using assms refl refl
proof (cases rule: deduct_cancel_fee_cases)
  case none
  then show ?thesis using gap_step_refl by simp
next
  case core
  from stats_pay_fee_gap[OF core(6)] core(3-5) show ?thesis by simp
next
  case (other d1 ao x)
  have "gap_step d1 d' (amt_at (asset_id (lo_deferred_paid_fee ord)) x)" using other(8,6) by (rule modify_asset_dyn_step) auto
  from gap_step_trans[OF stats_pay_fee_gap[OF other(5)] this] other(3,4,9) show ?thesis by simp
qed

lemma refund_fee_gap:
  assumes "refund_fee fc ord deferred_fee paid d = Inr d'" "asset_id paid = asset_id (lo_deferred_paid_fee ord)"
    and "amount (lo_deferred_paid_fee ord) = 0 \<Longrightarrow> amount paid = 0"
  shows "gap_step d d' (\<lambda>a. amt_at CORE_ASSET deferred_fee a + amt_at (asset_id (lo_deferred_paid_fee ord)) (amount paid) a)"
proof (cases "amount (lo_deferred_paid_fee ord) = 0")
  case True
  then show ?thesis using assms gap_step_adjust[of "lo_seller ord" "ASSET deferred_fee CORE_ASSET" d d']
    by (simp add: refund_fee_def)
next
  case False
  with assms(1) obtain d1 ao where d1: "adjust_balance fc (lo_seller ord) paid d = Inr d1"
    "store_find (assets d1) (asset_id paid) = Some ao"
    "modify_dyn (dynamic_asset_data_id ao) (\<lambda>dd. bnd (safe_add fc (fee_pool dd) deferred_fee) (\<lambda>y. Inr (dd\<lparr>fee_pool := y\<rparr>))) d1 = Inr d'"
    by (auto simp: refund_fee_def)
  show ?thesis by (rule gap_step_then[OF gap_step_adjust[OF d1(1)] fee_pool_gap[OF d1(3,2)]]) (simp add: assms(2))
qed

lemma stake_orders: "stats_stake (s\<lparr>total_core_in_orders := x\<rparr>) = stats_stake s"
  by (rule ext, rename_tac k, case_tac k) simp_all

lemma release_core_conserves:
  assumes "release_core_in_orders fc ord d = Inr d'"
  shows "conserves d d'"
proof (cases "asset_id (amount_for_sale ord) = CORE_ASSET")
  case True
  with assms have "modify_stats (lo_seller ord) (\<lambda>s. bnd (safe_sub fc (total_core_in_orders s) (lo_for_sale ord))
      (\<lambda>x. Inr (s\<lparr>total_core_in_orders := x\<rparr>))) d = Inr d'" by (simp add: release_core_in_orders_def)
  then show ?thesis by (rule modify_stats_conserves) (auto simp: stake_orders)
qed (use assms gap_step_refl in \<open>auto simp: release_core_in_orders_def\<close>)

text \<open>None of the steps before the removal touches the book, and the deductions touch no balance.\<close>

lemma deduct_cancel_fee_frame:
  assumes "deduct_cancel_fee fc fee ord d = Inr (x, y, d')"
  shows "limit_orders d' = limit_orders d" "account_balances d' = account_balances d"
  using assms by (auto simp: deduct_cancel_fee_def modify_stats_def modify_dyn_def Let_def split: if_splits)

lemma release_core_frame:
  assumes "release_core_in_orders fc ord d = Inr d'"
  shows "limit_orders d' = limit_orders d" "account_balances d' = account_balances d"
  using assms by (auto simp: release_core_in_orders_def modify_stats_def split: if_splits)

lemma adjust_balance_orders: "adjust_balance fc account delta d = Inr d' \<Longrightarrow> limit_orders d' = limit_orders d"
  by (erule adjust_balance_frame) simp

lemma refund_fee_orders: "refund_fee fc ord x y d = Inr d' \<Longrightarrow> limit_orders d' = limit_orders d"
  by (auto simp: refund_fee_def modify_dyn_def dest: adjust_balance_orders split: if_splits)

lemma cancel_steps:
  assumes "cancel_limit_order fc fee i virt skip d = Inr d'" "store_find (limit_orders d) i = Some ord"
  obtains deferred_fee paid d1 d2 d3 d4 where
    "(if virt \<and> \<not> skip then deduct_cancel_fee fc fee ord d else Inr (lo_deferred_fee ord, lo_deferred_paid_fee ord, d)) =
      Inr (deferred_fee, paid, d1)"
    "release_core_in_orders fc ord d1 = Inr d2" "adjust_balance fc (lo_seller ord) (amount_for_sale ord) d2 = Inr d3"
    "refund_fee fc ord deferred_fee paid d3 = Inr d4" "cleanup_and_remove_limit_order i d4 = Inr d'"
    "store_find (limit_orders d4) i = Some ord" "limit_orders d4 = limit_orders d" "account_balances d2 = account_balances d"
proof -
  from assms obtain deferred_fee paid d1 d2 d3 d4 where run:
    "(if virt \<and> \<not> skip then deduct_cancel_fee fc fee ord d else Inr (lo_deferred_fee ord, lo_deferred_paid_fee ord, d)) =
      Inr (deferred_fee, paid, d1)"
    "release_core_in_orders fc ord d1 = Inr d2" "adjust_balance fc (lo_seller ord) (amount_for_sale ord) d2 = Inr d3"
    "refund_fee fc ord deferred_fee paid d3 = Inr d4" "cleanup_and_remove_limit_order i d4 = Inr d'"
    unfolding cancel_limit_order_def bnd_eq_Inr_iff by (auto simp: store_get_def simp del: if_split)
  have "limit_orders d1 = limit_orders d" "account_balances d1 = account_balances d"
    using run(1) deduct_cancel_fee_frame by (auto split: if_splits)
  with release_core_frame[OF run(2)] adjust_balance_orders[OF run(3)] refund_fee_orders[OF run(4)] assms(2)
  show thesis by (intro that[OF run]) simp_all
qed

lemma cancel_limit_order_conserves:
  assumes "cancel_limit_order fc fee i virt skip d = Inr d'"
  shows "conserves d d'"
proof -
  from assms obtain ord where ord: "store_find (limit_orders d) i = Some ord" by (auto simp: cancel_limit_order_def)
  let ?p = "lo_deferred_paid_fee ord"
  from assms ord obtain deferred_fee paid d1 d2 d3 d4 where run:
    "(if virt \<and> \<not> skip then deduct_cancel_fee fc fee ord d else Inr (lo_deferred_fee ord, ?p, d)) = Inr (deferred_fee, paid, d1)"
    "release_core_in_orders fc ord d1 = Inr d2" "adjust_balance fc (lo_seller ord) (amount_for_sale ord) d2 = Inr d3"
    "refund_fee fc ord deferred_fee paid d3 = Inr d4" "cleanup_and_remove_limit_order i d4 = Inr d'"
    "store_find (limit_orders d4) i = Some ord" by (rule cancel_steps)
  have 1: "gap_step d d1 (\<lambda>a. amt_at CORE_ASSET (lo_deferred_fee ord - deferred_fee) a +
      amt_at (asset_id ?p) (amount ?p - amount paid) a)" "asset_id paid = asset_id ?p" "amount ?p = 0 \<Longrightarrow> amount paid = 0"
    using run(1) deduct_cancel_fee_gap gap_step_refl by (auto split: if_splits)
  note steps = gap_step_trans[OF gap_step_trans[OF gap_step_trans[OF gap_step_trans[OF 1(1) release_core_conserves[OF run(2)]]
      gap_step_adjust[OF run(3)]] refund_fee_gap[OF run(4) 1(2,3)]] cleanup_gap[OF run(5,6)]]
  show ?thesis by (rule gap_step_then[OF steps gap_step_refl]) (auto simp: order_part_def amount_for_sale_def amt_at_def)
qed

end

section \<open>The refund of a cancelled order\<close>

text \<open>The cancellation fee that is charged, and the share of it in the originally paid fee.\<close>

definition cancel_charge :: "share_type \<Rightarrow> limit_order_object \<Rightarrow> bool \<Rightarrow> bool \<Rightarrow> share_type" where
  "cancel_charge fee ord virt skip = (if virt \<and> \<not> skip \<and> 0 < fee then min fee (lo_deferred_fee ord) else 0)"

definition fees_ok :: "limit_order_object \<Rightarrow> bool" where
  "fees_ok ord \<longleftrightarrow> 0 \<le> lo_deferred_fee ord \<and> in_int64 (lo_deferred_fee ord) \<and>
     0 \<le> amount (lo_deferred_paid_fee ord) \<and> in_int64 (amount (lo_deferred_paid_fee ord)) \<and>
     (amount (lo_deferred_paid_fee ord) \<noteq> 0 \<longrightarrow> 0 < lo_deferred_fee ord)"

lemma cancel_fee_amount_exact:
  assumes "0 < deferred" "in_int64 deferred" "0 \<le> paid" "in_int64 paid" "0 \<le> c" "c \<le> deferred"
  shows "cancel_fee_amount paid c deferred = ceil_div (paid * c) deferred" "ceil_div (paid * c) deferred \<le> paid"
proof -
  have c: "in_int64 c" using assms(2,5,6) by (simp add: in_int64_def)
  have d: "u128 deferred = deferred" using assms(1,2) by (simp add: u128_id in_int64_def)
  show le: "ceil_div (paid * c) deferred \<le> paid"
    using assms by (simp add: ceil_div_le_iff mult_left_mono)
  have "in_int64 (ceil_div (paid * c) deferred)"
    using in_int64_between[OF assms(4), of "ceil_div (paid * c) deferred"] ceil_div_nonneg[of deferred "paid * c"] le assms by simp
  then show "cancel_fee_amount paid c deferred = ceil_div (paid * c) deferred"
    using assms c d by (simp add: cancel_fee_amount_def machine_simps)
qed

lemma ceil_div_zero [simp]: "0 \<le> x \<Longrightarrow> ceil_div 0 x = 0"
  by (cases "x = 0") (simp_all add: ceil_div_def div_pos_pos_trivial)

context fc_safe
begin

lemma deduct_cancel_fee_exact:
  assumes "deduct_cancel_fee fc fee ord d = Inr (deferred_fee, paid, d')" "fees_ok ord"
  defines "p \<equiv> lo_deferred_paid_fee ord" and "c \<equiv> cancel_charge fee ord True False"
  shows "deferred_fee = lo_deferred_fee ord - c \<and> amount paid = amount p - ceil_div (amount p * c) (lo_deferred_fee ord) \<and>
    asset_id paid = asset_id p"
  using assms(1) refl refl
proof (cases rule: deduct_cancel_fee_cases)
  case none
  then have "c = 0" using assms(2) by (auto simp: c_def cancel_charge_def fees_ok_def min_def split: if_splits)
  then show ?thesis using none(2,3) assms(2) by (simp add: p_def fees_ok_def)
next
  case core
  then have "c = (if lo_deferred_fee ord < fee then lo_deferred_fee ord else fee)" by (auto simp: c_def cancel_charge_def min_def)
  then show ?thesis using core by (simp add: p_def)
next
  case (other d1 ao x)
  then have c: "c = (if lo_deferred_fee ord < fee then lo_deferred_fee ord else fee)" by (auto simp: c_def cancel_charge_def min_def)
  have "x = ceil_div (amount p * c) (lo_deferred_fee ord)" unfolding other(7) c p_def
    by (rule cancel_fee_amount_exact) (use other(1,2) assms(2) in \<open>auto simp: fees_ok_def\<close>)
  then show ?thesis using other(4,9) c by (simp add: p_def)
qed

lemma cancel_balances:
  assumes "cancel_limit_order fc fee i virt skip d = Inr d'" "store_find (limit_orders d) i = Some ord" "fees_ok ord"
  defines "c \<equiv> cancel_charge fee ord virt skip" and "p \<equiv> lo_deferred_paid_fee ord"
  shows "amount (get_balance d' owner a) = amount (get_balance d owner a) +
      (if owner = lo_seller ord \<and> a = sell_asset_id ord then lo_for_sale ord else 0) +
      (if amount p = 0 then (if owner = lo_seller ord \<and> a = CORE_ASSET then lo_deferred_fee ord - c else 0)
       else (if owner = lo_seller ord \<and> a = asset_id p then amount p - ceil_div (amount p * c) (lo_deferred_fee ord) else 0))"
proof -
  from assms(1,2) obtain deferred_fee paid d1 d2 d3 d4 where run:
    "(if virt \<and> \<not> skip then deduct_cancel_fee fc fee ord d else Inr (lo_deferred_fee ord, p, d)) = Inr (deferred_fee, paid, d1)"
    "adjust_balance fc (lo_seller ord) (amount_for_sale ord) d2 = Inr d3"
    "refund_fee fc ord deferred_fee paid d3 = Inr d4" "cleanup_and_remove_limit_order i d4 = Inr d'"
    "account_balances d2 = account_balances d" unfolding p_def by (rule cancel_steps)
  have "deferred_fee = lo_deferred_fee ord - c \<and> amount paid = amount p - ceil_div (amount p * c) (lo_deferred_fee ord) \<and>
    asset_id paid = asset_id p"
  proof (cases "virt \<and> \<not> skip")
    case True
    then have "deduct_cancel_fee fc fee ord d = Inr (deferred_fee, paid, d1)" using run(1) by simp
    from deduct_cancel_fee_exact[OF this assms(3)] True show ?thesis by (simp add: c_def p_def)
  next
    case False
    then have "c = 0" by (auto simp: c_def cancel_charge_def)
    then show ?thesis using run(1) False assms(3) ceil_div_zero by (auto simp: fees_ok_def split: if_splits)
  qed
  then have left: "deferred_fee = lo_deferred_fee ord - c" "amount paid = amount p - ceil_div (amount p * c) (lo_deferred_fee ord)"
    "asset_id paid = asset_id p" by simp_all
  have b2: "get_balance d2 owner a = get_balance d owner a" using run(5) by (simp add: get_balance_def get_account_balance_def)
  have "account_balances d' = account_balances d4"
    using run(4) by (auto simp: cleanup_and_remove_limit_order_def split: option.splits)
  then have b': "get_balance d' owner a = get_balance d4 owner a" by (simp add: get_balance_def get_account_balance_def)
  have b4: "amount (get_balance d4 owner a) = amount (get_balance d3 owner a) +
      (if amount p = 0 then (if owner = lo_seller ord \<and> a = CORE_ASSET then deferred_fee else 0)
       else (if owner = lo_seller ord \<and> a = asset_id p then amount paid else 0))"
  proof (cases "amount p = 0")
    case True
    then show ?thesis using run(3) adjust_balance_get[of "lo_seller ord" "ASSET deferred_fee CORE_ASSET" d3 d4 owner a]
      by (simp add: refund_fee_def p_def)
  next
    case False
    then obtain e where e: "adjust_balance fc (lo_seller ord) paid d3 = Inr e" "account_balances d4 = account_balances e"
      using run(3) by (auto simp: refund_fee_def modify_dyn_def p_def)
    then have "get_balance d4 owner a = get_balance e owner a" by (simp add: get_balance_def get_account_balance_def)
    with adjust_balance_get[OF e(1), of owner a] False left(3) show ?thesis by simp
  qed
  show ?thesis unfolding b' b4 left adjust_balance_get[OF run(2), of owner a] b2
    by (simp add: amount_for_sale_def sell_asset_id_def)
qed

end

section \<open>Rounding of a match\<close>

text \<open>Converting an amount at a price, rounding down, and asking for the least amount that is worth the result.\<close>

lemma convert_back:
  fixes x u v :: int
  assumes "0 \<le> x" "0 < u" "0 < v"
  defines "r \<equiv> x * u div v"
  defines "s \<equiv> ceil_div (r * v) u"
  shows "s \<le> x" "r * v \<le> s * u" "s * u div v = r" "(x - s) * u div v = 0"
proof -
  have r: "r * v \<le> x * u" "x * u < (r + 1) * v" unfolding r_def using floor_bounds[OF assms(3)] by auto
  show s: "s \<le> x" unfolding s_def using r(1) assms(2) by (simp add: ceil_div_le_iff)
  show up: "r * v \<le> s * u" unfolding s_def by (rule ceil_div_bounds(1)[OF assms(2)])
  have le: "s * u \<le> x * u" using s assms(2) by simp
  show "s * u div v = r"
  proof (rule antisym)
    show "s * u div v \<le> r" unfolding r_def using le assms(3) by (rule zdiv_mono1)
    show "r \<le> s * u div v" using up assms(3) by (simp add: le_div_iff_mult_le)
  qed
  have "0 \<le> (x - s) * u" using s assms(2) by simp
  moreover have "(x - s) * u < v" using r(2) up by (simp add: algebra_simps)
  ultimately show "(x - s) * u div v = 0" by (simp add: div_pos_pos_trivial)
qed

lemma asset_mul_quote:
  assumes "wf_price p" "asset_id a = asset_id (quote p)" "0 \<le> amount a" "in_int64 (amount a)" "asset_mul a p = Inr r"
  shows "r = ASSET (amount a * amount (base p) div amount (quote p)) (asset_id (base p))" "0 \<le> amount r" "in_int64 (amount r)"
proof -
  have "asset_mul a (price_inverse p) = Inr r" using assms(1,5) by (simp add: asset_mul_inverse)
  note r = asset_mul_base[OF iffD2[OF wf_price_inverse assms(1)] _ assms(3,4) this]
  show "r = ASSET (amount a * amount (base p) div amount (quote p)) (asset_id (base p))" "0 \<le> amount r" "in_int64 (amount r)"
    using r assms(1,2) by (simp_all add: price_inverse_def in_int64_def GRAPHENE_MAX_SHARE_SUPPLY_def)
qed

text \<open>An order that gives \<open>give\<close> of \<open>all\<close> it has for sale and gets \<open>got\<close>, at the price \<open>u / v\<close>: what it gets
  is what it gives at the price, rounded down, and what is left is worth nothing at the price; the other
  order gets at least the price.\<close>

definition used_up :: "int \<Rightarrow> int \<Rightarrow> int \<Rightarrow> int \<Rightarrow> int \<Rightarrow> bool" where
  "used_up u v all give got \<longleftrightarrow>
     0 \<le> give \<and> give \<le> all \<and> got = give * u div v \<and> got * v \<le> give * u \<and> (all - give) * u div v = 0"

lemma used_up_convert:
  assumes "0 \<le> x" "0 < u" "0 < v"
  shows "used_up u v x (ceil_div (x * u div v * v) u) (x * u div v)"
proof -
  have "0 \<le> x * u div v" using assms by (simp add: pos_imp_zdiv_nonneg_iff)
  then have "0 \<le> ceil_div (x * u div v * v) u" using assms by (intro ceil_div_nonneg) simp_all
  then show ?thesis using convert_back[OF assms] by (simp add: used_up_def)
qed

section \<open>Properties\<close>

text \<open>
  C11: Matching two limit orders at a price (after the hard fork of the rounding rules): each order pays what the
  other receives and no more than it has for sale. The order that is used up gets what it pays at the
  price, rounded down, while the other gets at least the price, and what is left of the order is worth
  nothing at the price, so that it is removed as too small. Nothing is exchanged only when all that the
  taker sells is worth nothing.
\<close>

theorem match_limit_orders_fair:
  assumes "match_limit_amounts maint_time taker maker p = Inr r" "HARDFORK_CORE_342_TIME < maint_time" "wf_price p"
    and "sell_asset_id taker = asset_id (quote p)" "sell_asset_id maker = asset_id (base p)"
    and "0 < lo_for_sale taker" "in_int64 (lo_for_sale taker)" "0 < lo_for_sale maker" "in_int64 (lo_for_sale maker)"
  shows "case r of
      None \<Rightarrow> lo_for_sale taker * amount (base p) div amount (quote p) = 0
    | Some m \<Rightarrow> m_maker_receives m = m_taker_pays m \<and> m_maker_pays m = m_taker_receives m \<and>
        asset_id (m_taker_pays m) = asset_id (quote p) \<and> asset_id (m_maker_pays m) = asset_id (base p) \<and>
        0 \<le> amount (m_taker_pays m) \<and> amount (m_taker_pays m) \<le> lo_for_sale taker \<and>
        0 \<le> amount (m_maker_pays m) \<and> amount (m_maker_pays m) \<le> lo_for_sale maker \<and>
        (if m_cull_taker m
         then 0 < amount (m_taker_receives m) \<and>
           used_up (amount (base p)) (amount (quote p)) (lo_for_sale taker) (amount (m_taker_pays m)) (amount (m_taker_receives m))
         else used_up (amount (quote p)) (amount (base p)) (lo_for_sale maker) (amount (m_maker_pays m)) (amount (m_maker_receives m)))"
proof -
  note w = wf_priceD[OF assms(3)]
  let ?T = "amount_for_sale taker" and ?M = "amount_for_sale maker" and ?B = "amount (base p)" and ?Q = "amount (quote p)"
  have T: "asset_id ?T = asset_id (quote p)" "amount ?T = lo_for_sale taker" and M: "asset_id ?M = asset_id (base p)" "amount ?M = lo_for_sale maker"
    using assms(4,5) by (simp_all add: amount_for_sale_def sell_asset_id_def)
  have after: "\<not> maint_time \<le> HARDFORK_CORE_342_TIME" "HARDFORK_CORE_184_TIME < maint_time"
    using assms(2) by (simp_all add: HARDFORK_CORE_342_TIME_def HARDFORK_CORE_184_TIME_def)
  from assms(1) obtain limit where limit: "asset_mul ?M p = Inr limit" "asset_id ?T = asset_id limit"
    by (auto simp: match_limit_amounts_def Let_def)
  have m: "limit = ASSET (lo_for_sale maker * ?Q div ?B) (asset_id (quote p))" "0 \<le> amount limit" "in_int64 (amount limit)"
    using asset_mul_base[OF assms(3) M(1) _ _ limit(1)] assms(8,9) by (simp_all add: M in_int64_def GRAPHENE_MAX_SHARE_SUPPLY_def)
  show ?thesis
  proof (cases "lo_for_sale taker \<le> amount limit")
    case True
    from assms(1) limit True T after obtain tr where tr: "asset_mul ?T p = Inr tr"
      and rest: "(if amount tr = 0 then r = None else \<exists>mr. multiply_and_round_up tr p = Inr mr \<and>
        r = Some \<lparr>m_taker_pays = mr, m_taker_receives = tr, m_maker_pays = tr, m_maker_receives = mr, m_cull_taker = True\<rparr>)"
      by (auto simp: match_limit_amounts_def Let_def split: if_splits)
    note t = asset_mul_quote[OF assms(3) T(1) _ _ tr]
    have t': "tr = ASSET (lo_for_sale taker * ?B div ?Q) (asset_id (base p))" "0 \<le> amount tr" "in_int64 (amount tr)"
      using t assms(6,7) by (simp_all add: T)
    show ?thesis
    proof (cases "amount tr = 0")
      case z: True
      then show ?thesis using rest t'(1) by simp
    next
      case False
      with rest obtain mr where mr: "multiply_and_round_up tr p = Inr mr"
        "r = Some \<lparr>m_taker_pays = mr, m_taker_receives = tr, m_maker_pays = tr, m_maker_receives = mr, m_cull_taker = True\<rparr>" by auto
      have "mr = ASSET (ceil_div (amount tr * ?Q) ?B) (asset_id (quote p))"
        using multiply_and_round_up_base(1)[OF assms(3) _ t'(2,3) mr(1)] t'(1) by simp
      moreover have "used_up ?B ?Q (lo_for_sale taker) (ceil_div (amount tr * ?Q) ?B) (amount tr)"
        using used_up_convert[of "lo_for_sale taker" ?B ?Q] assms(6) w by (simp add: t'(1))
      moreover have "amount tr \<le> lo_for_sale maker"
      proof -
        have "lo_for_sale taker * ?B \<le> lo_for_sale maker * ?Q" using True w by (simp add: m(1) le_div_iff_mult_le)
        from zdiv_mono1[OF this w(2)] show ?thesis using w(2) by (simp add: t'(1))
      qed
      ultimately show ?thesis using mr(2) t' False by (auto simp: used_up_def)
    qed
  next
    case False
    from assms(1) limit False T after obtain tr where tr: "multiply_and_round_up limit p = Inr tr"
      "r = Some \<lparr>m_taker_pays = limit, m_taker_receives = tr, m_maker_pays = tr, m_maker_receives = limit, m_cull_taker = False\<rparr>"
      by (auto simp: match_limit_amounts_def Let_def split: if_splits)
    have "tr = ASSET (ceil_div (amount limit * ?B) ?Q) (asset_id (base p))"
      using multiply_and_round_up_quote(1)[OF assms(3) _ m(2,3) tr(1)] m(1) by simp
    moreover have "used_up ?Q ?B (lo_for_sale maker) (ceil_div (amount limit * ?B) ?Q) (amount limit)"
      using used_up_convert[of "lo_for_sale maker" ?Q ?B] assms(8) w by (simp add: m(1))
    ultimately show ?thesis using tr(2) m False by (auto simp: used_up_def)
  qed
qed

definition sample_order :: "account_id_type \<Rightarrow> share_type \<Rightarrow> price \<Rightarrow> limit_order_object" where
  "sample_order seller x p = \<lparr>lo_expiration = 500, lo_seller = seller, lo_for_sale = x, lo_sell_price = p, lo_filled_amount = 0,
     lo_deferred_fee = 5, lo_deferred_paid_fee = ASSET 12 2, lo_is_settled_debt = False, lo_on_fill = [],
     lo_take_profit_order_id = None\<rparr>"

definition sample_taker_price :: price where "sample_taker_price = \<lparr>base = ASSET 3 1, quote = ASSET 7 0\<rparr>"
definition sample_maker_price :: price where "sample_maker_price = \<lparr>base = ASSET 7 0, quote = ASSET 3 1\<rparr>"

theorem match_limit_orders_fair_witness:
  "match_limit_amounts 1700000000 (sample_order 7 10 sample_taker_price) (sample_order 8 100 sample_maker_price) sample_maker_price =
     Inr (Some \<lparr>m_taker_pays = ASSET 10 1, m_taker_receives = ASSET 23 0, m_maker_pays = ASSET 23 0,
       m_maker_receives = ASSET 10 1, m_cull_taker = True\<rparr>) \<and> used_up 7 3 10 10 23"
proof -
  have run: "match_limit_amounts 1700000000 (sample_order 7 10 sample_taker_price) (sample_order 8 100 sample_maker_price) sample_maker_price =
     Inr (Some \<lparr>m_taker_pays = ASSET 10 1, m_taker_receives = ASSET 23 0, m_maker_pays = ASSET 23 0,
       m_maker_receives = ASSET 10 1, m_cull_taker = True\<rparr>)"
    by (simp add: match_limit_amounts_def sample_order_def sample_taker_price_def sample_maker_price_def amount_for_sale_def
        asset_mul_def asset_le_def asset_less_def multiply_and_round_up_def u128_mul_def u128_add_def u128_sub_def u128_def
        GRAPHENE_MAX_SHARE_SUPPLY_def to_int64_def HARDFORK_CORE_342_TIME_def HARDFORK_CORE_184_TIME_def)
  have "HARDFORK_CORE_342_TIME < 1700000000" "wf_price sample_maker_price"
    "sell_asset_id (sample_order 7 10 sample_taker_price) = asset_id (quote sample_maker_price)"
    "sell_asset_id (sample_order 8 100 sample_maker_price) = asset_id (base sample_maker_price)"
    "0 < lo_for_sale (sample_order 7 10 sample_taker_price)" "in_int64 (lo_for_sale (sample_order 7 10 sample_taker_price))"
    "0 < lo_for_sale (sample_order 8 100 sample_maker_price)" "in_int64 (lo_for_sale (sample_order 8 100 sample_maker_price))"
    by (simp_all add: HARDFORK_CORE_342_TIME_def wf_price_def price_validate_def sample_order_def sample_taker_price_def
        sample_maker_price_def sell_asset_id_def in_int64_def)
  from match_limit_orders_fair[OF run this] run show ?thesis by (simp add: sample_maker_price_def sample_order_def)
qed

text \<open>
  C12: Cancelling a limit order removes it from the book and nothing else, gives the seller back exactly what the
  order had for sale and the deferred fee less the cancellation fee (in the asset it was paid with, less a
  proportional part that is rounded up and never exceeds it), changes no other balance, and neither
  creates nor destroys any asset.
\<close>

theorem cancel_limit_order_exact:
  assumes "fc_safe fc" "wf_db d" "store_wf (limit_orders d)"
    and "cancel_limit_order fc fee i virt skip d = Inr d'" "store_find (limit_orders d) i = Some ord" "fees_ok ord"
  defines "c \<equiv> cancel_charge fee ord virt skip" and "p \<equiv> lo_deferred_paid_fee ord"
  shows "(\<forall>owner a. amount (get_balance d' owner a) = amount (get_balance d owner a) +
      (if owner = lo_seller ord \<and> a = sell_asset_id ord then lo_for_sale ord else 0) +
      (if amount p = 0 then (if owner = lo_seller ord \<and> a = CORE_ASSET then lo_deferred_fee ord - c else 0)
       else (if owner = lo_seller ord \<and> a = asset_id p then amount p - ceil_div (amount p * c) (lo_deferred_fee ord) else 0))) \<and>
    c \<le> lo_deferred_fee ord \<and> (amount p \<noteq> 0 \<longrightarrow> ceil_div (amount p * c) (lo_deferred_fee ord) \<le> amount p) \<and>
    (\<forall>j. map_option (\<lambda>x. x\<lparr>lo_take_profit_order_id := None\<rparr>) (store_find (limit_orders d') j) =
      (if j = i then None else map_option (\<lambda>x. x\<lparr>lo_take_profit_order_id := None\<rparr>) (store_find (limit_orders d) j))) \<and>
    (\<forall>a. supply_gap d' a = supply_gap d a)"
proof -
  have c: "0 \<le> c" "c \<le> lo_deferred_fee ord" using assms(6) by (auto simp: c_def cancel_charge_def fees_ok_def)
  have "amount p \<noteq> 0 \<longrightarrow> ceil_div (amount p * c) (lo_deferred_fee ord) \<le> amount p"
    using cancel_fee_amount_exact(2)[of "lo_deferred_fee ord" "amount p" c] assms(6) c by (auto simp: fees_ok_def p_def)
  moreover from fc_safe.cancel_steps[OF assms(1,4,5)] obtain d4 where
    d4: "cleanup_and_remove_limit_order i d4 = Inr d'" "limit_orders d4 = limit_orders d" by metis
  have "map_option (\<lambda>x. x\<lparr>lo_take_profit_order_id := None\<rparr>) (store_find (limit_orders d') j) =
      (if j = i then None else map_option (\<lambda>x. x\<lparr>lo_take_profit_order_id := None\<rparr>) (store_find (limit_orders d) j))" for j
    using d4 assms(3) by (auto simp: cleanup_and_remove_limit_order_def store_find_del store_find_put store_wf_put split: option.splits)
  moreover have "\<forall>a. supply_gap d' a = supply_gap d a"
    using fc_safe.cancel_limit_order_conserves[OF assms(1,4)] assms(2) by (simp add: gap_step_def)
  ultimately show ?thesis using fc_safe.cancel_balances[OF assms(1,4-6)] c(2) unfolding c_def p_def by blast
qed

definition order_db :: database where
  "order_db = (sample_db 100)\<lparr>account_stats := \<lparr>items = [(0, sample_stats), (1, sample_stats), (7, sample_stats)], next_id = 8\<rparr>,
     limit_orders := \<lparr>items = [(4, sample_order 7 10 sample_taker_price)], next_id = 5\<rparr>\<rparr>"

theorem cancel_limit_order_exact_witness:
  "\<exists>d'. cancel_limit_order fc_ref 2 4 True False order_db = Inr d' \<and> amount (get_balance d' 7 1) = 10 \<and>
     amount (get_balance d' 7 2) = 7 \<and> store_find (limit_orders d') 4 = None"
proof -
  have "\<not> isl (cancel_limit_order fc_ref 2 4 True False order_db)"
    by (simp add: cancel_limit_order_def deduct_cancel_fee_def release_core_in_orders_def refund_fee_def
        cleanup_and_remove_limit_order_def order_db_def sample_order_def sample_taker_price_def amount_for_sale_def
        cancel_fee_amount_def u128_mul_def u128_add_def u128_sub_def u128_def to_int64_def stats_pay_fee_def
        run_eval sample_defs fc_ref_simps cong: eval_congs)
  then obtain d' where run: "cancel_limit_order fc_ref 2 4 True False order_db = Inr d'"
    by (cases "cancel_limit_order fc_ref 2 4 True False order_db") auto
  have h: "wf_db order_db" "store_wf (limit_orders order_db)"
    "store_find (limit_orders order_db) 4 = Some (sample_order 7 10 sample_taker_price)"
    "fees_ok (sample_order 7 10 sample_taker_price)"
    by (simp_all add: order_db_def sample_order_def sample_defs wf_defs wf_assets_def store_wf_def store_find_def store_all_def
        CORE_ASSET_def CORE_DYN_def fees_ok_def in_int64_def)
  have bal: "get_balance order_db 7 1 = ASSET 0 1" "get_balance order_db 7 2 = ASSET 0 2"
    by (simp_all add: order_db_def sample_defs get_balance_def get_account_balance_def store_search_def abo_key_def)
  note exact = cancel_limit_order_exact[OF fc_ref.fc_safe_axioms h(1,2) run h(3,4)]
  from exact have "map_option (\<lambda>x. x\<lparr>lo_take_profit_order_id := None\<rparr>) (store_find (limit_orders d') 4) = None" by simp
  then have "store_find (limit_orders d') 4 = None" by simp
  with exact run bal show ?thesis
    by (simp add: sample_order_def sample_taker_price_def sell_asset_id_def cancel_charge_def ceil_div_def)
qed

end
