(* ===== verification/Transactions.thy ===== *)
theory Transactions
  imports Operations Credit_Expiry Witness_Schedule Limit_Order
begin

text \<open>
  Transactions: \<open>libraries/protocol/transaction.cpp\<close> (validation), \<open>database::_apply_transaction\<close>
  (\<open>libraries/chain/db_block.cpp\<close>), the record of recent transactions that keeps them from being applied
  twice (\<open>transaction_history_object.hpp\<close>, \<open>database::clear_expired_transactions\<close>), and the steps in
  which the state of the chain evolves.

  The record \<open>chain\<close> adds to the database what this layer uses: the recent transactions, the number of the
  head block, the block summaries (of a block id only the word that is compared), the authorities of the
  accounts and three chain parameters. The record \<open>trx_lib\<close> holds what the layer calls and this theory
  does not define: the id and the packed size of a transaction and the key that made a signature
  (computed by \<open>fc\<close>), the addresses of a key, the viable custom authorities, and the fee
  schedule. The results of operations are not kept.
\<close>

section \<open>State\<close>

record signed_transaction =
  ref_block_num :: nat
  ref_block_prefix :: nat
  trx_expiration :: time_point_sec
  operations :: "operation list"
  signatures :: "bytes list"

record transaction_history_object =
  th_trx :: signed_transaction
  th_trx_id :: bytes

record account_authorities =
  owner_authority :: authority
  active_authority :: authority

record chain =
  ch_db :: database
  ch_transactions :: "transaction_history_object store"
  ch_head_block_num :: nat
  ch_block_summaries :: "nat store"
  ch_authorities :: "account_authorities store"
  ch_maximum_time_until_expiration :: nat
  ch_maximum_transaction_size :: nat
  ch_max_authority_depth :: nat

record trx_lib =
  trx_id :: "signed_transaction \<Rightarrow> bytes"
  trx_packed_size :: "signed_transaction \<Rightarrow> nat"
  recover_key :: "signed_transaction \<Rightarrow> bytes \<Rightarrow> nat"
  key_addresses :: "nat \<Rightarrow> nat list"
  viable_custom_authorities :: "database \<Rightarrow> account_id_type \<Rightarrow> operation \<Rightarrow> authority list"
  required_fee :: "operation \<Rightarrow> share_type option"

definition skip_transaction_signatures :: nat where "skip_transaction_signatures = 2"
definition skip_transaction_dupe_check :: nat where "skip_transaction_dupe_check = 4"
definition skip_block_size_check :: nat where "skip_block_size_check = 16"
definition skip_tapos_check :: nat where "skip_tapos_check = 32"

lemmas skip_defs = skip_transaction_signatures_def skip_transaction_dupe_check_def skip_block_size_check_def
  skip_tapos_check_def

definition HARDFORK_CORE_584_TIME :: nat where "HARDFORK_CORE_584_TIME = 1556028120"
definition HARDFORK_CORE_1573_TIME :: nat where "HARDFORK_CORE_1573_TIME = 1556028120"

section \<open>Applying a transaction\<close>

definition transaction_validate :: "signed_transaction \<Rightarrow> unit result" where
  "transaction_validate trx =
     FC_ASSERT (operations trx \<noteq> []) (fold_res (\<lambda>op _. operation_validate op) (operations trx) ())"

text \<open>The callbacks and the depth the database hands to \<open>verify_authority\<close>.\<close>

definition signing_context :: "trx_lib \<Rightarrow> chain \<Rightarrow> sign_ctx" where
  "signing_context lib c =
     \<lparr>get_active = (\<lambda>a. bnd (store_get (ch_authorities c) a) (\<lambda>p. Inr (Some (active_authority p)))),
      get_owner = (\<lambda>a. bnd (store_get (ch_authorities c) a) (\<lambda>p. Inr (Some (owner_authority p)))),
      allow_non_immediate_owner = HARDFORK_CORE_584_TIME \<le> head_block_time (ch_db c),
      max_recursion = ch_max_authority_depth c, available_keys = [], addresses_of = key_addresses lib\<rparr>"

definition transaction_verify_authority :: "trx_lib \<Rightarrow> signed_transaction \<Rightarrow> chain \<Rightarrow> unit result" where
  "transaction_verify_authority lib trx c =
     bnd (get_signature_keys (recover_key lib trx) (signatures trx) []) (\<lambda>keys.
     verify_authority (signing_context lib c) operation_get_required_authorities
       (viable_custom_authorities lib (ch_db c)) False [] [] (operations trx) keys)"

definition check_reference_and_expiration ::
    "fc_lib \<Rightarrow> trx_lib \<Rightarrow> nat \<Rightarrow> signed_transaction \<Rightarrow> chain \<Rightarrow> unit result" where
  "check_reference_and_expiration fc lib skip trx c =
     (if ch_head_block_num c > 0 then
        bnd (if skip AND skip_tapos_check = 0 then
               bnd (store_get (ch_block_summaries c) (ref_block_num trx)) (\<lambda>word.
               FC_ASSERT (ref_block_prefix trx = word) (Inr ()))
             else Inr ()) (\<lambda>_.
        let now = head_block_time (ch_db c)
        in FC_ASSERT (trx_expiration trx \<le> tps_add fc now (ch_maximum_time_until_expiration c))
          (FC_ASSERT (now \<le> trx_expiration trx)
          (FC_ASSERT (skip AND skip_block_size_check \<noteq> 0 \<or> now \<le> HARDFORK_CORE_1573_TIME \<or>
               trx_packed_size lib trx \<le> ch_maximum_transaction_size c)
          (Inr ()))))
      else Inr ())"

text \<open>The index \<open>by_unpaid\<close> of the funds is in descending order.\<close>

definition no_unpaid_samet_debt :: "database \<Rightarrow> bool" where
  "no_unpaid_samet_debt d \<longleftrightarrow>
     (case store_first (\<lambda>f. - sfo_unpaid_amount f) (samet_funds d) of
        None \<Rightarrow> True | Some (_, f) \<Rightarrow> sfo_unpaid_amount f = 0)"

definition apply_transaction :: "fc_lib \<Rightarrow> trx_lib \<Rightarrow> nat \<Rightarrow> signed_transaction \<Rightarrow> chain \<Rightarrow> chain result" where
  "apply_transaction fc lib skip trx c =
     bnd (transaction_validate trx) (\<lambda>_.
     ensure Duplicate_transaction
       (skip AND skip_transaction_dupe_check \<noteq> 0 \<or>
        store_search (\<lambda>h. th_trx_id h = trx_id lib trx) (ch_transactions c) = None)
    (bnd (if skip AND skip_transaction_signatures = 0 then transaction_verify_authority lib trx c else Inr ()) (\<lambda>_.
     bnd (check_reference_and_expiration fc lib skip trx c) (\<lambda>_.
     let c1 = (if skip AND skip_transaction_dupe_check = 0
               then c\<lparr>ch_transactions := store_add (ch_transactions c) \<lparr>th_trx = trx, th_trx_id = trx_id lib trx\<rparr>\<rparr>
               else c)
     in bnd (fold_res (apply_operation fc (required_fee lib)) (operations trx) (ch_db c1)) (\<lambda>d.
        FC_ASSERT (no_unpaid_samet_debt d)
       (Inr (c1\<lparr>ch_db := d\<rparr>)))))))"

definition clear_expired_transactions :: "chain \<Rightarrow> chain" where
  "clear_expired_transactions c = c\<lparr>ch_transactions :=
     purge (\<lambda>h. trx_expiration (th_trx h)) (\<lambda>t. t < head_block_time (ch_db c)) (ch_transactions c)\<rparr>"

definition create_block_summary :: "nat \<Rightarrow> nat \<Rightarrow> chain \<Rightarrow> chain result" where
  "create_block_summary num word c =
     bnd (store_get (ch_block_summaries c) (num mod 65536)) (\<lambda>_.
     Inr (c\<lparr>ch_block_summaries := store_put (ch_block_summaries c) (num mod 65536) word\<rparr>))"

section \<open>Steps of the chain\<close>

text \<open>
  The steps a block is made of, in any order: a transaction, a new head block with a later time (before the
  last representable second), the missed blocks and the pay of the witnesses, the record of its id, the
  cancellation of a limit order, and the work done at the end of every block and at
  maintenance that is modelled. A step that would throw does not happen, since the block is then refused.
\<close>

inductive chain_step :: "fc_lib \<Rightarrow> trx_lib \<Rightarrow> chain \<Rightarrow> chain \<Rightarrow> bool" for fc lib where
  step_transaction: "apply_transaction fc lib skip trx c = Inr c' \<Longrightarrow> chain_step fc lib c c'"
| step_new_block: "head_block_time (ch_db c) < now \<Longrightarrow> now < tps_maximum \<Longrightarrow> chain_step fc lib c
    (c\<lparr>ch_db := (ch_db c)\<lparr>head_block_time := now\<rparr>, ch_head_block_num := Suc (ch_head_block_num c)\<rparr>)"
| step_missed: "update_witness_missed_blocks fc b (s :: signed_transaction block_state) = Inr (missed, s') \<Longrightarrow> bs_db s = ch_db c \<Longrightarrow>
    chain_step fc lib c (c\<lparr>ch_db := bs_db s'\<rparr>)"
| step_signing: "update_signing_witness fc w b (s :: signed_transaction block_state) = Inr s' \<Longrightarrow> bs_db s = ch_db c \<Longrightarrow>
    chain_step fc lib c (c\<lparr>ch_db := bs_db s'\<rparr>)"
| step_summary: "create_block_summary n word c = Inr c' \<Longrightarrow> chain_step fc lib c c'"
| step_clear_transactions: "chain_step fc lib c (clear_expired_transactions c)"
| step_clear_htlcs: "clear_expired_htlcs fc (ch_db c) = Inr d \<Longrightarrow> chain_step fc lib c (c\<lparr>ch_db := d\<rparr>)"
| step_permissions: "chain_step fc lib c (c\<lparr>ch_db := update_withdraw_permissions (ch_db c)\<rparr>)"
| step_credit: "update_credit_offers_and_deals fc (ch_db c) = Inr d \<Longrightarrow> chain_step fc lib c (c\<lparr>ch_db := d\<rparr>)"
| step_tickets: "process_tickets fc (ch_db c) = Inr d \<Longrightarrow> chain_step fc lib c (c\<lparr>ch_db := d\<rparr>)"
| step_cancel_order: "cancel_limit_order fc fee i virt skip (ch_db c) = Inr d \<Longrightarrow> chain_step fc lib c (c\<lparr>ch_db := d\<rparr>)"
| step_fees: "process_fees fc account stats (ch_db c) = Inr d \<Longrightarrow> chain_step fc lib c (c\<lparr>ch_db := d\<rparr>)"

abbreviation chain_steps :: "fc_lib \<Rightarrow> trx_lib \<Rightarrow> chain \<Rightarrow> chain \<Rightarrow> bool" where
  "chain_steps fc lib \<equiv> (chain_step fc lib)\<^sup>*\<^sup>*"

section \<open>What a transaction does\<close>

lemma fold_validate:
  assumes "fold_res (\<lambda>op _. operation_validate op) ops u = Inr v"
  shows "\<forall>op\<in>set ops. operation_validate op = Inr ()"
  using assms by (induction ops arbitrary: u) auto

lemma apply_transaction_steps:
  assumes "apply_transaction fc lib skip trx c = Inr c'"
  obtains d where "operations trx \<noteq> []" "\<forall>op\<in>set (operations trx). operation_validate op = Inr ()"
    "skip AND skip_transaction_dupe_check = 0 \<Longrightarrow>
       store_search (\<lambda>h. th_trx_id h = trx_id lib trx) (ch_transactions c) = None"
    "skip AND skip_transaction_signatures = 0 \<Longrightarrow> transaction_verify_authority lib trx c = Inr ()"
    "check_reference_and_expiration fc lib skip trx c = Inr ()"
    "fold_res (apply_operation fc (required_fee lib)) (operations trx) (ch_db c) = Inr d" "no_unpaid_samet_debt d"
    "c' = (if skip AND skip_transaction_dupe_check = 0
       then c\<lparr>ch_transactions := store_add (ch_transactions c) \<lparr>th_trx = trx, th_trx_id = trx_id lib trx\<rparr>, ch_db := d\<rparr>
       else c\<lparr>ch_db := d\<rparr>)"
proof -
  let ?c1 = "if skip AND skip_transaction_dupe_check = 0
     then c\<lparr>ch_transactions := store_add (ch_transactions c) \<lparr>th_trx = trx, th_trx_id = trx_id lib trx\<rparr>\<rparr> else c"
  have db: "ch_db ?c1 = ch_db c" by simp
  from assms obtain d where v: "transaction_validate trx = Inr ()"
    and dupe: "skip AND skip_transaction_dupe_check \<noteq> 0 \<or>
        store_search (\<lambda>h. th_trx_id h = trx_id lib trx) (ch_transactions c) = None"
    and auth: "(if skip AND skip_transaction_signatures = 0 then transaction_verify_authority lib trx c else Inr ()) = Inr ()"
    and ref: "check_reference_and_expiration fc lib skip trx c = Inr ()"
    and d: "fold_res (apply_operation fc (required_fee lib)) (operations trx) (ch_db ?c1) = Inr d"
    and debt: "no_unpaid_samet_debt d" and c': "c' = ?c1\<lparr>ch_db := d\<rparr>"
    unfolding apply_transaction_def Let_def bnd_eq_Inr_iff ensure_eq_Inr_iff by (elim exE conjE) auto
  from v have "operations trx \<noteq> []" "\<forall>op\<in>set (operations trx). operation_validate op = Inr ()"
    using fold_validate[of "operations trx" "()"] by (auto simp: transaction_validate_def)
  then show thesis
    using dupe auth ref d[unfolded db] debt c' by (intro that[of d]) auto
qed

lemma no_unpaid_samet_debt_all:
  assumes "no_unpaid_samet_debt d" "store_all fund_ok (samet_funds d)"
  shows "store_all (\<lambda>f. sfo_unpaid_amount f = 0) (samet_funds d)"
proof (cases "store_first (\<lambda>f. - sfo_unpaid_amount f) (samet_funds d)")
  case None
  then show ?thesis by (simp add: store_all_def)
next
  case (Some p)
  then obtain i f where first: "store_first (\<lambda>f. - sfo_unpaid_amount f) (samet_funds d) = Some (i, f)" by (cases p) simp
  have zero: "sfo_unpaid_amount f = 0" using assms(1) first by (simp add: no_unpaid_samet_debt_def)
  have "sfo_unpaid_amount (snd q) = 0" if "q \<in> set (items (samet_funds d))" for q
  proof -
    have "0 \<le> sfo_unpaid_amount (snd q)" using assms(2) that by (auto simp: store_all_def list_all_iff fund_ok_def)
    with store_first_le[OF first, of "fst q" "snd q"] that zero show ?thesis by simp
  qed
  then show ?thesis by (simp add: store_all_def list_all_iff)
qed

lemma get_signature_keys_set:
  "get_signature_keys recover sigs ks = Inr ks' \<Longrightarrow> set ks' = set ks \<union> recover ` set sigs \<and>
     card (recover ` set sigs) = length sigs \<and> set ks \<inter> recover ` set sigs = {}"
proof (induction sigs arbitrary: ks)
  case (Cons g gs)
  then have n: "recover g \<notin> set ks" and "get_signature_keys recover gs (insort_insert (recover g) ks) = Inr ks'" by auto
  from Cons.IH[OF this(2)] n show ?case by (auto simp: set_insort_insert)
qed simp

context fc_safe
begin

lemma apply_transaction_conserves:
  assumes "apply_transaction fc lib skip trx c = Inr c'"
  shows "conserves (ch_db c) (ch_db c')"
proof -
  from assms obtain d where val: "\<forall>op\<in>set (operations trx). operation_validate op = Inr ()"
    and run: "fold_res (apply_operation fc (required_fee lib)) (operations trx) (ch_db c) = Inr d"
    and c': "ch_db c' = d" by (rule apply_transaction_steps) auto
  have "conserves (ch_db c) e'"
    if "op \<in> set (operations trx)" "conserves (ch_db c) e" "apply_operation fc (required_fee lib) op e = Inr e'"
    for op e e'
    using conserves_trans[OF that(2) apply_operation_conserves[OF _ that(3)]] val that(1) by blast
  from fold_res_invariant[where P = "conserves (ch_db c)", OF this gap_step_refl run] have "conserves (ch_db c) d" .
  then show ?thesis by (simp add: c')
qed

lemma update_credit_time:
  assumes "wf_db d" "update_credit_offers_and_deals fc d = Inr d'"
  shows "head_block_time d' = head_block_time d"
proof -
  have "wf_db (disable_due_offers d)" "head_block_time (disable_due_offers d) = head_block_time d"
    using disable_due_offers_conserves[of d] assms(1) by (auto simp: gap_step_def)
  with process_deals_done[OF _ assms(2)[unfolded update_credit_offers_and_deals_def]] show ?thesis
    by (simp add: rounds_done_def gap_step_def)
qed

lemma chain_step_conserves:
  assumes "chain_step fc lib c c'" "wf_db (ch_db c)" "balances_nonneg (ch_db c)"
  shows "wf_db (ch_db c') \<and> balances_nonneg (ch_db c') \<and> (\<forall>a. supply_gap (ch_db c') a = supply_gap (ch_db c) a)"
  using assms
proof cases
  case (step_transaction skip trx)
  from apply_transaction_conserves[OF this] assms(2,3) show ?thesis by (simp add: gap_step_def)
next
  case (step_summary n word)
  then show ?thesis using assms(2,3) by (auto simp: create_block_summary_def)
next
  case (step_clear_htlcs d)
  have "store_wf (htlcs (ch_db c))" using assms(2) by (simp add: wf_defs)
  from clear_expired_run[OF this step_clear_htlcs(2)] step_clear_htlcs(1) assms(2,3) show ?thesis
    by (simp add: gap_step_def)
next
  case (step_credit d)
  from update_credit_done[OF assms(2,3) step_credit(2)] step_credit(1) show ?thesis by simp
next
  case (step_tickets d)
  from process_tickets_conserves[OF step_tickets(2)] step_tickets(1) assms(2,3) show ?thesis by (simp add: gap_step_def)
next
  case (step_fees account stats d)
  from process_fees_step(1)[OF step_fees(2)] step_fees(1) assms(2,3) show ?thesis by (simp add: gap_step_def)
next
  case (step_cancel_order fee i virt skip d)
  from cancel_limit_order_conserves[OF step_cancel_order(2)] step_cancel_order(1) assms(2,3) show ?thesis by (simp add: gap_step_def)
next
  case (step_missed b s missed s')
  from update_witness_missed_conserves[OF step_missed(2)] step_missed(1,3) assms(2,3) show ?thesis by (simp add: gap_step_def)
next
  case (step_signing w b s s')
  from update_signing_witness_conserves[OF step_signing(2)] step_signing(1,3) assms(2,3) show ?thesis by (simp add: gap_step_def)
qed (simp_all add: wf_defs gap_defs balances_nonneg_def clear_expired_transactions_def update_withdraw_permissions_def)

lemma chain_steps_conserve:
  assumes "chain_steps fc lib c c'" "wf_db (ch_db c)" "balances_nonneg (ch_db c)"
  shows "wf_db (ch_db c') \<and> balances_nonneg (ch_db c') \<and> (\<forall>a. supply_gap (ch_db c') a = supply_gap (ch_db c) a)"
  using assms
proof (induction rule: rtranclp_induct)
  case (step c1 c2)
  then show ?case using chain_step_conserves[of lib c1 c2] by simp
qed simp

lemma chain_step_time:
  assumes "chain_step fc lib c c'" "wf_db (ch_db c)"
  shows "head_block_time (ch_db c) \<le> head_block_time (ch_db c') \<and> ch_head_block_num c \<le> ch_head_block_num c'"
  using assms(1)
proof cases
  case (step_transaction skip trx)
  have "ch_head_block_num c' = ch_head_block_num c" using step_transaction by (rule apply_transaction_steps) auto
  with apply_transaction_conserves[OF step_transaction] assms(2) show ?thesis by (simp add: gap_step_def)
next
  case (step_summary n word)
  then show ?thesis by (auto simp: create_block_summary_def)
next
  case (step_clear_htlcs d)
  have "store_wf (htlcs (ch_db c))" using assms(2) by (simp add: wf_defs)
  from clear_expired_run[OF this step_clear_htlcs(2)] step_clear_htlcs(1) show ?thesis by simp
next
  case (step_credit d)
  from update_credit_time[OF assms(2) step_credit(2)] step_credit(1) show ?thesis by simp
next
  case (step_tickets d)
  from process_tickets_conserves[OF step_tickets(2)] step_tickets(1) assms(2) show ?thesis by (simp add: gap_step_def)
next
  case (step_fees account stats d)
  from process_fees_step(1)[OF step_fees(2)] step_fees(1) assms(2) show ?thesis by (simp add: gap_step_def)
next
  case (step_cancel_order fee i virt skip d)
  from cancel_limit_order_conserves[OF step_cancel_order(2)] step_cancel_order(1) assms(2) show ?thesis by (simp add: gap_step_def)
next
  case (step_missed b s missed s')
  from update_witness_missed_conserves[OF step_missed(2)] step_missed(1,3) assms(2) show ?thesis by (simp add: gap_step_def)
next
  case (step_signing w b s s')
  from update_signing_witness_conserves[OF step_signing(2)] step_signing(1,3) assms(2) show ?thesis by (simp add: gap_step_def)
qed (simp_all add: clear_expired_transactions_def update_withdraw_permissions_def)

end

text \<open>
  A transaction is spent: its id is on record with its expiration, or the chain is past its
  expiration.
\<close>

definition spent :: "trx_lib \<Rightarrow> signed_transaction \<Rightarrow> chain \<Rightarrow> bool" where
  "spent lib trx c \<longleftrightarrow> 0 < ch_head_block_num c \<and> store_wf (ch_transactions c) \<and>
     ((\<exists>i h. store_find (ch_transactions c) i = Some h \<and> th_trx_id h = trx_id lib trx \<and>
         trx_expiration (th_trx h) = trx_expiration trx) \<or>
      trx_expiration trx < head_block_time (ch_db c))"

lemma apply_transaction_index:
  assumes "apply_transaction fc lib skip trx c = Inr c'"
  shows "ch_transactions c' = ch_transactions c \<or>
    ch_transactions c' = store_add (ch_transactions c) \<lparr>th_trx = trx, th_trx_id = trx_id lib trx\<rparr>"
  using assms by (rule apply_transaction_steps) auto

lemma store_find_add_old: "store_wf st \<Longrightarrow> store_find st i = Some v \<Longrightarrow> store_find (store_add st w) i = Some v"
  using store_find_itemsD[of st i v] by (auto simp: store_find_add) (auto simp: store_wf_def)

lemma purge_transactions:
  assumes "store_wf (ch_transactions c)"
  shows "store_wf (ch_transactions (clear_expired_transactions c)) \<and>
    (\<forall>i h. store_find (ch_transactions (clear_expired_transactions c)) i = Some h \<longleftrightarrow>
      store_find (ch_transactions c) i = Some h \<and> head_block_time (ch_db c) \<le> trx_expiration (th_trx h))"
  using purge_spec[OF _ assms, of "\<lambda>t. t < head_block_time (ch_db c)" "\<lambda>h. trx_expiration (th_trx h)"]
  by (auto simp: clear_expired_transactions_def not_less)

context fc_safe
begin

lemma spent_step:
  assumes "chain_step fc lib c c'" "wf_db (ch_db c)" "spent lib trx c"
  shows "spent lib trx c'"
proof -
  note time = chain_step_time[OF assms(1,2)]
  have wf: "store_wf (ch_transactions c)" using assms(3) by (simp add: spent_def)
  from assms(1) have "store_wf (ch_transactions c') \<and> (\<forall>i h. store_find (ch_transactions c) i = Some h \<longrightarrow>
      store_find (ch_transactions c') i = Some h \<or> trx_expiration (th_trx h) < head_block_time (ch_db c'))"
  proof cases
    case (step_transaction skip t)
    from apply_transaction_index[OF this] wf show ?thesis by (auto simp: store_wf_add store_find_add_old)
  next
    case step_clear_transactions
    have "ch_db c' = ch_db c" by (simp add: step_clear_transactions clear_expired_transactions_def)
    with purge_transactions[OF wf] show ?thesis by (auto simp: step_clear_transactions not_le)
  qed (use wf in \<open>auto simp: create_block_summary_def\<close>)
  with assms(3) time show ?thesis unfolding spent_def by fastforce
qed

lemma spent_steps:
  assumes "chain_steps fc lib c c'" "wf_db (ch_db c)" "balances_nonneg (ch_db c)" "spent lib trx c"
  shows "spent lib trx c'"
  using assms
proof (induction rule: rtranclp_induct)
  case (step c1 c2)
  then show ?case using spent_step[of lib c1 c2 trx] chain_steps_conserve[of lib c c1] by simp
qed simp

end

text \<open>A transaction that has been applied with the check for duplicates is spent, and a spent
  transaction is refused.\<close>

lemma applied_spent:
  assumes "apply_transaction fc lib skip trx c = Inr c'" "skip AND skip_transaction_dupe_check = 0"
    "0 < ch_head_block_num c" "store_wf (ch_transactions c)"
  shows "spent lib trx c'"
proof -
  from assms(1,2) obtain d where c': "c' = c\<lparr>ch_transactions := store_add (ch_transactions c)
      \<lparr>th_trx = trx, th_trx_id = trx_id lib trx\<rparr>, ch_db := d\<rparr>"
    by (auto elim: apply_transaction_steps)
  have "store_find (ch_transactions c') (next_id (ch_transactions c)) = Some \<lparr>th_trx = trx, th_trx_id = trx_id lib trx\<rparr>"
    using assms(4) by (simp add: c' store_find_add)
  moreover have "th_trx_id \<lparr>th_trx = trx, th_trx_id = trx_id lib trx\<rparr> = trx_id lib trx"
    "trx_expiration (th_trx \<lparr>th_trx = trx, th_trx_id = trx_id lib trx\<rparr>) = trx_expiration trx" by simp_all
  ultimately have "\<exists>i h. store_find (ch_transactions c') i = Some h \<and> th_trx_id h = trx_id lib trx \<and>
      trx_expiration (th_trx h) = trx_expiration trx" by blast
  then show ?thesis using assms(3,4) by (simp add: spent_def c' store_wf_add)
qed

lemma spent_refused:
  assumes "spent lib trx c" "skip AND skip_transaction_dupe_check = 0"
  shows "apply_transaction fc lib skip trx c \<noteq> Inr c'"
proof
  assume run: "apply_transaction fc lib skip trx c = Inr c'"
  from run have none: "store_search (\<lambda>h. th_trx_id h = trx_id lib trx) (ch_transactions c) = None"
    and ref: "check_reference_and_expiration fc lib skip trx c = Inr ()"
    using assms(2) by (auto elim: apply_transaction_steps)
  from ref assms(1) have "head_block_time (ch_db c) \<le> trx_expiration trx"
    by (auto simp: check_reference_and_expiration_def spent_def)
  with assms(1) obtain i h where h: "store_find (ch_transactions c) i = Some h" "th_trx_id h = trx_id lib trx"
    by (auto simp: spent_def)
  from store_find_itemsD[OF h(1)] h(2) none show False by (force simp: store_search_def find_None_iff)
qed

section \<open>A sample chain\<close>

definition sample_lib :: trx_lib where
  "sample_lib = \<lparr>trx_id = (\<lambda>t. [trx_expiration t]), trx_packed_size = (\<lambda>_. 10), recover_key = (\<lambda>_ g. hd g),
     key_addresses = (\<lambda>k. [k]), viable_custom_authorities = (\<lambda>_ _ _. []), required_fee = (\<lambda>_. Some 3)\<rparr>"

definition sample_chain :: chain where
  "sample_chain = \<lparr>ch_db = sample_db 100, ch_transactions = empty_store, ch_head_block_num = 1,
     ch_block_summaries = \<lparr>items = [(5, 99)], next_id = 6\<rparr>,
     ch_authorities = \<lparr>items = [(7, \<lparr>owner_authority = multisig, active_authority = multisig\<rparr>),
       (8, \<lparr>owner_authority = delegated, active_authority = delegated\<rparr>)], next_id = 9\<rparr>,
     ch_maximum_time_until_expiration = 1000, ch_maximum_transaction_size = 500, ch_max_authority_depth = 1\<rparr>"

definition sample_trx :: signed_transaction where
  "sample_trx = \<lparr>ref_block_num = 5, ref_block_prefix = 99, trx_expiration = 200,
     operations = [Transfer sample_transfer], signatures = [[1], [3]]\<rparr>"

definition sample_chain_after :: chain where
  "sample_chain_after = projr (apply_transaction fc_ref sample_lib 0 sample_trx sample_chain)"

lemma sample_ctx_facts:
  "get_active (signing_context sample_lib sample_chain) 7 = Inr (Some multisig)"
  "available_keys (signing_context sample_lib sample_chain) = []"
  "max_recursion (signing_context sample_lib sample_chain) = Suc 0"
  "viable_custom_authorities sample_lib d a op = []"
  by (simp_all add: signing_context_def sample_chain_def store_get_def store_find_def sample_lib_def)

lemma sample_signed: "transaction_verify_authority sample_lib sample_trx sample_chain = Inr ()"
proof -
  have keys: "get_signature_keys (recover_key sample_lib sample_trx) (signatures sample_trx) [] = Inr [1, 3]"
    by (simp add: sample_lib_def sample_trx_def insort_insert_key_def)
  have "verify_authority (signing_context sample_lib sample_chain) operation_get_required_authorities
      (viable_custom_authorities sample_lib (ch_db sample_chain)) False [] [] [Transfer sample_transfer] [1, 3] = Inr ()"
    by (simp add: sample_ctx_facts verify_authority_def init_sign_state_def fs_union_def check_active_def
        check_account_def check_active_or_owner_def check_with_def signed_by_def mark_used_def
        remove_unused_signatures_def insort_insert_key_def account_constants multisig_def
        operation_get_required_authorities_def sample_transfer_def
        del: bnd_eq_Inr_iff ensure_eq_Inr_iff cong: eval_congs)
  with keys show ?thesis by (simp add: transaction_verify_authority_def sample_trx_def)
qed

lemma sample_run: "apply_transaction fc_ref sample_lib 0 sample_trx sample_chain = Inr sample_chain_after"
proof -
  have v: "transaction_validate sample_trx = Inr ()"
  proof -
    have "operation_validate (Transfer sample_transfer) = Inr ()"
      by (simp add: transfer_validate_def sample_transfer_def)
    then show ?thesis by (simp add: transaction_validate_def sample_trx_def del: operation_validate.simps cong: eval_congs)
  qed
  have r: "check_reference_and_expiration fc_ref sample_lib 0 sample_trx sample_chain = Inr ()"
    by (simp add: check_reference_and_expiration_def sample_trx_def sample_chain_def sample_lib_def sample_db_def
        HARDFORK_CORE_1573_TIME_def store_get_def store_find_def fc_ref_simps cong: eval_congs)
  have "\<not> isl (run_transfer fc_ref (Some 3) sample_transfer (sample_db 100)) \<and>
      samet_funds (projr (run_transfer fc_ref (Some 3) sample_transfer (sample_db 100))) = empty_store"
    by (simp add: run_transfer_def sample_transfer_def transfer_do_evaluate_def transfer_do_apply_def
        is_transfer_restricted_def run_eval sample_defs fc_ref_simps cong: eval_congs)
  then obtain d where d: "run_transfer fc_ref (Some 3) sample_transfer (sample_db 100) = Inr d" "samet_funds d = empty_store"
    by (cases "run_transfer fc_ref (Some 3) sample_transfer (sample_db 100)") auto
  have fresh: "store_search P (ch_transactions sample_chain) = None" for P
    by (simp add: sample_chain_def store_search_def empty_store_def)
  have ops: "fold_res (apply_operation fc_ref (required_fee sample_lib)) (operations sample_trx) (ch_db sample_chain) = Inr d"
    using d(1) by (simp add: sample_trx_def sample_chain_def sample_lib_def)
  have debt: "no_unpaid_samet_debt d" using d(2) by (simp add: no_unpaid_samet_debt_def store_first_def empty_store_def)
  have "\<not> isl (apply_transaction fc_ref sample_lib 0 sample_trx sample_chain)"
    by (simp add: apply_transaction_def v sample_signed r fresh ops debt cong: eval_congs)
  then show ?thesis by (simp add: sample_chain_after_def)
qed

lemma sample_chain_facts: "wf_db (ch_db sample_chain)" "balances_nonneg (ch_db sample_chain)"
  "store_wf (ch_transactions sample_chain)" "0 < ch_head_block_num sample_chain"
  by (simp_all add: sample_chain_def sample_defs wf_defs wf_assets_def store_wf_def store_find_def store_all_def
      CORE_ASSET_def CORE_DYN_def balances_nonneg_def)

section \<open>Properties\<close>

text \<open>
  A transaction that is applied, whatever its operations are, conserves every asset: the amount of an
  asset that accounts, orders, pools, funds, offers, contracts and fees hold, minus the recorded supply,
  does not change. It keeps the database well-formed and all balances non-negative, and leaves no debt to
  a SameT fund.
\<close>

theorem transaction_conserves:
  assumes "fc_safe fc" "wf_db (ch_db c)" "balances_nonneg (ch_db c)" "apply_transaction fc lib skip trx c = Inr c'"
  shows "wf_db (ch_db c') \<and> balances_nonneg (ch_db c') \<and> (\<forall>a. supply_gap (ch_db c') a = supply_gap (ch_db c) a) \<and>
    store_all (\<lambda>f. sfo_unpaid_amount f = 0) (samet_funds (ch_db c'))"
proof -
  have wf: "wf_db (ch_db c') \<and> balances_nonneg (ch_db c') \<and> (\<forall>a. supply_gap (ch_db c') a = supply_gap (ch_db c) a)"
    using fc_safe.apply_transaction_conserves[OF assms(1,4)] assms(2,3) by (simp add: gap_step_def)
  from assms(4) have "no_unpaid_samet_debt (ch_db c')" by (rule apply_transaction_steps) auto
  from no_unpaid_samet_debt_all[OF this] wf show ?thesis by (simp add: wf_defs)
qed

theorem transaction_conserves_witness:
  "supply_gap (ch_db sample_chain_after) 0 = supply_gap (ch_db sample_chain) 0"
  using transaction_conserves[OF fc_ref.fc_safe_axioms sample_chain_facts(1,2) sample_run] by simp

text \<open>
  C1: over any sequence of transactions, new blocks, removals of expired transactions, contracts and
  permissions, processing of credit deals and payments of accumulated fees, every asset is conserved, the
  database stays well-formed, and no balance becomes negative.
\<close>

theorem chain_conserves_supply:
  assumes "fc_safe fc" "wf_db (ch_db c)" "balances_nonneg (ch_db c)" "chain_steps fc lib c c'"
  shows "wf_db (ch_db c') \<and> balances_nonneg (ch_db c') \<and> (\<forall>a. supply_gap (ch_db c') a = supply_gap (ch_db c) a)"
  by (rule fc_safe.chain_steps_conserve[OF assms(1,4,2,3)])

theorem chain_conserves_supply_witness:
  "supply_gap (ch_db (clear_expired_transactions sample_chain_after)) 0 = supply_gap (ch_db sample_chain) 0"
proof -
  have "chain_steps fc_ref sample_lib sample_chain (clear_expired_transactions sample_chain_after)"
    using step_transaction[OF sample_run] step_clear_transactions[of fc_ref sample_lib sample_chain_after]
    by (meson r_into_rtranclp rtranclp.rtrancl_into_rtrancl)
  from chain_conserves_supply[OF fc_ref.fc_safe_axioms sample_chain_facts(1,2) this] show ?thesis by simp
qed

text \<open>
  C2: voting power is never created: in every state the chain reaches, the voting value that the statistics
  of an account show for locked tokens is the sum of the values of the tickets it owns, which is at most eight
  times the amounts locked in them, and the amounts locked forever are the globally recorded ones.
\<close>

theorem chain_voting_books:
  assumes "fc_safe fc" "wf_db (ch_db c)" "balances_nonneg (ch_db c)" "chain_steps fc lib c c'"
    and "store_find (account_stats (ch_db c')) i = Some s"
  shows "total_pol_value s + total_pob_value s =
      store_sum (\<lambda>t. if tk_account t = i then tk_value t else 0) (tickets (ch_db c')) \<and>
    total_core_pol s + total_core_pob s + total_core_inactive s =
      store_sum (\<lambda>t. if tk_account t = i then amount (tk_amount t) else 0) (tickets (ch_db c')) \<and>
    total_pol_value s + total_pob_value s \<le> 8 * (total_core_pol s + total_core_pob s) \<and>
    total_pob (ch_db c') + total_inactive (ch_db c') =
      store_sum (\<lambda>t. if tk_current_type t = Lock_forever then amount (tk_amount t) else 0) (tickets (ch_db c'))"
  using wf_db_tickets[of "ch_db c'"] fc_safe.chain_steps_conserve[OF assms(1,4,2,3)] assms(5)
  by (intro ticket_books_voting) auto

definition ticket_chain :: chain where
  "ticket_chain = sample_chain\<lparr>ch_db := ticket_db\<rparr>"

theorem chain_voting_books_witness:
  "\<exists>c'. chain_steps fc_ref sample_lib ticket_chain c' \<and> total_pob (ch_db c') + total_inactive (ch_db c') =
     store_sum (\<lambda>t. if tk_current_type t = Lock_forever then amount (tk_amount t) else 0) (tickets (ch_db c'))"
proof -
  have "process_tickets fc_ref (ch_db ticket_chain) = Inr ticket_db_charged"
    using process_tickets_sample by (simp add: ticket_chain_def)
  from r_into_rtranclp[of "chain_step fc_ref sample_lib", OF step_tickets[OF this]]
  have "chain_steps fc_ref sample_lib ticket_chain (ticket_chain\<lparr>ch_db := ticket_db_charged\<rparr>)" .
  moreover have "wf_db (ch_db ticket_chain)" "balances_nonneg (ch_db ticket_chain)"
    using ticket_db_ok by (simp_all add: ticket_chain_def)
  moreover have "store_find (account_stats (ch_db (ticket_chain\<lparr>ch_db := ticket_db_charged\<rparr>))) 7 =
      Some (sample_stats\<lparr>total_core_pol := 10, total_pol_value := 40\<rparr>)"
    by (simp add: ticket_db_charged_def store_find_def)
  ultimately show ?thesis using chain_voting_books[OF fc_ref.fc_safe_axioms] by blast
qed

text \<open>
  C6: no transaction is applied twice: once a transaction has been applied after the first block with the
  check for duplicates on, no later application of it with that check succeeds, whatever happens in
  between, the removal of expired transactions from the record included.
\<close>

theorem no_replay:
  assumes "fc_safe fc" "wf_db (ch_db c)" "balances_nonneg (ch_db c)" "store_wf (ch_transactions c)"
    and "0 < ch_head_block_num c" "skip AND skip_transaction_dupe_check = 0"
    and "apply_transaction fc lib skip trx c = Inr c1" "chain_steps fc lib c1 c2"
    and "skip' AND skip_transaction_dupe_check = 0"
  shows "\<exists>e. apply_transaction fc lib skip' trx c2 = Inl e"
proof -
  have c1: "wf_db (ch_db c1)" "balances_nonneg (ch_db c1)"
    using fc_safe.apply_transaction_conserves[OF assms(1,7)] assms(2,3) by (simp_all add: gap_step_def)
  have "spent lib trx c2"
    by (rule fc_safe.spent_steps[OF assms(1,8) c1 applied_spent[OF assms(7,6,5,4)]])
  from spent_refused[OF this assms(9), of fc] show ?thesis
    by (cases "apply_transaction fc lib skip' trx c2") auto
qed

theorem no_replay_witness:
  "\<exists>e. apply_transaction fc_ref sample_lib 0 sample_trx (clear_expired_transactions sample_chain_after) = Inl e"
proof -
  have "chain_steps fc_ref sample_lib sample_chain_after (clear_expired_transactions sample_chain_after)"
    by (rule r_into_rtranclp) (rule step_clear_transactions)
  from no_replay[OF fc_ref.fc_safe_axioms sample_chain_facts(1-4) _ sample_run this, of 0] show ?thesis by simp
qed

text \<open>
  C17: a transaction is applied, unless the check of signatures is skipped, only when the keys that made its
  signatures, all of them different, authorize the payer of the fee of each of its operations: through
  the active authority of the account, its owner authority, or a viable custom authority. The committee
  account pays for no operation of a transaction other than by a custom authority, and changing the issuer
  of an asset takes the owner authority of the issuer.
\<close>

theorem transaction_authorized:
  assumes "apply_transaction fc lib skip trx c = Inr c'" "skip AND skip_transaction_signatures = 0"
    and "op \<in> set (operations trx)"
  shows "let ctx = signing_context lib c; K = recover_key lib trx ` set (signatures trx); A = {GRAPHENE_TEMP_ACCOUNT};
      custom = (\<exists>au\<in>set (viable_custom_authorities lib (ch_db c) (op_fee_payer op) op). satisfied ctx K A au)
    in card K = length (signatures trx) \<and>
      (approved ctx K A (op_fee_payer op) \<or> owner_satisfied ctx K A (op_fee_payer op) \<or> custom) \<and>
      (op_fee_payer op = GRAPHENE_COMMITTEE_ACCOUNT \<longrightarrow> custom) \<and>
      (\<forall>u. op = Asset_update_issuer u \<longrightarrow> owner_satisfied ctx K A (aui_issuer u))"
proof -
  from assms(1) have "transaction_verify_authority lib trx c = Inr ()"
    by (rule apply_transaction_steps) (use assms(2) in blast)
  then obtain keys where keys: "get_signature_keys (recover_key lib trx) (signatures trx) [] = Inr keys"
    and ver: "verify_authority (signing_context lib c) operation_get_required_authorities
       (viable_custom_authorities lib (ch_db c)) False [] [] (operations trx) keys = Inr ()"
    by (auto simp: transaction_verify_authority_def)
  have "available_keys (signing_context lib c) = []" by (simp add: signing_context_def)
  from verify_authority_parts[OF this ver assms(3)] get_signature_keys_set[OF keys] show ?thesis
    by (auto simp: operation_get_required_authorities_def)
qed

theorem transaction_authorized_witness:
  "let K = {1, 3}; ctx = signing_context sample_lib sample_chain
   in approved ctx K {GRAPHENE_TEMP_ACCOUNT} 7 \<or> owner_satisfied ctx K {GRAPHENE_TEMP_ACCOUNT} 7"
proof -
  have "Transfer sample_transfer \<in> set (operations sample_trx)" by (simp add: sample_trx_def)
  from transaction_authorized[OF sample_run _ this] show ?thesis
    by (simp add: sample_lib_def sample_trx_def sample_transfer_def insert_commute)
qed

end
