(* ===== verification/Merkle_Root.thy ===== *)
theory Merkle_Root
  imports Prelude
begin

text \<open>
  The Merkle root of the transactions of a block: \<open>signed_block::calculate_merkle_root\<close>
  (\<open>libraries/protocol/block.cpp\<close>). The loops write the hashes of a level over those of the level below in one
  vector; a recursion over levels says what they compute, and that an exchange of transactions that keeps the root
  comes with a collision of the hashes.
  The digests of the transactions, the hash of a pair and the hash of the root are those of \<open>fc\<close> and
  arguments here. The cached value of an earlier call is left out.
\<close>

section \<open>The loops\<close>

text \<open>The loop over the pairs of a level: \<open>i\<close> is the position of the pair, \<open>k\<close> that of its hash.\<close>

function merkle_for :: "('d \<Rightarrow> 'd \<Rightarrow> 'd) \<Rightarrow> nat \<Rightarrow> nat \<Rightarrow> nat \<Rightarrow> 'd list \<Rightarrow> 'd list \<times> nat" where
  "merkle_for h i_max i k ids =
     (if i < i_max then merkle_for h i_max (i + 2) (Suc k) (ids[k := h (ids ! i) (ids ! (i + 1))]) else (ids, k))"
  by pat_completeness auto
termination by (relation "measure (\<lambda>(h, i_max, i, k, ids). i_max - i)") auto

declare merkle_for.simps [simp del]

definition merkle_level :: "('d \<Rightarrow> 'd \<Rightarrow> 'd) \<Rightarrow> nat \<Rightarrow> 'd list \<Rightarrow> 'd list \<times> nat" where
  "merkle_level h n ids =
     (let i_max = n - n mod 2 in
      case merkle_for h i_max 0 0 ids of (ids, k) \<Rightarrow>
      if n mod 2 = 1 then (ids[k := ids ! i_max], Suc k) else (ids, k))"

lemma merkle_for_count:
  "snd (merkle_for h i_max i k ids) = k + (if i < i_max then (i_max - i + 1) div 2 else 0)"
proof (induction h i_max i k ids rule: merkle_for.induct)
  case (1 h i_max i k ids)
  show ?case
  proof (cases "i < i_max")
    case True
    have "Suc (i_max - i) div 2 = Suc (if i + 2 < i_max then (i_max - (i + 2) + 1) div 2 else 0)"
    proof (cases "i + 2 < i_max")
      case True
      then have "Suc (i_max - i) = 2 + (i_max - (i + 2) + 1)" by simp
      then show ?thesis using True by simp
    next
      case False
      then have "i_max - i = 1 \<or> i_max - i = 2" using \<open>i < i_max\<close> by arith
      then show ?thesis using False by auto
    qed
    then show ?thesis using 1[OF True] True by (subst merkle_for.simps) simp
  qed (subst merkle_for.simps, simp)
qed

lemma merkle_level_count: "snd (merkle_level h n ids) = (n + 1) div 2"
proof -
  have "snd (merkle_for h (n - n mod 2) 0 0 ids) = n div 2"
    unfolding merkle_for_count by (cases "n - n mod 2 = 0") (auto simp: minus_mod_eq_mult_div)
  then have "snd (merkle_level h n ids) = n div 2 + n mod 2"
    by (cases "n mod 2 = 1") (auto simp: merkle_level_def Let_def split: prod.splits)
  also have "\<dots> = (n + 1) div 2" by presburger
  finally show ?thesis .
qed

function merkle_loop :: "('d \<Rightarrow> 'd \<Rightarrow> 'd) \<Rightarrow> nat \<Rightarrow> 'd list \<Rightarrow> 'd list" where
  "merkle_loop h n ids = (if 1 < n then case merkle_level h n ids of (ids, k) \<Rightarrow> merkle_loop h k ids else ids)"
  by pat_completeness auto
termination
proof (relation "measure (\<lambda>(h, n, ids). n)")
  fix h :: "'d \<Rightarrow> 'd \<Rightarrow> 'd" and n :: nat and ids ids' :: "'d list" and k
  assume n: "1 < n" and "(ids', k) = merkle_level h n ids"
  then have "k = (n + 1) div 2" using merkle_level_count[of h n ids] by (metis snd_conv)
  then show "((h, k, ids'), h, n, ids) \<in> measure (\<lambda>(h, n, ids). n)" using n by auto
qed simp

declare merkle_loop.simps [simp del]

definition calculate_merkle_root :: "('d \<Rightarrow> 'd \<Rightarrow> 'd) \<Rightarrow> ('d \<Rightarrow> 'c) \<Rightarrow> 'c \<Rightarrow> ('t \<Rightarrow> 'd) \<Rightarrow> 't list \<Rightarrow> 'c" where
  "calculate_merkle_root hash_pair checksum empty_checksum merkle_digest transactions =
     (if transactions = [] then empty_checksum
      else
        let ids = map merkle_digest transactions
        in checksum (merkle_loop hash_pair (length ids) ids ! 0))"

section \<open>Levels\<close>

fun pair_up :: "('d \<Rightarrow> 'd \<Rightarrow> 'd) \<Rightarrow> 'd list \<Rightarrow> 'd list" where
  "pair_up h (x # y # xs) = h x y # pair_up h xs"
| "pair_up h xs = xs"

lemma length_pair_up: "length (pair_up h xs) = (length xs + 1) div 2"
  by (induction h xs rule: pair_up.induct) auto

lemma nth_pair_up:
  "i < length (pair_up h xs) \<Longrightarrow> pair_up h xs ! i = (if Suc (2 * i) < length xs then h (xs ! (2 * i)) (xs ! Suc (2 * i)) else xs ! (2 * i))"
proof (induction h xs arbitrary: i rule: pair_up.induct)
  case (1 h x y xs)
  then show ?case by (cases i) auto
qed auto

text \<open>The inner loop writes the hashes of the pairs from the front, without overwriting a digest it still needs.\<close>

lemma merkle_for_spec:
  assumes "length ids' = length ids" "2 * k \<le> i_max" "i_max \<le> length ids" "even i_max"
    and "\<forall>j < k. ids' ! j = h (ids ! (2 * j)) (ids ! Suc (2 * j))" "\<forall>j. 2 * k \<le> j \<and> j < length ids \<longrightarrow> ids' ! j = ids ! j"
  shows "\<exists>out. merkle_for h i_max (2 * k) k ids' = (out, i_max div 2) \<and> length out = length ids \<and>
    (\<forall>j < i_max div 2. out ! j = h (ids ! (2 * j)) (ids ! Suc (2 * j))) \<and> (\<forall>j. i_max \<le> j \<and> j < length ids \<longrightarrow> out ! j = ids ! j)"
  using assms
proof (induction "i_max - 2 * k" arbitrary: k ids' rule: less_induct)
  case less
  show ?case
  proof (cases "2 * k < i_max")
    case True
    with less.prems(4) have next_le: "2 * Suc k \<le> i_max" by (auto elim: evenE)
    let ?new = "ids'[k := h (ids' ! (2 * k)) (ids' ! (2 * k + 1))]"
    have k: "k < length ids'" "2 * k + 1 < length ids" using True next_le less.prems(1,3) by simp_all
    have "\<forall>j < Suc k. ?new ! j = h (ids ! (2 * j)) (ids ! Suc (2 * j))"
      using less.prems(5,6) k by (auto simp: less_Suc_eq nth_list_update)
    moreover have "\<forall>j. 2 * Suc k \<le> j \<and> j < length ids \<longrightarrow> ?new ! j = ids ! j" using less.prems(6) by (auto simp: nth_list_update)
    ultimately have "\<exists>out. merkle_for h i_max (2 * Suc k) (Suc k) ?new = (out, i_max div 2) \<and> length out = length ids \<and>
      (\<forall>j < i_max div 2. out ! j = h (ids ! (2 * j)) (ids ! Suc (2 * j))) \<and> (\<forall>j. i_max \<le> j \<and> j < length ids \<longrightarrow> out ! j = ids ! j)"
      using less.prems(1,3,4) next_le True by (intro less.hyps) simp_all
    then show ?thesis using True by (subst merkle_for.simps) (simp add: add.commute)
  next
    case False
    then have "i_max = 2 * k" using less.prems(2) by simp
    then show ?thesis using less.prems by (subst merkle_for.simps) auto
  qed
qed

lemma merkle_level_spec:
  assumes "n \<le> length ids" "merkle_level h n ids = (out, k)"
  shows "length out = length ids" "take k out = pair_up h (take n ids)"
proof -
  let ?m = "n - n mod 2"
  have m: "even ?m" "?m div 2 = n div 2" "?m = 2 * (n div 2)" by (simp_all add: minus_mod_eq_mult_div)
  have le: "?m \<le> length ids" using assms(1) by simp
  obtain mid where mid: "merkle_for h ?m 0 0 ids = (mid, n div 2)" "length mid = length ids"
    "\<forall>j < n div 2. mid ! j = h (ids ! (2 * j)) (ids ! Suc (2 * j))" "\<forall>j. ?m \<le> j \<and> j < length ids \<longrightarrow> mid ! j = ids ! j"
    using merkle_for_spec[OF refl _ le m(1), of 0 h] unfolding m(2) by auto
  have k: "k = (n + 1) div 2" using merkle_level_count[of h n ids] assms(2) by simp
  have out: "out = (if n mod 2 = 1 then mid[n div 2 := mid ! ?m] else mid)"
    using assms(2) mid(1) by (auto simp: merkle_level_def Let_def split: if_splits)
  then show len: "length out = length ids" using mid(2) by simp
  show "take k out = pair_up h (take n ids)"
  proof (rule nth_equalityI)
    show "length (take k out) = length (pair_up h (take n ids))" using len k assms(1) by (simp add: length_pair_up)
    fix j assume j: "j < length (take k out)"
    then have jk: "j < (n + 1) div 2" "j < length (pair_up h (take n ids))" using len k assms(1) by (simp_all add: length_pair_up)
    have "out ! j = (if Suc (2 * j) < n then h (ids ! (2 * j)) (ids ! Suc (2 * j)) else ids ! (2 * j))"
    proof (cases "Suc (2 * j) < n")
      case True
      then have "j < n div 2" by simp
      then show ?thesis using mid(3) out True by (auto simp: nth_list_update)
    next
      case False
      then have odd: "n mod 2 = 1" "j = n div 2" "?m = 2 * j" "2 * j < n" using jk(1) m by (presburger+)
      then show ?thesis using out mid(2,4) False assms(1) by (auto simp: nth_list_update)
    qed
    then show "take k out ! j = pair_up h (take n ids) ! j" using jk j assms(1) nth_pair_up[OF jk(2)] by auto
  qed
qed

text \<open>The value of the loop: pairing up until one digest is left.\<close>

function merkle_tree :: "('d \<Rightarrow> 'd \<Rightarrow> 'd) \<Rightarrow> 'd list \<Rightarrow> 'd" where
  "merkle_tree h xs = (if 1 < length xs then merkle_tree h (pair_up h xs) else hd xs)"
  by pat_completeness auto
termination by (relation "measure (\<lambda>(h, xs). length xs)") (auto simp: length_pair_up)

declare merkle_tree.simps [simp del]

lemma merkle_loop_tree:
  assumes "0 < n" "n \<le> length ids"
  shows "merkle_loop h n ids ! 0 = merkle_tree h (take n ids)"
  using assms
proof (induction h n ids rule: merkle_loop.induct)
  case (1 h n ids)
  show ?case
  proof (cases "1 < n")
    case True
    obtain out k where level: "merkle_level h n ids = (out, k)" by fastforce
    note spec = merkle_level_spec[OF 1(3) level]
    have k: "k = (n + 1) div 2" using merkle_level_count[of h n ids] level by simp
    have "merkle_loop h k out ! 0 = merkle_tree h (take k out)"
      using 1(1)[OF True level[symmetric]] k True 1(3) spec(1) by simp
    moreover have "merkle_tree h (take n ids) = merkle_tree h (pair_up h (take n ids))"
      using True 1(3) by (subst merkle_tree.simps) simp
    ultimately show ?thesis using True level spec(2) by (subst merkle_loop.simps) simp
  next
    case False
    then have "n = 1" "ids \<noteq> []" using 1(2,3) by auto
    then show ?thesis by (subst merkle_loop.simps, subst merkle_tree.simps) (cases ids; simp)
  qed
qed

section \<open>The root determines the transactions\<close>

text \<open>The pairs of digests that are hashed for one level, and for the whole tree.\<close>

fun level_pairs :: "'d list \<Rightarrow> ('d \<times> 'd) list" where
  "level_pairs (x # y # xs) = (x, y) # level_pairs xs"
| "level_pairs xs = []"

function tree_pairs :: "('d \<Rightarrow> 'd \<Rightarrow> 'd) \<Rightarrow> 'd list \<Rightarrow> ('d \<times> 'd) list" where
  "tree_pairs h xs = (if 1 < length xs then level_pairs xs @ tree_pairs h (pair_up h xs) else [])"
  by pat_completeness auto
termination by (relation "measure (\<lambda>(h, xs). length xs)") (auto simp: length_pair_up)

declare tree_pairs.simps [simp del]

text \<open>Two pairs that are hashed, one for each list, that differ and have the same hash.\<close>

definition collides :: "('d \<Rightarrow> 'd \<Rightarrow> 'd) \<Rightarrow> ('d \<times> 'd) list \<Rightarrow> ('d \<times> 'd) list \<Rightarrow> bool" where
  "collides h ps qs \<longleftrightarrow> (\<exists>(a, b)\<in>set ps. \<exists>(c, d)\<in>set qs. (a, b) \<noteq> (c, d) \<and> h a b = h c d)"

lemma collides_mono: "collides h ps qs \<Longrightarrow> set ps \<subseteq> set ps' \<Longrightarrow> set qs \<subseteq> set qs' \<Longrightarrow> collides h ps' qs'"
  unfolding collides_def by blast

lemma pair_up_collision:
  assumes "length xs = length ys" "pair_up h xs = pair_up h ys" "xs \<noteq> ys"
  shows "collides h (level_pairs xs) (level_pairs ys)"
  using assms
proof (induction h xs arbitrary: ys rule: pair_up.induct)
  case (1 h x y xs)
  then obtain a b zs where ys: "ys = a # b # zs" by (metis length_Suc_conv)
  with 1(3) have eq: "h x y = h a b" "pair_up h xs = pair_up h zs" by simp_all
  show ?case
  proof (cases "(x, y) = (a, b)")
    case True
    with 1(2,4) ys eq(2) have "collides h (level_pairs xs) (level_pairs zs)" by (intro 1(1)) auto
    then show ?thesis by (rule collides_mono) (auto simp: ys)
  next
    case False
    then show ?thesis using eq(1) by (auto simp: collides_def ys)
  qed
qed (auto simp: Suc_length_conv)

lemma merkle_tree_collision:
  assumes "length xs = length ys" "merkle_tree h xs = merkle_tree h ys" "xs \<noteq> ys"
  shows "collides h (tree_pairs h xs) (tree_pairs h ys)"
  using assms
proof (induction h xs arbitrary: ys rule: merkle_tree.induct)
  case (1 h xs)
  show ?case
  proof (cases "1 < length xs")
    case True
    have tp: "tree_pairs h zs = level_pairs zs @ tree_pairs h (pair_up h zs)"
      "merkle_tree h zs = merkle_tree h (pair_up h zs)" if "length zs = length xs" for zs
      using True that tree_pairs.simps[of h zs] merkle_tree.simps[of h zs] by simp_all
    note xs = tp[OF refl] and ys = tp[OF 1(2)[symmetric]]
    show ?thesis
    proof (cases "pair_up h xs = pair_up h ys")
      case same: True
      from pair_up_collision[OF 1(2) same 1(4)] show ?thesis by (rule collides_mono) (auto simp: xs ys)
    next
      case False
      have "collides h (tree_pairs h (pair_up h xs)) (tree_pairs h (pair_up h ys))"
        using 1(2,3) xs(2) ys(2) False by (intro 1(1)[OF True]) (simp_all add: length_pair_up)
      then show ?thesis by (rule collides_mono) (auto simp: xs ys)
    qed
  next
    case False
    then have "xs = [] \<and> ys = [] \<or> (\<exists>x y. xs = [x] \<and> ys = [y])" using 1(2)
      by (cases xs; cases ys) auto
    then show ?thesis using 1(3,4) merkle_tree.simps[of h xs] merkle_tree.simps[of h ys] by auto
  qed
qed

text \<open>
  C14: The Merkle root that \<open>signed_block::calculate_merkle_root\<close> computes in place is the root of the tree that
  pairs up neighbouring digests level by level, whatever the hash functions are. It binds a block to its
  transactions: two lists of equally many transactions with different digests can only have the same root
  when the two computations themselves hash two different pairs of digests to the same value, or take the
  checksum of two different roots and get the same value. So whoever exchanges transactions under a given root
  holds a concrete collision of one of the two hash functions.
\<close>

theorem merkle_root_binds:
  "calculate_merkle_root hash_pair checksum empty_checksum digest txs =
     (if txs = [] then empty_checksum else checksum (merkle_tree hash_pair (map digest txs))) \<and>
   (length txs = length txs' \<and> map digest txs \<noteq> map digest txs' \<and>
    calculate_merkle_root hash_pair checksum empty_checksum digest txs =
    calculate_merkle_root hash_pair checksum empty_checksum digest txs' \<longrightarrow>
      collides hash_pair (tree_pairs hash_pair (map digest txs)) (tree_pairs hash_pair (map digest txs')) \<or>
      merkle_tree hash_pair (map digest txs) \<noteq> merkle_tree hash_pair (map digest txs') \<and>
      checksum (merkle_tree hash_pair (map digest txs)) = checksum (merkle_tree hash_pair (map digest txs')))"
proof -
  have root: "calculate_merkle_root hash_pair checksum empty_checksum digest ts =
      (if ts = [] then empty_checksum else checksum (merkle_tree hash_pair (map digest ts)))" for ts
    using merkle_loop_tree[of "length (map digest ts)" "map digest ts" hash_pair]
    by (simp add: calculate_merkle_root_def Let_def)
  show ?thesis
  proof (intro conjI impI root, elim conjE)
    assume len: "length txs = length txs'" and ne: "map digest txs \<noteq> map digest txs'"
      and eq: "calculate_merkle_root hash_pair checksum empty_checksum digest txs =
        calculate_merkle_root hash_pair checksum empty_checksum digest txs'"
    from len ne have "txs \<noteq> []" "txs' \<noteq> []" by auto
    with eq have cs: "checksum (merkle_tree hash_pair (map digest txs)) = checksum (merkle_tree hash_pair (map digest txs'))"
      by (simp add: root)
    show "collides hash_pair (tree_pairs hash_pair (map digest txs)) (tree_pairs hash_pair (map digest txs')) \<or>
      merkle_tree hash_pair (map digest txs) \<noteq> merkle_tree hash_pair (map digest txs') \<and>
      checksum (merkle_tree hash_pair (map digest txs)) = checksum (merkle_tree hash_pair (map digest txs'))"
      using merkle_tree_collision[of "map digest txs" "map digest txs'" hash_pair] len ne cs by auto
  qed
qed

text \<open>With addition for the hash of a pair, exchanging the first two of three transactions keeps the root, and
  the pairs that collide are the first ones.\<close>

theorem merkle_root_binds_witness:
  "calculate_merkle_root plus id 0 id [1, 2, 3] = (6 :: nat) \<and> calculate_merkle_root plus id 0 id [2, 1, 3] = (6 :: nat) \<and>
   collides plus (tree_pairs plus [1, 2, 3]) (tree_pairs plus [2, 1, 3 :: nat])"
proof -
  have tree: "merkle_tree plus [a, b, c] = a + b + c" for a b c :: nat
    by (subst merkle_tree.simps, simp, subst merkle_tree.simps, simp, subst merkle_tree.simps, simp)
  then show ?thesis
    using merkle_root_binds[of "plus" id 0 id "[1, 2, 3 :: nat]" "[2, 1, 3]"] merkle_root_binds[of "plus" id 0 id "[2, 1, 3 :: nat]" "[]"]
    by auto
qed

end
