(* ===== verification/Spec2Isabelle.thy ===== *)
theory Spec2Isabelle
  imports Pool_Properties Transfers Undo_Database Samet_Fund Htlc Credit_Properties Withdraw_Permission
    Vesting_Operations Tickets Transactions Fork_Database Witness_Schedule Limit_Order Merkle_Root
begin

text \<open>
  A verification library for acloudbank-core, a node of a Graphene blockchain: accounts, assets and a market on
  a delegated proof-of-stake chain. The development models the consensus code in \<open>src/libraries/protocol\<close>,
  \<open>src/libraries/chain\<close> and \<open>src/libraries/db\<close>: the objects of the chain, the operations that change them, the
  work done for every block, the history that undoes changes, and the tree of competing blocks.

  \<^bold>\<open>The program.\<close> The state is a set of indexes of objects. A transaction is a list of operations with
  signatures; \<open>database::_apply_transaction\<close> checks it and runs the evaluator of every operation, which first
  checks the operation against the state (\<open>do_evaluate\<close>), then collects the fee and changes the state
  (\<open>do_apply\<close>). A block is a list of transactions; after them the node pays the witness that produced the
  block and processes what is due (tickets, contracts, credit deals, permissions). Blocks live in a tree, and
  the undo history takes blocks back when the node switches to a longer branch.

  \<^bold>\<open>Modelling.\<close> A class is a record with the source's members, an enumeration or \<open>static_variant\<close> a datatype, an
  index a \<open>store\<close> (objects under their ids in the order of creation, with the next id), a function that may
  throw a function into \<open>error + 'a\<close>, and the global state the record \<open>database\<close>, which every operation takes
  and returns. Amounts (\<open>share_type\<close>) are integers whose operators throw on overflow; other machine integers
  carry their wrap-around explicitly (\<open>to_int64\<close>, \<open>u128\<close>, \<open>mod 2 ^ 32\<close>, words). A throw leaves no state behind,
  because the transaction or the block is undone. The library \<open>fc\<close>, a git submodule, is the record \<open>fc_lib\<close>; the
  locale \<open>fc_safe\<close> states its documented laws (exact results or an exception, plain addition of times below
  \<open>2 ^ 32\<close>) and is interpreted by a reference instance, on which every example is evaluated.

  \<^bold>\<open>Theories.\<close>
  \<^item> \<open>Prelude\<close>: results, machine integers, \<open>fc_lib\<close> and \<open>fc_safe\<close>, rounding, lists. \<open>Asset\<close>: amounts, prices and
    their multiplication (\<open>asset.cpp\<close>). \<open>Object_Store\<close>: indexes with the locale \<open>object_index\<close>, interpreted by
    stores. \<open>Chain_Objects\<close>, \<open>Chain_State\<close>: the objects, balances (\<open>db_balance.cpp\<close>), and what the chain holds of
    an asset; the locale \<open>ledger\<close> is the contract of balances that transfers rely on.
  \<^item> \<open>Vesting\<close>, \<open>Vesting_Operations\<close>: vesting policies and balances. \<open>Fees\<close>: collecting, splitting and paying out
    fees, the evaluator skeleton, and \<open>conserving_evaluator\<close>, the locale of an evaluator whose \<open>do_apply\<close>
    conserves every asset; each operation below is a sublocale of it, and from that contract the theorem on
    whole transactions follows. \<open>Market_Fees\<close>: fees of trades and their sharing.
  \<^item> Operations: \<open>Transfers\<close>, \<open>Asset_Operations\<close> (issuing, reserving, fee pools, issuers), \<open>Liquidity_Pool\<close> and
    \<open>Pool_Properties\<close>, \<open>Samet_Fund\<close>, \<open>Htlc\<close>, \<open>Credit_Offer\<close>, \<open>Credit_Expiry\<close> and \<open>Credit_Properties\<close>,
    \<open>Withdraw_Permission\<close>, \<open>Ticket_Object\<close> and \<open>Tickets\<close>; \<open>Operations\<close> is the union of them with the visitors
    of \<open>operations.cpp\<close> and \<open>database::apply_operation\<close>.
  \<^item> \<open>Authority\<close>: \<open>verify_authority\<close> with nested accounts against an inductive definition of approval.
    \<open>Transactions\<close>: \<open>_apply_transaction\<close>, replay protection, and \<open>chain_step\<close>, the steps in which the state
    of the chain evolves.
  \<^item> \<open>Limit_Order\<close>: limit orders, their cancellation, and the amounts of a match (\<open>db_market.cpp\<close>).
  \<^item> \<open>Undo_Database\<close>: sessions of changes (\<open>undo_database.cpp\<close>), with the locale \<open>undo_history\<close> of nested
    snapshots, interpreted by the recorded differences.
  \<^item> \<open>Fork_Database\<close>, \<open>Merkle_Root\<close>, \<open>Witness_Schedule\<close>: blocks (\<open>block.cpp\<close>), the tree of blocks
    (\<open>fork_database.cpp\<close>), slots, the schedule of the witnesses and the check of a block against the cached
    one (\<open>db_witness_schedule.cpp\<close>, \<open>db_block.cpp\<close>), and what every block
    updates (\<open>db_update.cpp\<close>, \<open>db_block.cpp\<close>).

  \<^bold>\<open>What is shown.\<close>
  \<^item> Conservation: no sequence of steps of the chain changes the difference between what is held of an asset
    (balances, orders, pools, funds, offers, deals, contracts, tickets, vesting balances, fees, the budget) and
    its supply, keeps the database well-formed and every balance non-negative (\<open>chain_conserves_supply\<close>); with
    it the books of the voting power agree with the tickets (\<open>chain_voting_books\<close>).
  \<^item> Authorization: an accepted transaction carries the approval of every account it needs, what is
    authorized within the recursion depth is refused only for a superfluous signature or an unallowed approval of
    the committee, and a transaction is never applied twice.
  \<^item> Exactness of operations: who pays what to whom, for transfers, repayments, claims, pools, orders, market fees.
    Rounding never favours the caller: prices, pool shares, the product of a pool, matched orders.
  \<^item> Refinement: undoing restores the state at the beginning of a session, merging two sessions implements
    the table of combined changes, and the history refines a stack of snapshots.
  \<^item> Blocks: branches of the fork tree meet in the same block, each witness has one slot in a round, slots and
    times are inverse, irreversible blocks are confirmed by seven of ten witnesses, other transactions
    under the same Merkle root come with a collision of the hashes.
  \<^item> Defects: vested deposits whose product overflows a signed integer, periods of withdrawal permissions whose
    end wraps around, so that the limit is not kept, and a fee rate with which the processing of
    credit deals divides by zero.

  \<^bold>\<open>Loops.\<close> Loops over lists are folds; loops that follow the state are functions with a measure, or
  \<open>partial_function (option)\<close> with a proof that they return in every well-formed state: due tickets
  (\<open>process_tickets_returns\<close>) and the branches of the fork tree (\<open>fetch_branch_from_correct\<close>). No fuel is used. The
  authority check recurses up to the depth the code bounds.

  \<^bold>\<open>Not modelled.\<close> Of the market: filling orders, call orders, settlements, margin calls and black swans, which
  call each other and create operations by themselves; creating and updating assets and price feeds; accounts,
  custom authorities and proposals; the maintenance interval with voting and budgets; pushing and producing
  whole blocks and genesis, which compose every component, also those not modelled (their parts that are
  modelled are the steps of \<open>chain_step\<close>, in any order); confidential transfers, which rest on \<open>fc\<close>'s elliptic
  curves; the network, the wallet, the interfaces and the plugins, which are input and output around the
  chain. The fee schedule, the identifiers and signatures of transactions and the custom authorities of an
  account are arguments of the definitions that use them.
\<close>

end
